(* ===== verification/Prelude.thy ===== *)
theory Prelude
  imports Main "HOL-Library.Word"
begin

section \<open>Prelude: the Python values and strings the model shares\<close>

text \<open>
  What every component uses: the truthiness rules of Python (\<open>x or default\<close>), the string
  methods the code calls (\<open>strip\<close>, \<open>lower\<close>, \<open>split\<close>, \<open>re.split\<close>, \<open>repr\<close>, formatting of
  integers), and the lemmas about them. A Python \<open>str\<close> is a HOL \<open>string\<close>, one \<open>char\<close> per
  code point, so the model covers the code points up to U+00FF and \<open>length\<close> is Python's
  \<open>len\<close> on them. Python's unbounded integers are \<open>int\<close>; a \<open>datetime\<close> is an \<open>int\<close> (its
  position on the time line), since the code only compares and stores them.
\<close>

named_theorems py_simps \<open>evaluation rules of the Python helpers\<close>
named_theorems frame_simps \<open>fields an operation leaves unchanged\<close>

type_synonym datetime = int

subsection \<open>Truthiness\<close>

text \<open>\<open>value or default\<close> on \<open>str | None\<close>: both \<open>None\<close> and the empty string are falsy.\<close>

fun str_or :: "string option \<Rightarrow> string \<Rightarrow> string" where
  "str_or None dflt = dflt"
| "str_or (Some s) dflt = (if s = [] then dflt else s)"

text \<open>\<open>a or b\<close> on two \<open>str | None\<close> values, the result again \<open>str | None\<close>.\<close>

fun opt_or :: "string option \<Rightarrow> string option \<Rightarrow> string option" where
  "opt_or None b = b"
| "opt_or (Some s) b = (if s = [] then b else Some s)"

text \<open>\<open>value or default\<close> on \<open>int | None\<close>: zero is falsy as well.\<close>

fun int_or :: "int option \<Rightarrow> int \<Rightarrow> int" where
  "int_or None dflt = dflt"
| "int_or (Some n) dflt = (if n = 0 then dflt else n)"

fun truthy_str :: "string option \<Rightarrow> bool" where
  "truthy_str None = False"
| "truthy_str (Some s) = (s \<noteq> [])"

lemma truthy_str_iff: "truthy_str v \<longleftrightarrow> (\<exists>s. v = Some s \<and> s \<noteq> [])"
  by (cases v) auto

lemma str_or_eq_Nil [simp]: "str_or v [] = [] \<longleftrightarrow> \<not> truthy_str v"
  by (cases v) auto

subsection \<open>Whitespace and case\<close>

text \<open>\<open>str.isspace\<close> on the code points up to U+00FF; \<open>strip()\<close> and \<open>\s\<close> use the same class.\<close>

definition py_isspace :: "char \<Rightarrow> bool" where
  "py_isspace c = (let n = (of_char c :: nat) in
     (9 \<le> n \<and> n \<le> 13) \<or> (28 \<le> n \<and> n \<le> 32) \<or> n = 133 \<or> n = 160)"

definition py_strip :: "string \<Rightarrow> string" where
  "py_strip s = rev (dropWhile py_isspace (rev (dropWhile py_isspace s)))"

definition py_lower_char :: "char \<Rightarrow> char" where
  "py_lower_char c = (let n = (of_char c :: nat) in
     if (65 \<le> n \<and> n \<le> 90) \<or> (192 \<le> n \<and> n \<le> 222 \<and> n \<noteq> 215) then char_of (n + 32) else c)"

definition py_lower :: "string \<Rightarrow> string" where
  "py_lower s = map py_lower_char s"

lemma length_py_lower [simp]: "length (py_lower s) = length s"
  by (simp add: py_lower_def)

lemma py_strip_Nil [simp]: "py_strip [] = []"
  by (simp add: py_strip_def)

lemma length_py_strip: "length (py_strip s) \<le> length s"
proof -
  have "length (py_strip s) \<le> length (dropWhile py_isspace s)"
    unfolding py_strip_def using length_dropWhile_le [of py_isspace "rev (dropWhile py_isspace s)"]
    by simp
  then show ?thesis using length_dropWhile_le [of py_isspace s] by linarith
qed

lemma py_strip_str_or: "py_strip (str_or v []) \<noteq> [] \<Longrightarrow> truthy_str v"
  by (cases v) (auto split: if_splits)

text \<open>A stripped string neither starts nor ends with white space.\<close>

lemma py_strip_ends:
  assumes "py_strip s \<noteq> []"
  shows "\<not> py_isspace (hd (py_strip s)) \<and> \<not> py_isspace (last (py_strip s))"
proof -
  let ?u = "dropWhile py_isspace s"
  let ?v = "dropWhile py_isspace (rev ?u)"
  have v: "?v \<noteq> []" using assms by (simp add: py_strip_def)
  have "\<not> py_isspace (hd ?v)" by (rule hd_dropWhile [OF v])
  then have l: "\<not> py_isspace (last (py_strip s))"
    by (simp add: py_strip_def last_rev)
  have "rev ?u = takeWhile py_isspace (rev ?u) @ ?v" by simp
  then have "?u = rev ?v @ rev (takeWhile py_isspace (rev ?u))"
    by (metis rev_append rev_rev_ident)
  then have "hd ?u = hd (rev ?v)" and "?u \<noteq> []"
    using v by (metis hd_append2 rev_is_Nil_conv, metis append_is_Nil_conv rev_is_Nil_conv)
  moreover have "\<not> py_isspace (hd ?u)" by (rule hd_dropWhile [OF \<open>?u \<noteq> []\<close>])
  ultimately show ?thesis using l by (simp add: py_strip_def)
qed

text \<open>Stripping is idempotent: nothing is left to strip.\<close>

lemma dropWhile_head: "xs = [] \<or> \<not> P (hd xs) \<Longrightarrow> dropWhile P xs = xs"
  by (cases xs) auto

lemma py_strip_idem [simp]: "py_strip (py_strip s) = py_strip s"
proof (cases "py_strip s = []")
  case False
  from py_strip_ends [OF False]
  have "dropWhile py_isspace (py_strip s) = py_strip s"
    and "dropWhile py_isspace (rev (py_strip s)) = rev (py_strip s)"
    using False by (auto intro!: dropWhile_head simp: hd_rev)
  then show ?thesis by (simp add: py_strip_def [of "py_strip s"])
qed simp

subsection \<open>Splitting\<close>

text \<open>
  \<open>[item for item in re.split(r"[\s,]+", value) if item]\<close>: the maximal runs of characters that
  are neither white space nor a comma.
\<close>

definition dns_separator :: "char \<Rightarrow> bool" where
  "dns_separator c \<longleftrightarrow> py_isspace c \<or> c = CHR '',''"

function split_fields :: "(char \<Rightarrow> bool) \<Rightarrow> string \<Rightarrow> string list" where
  "split_fields sep s =
     (let t = dropWhile sep s in
      if t = [] then []
      else takeWhile (\<lambda>c. \<not> sep c) t # split_fields sep (dropWhile (\<lambda>c. \<not> sep c) t))"
  by pat_completeness auto
termination
proof (relation "measure (\<lambda>(sep, s). length s)")
  fix sep :: "char \<Rightarrow> bool" and s t
  assume t: "t = dropWhile sep s" and ne: "t \<noteq> []"
  have h: "\<not> sep (hd t)" using ne t hd_dropWhile by blast
  obtain c u where cu: "t = c # u" using ne by (cases t) auto
  have "length (dropWhile (\<lambda>c. \<not> sep c) t) < length t"
    using h cu length_dropWhile_le [of "\<lambda>c. \<not> sep c" u] by (simp add: less_Suc_eq_le)
  moreover have "length t \<le> length s" using t length_dropWhile_le by metis
  ultimately show "((sep, dropWhile (\<lambda>c. \<not> sep c) t), sep, s) \<in> measure (\<lambda>(sep, s). length s)"
    by simp
qed simp

declare split_fields.simps [simp del]

lemma split_fields_Nil [simp]: "split_fields sep [] = []"
  by (simp add: split_fields.simps)

lemma split_fields_sound:
  "x \<in> set (split_fields sep s) \<Longrightarrow> x \<noteq> [] \<and> (\<forall>c \<in> set x. \<not> sep c)"
proof (induction sep s rule: split_fields.induct)
  case (1 sep s)
  let ?t = "dropWhile sep s"
  show ?case
  proof (cases "?t = []")
    case True
    then show ?thesis using "1.prems" by (simp add: split_fields.simps [of sep s])
  next
    case False
    have h: "\<not> sep (hd ?t)" by (rule hd_dropWhile [OF False])
    have tw: "takeWhile (\<lambda>c. \<not> sep c) ?t \<noteq> []" using h False by (cases ?t) auto
    have "split_fields sep s = takeWhile (\<lambda>c. \<not> sep c) ?t #
        split_fields sep (dropWhile (\<lambda>c. \<not> sep c) ?t)"
      using False by (subst split_fields.simps) (simp only: Let_def if_False)
    with "1.prems" consider (a) "x = takeWhile (\<lambda>c. \<not> sep c) ?t"
      | (b) "x \<in> set (split_fields sep (dropWhile (\<lambda>c. \<not> sep c) ?t))"
      by auto
    then show ?thesis
    proof cases
      case a
      then show ?thesis using tw by (auto dest: set_takeWhileD)
    next
      case b
      then show ?thesis using "1.IH" [OF refl False] by blast
    qed
  qed
qed

text \<open>\<open>s.split(d)\<close> for a one-character separator keeps the empty items.\<close>

fun split_char :: "char \<Rightarrow> string \<Rightarrow> string list" where
  "split_char d [] = [[]]"
| "split_char d (c # cs) =
     (if c = d then [] # split_char d cs
      else case split_char d cs of [] \<Rightarrow> [[c]] | w # ws \<Rightarrow> (c # w) # ws)"

lemma split_char_not_Nil [simp]: "split_char d s \<noteq> []"
  by (induction d s rule: split_char.induct) (auto split: list.splits)

fun join_with :: "string \<Rightarrow> string list \<Rightarrow> string" where
  "join_with sep [] = []"
| "join_with sep [x] = x"
| "join_with sep (x # y # xs) = x @ sep @ join_with sep (y # xs)"

lemma split_char_no_sep: "d \<notin> set s \<Longrightarrow> split_char d s = [s]"
  by (induction d s rule: split_char.induct) auto

lemma split_char_append: "d \<notin> set u \<Longrightarrow> split_char d (u @ d # v) = u # split_char d v"
  by (induction u) auto

lemma join_split_char: "join_with [d] (split_char d s) = s"
proof (induction d s rule: split_char.induct)
  case (1 d)
  then show ?case by simp
next
  case (2 d c cs)
  show ?case
  proof (cases "c = d")
    case True
    obtain w ws where w: "split_char d cs = w # ws" by (meson neq_Nil_conv split_char_not_Nil)
    with True 2 show ?thesis by simp
  next
    case False
    obtain w ws where w: "split_char d cs = w # ws" by (meson neq_Nil_conv split_char_not_Nil)
    with False 2 show ?thesis by (cases ws) auto
  qed
qed

subsection \<open>Decimal numbers\<close>

definition is_digit :: "char \<Rightarrow> bool" where
  "is_digit c = (let n = (of_char c :: nat) in 48 \<le> n \<and> n \<le> 57)"

definition digit_val :: "char \<Rightarrow> nat" where
  "digit_val c = of_char c - 48"

definition digit_char :: "nat \<Rightarrow> char" where
  "digit_char n = char_of (48 + n)"

lemma digit_char [simp]:
  assumes "n < 10"
  shows "is_digit (digit_char n)" and "digit_val (digit_char n) = n"
proof -
  show "is_digit (digit_char n)" using assms by (simp add: is_digit_def digit_char_def)
  show "digit_val (digit_char n) = n" using assms by (simp add: digit_val_def digit_char_def)
qed

text \<open>The decimal digits of a natural number, and of an integer as \<open>str(n)\<close> prints it.\<close>

fun show_nat :: "nat \<Rightarrow> string" where
  "show_nat n = (if n < 10 then [digit_char n] else show_nat (n div 10) @ [digit_char (n mod 10)])"

declare show_nat.simps [simp del]

definition show_int :: "int \<Rightarrow> string" where
  "show_int i = (if i < 0 then CHR ''-'' # show_nat (nat (- i)) else show_nat (nat i))"

definition nat_of_digits :: "string \<Rightarrow> nat" where
  "nat_of_digits s = foldl (\<lambda>a c. 10 * a + digit_val c) 0 s"

lemma show_nat_not_Nil [simp]: "show_nat n \<noteq> []"
  by (subst show_nat.simps) simp

lemma show_nat_digits: "c \<in> set (show_nat n) \<Longrightarrow> is_digit c"
proof (induction n arbitrary: c rule: show_nat.induct)
  case (1 n)
  then show ?case by (subst (asm) (2) show_nat.simps) (auto split: if_splits)
qed

lemma nat_of_digits_snoc: "nat_of_digits (s @ [c]) = 10 * nat_of_digits s + digit_val c"
  by (simp add: nat_of_digits_def)

text \<open>Printing and reading back a natural number is the identity.\<close>

lemma nat_of_digits_show_nat [simp]: "nat_of_digits (show_nat n) = n"
proof (induction n rule: show_nat.induct)
  case (1 n)
  show ?case
  proof (cases "n < 10")
    case True
    then show ?thesis by (subst show_nat.simps) (simp add: nat_of_digits_def)
  next
    case False
    then show ?thesis
      using 1 by (subst show_nat.simps) (simp add: nat_of_digits_snoc)
  qed
qed

lemma show_nat_hd: "n \<noteq> 0 \<Longrightarrow> hd (show_nat n) \<noteq> digit_char 0"
proof (induction n rule: show_nat.induct)
  case (1 n)
  show ?case
  proof (cases "n < 10")
    case True
    then show ?thesis using 1(2)
      by (subst show_nat.simps) (metis digit_char(2) less_numeral_extra(3) list.sel(1) zero_less_numeral)
  next
    case False
    then show ?thesis using 1 by (subst show_nat.simps) simp
  qed
qed

lemma show_int_nonneg: "0 \<le> i \<Longrightarrow> show_int i = show_nat (nat i)"
  by (simp add: show_int_def)

subsection \<open>\<open>repr\<close> of a string\<close>

text \<open>
  CPython's \<open>repr\<close>: single quotes, unless the text has a single quote and no double quote; a
  backslash, the quote and the non-printable code points (below U+0100) are escaped.
\<close>

definition hex_digit :: "nat \<Rightarrow> char" where
  "hex_digit n = (if n < 10 then char_of (48 + n) else char_of (87 + n))"

definition repr_char :: "char \<Rightarrow> char \<Rightarrow> string" where
  "repr_char q c = (let n = (of_char c :: nat) in
     if c = q \<or> n = 92 then [CHR 0x5C, c]
     else if n = 9 then [CHR 0x5C, CHR ''t'']
     else if n = 10 then [CHR 0x5C, CHR ''n'']
     else if n = 13 then [CHR 0x5C, CHR ''r'']
     else if n < 32 \<or> (127 \<le> n \<and> n \<le> 160) \<or> n = 173
       then [CHR 0x5C, CHR ''x'', hex_digit (n div 16), hex_digit (n mod 16)]
     else [c])"

definition py_repr :: "string \<Rightarrow> string" where
  "py_repr s = (let q = (if CHR 0x27 \<in> set s \<and> CHR 0x22 \<notin> set s then CHR 0x22 else CHR 0x27)
     in [q] @ concat (map (repr_char q) s) @ [q])"

subsection \<open>Substrings\<close>

text \<open>\<open>needle in haystack\<close> and removal of a literal prefix or suffix.\<close>

fun strip_prefix :: "string \<Rightarrow> string \<Rightarrow> string option" where
  "strip_prefix [] s = Some s"
| "strip_prefix (p # ps) [] = None"
| "strip_prefix (p # ps) (c # cs) = (if p = c then strip_prefix ps cs else None)"

definition strip_suffix :: "string \<Rightarrow> string \<Rightarrow> string option" where
  "strip_suffix suf s = map_option rev (strip_prefix (rev suf) (rev s))"

fun contains_str :: "string \<Rightarrow> string \<Rightarrow> bool" where
  "contains_str needle [] = (needle = [])"
| "contains_str needle (c # cs) =
     (strip_prefix needle (c # cs) \<noteq> None \<or> contains_str needle cs)"

lemma strip_prefix_iff: "strip_prefix p s = Some r \<longleftrightarrow> s = p @ r"
  by (induction p s rule: strip_prefix.induct) auto

lemma strip_prefix_append [simp]: "strip_prefix p (p @ r) = Some r"
  by (simp add: strip_prefix_iff)

lemma strip_prefix_None_iff: "strip_prefix p s = None \<longleftrightarrow> (\<forall>r. s \<noteq> p @ r)"
  by (metis not_Some_eq strip_prefix_iff)

lemma strip_suffix_iff: "strip_suffix suf s = Some r \<longleftrightarrow> s = r @ suf"
proof -
  have "strip_suffix suf s = Some r \<longleftrightarrow> rev s = rev suf @ rev r"
    by (auto simp: strip_suffix_def strip_prefix_iff)
  also have "\<dots> \<longleftrightarrow> s = r @ suf"
    by (metis rev_append rev_rev_ident)
  finally show ?thesis .
qed

lemma strip_suffix_append [simp]: "strip_suffix suf (r @ suf) = Some r"
  by (simp add: strip_suffix_iff)

lemma contains_str_iff: "contains_str needle s \<longleftrightarrow> (\<exists>u v. s = u @ needle @ v)"
proof (induction needle s rule: contains_str.induct)
  case (1 needle)
  then show ?case by auto
next
  case (2 needle c cs)
  have "(\<exists>u v. c # cs = u @ needle @ v) \<longleftrightarrow>
      (\<exists>v. c # cs = needle @ v) \<or> (\<exists>u v. cs = u @ needle @ v)"
    by (metis append_Cons append_Nil list.inject neq_Nil_conv)
  then show ?case using 2 by (simp add: strip_prefix_None_iff)
qed

end
