(* ===== verification/Results.thy ===== *)
theory Results
  imports Prelude
begin

section \<open>Results that may be an error\<close>

text \<open>
  A function that may raise returns the sum of its errors and its values. \<open>and_then\<close> is the sequencing
  of statements, \<open>fold_err\<close> a loop over a list that a step may leave by raising.
\<close>

definition and_then :: "'e + 'a \<Rightarrow> ('a \<Rightarrow> 'e + 'b) \<Rightarrow> 'e + 'b" where
  "and_then m f = (case m of Inl e \<Rightarrow> Inl e | Inr a \<Rightarrow> f a)"

lemma and_then_simps [simp]: "and_then (Inl e) f = Inl e" "and_then (Inr a) f = f a"
  by (simp_all add: and_then_def)

fun fold_err :: "('b \<Rightarrow> 'a \<Rightarrow> 'e + 'b) \<Rightarrow> 'b \<Rightarrow> 'a list \<Rightarrow> 'e + 'b" where
  "fold_err f b [] = Inr b"
| "fold_err f b (x # xs) = and_then (f b x) (\<lambda>b'. fold_err f b' xs)"

text \<open>A loop keeps an invariant that each step keeps.\<close>

lemma fold_err_invariant:
  assumes "I b xs" and "\<And>b x xs. I b (x # xs) \<Longrightarrow> \<exists>b'. f b x = Inr b' \<and> I b' xs"
  shows "\<exists>b'. fold_err f b xs = Inr b' \<and> I b' []"
  using assms(1)
proof (induction xs arbitrary: b)
  case (Cons x xs)
  from assms(2) [OF Cons.prems] obtain b' where "f b x = Inr b'" "I b' xs" by blast
  then show ?case using Cons.IH by simp
qed simp

lemma and_then_Inr: "and_then m f = Inr b \<longleftrightarrow> (\<exists>a. m = Inr a \<and> f a = Inr b)"
  by (cases m) simp_all

lemma and_then_Inl_iff: "and_then m f = Inl e \<longleftrightarrow> m = Inl e \<or> (\<exists>a. m = Inr a \<and> f a = Inl e)"
  by (cases m) simp_all

lemma and_then_assoc: "and_then (and_then m f) g = and_then m (\<lambda>a. and_then (f a) g)"
  by (cases m) simp_all

lemma and_then_cong [fundef_cong]:
  "m = m' \<Longrightarrow> (\<And>a. m' = Inr a \<Longrightarrow> f a = f' a) \<Longrightarrow> and_then m f = and_then m' f'"
  by (cases m') simp_all

end
