(* ===== verification/Calendar.thy ===== *)
theory Calendar
  imports Results
begin

section \<open>The calendar of Python's datetime\<close>

text \<open>
  Dates of the proleptic Gregorian calendar as \<open>datetime.date\<close> has them, years 1 to 9999, with their
  ordinals (day 1 is 1 January of year 1), and wall clocks as microseconds since midnight of that day.
  \<open>make_date\<close> and \<open>in_range\<close> are where the standard library raises.
\<close>

subsection \<open>Dates\<close>

datatype date = Date (date_year: int) (date_month: int) (date_day: int)

definition is_leap :: "int \<Rightarrow> bool" where
  "is_leap y \<longleftrightarrow> y mod 4 = 0 \<and> (y mod 100 \<noteq> 0 \<or> y mod 400 = 0)"

text \<open>The second component of \<open>calendar.monthrange\<close>.\<close>

definition days_in_month :: "int \<Rightarrow> int \<Rightarrow> int" where
  "days_in_month y m =
     (if m = 2 then (if is_leap y then 29 else 28) else if m = 4 \<or> m = 6 \<or> m = 9 \<or> m = 11 then 30 else 31)"

definition days_before_year :: "int \<Rightarrow> int" where
  "days_before_year y = 365 * (y - 1) + (y - 1) div 4 - (y - 1) div 100 + (y - 1) div 400"

definition days_before_month :: "int \<Rightarrow> int \<Rightarrow> int" where
  "days_before_month y m =
     (if m \<le> 1 then 0 else if m = 2 then 31
      else (if m = 3 then 59 else if m = 4 then 90 else if m = 5 then 120 else if m = 6 then 151
        else if m = 7 then 181 else if m = 8 then 212 else if m = 9 then 243 else if m = 10 then 273
        else if m = 11 then 304 else if m = 12 then 334 else 365) + (if is_leap y then 1 else 0))"

definition to_ordinal :: "date \<Rightarrow> int" where
  "to_ordinal d =
     days_before_year (date_year d) + days_before_month (date_year d) (date_month d) + date_day d"

definition valid_date :: "date \<Rightarrow> bool" where
  "valid_date d \<longleftrightarrow> 1 \<le> date_month d \<and> date_month d \<le> 12 \<and>
     1 \<le> date_day d \<and> date_day d \<le> days_in_month (date_year d) (date_month d)"

definition max_ordinal :: int where
  "max_ordinal = 3652059"

text \<open>
  The year of an ordinal: an estimate by the mean length of a year, at most one year off; the month by
  the days before it.
\<close>

definition year_of :: "int \<Rightarrow> int" where
  "year_of n =
     (let g = (n - 1) * 400 div 146097 + 1 in
      if n \<le> days_before_year g then g - 1 else if days_before_year (g + 1) < n then g + 1 else g)"

definition month_of :: "int \<Rightarrow> int \<Rightarrow> int" where
  "month_of y r =
     (if r \<le> days_before_month y 2 then 1 else if r \<le> days_before_month y 3 then 2
      else if r \<le> days_before_month y 4 then 3 else if r \<le> days_before_month y 5 then 4
      else if r \<le> days_before_month y 6 then 5 else if r \<le> days_before_month y 7 then 6
      else if r \<le> days_before_month y 8 then 7 else if r \<le> days_before_month y 9 then 8
      else if r \<le> days_before_month y 10 then 9 else if r \<le> days_before_month y 11 then 10
      else if r \<le> days_before_month y 12 then 11 else 12)"

definition from_ordinal :: "int \<Rightarrow> date" where
  "from_ordinal n =
     (let y = year_of n; r = n - days_before_year y; m = month_of y r in Date y m (r - days_before_month y m))"

subsection \<open>Ordinals and dates\<close>

lemma div_bound: "0 < c \<Longrightarrow> c * (x div c) \<le> x" "0 < c \<Longrightarrow> x < c * (x div c) + c" for x :: int
  by (simp_all add: minus_mod_eq_mult_div [symmetric])

lemma div_step:
  fixes x :: int
  assumes "0 < c"
  shows "x div c = (x - 1) div c + (if x mod c = 0 then 1 else 0)"
proof (cases "x mod c = 0")
  case True
  have "x - 1 = c * (x div c - 1) + (c - 1)" using True mult_div_mod_eq [of c x] by (simp add: right_diff_distrib)
  from int_div_pos_eq [OF this] show ?thesis using True assms by simp
next
  case False
  have "x - 1 = c * (x div c) + (x mod c - 1)" using mult_div_mod_eq [of c x] by simp
  from int_div_pos_eq [OF this] show ?thesis
    using False assms pos_mod_sign [OF assms, of x] pos_mod_bound [OF assms, of x] by simp
qed

lemma month_cases:
  assumes "1 \<le> m" and "m \<le> (12::int)"
  shows "m = 1 \<or> m = 2 \<or> m = 3 \<or> m = 4 \<or> m = 5 \<or> m = 6 \<or>
    m = 7 \<or> m = 8 \<or> m = 9 \<or> m = 10 \<or> m = 11 \<or> m = 12"
proof -
  have "m \<in> set [1..12]" using assms by simp
  then show ?thesis by (simp add: upto.simps)
qed

text \<open>The two facts below keep the quotients opaque: arithmetic would split them.\<close>

lemma leap_sum:
  fixes p q r :: int
  assumes "C \<Longrightarrow> B" and "B \<Longrightarrow> A"
  shows "(p + (if A then 1 else 0)) - (q + (if B then 1 else 0)) + (r + (if C then 1 else 0)) =
    p - q + r + (if A \<and> (\<not> B \<or> C) then 1 else 0)"
  using assms by auto

lemma mean_year:
  fixes x :: int
  assumes "4 * p \<le> x" "x < 4 * p + 4" "100 * q \<le> x" "x < 100 * q + 100" "400 * r \<le> x" "x < 400 * r + 400"
  shows "400 * (365 * x + p - q + r) \<le> 146097 * x + 400" "146097 * x - 700 \<le> 400 * (365 * x + p - q + r)"
  using assms by (simp_all add: algebra_simps)

lemma leap_days:
  "(x::int) div 4 - x div 100 + x div 400 =
     (x - 1) div 4 - (x - 1) div 100 + (x - 1) div 400 + (if is_leap x then 1 else 0)"
proof -
  have down: "400 dvd x \<Longrightarrow> 100 dvd x" "100 dvd x \<Longrightarrow> 4 dvd x"
    by (rule dvd_trans [rotated], assumption, simp)+
  have step: "x div 4 = (x - 1) div 4 + (if 4 dvd x then 1 else 0)"
    "x div 100 = (x - 1) div 100 + (if 100 dvd x then 1 else 0)"
    "x div 400 = (x - 1) div 400 + (if 400 dvd x then 1 else 0)"
    using div_step [of 4 x] div_step [of 100 x] div_step [of 400 x] by (simp_all only: mod_eq_0_iff_dvd zero_less_numeral)
  show ?thesis unfolding step is_leap_def mod_eq_0_iff_dvd by (rule leap_sum) (fact down)+
qed

lemma next_year:
  "days_before_year (y + 1) = days_before_year y + 365 + (if is_leap y then 1 else 0)"
  using leap_days [of y] by (simp add: days_before_year_def)

lemma next_month:
  assumes "1 \<le> m" and "m \<le> 12"
  shows "days_before_month y (m + 1) = days_before_month y m + days_in_month y m"
  using month_cases [OF assms] by (elim disjE; simp add: days_before_month_def days_in_month_def)

lemma days_in_month_bounds: "28 \<le> days_in_month y m" "days_in_month y m \<le> 31"
  by (auto simp: days_in_month_def)

lemma year_length: "days_before_month y 13 = 365 + (if is_leap y then 1 else 0)"
  by (simp add: days_before_month_def)

text \<open>The estimate of the year is at most one off, so that \<open>year_of\<close> is exact.\<close>

lemma year_of_bounds:
  "days_before_year (year_of n) < n" "n \<le> days_before_year (year_of n + 1)"
proof -
  define g where "g = (n - 1) * 400 div 146097 + 1"
  have g: "146097 * (g - 1) \<le> 400 * (n - 1)" "400 * (n - 1) < 146097 * g"
    using div_bound [where x = "(n - 1) * 400" and c = "146097"] unfolding g_def by force+
  have bound: "400 * days_before_year y \<le> 146097 * (y - 1) + 400"
    "146097 * (y - 1) - 700 \<le> 400 * days_before_year y" for y
    unfolding days_before_year_def by (rule mean_year; rule div_bound; simp)+
  have low: "days_before_year (g - 1) < n" and high: "n \<le> days_before_year (g + 2)"
    using g bound [of "g - 1"] bound [of "g + 2"] by (simp_all add: algebra_simps)
  have year: "year_of n = (if n \<le> days_before_year g then g - 1
      else if days_before_year (g + 1) < n then g + 1 else g)"
    by (simp add: year_of_def g_def Let_def)
  show "days_before_year (year_of n) < n" "n \<le> days_before_year (year_of n + 1)"
    using low high unfolding year by (auto simp: add.commute)
qed

lemma days_before_year_mono: "y < z \<Longrightarrow> days_before_year (y + 1) \<le> days_before_year z"
proof (induction z rule: int_gr_induct)
  case (step z)
  then show ?case by (simp add: next_year)
qed simp

lemma year_of_unique:
  assumes "days_before_year y < n" and "n \<le> days_before_year (y + 1)"
  shows "year_of n = y"
  using days_before_year_mono [of y "year_of n"] days_before_year_mono [of "year_of n" y]
    year_of_bounds [of n] assms by fastforce

lemma month_of_bounds:
  assumes "1 \<le> r" and "r \<le> days_before_month y 13"
  shows "1 \<le> month_of y r" "month_of y r \<le> 12"
    "days_before_month y (month_of y r) < r" "r \<le> days_before_month y (month_of y r + 1)"
  using assms by (auto simp: month_of_def days_before_month_def)

lemma month_of_unique:
  assumes "1 \<le> m" and "m \<le> 12" and "days_before_month y m < r" and "r \<le> days_before_month y (m + 1)"
  shows "month_of y r = m"
proof -
  show ?thesis using month_cases [OF assms(1,2)] assms(3,4)
    by (elim disjE; simp add: month_of_def days_before_month_def split: if_splits)
qed

text \<open>Every ordinal is that of exactly one date.\<close>

lemma from_ordinal:
  "valid_date (from_ordinal n)" "to_ordinal (from_ordinal n) = n"
proof -
  define y r m where "y = year_of n" and "r = n - days_before_year y" and "m = month_of y r"
  have d: "from_ordinal n = Date y m (r - days_before_month y m)"
    by (simp add: from_ordinal_def y_def r_def m_def Let_def)
  have r: "1 \<le> r" "r \<le> days_before_month y 13"
    using year_of_bounds [of n] by (auto simp: r_def y_def year_length next_year)
  note m = month_of_bounds [OF r, folded m_def]
  show "valid_date (from_ordinal n)"
    using m next_month [OF m(1,2), of y] by (simp add: d valid_date_def)
  show "to_ordinal (from_ordinal n) = n"
    by (simp add: d to_ordinal_def r_def)
qed

lemma day_in_year:
  assumes "valid_date d"
  shows "days_before_year (date_year d) < to_ordinal d"
    "to_ordinal d \<le> days_before_year (date_year d + 1)"
proof -
  obtain y m k where d: "d = Date y m k" by (cases d)
  have k: "1 \<le> m" "m \<le> 12" "1 \<le> k" "k \<le> days_in_month y m" using assms by (simp_all add: d valid_date_def)
  have "0 \<le> days_before_month y m" "days_before_month y m + days_in_month y m \<le> 365 + (if is_leap y then 1 else 0)"
    using month_cases [OF k(1,2)] by (elim disjE; simp add: days_before_month_def days_in_month_def)+
  then show "days_before_year (date_year d) < to_ordinal d" "to_ordinal d \<le> days_before_year (date_year d + 1)"
    using k by (simp_all add: d to_ordinal_def next_year)
qed

lemma from_to_ordinal [simp]:
  assumes "valid_date d"
  shows "from_ordinal (to_ordinal d) = d"
proof -
  obtain y m k where d: "d = Date y m k" by (cases d)
  have y: "year_of (to_ordinal d) = y"
    using day_in_year [OF assms] by (intro year_of_unique) (simp_all add: d)
  have v: "1 \<le> m" "m \<le> 12" "1 \<le> k" "k \<le> days_in_month y m" using assms by (simp_all add: d valid_date_def)
  have "month_of y (days_before_month y m + k) = m"
    using v next_month [OF v(1,2), of y] by (intro month_of_unique) simp_all
  then show ?thesis unfolding from_ordinal_def y by (simp add: d to_ordinal_def Let_def)
qed

lemma to_ordinal_inject:
  "valid_date a \<Longrightarrow> valid_date b \<Longrightarrow> to_ordinal a = to_ordinal b \<longleftrightarrow> a = b"
  using from_to_ordinal by metis

subsection \<open>Months\<close>

text \<open>Months counted from the year 0, and the ordinal of the day before a month begins.\<close>

definition month_index :: "date \<Rightarrow> int" where
  "month_index d = 12 * date_year d + date_month d - 1"

definition month_base :: "int \<Rightarrow> int" where
  "month_base i = days_before_year (i div 12) + days_before_month (i div 12) (i mod 12 + 1)"

definition month_length :: "int \<Rightarrow> int" where
  "month_length i = days_in_month (i div 12) (i mod 12 + 1)"

lemma month_index_parts:
  "1 \<le> m \<Longrightarrow> m \<le> 12 \<Longrightarrow> (12 * y + m - 1) div 12 = (y::int)"
  "1 \<le> m \<Longrightarrow> m \<le> 12 \<Longrightarrow> (12 * y + m - 1) mod 12 = m - 1"
  by (rule int_div_pos_eq [where r = "m - 1"] int_mod_pos_eq [where q = y]; simp)+

lemma month_parts:
  assumes "valid_date d"
  shows "month_index d div 12 = date_year d" "month_index d mod 12 + 1 = date_month d"
  using assms by (simp_all add: month_index_def valid_date_def month_index_parts)

lemma to_ordinal_month: "valid_date d \<Longrightarrow> to_ordinal d = month_base (month_index d) + date_day d"
  by (simp add: to_ordinal_def month_base_def month_parts)

lemma month_length_bounds: "28 \<le> month_length i" "month_length i \<le> 31"
  by (simp_all add: month_length_def days_in_month_bounds)

lemma month_base_Suc: "month_base (i + 1) = month_base i + month_length i"
proof -
  define y m where "y = i div 12" and "m = i mod 12 + 1"
  have m: "1 \<le> m" "m \<le> 12" using pos_mod_bound [of 12 i] by (simp_all add: m_def)
  have i: "i = 12 * y + m - 1" unfolding y_def m_def using mult_div_mod_eq [of 12 i] by linarith
  show ?thesis
  proof (cases "m = 12")
    case True
    then have "i = 12 * y + 11" "i + 1 = 12 * (y + 1)" using i by simp_all
    then show ?thesis using next_year [of y]
      by (simp add: month_base_def month_length_def days_before_month_def days_in_month_def add.commute)
  next
    case False
    then have "(12 * y + (m + 1) - 1) div 12 = y" "(12 * y + (m + 1) - 1) mod 12 = m"
      "(12 * y + m - 1) div 12 = y" "(12 * y + m - 1) mod 12 = m - 1"
      using m month_index_parts [of "m + 1" y] month_index_parts [of m y] by simp_all
    moreover have "i + 1 = 12 * y + (m + 1) - 1" using i by simp
    ultimately show ?thesis
      using next_month [OF m] by (simp add: month_base_def month_length_def i)
  qed
qed

lemma month_base_mono: "i < j \<Longrightarrow> month_base i + month_length i \<le> month_base j"
proof (induction j rule: int_gr_induct)
  case base
  show ?case by (simp add: month_base_Suc)
next
  case (step j)
  then show ?case using month_length_bounds(1) [of j] by (simp add: month_base_Suc)
qed

text \<open>A day of a month lies before every day of a later month.\<close>

lemma month_order:
  "month_index a < month_index b \<Longrightarrow> valid_date a \<Longrightarrow> valid_date b \<Longrightarrow> to_ordinal a < to_ordinal b"
  using month_base_mono [of "month_index a" "month_index b"]
  by (simp add: to_ordinal_month valid_date_def month_length_def month_parts [unfolded valid_date_def])

subsection \<open>Instants and wall clocks\<close>

text \<open>
  An instant and a wall clock are both microseconds since the midnight that opens day 1, an instant in
  UTC. \<open>in_range\<close> is the check of every \<open>datetime\<close> operation.
\<close>

definition day_us :: int where
  "day_us = 86400000000"

definition clock_ok :: "int \<Rightarrow> bool" where
  "clock_ok w \<longleftrightarrow> 0 \<le> w \<and> w < max_ordinal * day_us"

definition wall_date :: "int \<Rightarrow> date" where
  "wall_date w = from_ordinal (w div day_us + 1)"

definition wall_time :: "int \<Rightarrow> int" where
  "wall_time w = w mod day_us"

text \<open>\<open>datetime.combine\<close>.\<close>

definition combine :: "date \<Rightarrow> int \<Rightarrow> int" where
  "combine d time = (to_ordinal d - 1) * day_us + time"

lemma day_us_pos [simp]: "0 < day_us"
  by (simp add: day_us_def)

lemma wall_time_bounds [simp]: "0 \<le> wall_time w" "wall_time w < day_us"
  by (simp_all add: wall_time_def)

lemma combine_parts [simp]:
  assumes "valid_date d" and "0 \<le> tm" and "tm < day_us"
  shows "wall_date (combine d tm) = d" "wall_time (combine d tm) = tm"
proof -
  have "combine d tm div day_us = to_ordinal d - 1" "combine d tm mod day_us = tm"
    unfolding combine_def using assms
    by (auto intro: int_div_pos_eq [where r = tm] int_mod_pos_eq [where q = "to_ordinal d - 1"] simp: mult.commute)
  then show "wall_date (combine d tm) = d" "wall_time (combine d tm) = tm"
    using assms(1) by (simp_all add: wall_date_def wall_time_def)
qed

lemma combine_wall [simp]: "combine (wall_date w) (wall_time w) = w"
  by (simp add: combine_def wall_date_def wall_time_def from_ordinal mult.commute)

lemma valid_wall_date [simp]: "valid_date (wall_date w)"
  by (simp add: wall_date_def from_ordinal)

text \<open>Wall clocks of later dates are later, by at least a day if the time of day is the same.\<close>

lemma combine_later_day:
  assumes "to_ordinal a < to_ordinal b"
  shows "combine a tm + day_us \<le> combine b tm"
proof -
  have "(to_ordinal a - 1 + 1) * day_us \<le> (to_ordinal b - 1) * day_us"
    using assms by (intro mult_right_mono) (simp_all add: day_us_def)
  then show ?thesis by (simp add: combine_def algebra_simps)
qed

end
