(* ===== verification/Decimals.thy ===== *)
theory Decimals
  imports Complex_Main Results
begin

section \<open>Decimal arithmetic\<close>

text \<open>
  Python's \<open>decimal\<close> in its default context: a number is its value, an operation the exact result rounded
  to 28 significant digits, ties to the even neighbour (\<open>to_context\<close>). \<open>quantize_cents\<close> is \<open>quantize\<close> to
  two places with ties away from zero, and \<open>to_scale\<close> what a \<open>NUMERIC(p, s)\<close> column of PostgreSQL keeps.
  Exponent limits of the context play no part at these magnitudes.
\<close>

subsection \<open>Rounding\<close>

definition half_even :: "rat \<Rightarrow> int" where
  "half_even x =
     (let n = floor x; f = x - of_int n in
      if f < 1 / 2 then n else if 1 / 2 < f then n + 1 else if even n then n else n + 1)"

definition half_up :: "rat \<Rightarrow> int" where
  "half_up x = (if 0 \<le> x then floor (x + 1 / 2) else - floor (- x + 1 / 2))"

text \<open>The exponent of the first significant digit, and the rounding of the context.\<close>

definition digits :: "int \<Rightarrow> int" where
  "digits n = int (length (show_nat (nat n)))"

definition adjusted :: "rat \<Rightarrow> int" where
  "adjusted x =
     (let (a, b) = quotient_of \<bar>x\<bar>; k = digits a - digits b in if 10 powi k \<le> \<bar>x\<bar> then k else k - 1)"

definition to_context :: "rat \<Rightarrow> rat" where
  "to_context x =
     (if x = 0 then 0
      else let k = 27 - adjusted x in of_int (half_even (x * 10 powi k)) / 10 powi k)"

definition quantize_cents :: "rat \<Rightarrow> rat option" where
  "quantize_cents x = (let n = half_up (x * 100) in if 10 ^ 28 \<le> \<bar>n\<bar> then None else Some (of_int n / 100))"

definition to_scale :: "nat \<Rightarrow> nat \<Rightarrow> rat \<Rightarrow> rat option" where
  "to_scale p s x = (let n = half_up (x * 10 ^ s) in if 10 ^ p \<le> \<bar>n\<bar> then None else Some (of_int n / 10 ^ s))"

subsection \<open>Bounds of a rounding\<close>

lemma half_even_bounds: "\<bar>of_int (half_even x) - x\<bar> \<le> 1 / 2"
  using floor_correct [of x] by (auto simp: half_even_def Let_def)

lemma half_up_bounds: "\<bar>of_int (half_up x) - x\<bar> \<le> 1 / 2"
proof (cases "0 \<le> x")
  case True
  then show ?thesis using floor_correct [of "x + 1 / 2"] unfolding half_up_def abs_le_iff by (simp add: field_simps)
next
  case False
  then show ?thesis using floor_correct [of "1 / 2 - x"] unfolding half_up_def abs_le_iff by (simp add: field_simps)
qed

lemma half_even_of_int [simp]: "half_even (of_int n) = n"
  by (simp add: half_even_def)

lemma half_up_of_int [simp]: "half_up (of_int n) = n"
  by (simp add: half_up_def) linarith

lemma int_within_half:
  fixes x :: rat
  assumes "\<bar>of_int m - x\<bar> \<le> 1 / 2"
  shows "x \<le> of_int n \<Longrightarrow> m \<le> n" "of_int n \<le> x \<Longrightarrow> n \<le> m"
proof -
  have m: "of_int m \<le> x + 1 / 2" "x - 1 / 2 \<le> of_int m" using assms unfolding abs_le_iff by (simp_all add: field_simps)
  show "m \<le> n" if "x \<le> of_int n"
  proof -
    have "of_int m < (of_int (n + 1) :: rat)" using m(1) that by simp
    then show ?thesis by (simp only: of_int_less_iff)
  qed
  show "n \<le> m" if "of_int n \<le> x"
  proof -
    have "of_int n < (of_int (m + 1) :: rat)" using m(2) that by simp
    then show ?thesis by (simp only: of_int_less_iff)
  qed
qed

lemma half_even_mono_int: "x \<le> of_int n \<Longrightarrow> half_even x \<le> n" "of_int n \<le> x \<Longrightarrow> n \<le> half_even x"
  by (erule int_within_half [OF half_even_bounds])+

lemma half_up_mono_int: "x \<le> of_int n \<Longrightarrow> half_up x \<le> n" "of_int n \<le> x \<Longrightarrow> n \<le> half_up x"
  by (erule int_within_half [OF half_up_bounds])+

lemma nearest_int:
  fixes x :: rat
  assumes "\<bar>of_int m - x\<bar> \<le> 1 / 2" and "\<bar>of_int n - x\<bar> < 1 / 2"
  shows "m = n"
proof -
  have "of_int m - x \<le> 1 / 2" "- (of_int m - x) \<le> 1 / 2" using assms(1) by (simp_all only: abs_le_iff)
  moreover have "of_int n - x < 1 / 2" "- (of_int n - x) < 1 / 2" using assms(2) by (simp_all only: abs_less_iff)
  ultimately have "of_int m - of_int n < (1 :: rat)" "- (of_int m - of_int n) < (1 :: rat)" by linarith+
  then have "\<bar>of_int (m - n) :: rat\<bar> < of_int 1" by (simp only: abs_less_iff of_int_diff of_int_1)
  then have "\<bar>m - n\<bar> < 1" by (simp only: of_int_abs [symmetric] of_int_less_iff)
  then show ?thesis by simp
qed

lemmas half_even_eq = nearest_int [OF half_even_bounds]
lemmas half_up_eq = nearest_int [OF half_up_bounds]

subsection \<open>The context\<close>

lemma show_nat_bounds: "0 < n \<Longrightarrow> 10 ^ (length (show_nat n) - 1) \<le> n \<and> n < 10 ^ length (show_nat n)"
proof (induction n rule: show_nat.induct)
  case (1 n)
  show ?case
  proof (cases "n < 10")
    case True
    then show ?thesis using 1(2) by (subst (1 2) show_nat.simps) simp
  next
    case False
    then have IH: "10 ^ (length (show_nat (n div 10)) - 1) \<le> n div 10" "n div 10 < 10 ^ length (show_nat (n div 10))"
      using 1 by auto
    define k where "k = length (show_nat (n div 10)) - 1"
    have k: "length (show_nat (n div 10)) = Suc k" by (simp add: k_def)
    have "10 ^ k \<le> n div 10" "n div 10 < 10 ^ Suc k" using IH unfolding k by simp_all
    then have "10 * 10 ^ k \<le> n" "n < 10 * 10 ^ Suc k" by linarith+
    then show ?thesis using False by (subst (1 2) show_nat.simps) (simp add: k)
  qed
qed

lemma digits_bounds:
  assumes "0 < n"
  shows "10 powi (digits n - 1) \<le> (of_int n :: rat)" "(of_int n :: rat) < 10 powi digits n"
proof -
  define k where "k = length (show_nat (nat n)) - 1"
  have k: "length (show_nat (nat n)) = Suc k" by (simp add: k_def)
  have "10 ^ k \<le> nat n" "nat n < 10 ^ Suc k" using show_nat_bounds [of "nat n"] assms unfolding k by simp_all
  then have "(10 :: int) ^ k \<le> n" "n < 10 ^ Suc k" using assms
    by (simp_all add: nat_le_iff le_nat_iff nat_less_iff)
  then have "(of_int (10 ^ k) :: rat) \<le> of_int n" "(of_int n :: rat) < of_int (10 ^ Suc k)"
    by (simp_all only: of_int_le_iff of_int_less_iff)
  then show "10 powi (digits n - 1) \<le> (of_int n :: rat)" "(of_int n :: rat) < 10 powi digits n"
    unfolding digits_def k by (simp_all add: power_int_def nat_add_distrib)
qed

lemma adjusted:
  assumes "x \<noteq> 0"
  shows "10 powi adjusted x \<le> \<bar>x\<bar>" "\<bar>x\<bar> < 10 powi (adjusted x + 1)"
proof -
  obtain a b where q: "quotient_of \<bar>x\<bar> = (a, b)" by fastforce
  have x: "\<bar>x\<bar> = of_int a / of_int b" and b: "0 < b"
    using quotient_of_div [OF q] quotient_of_denom_pos [OF q] by simp_all
  have a: "0 < a" using assms x b by (metis of_int_0 of_int_0_less_iff zero_less_abs_iff zero_less_divide_iff of_int_0_le_iff less_le_not_le)
  define k where "k = digits a - digits b"
  have "10 powi (k - 1) \<le> \<bar>x\<bar>"
  proof -
    have "10 powi (k - 1) * of_int b \<le> (10 powi (k - 1) * 10 powi digits b :: rat)"
      using digits_bounds(2) [OF b] by (intro mult_left_mono) simp_all
    also have "\<dots> = 10 powi (digits a - 1)" by (simp add: k_def flip: power_int_add)
    also have "\<dots> \<le> of_int a" by (rule digits_bounds(1) [OF a])
    finally show ?thesis using b by (simp add: x field_simps)
  qed
  moreover have "\<bar>x\<bar> < 10 powi (k + 1)"
  proof -
    have "(of_int a :: rat) < 10 powi digits a" by (rule digits_bounds(2) [OF a])
    also have "\<dots> = 10 powi (k + 1) * 10 powi (digits b - 1)" by (simp add: k_def flip: power_int_add)
    also have "\<dots> \<le> 10 powi (k + 1) * of_int b" using digits_bounds(1) [OF b] by (intro mult_left_mono) simp_all
    finally show ?thesis using b by (simp add: x field_simps)
  qed
  moreover have "adjusted x = (if 10 powi k \<le> \<bar>x\<bar> then k else k - 1)"
    by (simp add: adjusted_def q k_def Let_def)
  ultimately show "10 powi adjusted x \<le> \<bar>x\<bar>" "\<bar>x\<bar> < 10 powi (adjusted x + 1)" by (simp_all split: if_splits)
qed

lemma powi_less_iff: "(10 powi i :: rat) < 10 powi j \<longleftrightarrow> i < j"
  using power_int_strict_increasing [of i j "10 :: rat"] power_int_increasing [of j i "10 :: rat"] by (cases "i < j") auto

lemma powi_le_iff: "(10 powi i :: rat) \<le> 10 powi j \<longleftrightarrow> i \<le> j"
  by (simp add: powi_less_iff flip: not_less)

text \<open>A number of at most 28 digits is exact in the context.\<close>

definition fits_context :: "rat \<Rightarrow> bool" where
  "fits_context x \<longleftrightarrow> (\<exists>n k. x = of_int n / 10 powi k \<and> \<bar>n\<bar> < 10 ^ 28)"

text \<open>At the scale of its first digit a number of the context is an integer.\<close>

lemma fits_context_integer:
  assumes "fits_context x" and "x \<noteq> 0"
  shows "\<exists>m. x * 10 powi (27 - adjusted x) = of_int m"
proof -
  obtain n k where x: "x = of_int n / 10 powi k" and n: "\<bar>n\<bar> < 10 ^ 28" using assms(1) by (auto simp: fits_context_def)
  have "10 powi (adjusted x + k) = (10 powi adjusted x * 10 powi k :: rat)" by (simp add: power_int_add)
  also have "\<dots> \<le> \<bar>x\<bar> * 10 powi k" using adjusted(1) [OF assms(2)] by (intro mult_right_mono) simp_all
  also have "\<dots> = of_int \<bar>n\<bar>" by (simp add: x abs_mult)
  also have "\<dots> < of_int (10 ^ 28)" using n by (simp only: of_int_less_iff)
  also have "\<dots> = 10 powi 28" by simp
  finally have "adjusted x + k < 28" by (simp only: powi_less_iff)
  then have k: "0 \<le> 27 - adjusted x - k" by simp
  have "x * 10 powi (27 - adjusted x) = of_int n * (10 powi (27 - adjusted x) / 10 powi k)" by (simp add: x)
  also have "10 powi (27 - adjusted x) / 10 powi k = (10 powi (27 - adjusted x - k) :: rat)" by (simp add: power_int_diff)
  also have "\<dots> = of_int (10 ^ nat (27 - adjusted x - k))" using k by (simp add: power_int_def)
  finally have "x * 10 powi (27 - adjusted x) = of_int (n * 10 ^ nat (27 - adjusted x - k))" by simp
  then show ?thesis ..
qed

lemma to_context_scaled:
  "y \<noteq> 0 \<Longrightarrow> to_context y = of_int (half_even (y * 10 powi (27 - adjusted y))) / 10 powi (27 - adjusted y)"
  by (simp add: to_context_def Let_def)

lemma to_context_fits:
  assumes "fits_context x"
  shows "to_context x = x"
proof (cases "x = 0")
  case False
  obtain m where m: "x * 10 powi (27 - adjusted x) = of_int m" using fits_context_integer [OF assms False] ..
  then have "to_context x = x * 10 powi (27 - adjusted x) / 10 powi (27 - adjusted x)"
    using False by (simp add: to_context_scaled)
  then show ?thesis by simp
qed (simp add: to_context_def)

lemma fits_context_int: "\<bar>n\<bar> < 10 ^ 28 \<Longrightarrow> fits_context (of_int n)"
  unfolding fits_context_def by (intro exI [of _ n] exI [of _ 0]) simp

lemma fits_context_scaled: "\<bar>n\<bar> < 10 ^ 28 \<Longrightarrow> fits_context (of_int n / 10 ^ k)"
  unfolding fits_context_def by (intro exI [of _ n] exI [of _ "int k"]) simp

lemma to_context_0 [simp]: "to_context 0 = 0"
  by (simp add: to_context_def)

lemma to_context_1 [simp]: "to_context 1 = 1"
  using to_context_fits [OF fits_context_int [of 1]] by simp

text \<open>The rounding never crosses a number of the context, so it keeps the sign and the unit interval.\<close>

lemma adjusted_mono:
  assumes "0 < x" and "x \<le> y"
  shows "adjusted x \<le> adjusted y"
proof -
  have "(10 powi adjusted x :: rat) < 10 powi (adjusted y + 1)"
    using adjusted(1) [of x] adjusted(2) [of y] assms by simp
  then show ?thesis by (simp add: powi_less_iff)
qed

lemma scaled_bounds:
  assumes "0 < y"
  shows "of_int (10 ^ 27) \<le> y * 10 powi (27 - adjusted y)" "y * 10 powi (27 - adjusted y) < of_int (10 ^ 28)"
proof -
  have "10 powi adjusted y * 10 powi (27 - adjusted y) \<le> y * 10 powi (27 - adjusted y)"
    using adjusted(1) [of y] assms by (intro mult_right_mono) simp_all
  then show "of_int (10 ^ 27) \<le> y * 10 powi (27 - adjusted y)" by (simp flip: power_int_add)
  have "y * 10 powi (27 - adjusted y) < 10 powi (adjusted y + 1) * 10 powi (27 - adjusted y)"
    using adjusted(2) [of y] assms by (intro mult_strict_right_mono) simp_all
  then show "y * 10 powi (27 - adjusted y) < of_int (10 ^ 28)" by (simp flip: power_int_add)
qed

lemma to_context_upper:
  assumes "0 < y" and "y \<le> x" and "fits_context x"
  shows "to_context y \<le> x"
proof -
  define e where "e = adjusted y"
  have le: "of_int m / 10 powi (27 - e) \<le> x" if "of_int m \<le> x * 10 powi (27 - e)" for m
    using that by (simp add: field_simps)
  have "half_even (y * 10 powi (27 - e)) \<le> 10 ^ 28"
    using scaled_bounds(2) [OF assms(1)] by (intro half_even_mono_int(1)) (simp add: e_def)
  then have top: "(of_int (half_even (y * 10 powi (27 - e))) :: rat) \<le> of_int (10 ^ 28)" by (simp only: of_int_le_iff)
  show ?thesis
  proof (cases "e = adjusted x")
    case True
    then obtain m where m: "x * 10 powi (27 - e) = of_int m"
      using fits_context_integer [OF assms(3)] assms(1,2) by auto
    have "y * 10 powi (27 - e) \<le> of_int m" unfolding m [symmetric] using assms(2) by (intro mult_right_mono) simp_all
    then have "half_even (y * 10 powi (27 - e)) \<le> m" by (rule half_even_mono_int(1))
    then show ?thesis using le [of "half_even (y * 10 powi (27 - e))"] assms(1) m by (simp add: to_context_scaled e_def)
  next
    case False
    then have "e + 1 \<le> adjusted x" using adjusted_mono [OF assms(1,2)] by (simp add: e_def)
    then have "(10 powi (e + 1) :: rat) \<le> 10 powi adjusted x" by (simp only: powi_le_iff)
    also have "\<dots> \<le> x" using adjusted(1) [of x] assms(1,2) by simp
    finally have "10 powi (e + 1) * 10 powi (27 - e) \<le> x * 10 powi (27 - e)" by (intro mult_right_mono) simp_all
    then have "of_int (10 ^ 28) \<le> x * 10 powi (27 - e)" by (simp flip: power_int_add)
    then show ?thesis using le top assms(1) by (simp add: to_context_scaled e_def)
  qed
qed

lemma to_context_lower:
  assumes "0 < x" and "x \<le> y" and "fits_context x"
  shows "x \<le> to_context y"
proof -
  define e where "e = adjusted y"
  have y: "0 < y" using assms by simp
  have le: "x \<le> of_int m / 10 powi (27 - e)" if "x * 10 powi (27 - e) \<le> of_int m" for m
    using that by (simp add: field_simps)
  show ?thesis
  proof (cases "e = adjusted x")
    case True
    then obtain m where m: "x * 10 powi (27 - e) = of_int m"
      using fits_context_integer [OF assms(3)] assms(1) by auto
    have "of_int m \<le> y * 10 powi (27 - e)" unfolding m [symmetric] using assms(2) by (intro mult_right_mono) simp_all
    then have "m \<le> half_even (y * 10 powi (27 - e))" by (rule half_even_mono_int(2))
    then show ?thesis using le [of "half_even (y * 10 powi (27 - e))"] y m by (simp add: to_context_scaled e_def)
  next
    case False
    then have "adjusted x + 1 \<le> e" using adjusted_mono [OF assms(1,2)] by (simp add: e_def)
    then have "(10 powi (adjusted x + 1) :: rat) \<le> 10 powi e" by (simp only: powi_le_iff)
    then have "x * 10 powi (27 - e) \<le> 10 powi e * 10 powi (27 - e)"
      using adjusted(2) [of x] assms(1) by (intro mult_right_mono) simp_all
    then have "x * 10 powi (27 - e) \<le> of_int (10 ^ 27)" by (simp flip: power_int_add)
    moreover have "10 ^ 27 \<le> half_even (y * 10 powi (27 - e))"
      using scaled_bounds(1) [OF y] by (intro half_even_mono_int(2)) (simp add: e_def)
    then have "(of_int (10 ^ 27) :: rat) \<le> of_int (half_even (y * 10 powi (27 - e)))" by (simp only: of_int_le_iff)
    ultimately show ?thesis using le y by (simp add: to_context_scaled e_def)
  qed
qed

lemma to_context_nonneg: "0 \<le> x \<Longrightarrow> 0 \<le> to_context x"
  using half_even_mono_int(2) [of 0] by (simp add: to_context_def Let_def)

lemma to_context_le_1: "0 \<le> x \<Longrightarrow> x \<le> 1 \<Longrightarrow> to_context x \<le> 1"
  using to_context_upper [of x 1] fits_context_int [of 1] by (cases "x = 0") simp_all

lemma to_context_ge_1: "1 \<le> x \<Longrightarrow> 1 \<le> to_context x"
  using to_context_lower [of 1 x] fits_context_int [of 1] by simp

lemma to_context_error: "\<bar>to_context x - x\<bar> \<le> \<bar>x\<bar> * (5 / 10 ^ 28)"
proof (cases "x = 0")
  case False
  define k where "k = 27 - adjusted x"
  have "to_context x - x = (of_int (half_even (x * 10 powi k)) - x * 10 powi k) / 10 powi k"
    using False by (simp add: to_context_def Let_def k_def diff_divide_distrib)
  then have "\<bar>to_context x - x\<bar> \<le> (1 / 2) / 10 powi k"
    using divide_right_mono [OF half_even_bounds [of "x * 10 powi k"], of "10 powi k"] by (simp add: abs_divide)
  also have "\<dots> = 10 powi adjusted x * (5 / 10 ^ 28)" by (simp add: k_def power_int_diff)
  also have "\<dots> \<le> \<bar>x\<bar> * (5 / 10 ^ 28)" using adjusted(1) [OF False] by (intro mult_right_mono) simp_all
  finally show ?thesis .
qed simp

text \<open>The rounding at a known magnitude, for the numbers of the samples.\<close>

lemma to_context_at:
  assumes "10 ^ 27 \<le> \<bar>x * 10 ^ k\<bar>" and "\<bar>x * 10 ^ k\<bar> < 10 ^ 28"
  shows "to_context x = of_int (half_even (x * 10 ^ k)) / 10 ^ k"
proof -
  have x: "x \<noteq> 0" using assms(1) by auto
  have m: "\<bar>x * 10 ^ k\<bar> = \<bar>x\<bar> * 10 powi int k" by (simp add: abs_mult)
  have "10 powi (adjusted x + int k) \<le> \<bar>x\<bar> * 10 powi int k" "\<bar>x\<bar> * 10 powi int k < 10 powi (adjusted x + 1 + int k)"
    using adjusted [OF x] by (simp_all add: power_int_add mult_right_mono mult_strict_right_mono)
  then have "10 powi (adjusted x + int k) < (10 powi 28 :: rat)" "(10 powi 27 :: rat) < 10 powi (adjusted x + 1 + int k)"
    using assms unfolding m by simp_all
  then have "adjusted x + int k < 28" "27 < adjusted x + 1 + int k"
    by (simp_all only: powi_less_iff)
  then have "27 - adjusted x = int k" by simp
  then show ?thesis using x by (simp add: to_context_def)
qed

subsection \<open>Amounts and columns\<close>

text \<open>Rounding to a scale is exact on the numbers of that scale, keeps bounds and can be repeated.\<close>

lemma to_scale_Some:
  "to_scale p s x = Some y \<longleftrightarrow> y = of_int (half_up (x * 10 ^ s)) / 10 ^ s \<and> \<bar>half_up (x * 10 ^ s)\<bar> < 10 ^ p"
  by (auto simp: to_scale_def Let_def)

lemma to_scale_exact: "x = of_int n / 10 ^ s \<Longrightarrow> \<bar>n\<bar> < 10 ^ p \<Longrightarrow> to_scale p s x = Some x"
  by (simp add: to_scale_Some)

lemma to_scale_stable:
  assumes "to_scale p s x = Some y"
  shows "to_scale p s y = Some y"
  using assms by (auto simp: to_scale_Some intro!: to_scale_exact)

lemma to_scale_mono_int:
  assumes "to_scale p s x = Some y"
  shows "x \<le> of_int n / 10 ^ s \<Longrightarrow> y \<le> of_int n / 10 ^ s" "of_int n / 10 ^ s \<le> x \<Longrightarrow> of_int n / 10 ^ s \<le> y"
proof -
  have y: "y = of_int (half_up (x * 10 ^ s)) / 10 ^ s" using assms by (simp add: to_scale_Some)
  have scaled: "of_int a / 10 ^ s \<le> of_int b / (10 ^ s :: rat)" if "a \<le> b" for a b
    using that by (simp add: divide_right_mono)
  show "y \<le> of_int n / 10 ^ s" if "x \<le> of_int n / 10 ^ s"
    unfolding y using that by (intro scaled half_up_mono_int(1)) (simp add: field_simps)
  show "of_int n / 10 ^ s \<le> y" if "of_int n / 10 ^ s \<le> x"
    unfolding y using that by (intro scaled half_up_mono_int(2)) (simp add: field_simps)
qed

lemma to_scale_nonneg: "to_scale p s x = Some y \<Longrightarrow> 0 \<le> x \<Longrightarrow> 0 \<le> y"
  using to_scale_mono_int(2) [of p s x y 0] by simp

lemma to_scale_le: "to_scale p s x = Some y \<Longrightarrow> to_scale p s z = Some z \<Longrightarrow> x \<le> z \<Longrightarrow> y \<le> z"
  using to_scale_mono_int(1) [of p s x y "half_up (z * 10 ^ s)"] by (auto simp: to_scale_Some)

lemma quantize_Some:
  "quantize_cents x = Some y \<longleftrightarrow> y = of_int (half_up (x * 100)) / 100 \<and> \<bar>half_up (x * 100)\<bar> < 10 ^ 28"
  by (auto simp: quantize_cents_def Let_def)

lemma quantize_bounds:
  assumes "quantize_cents x = Some y"
  shows "\<bar>y - x\<bar> \<le> 1 / 200" "0 \<le> x \<Longrightarrow> 0 \<le> y" "fits_context y"
    "x \<le> of_int n / 100 \<Longrightarrow> y \<le> of_int n / 100"
proof -
  have y: "y = of_int (half_up (x * 100)) / 100" and n: "\<bar>half_up (x * 100)\<bar> < 10 ^ 28"
    using assms by (simp_all add: quantize_Some)
  have "\<bar>y - x\<bar> = \<bar>of_int (half_up (x * 100)) - x * 100\<bar> / 100" 
  proof -
    have "y - x = (of_int (half_up (x * 100)) - x * 100) / 100" by (simp add: y diff_divide_distrib)
    then show ?thesis by (simp only: abs_divide abs_numeral)
  qed
  also have "\<dots> \<le> 1 / 2 / 100" by (intro divide_right_mono half_up_bounds) simp
  finally show "\<bar>y - x\<bar> \<le> 1 / 200" by simp
  show "0 \<le> y" if "0 \<le> x"
    using half_up_mono_int(2) [of 0 "x * 100"] that by (simp add: y)
  show "fits_context y" using fits_context_scaled [OF n, of 2] by (simp add: y)
  show "y \<le> of_int n / 100" if "x \<le> of_int n / 100"
    using half_up_mono_int(1) [of "x * 100" n] that by (simp add: y divide_right_mono)
qed

text \<open>A rounded quotient or product of at least a tenth has at most 28 places.\<close>

lemma to_context_places:
  assumes "1 / 10 \<le> x"
  shows "\<exists>n. to_context x = of_int n / 10 ^ 28"
proof -
  have "(10 powi (- 1) :: rat) < 10 powi (adjusted x + 1)" using adjusted(2) [of x] assms by (simp add: power_int_minus)
  then have e: "0 \<le> adjusted x + 1" by (simp only: powi_less_iff)
  then have p: "10 powi (adjusted x + 1) = (of_int (10 ^ nat (adjusted x + 1)) :: rat)" by (simp add: power_int_def)
  have "of_int m / 10 powi (27 - adjusted x) = of_int m * (10 powi (adjusted x + 1)) / (10 ^ 28 :: rat)" for m
  proof -
    have "10 powi (27 - adjusted x) * 10 powi (adjusted x + 1) = (10 ^ 28 :: rat)" by (simp flip: power_int_add)
    then show ?thesis by (simp add: field_simps)
  qed
  then show ?thesis using assms unfolding p of_int_mult [symmetric]
    by (intro exI [of _ "half_even (x * 10 powi (27 - adjusted x)) * 10 ^ nat (adjusted x + 1)"]) (simp add: to_context_scaled)
qed

end
