(* ===== verification/Cadence.thy ===== *)
theory Cadence
  imports Calendar Decimals
begin

section \<open>Billing cadence\<close>

text \<open>
  Models \<open>app/services/billing/cadence.py\<close> with the enumerations of \<open>app/models/billing_contract.py\<close>:
  the alignment of a contract, its service and invoice periods and the walk to the period of an instant.
  The zone database is the parameter \<open>zones\<close>: a zone gives its offset at an instant and at a wall clock
  (the first of two occurrences, as \<open>fold=0\<close> has it). A datetime is \<open>Instant\<close> when it is aware.
\<close>

subsection \<open>Cadences\<close>

datatype interval_unit = Unit_day | Unit_week | Unit_month | Unit_year
datatype rate_basis = Fixed_per_service_period | Per_rate_unit | Per_quantity | Usage_metered
datatype collection_timing = Advance | Arrears
datatype cadence_alignment = Contract_anniversary | Calendar_period_start | Fixed_anchor_day
datatype end_of_month_rule = Clamp_to_month_end | Strict_same_day_or_skip
datatype proration_policy = No_proration | Full_period | Actual_calendar_days | Actual_elapsed_time

datatype moment = Naive_time int | Instant int

datatype cadence_error =
    Invalid_interval int int | Invalid_interval_count | Invalid_rate_quantity | Invalid_anchor_day int
  | Missing_anchor_day | Unknown_timezone string | Naive_datetime string
  | Skipped_month_boundary int int end_of_month_rule | Invalid_period_index int
  | Moment_before_contract int int | Period_walk_exhausted nat int | Covered_outside_period
  | Anchor_assertion \<comment> \<open>the \<open>assert\<close> that the constructor makes true\<close>
  | Out_of_range \<comment> \<open>the \<open>OverflowError\<close> or \<open>ValueError\<close> of datetime\<close>
  | Mixed_awareness \<comment> \<open>the \<open>TypeError\<close> of comparing a naive and an aware datetime\<close>

record zone =
  zone_offset :: "int \<Rightarrow> int"
  zone_wall_offset :: "int \<Rightarrow> int"

type_synonym zone_db = "string \<Rightarrow> zone option"

datatype interval = Interval (starts_at: int) (ends_at: int)

definition make_interval :: "int \<Rightarrow> int \<Rightarrow> cadence_error + interval" where
  "make_interval s e = (if e \<le> s then Inl (Invalid_interval s e) else Inr (Interval s e))"

definition contains :: "interval \<Rightarrow> int \<Rightarrow> bool" where
  "contains v t \<longleftrightarrow> starts_at v \<le> t \<and> t < ends_at v"

definition duration :: "interval \<Rightarrow> int" where
  "duration v = ends_at v - starts_at v"

record cadence =
  cad_rate_basis :: rate_basis
  cad_rate_unit :: interval_unit
  cad_rate_quantity :: rat
  cad_service_unit :: interval_unit
  cad_service_count :: int
  cad_invoice_unit :: interval_unit
  cad_invoice_count :: int
  cad_collection_timing :: collection_timing
  cad_alignment :: cadence_alignment
  cad_timezone :: string
  cad_end_of_month :: end_of_month_rule
  cad_proration :: proration_policy
  cad_anchor_day :: "int option"

definition zone_of :: "zone_db \<Rightarrow> cadence \<Rightarrow> cadence_error + zone" where
  "zone_of zones c =
     (case zones (cad_timezone c) of None \<Rightarrow> Inl (Unknown_timezone (cad_timezone c)) | Some z \<Rightarrow> Inr z)"

definition make_cadence :: "zone_db \<Rightarrow> cadence \<Rightarrow> cadence_error + cadence" where
  "make_cadence zones c =
     (if cad_service_count c < 1 \<or> cad_invoice_count c < 1 then Inl Invalid_interval_count
      else if cad_rate_quantity c \<le> 0 then Inl Invalid_rate_quantity
      else (case cad_anchor_day c of
          Some d \<Rightarrow> if \<not> (1 \<le> d \<and> d \<le> 31) then Inl (Invalid_anchor_day d) else and_then (zone_of zones c) (\<lambda>_. Inr c)
        | None \<Rightarrow> if cad_alignment c = Fixed_anchor_day then Inl Missing_anchor_day
            else and_then (zone_of zones c) (\<lambda>_. Inr c)))"

subsection \<open>Calendar arithmetic\<close>

definition require_aware :: "string \<Rightarrow> moment \<Rightarrow> cadence_error + int" where
  "require_aware field m = (case m of Naive_time _ \<Rightarrow> Inl (Naive_datetime field) | Instant t \<Rightarrow> Inr t)"

definition in_range :: "int \<Rightarrow> cadence_error + int" where
  "in_range w = (if clock_ok w then Inr w else Inl Out_of_range)"

definition make_date :: "int \<Rightarrow> int \<Rightarrow> int \<Rightarrow> cadence_error + date" where
  "make_date y m d = (if 1 \<le> y \<and> y \<le> 9999 then Inr (Date y m d) else Inl Out_of_range)"

text \<open>\<open>astimezone\<close> into the zone and back to UTC.\<close>

definition to_wall :: "zone \<Rightarrow> int \<Rightarrow> cadence_error + int" where
  "to_wall z t = in_range (t + zone_offset z t)"

definition to_utc :: "zone \<Rightarrow> int \<Rightarrow> cadence_error + int" where
  "to_utc z w = in_range (w - zone_wall_offset z w)"

definition add_months :: "date \<Rightarrow> int \<Rightarrow> end_of_month_rule \<Rightarrow> cadence_error + date option" where
  "add_months anchor months rule =
     (let total = date_month anchor - 1 + months;
          year = date_year anchor + total div 12;
          month = total mod 12 + 1;
          last_day = days_in_month year month in
      if date_day anchor \<le> last_day then and_then (make_date year month (date_day anchor)) (\<lambda>d. Inr (Some d))
      else if rule = Clamp_to_month_end then and_then (make_date year month last_day) (\<lambda>d. Inr (Some d))
      else Inr None)"

definition shift_local :: "cadence \<Rightarrow> int \<Rightarrow> interval_unit \<Rightarrow> int \<Rightarrow> int \<Rightarrow> cadence_error + int" where
  "shift_local c anchor unit count local =
     (let months = count * (if unit = Unit_year then 12 else 1) in
      case unit of
        Unit_day \<Rightarrow> in_range (local + count * day_us)
      | Unit_week \<Rightarrow> in_range (local + count * 7 * day_us)
      | _ \<Rightarrow> and_then (add_months (wall_date local) months (cad_end_of_month c)) (\<lambda>target. case target of
            None \<Rightarrow> Inl (Skipped_month_boundary anchor months (cad_end_of_month c))
          | Some d \<Rightarrow> Inr (combine d (wall_time local))))"

definition shift :: "zone_db \<Rightarrow> cadence \<Rightarrow> int \<Rightarrow> interval_unit \<Rightarrow> int \<Rightarrow> cadence_error + int" where
  "shift zones c anchor unit count =
     and_then (zone_of zones c) (\<lambda>z.
     and_then (to_wall z anchor) (\<lambda>local.
     and_then (shift_local c anchor unit count local) (to_utc z)))"

text \<open>The wall clock an alignment other than the anniversary starts from.\<close>

definition midnight :: "date \<Rightarrow> int" where
  "midnight d = combine d 0"

definition weekday :: "date \<Rightarrow> int" where
  "weekday d = (to_ordinal d + 6) mod 7"

definition aligned_local :: "cadence \<Rightarrow> int \<Rightarrow> cadence_error + int" where
  "aligned_local c local =
     (let d = wall_date local in
      case cad_alignment c of
        Contract_anniversary \<Rightarrow> Inr local
      | Calendar_period_start \<Rightarrow>
          (case cad_service_unit c of
             Unit_day \<Rightarrow> Inr (midnight d)
           | Unit_week \<Rightarrow> in_range (midnight d - weekday d * day_us)
           | Unit_month \<Rightarrow> Inr (midnight (Date (date_year d) (date_month d) 1))
           | Unit_year \<Rightarrow> Inr (midnight (Date (date_year d) 1 1)))
      | Fixed_anchor_day \<Rightarrow>
          (case cad_anchor_day c of
             None \<Rightarrow> Inl Anchor_assertion
           | Some anchor_day \<Rightarrow>
               (let last_day = days_in_month (date_year d) (date_month d);
                    anchored = midnight (Date (date_year d) (date_month d) (min anchor_day last_day)) in
                if local < anchored then
                  and_then (add_months (wall_date anchored) (- 1) (cad_end_of_month c)) (\<lambda>previous.
                    case previous of
                      None \<Rightarrow> Inr anchored
                    | Some p \<Rightarrow> Inr (combine p (wall_time anchored)))
                else Inr anchored)))"

definition align_instant :: "zone_db \<Rightarrow> cadence \<Rightarrow> int \<Rightarrow> cadence_error + int" where
  "align_instant zones c start =
     (if cad_alignment c = Contract_anniversary then Inr start
      else and_then (zone_of zones c) (\<lambda>z.
        and_then (to_wall z start) (\<lambda>local.
        and_then (aligned_local c local) (to_utc z))))"

text \<open>
  A naive start is only aligned by \<open>period_containing\<close>, which does not check it; \<open>astimezone\<close> then reads
  it in the zone of the system.
\<close>

definition align_start :: "zone_db \<Rightarrow> zone \<Rightarrow> cadence \<Rightarrow> moment \<Rightarrow> cadence_error + moment" where
  "align_start zones sys c start =
     (case start of
        Instant t \<Rightarrow> and_then (align_instant zones c t) (\<lambda>a. Inr (Instant a))
      | Naive_time w \<Rightarrow>
          if cad_alignment c = Contract_anniversary then Inr start
          else and_then (to_utc sys w) (\<lambda>t. and_then (align_instant zones c t) (\<lambda>a. Inr (Instant a))))"

subsection \<open>Periods\<close>

definition nth_interval :: "zone_db \<Rightarrow> cadence \<Rightarrow> int \<Rightarrow> interval_unit \<Rightarrow> int \<Rightarrow> int \<Rightarrow> cadence_error + interval" where
  "nth_interval zones c aligned unit count index =
     and_then (if index = 0 then Inr aligned else shift zones c aligned unit (count * index)) (\<lambda>s.
     and_then (shift zones c aligned unit (count * (index + 1))) (\<lambda>e. make_interval s e))"

definition period :: "(cadence \<Rightarrow> interval_unit) \<Rightarrow> (cadence \<Rightarrow> int) \<Rightarrow>
    zone_db \<Rightarrow> cadence \<Rightarrow> moment \<Rightarrow> int \<Rightarrow> cadence_error + interval" where
  "period unit count zones c start index =
     and_then (require_aware ''contract_start'' start) (\<lambda>t.
     if index < 0 then Inl (Invalid_period_index index)
     else and_then (align_instant zones c t) (\<lambda>aligned. nth_interval zones c aligned (unit c) (count c) index))"

definition service_period :: "zone_db \<Rightarrow> cadence \<Rightarrow> moment \<Rightarrow> int \<Rightarrow> cadence_error + interval" where
  "service_period = period cad_service_unit cad_service_count"

definition invoice_period :: "zone_db \<Rightarrow> cadence \<Rightarrow> moment \<Rightarrow> int \<Rightarrow> cadence_error + interval" where
  "invoice_period = period cad_invoice_unit cad_invoice_count"

fun walk_periods :: "zone_db \<Rightarrow> cadence \<Rightarrow> moment \<Rightarrow> int \<Rightarrow> nat \<Rightarrow> nat \<Rightarrow> nat \<Rightarrow> cadence_error + int \<times> interval" where
  "walk_periods zones c start t max_periods index 0 = Inl (Period_walk_exhausted max_periods t)"
| "walk_periods zones c start t max_periods index (Suc n) =
     and_then (service_period zones c start (int index)) (\<lambda>v.
     if contains v t then Inr (int index, v) else walk_periods zones c start t max_periods (Suc index) n)"

definition period_containing ::
    "zone_db \<Rightarrow> zone \<Rightarrow> cadence \<Rightarrow> moment \<Rightarrow> moment \<Rightarrow> nat \<Rightarrow> cadence_error + int \<times> interval" where
  "period_containing zones sys c start m max_periods =
     and_then (require_aware ''moment'' m) (\<lambda>t.
     and_then (align_start zones sys c start) (\<lambda>aligned. case aligned of
         Naive_time _ \<Rightarrow> Inl Mixed_awareness
       | Instant a \<Rightarrow>
           if t < a then Inl (Moment_before_contract t a)
           else walk_periods zones c start t max_periods 0 max_periods))"

end
