(* ===== verification/Cadence_Periods.thy ===== *)
theory Cadence_Periods
  imports Cadence
begin

section \<open>The periods of a contract\<close>

text \<open>
  The periods of a cadence are cut out by boundaries that are all counted from the aligned start. They
  follow each other without gap or overlap, calendar units are calendar units, and the walk to the period
  of an instant ends. What the code relies on of a time zone is \<open>civil_zone\<close>.
\<close>

subsection \<open>Time zones\<close>

text \<open>
  A wall clock that is at least a day later is a later instant. Zones of the database have this, but for
  the few that once skipped a whole day.
\<close>

definition civil_zone :: "zone \<Rightarrow> bool" where
  "civil_zone z \<longleftrightarrow>
     (\<forall>w w'. w + day_us \<le> w' \<longrightarrow> w - zone_wall_offset z w < w' - zone_wall_offset z w') \<and>
     (\<forall>t w'. t + zone_offset z t + day_us \<le> w' \<longrightarrow> t < w' - zone_wall_offset z w')"

text \<open>A zone without transitions, such as the default \<open>Africa/Lagos\<close>.\<close>

definition fixed_zone :: "int \<Rightarrow> zone" where
  "fixed_zone off = \<lparr>zone_offset = \<lambda>_. off, zone_wall_offset = \<lambda>_. off\<rparr>"

lemma civil_fixed_zone [simp]: "civil_zone (fixed_zone off)"
  using day_us_pos by (auto simp: civil_zone_def fixed_zone_def simp del: day_us_pos)

subsection \<open>Adding months\<close>

definition month_shift :: "date \<Rightarrow> int \<Rightarrow> date" where
  "month_shift d n =
     (let i = month_index d + n in
      Date (i div 12) (i mod 12 + 1) (min (date_day d) (month_length i)))"

lemma month_shift:
  assumes "valid_date d"
  shows "valid_date (month_shift d n)" "month_index (month_shift d n) = month_index d + n"
    "date_day (month_shift d n) = min (date_day d) (month_length (month_index d + n))"
proof -
  define i where "i = month_index d + n"
  have e: "month_shift d n = Date (i div 12) (i mod 12 + 1) (min (date_day d) (month_length i))"
    by (simp add: month_shift_def i_def Let_def)
  have m: "0 \<le> i mod 12" "i mod 12 < 12" by simp_all
  show "valid_date (month_shift d n)"
    using assms m month_length_bounds(1) [of i] by (simp add: e valid_date_def month_length_def)
  show "month_index (month_shift d n) = month_index d + n"
    using mult_div_mod_eq [of 12 i] by (simp add: e month_index_def [of "Date _ _ _"]) (simp add: i_def)
  show "date_day (month_shift d n) = min (date_day d) (month_length (month_index d + n))"
    by (simp add: e i_def)
qed

lemma month_carry:
  "(month_index d + n) div 12 = date_year d + (date_month d - 1 + n) div 12"
  "(month_index d + n) mod 12 = (date_month d - 1 + n) mod 12"
proof -
  have e: "month_index d + n = (date_month d - 1 + n) + date_year d * 12" by (simp add: month_index_def)
  show "(month_index d + n) div 12 = date_year d + (date_month d - 1 + n) div 12"
    "(month_index d + n) mod 12 = (date_month d - 1 + n) mod 12" unfolding e by simp_all
qed

text \<open>\<open>_add_months\<close> shifts the month and keeps the day, clamped if the rule says so.\<close>

lemma add_months_shift:
  assumes "valid_date d" and "add_months d n rule = Inr (Some e)"
  shows "e = month_shift d n" and "rule \<noteq> Clamp_to_month_end \<Longrightarrow> date_day e = date_day d"
  using assms(2)
  by (auto simp: add_months_def month_shift_def make_date_def Let_def month_carry month_length_def and_then_Inr
      split: if_splits)

lemma add_months_clamp:
  "add_months d n Clamp_to_month_end =
    (if 1 \<le> date_year (month_shift d n) \<and> date_year (month_shift d n) \<le> 9999 then Inr (Some (month_shift d n))
     else Inl Out_of_range)"
  by (simp add: add_months_def month_shift_def make_date_def Let_def month_carry month_length_def min_def)

lemma month_shift_0 [simp]: "valid_date d \<Longrightarrow> month_shift d 0 = d"
  using month_shift [of d 0] to_ordinal_inject [of "month_shift d 0" d]
  by (simp add: to_ordinal_month valid_date_def month_length_def month_parts [unfolded valid_date_def])

lemma month_shift_less:
  "valid_date d \<Longrightarrow> m < n \<Longrightarrow> to_ordinal (month_shift d m) < to_ordinal (month_shift d n)"
  by (intro month_order) (simp_all add: month_shift)

subsection \<open>Boundaries\<close>

text \<open>The wall clock of the boundary \<open>n\<close> units after the wall clock \<open>w\<close>, under the clamping rule.\<close>

definition wall_after :: "interval_unit \<Rightarrow> int \<Rightarrow> int \<Rightarrow> int" where
  "wall_after unit n w =
     (case unit of
        Unit_day \<Rightarrow> w + n * day_us
      | Unit_week \<Rightarrow> w + n * 7 * day_us
      | Unit_month \<Rightarrow> combine (month_shift (wall_date w) n) (wall_time w)
      | Unit_year \<Rightarrow> combine (month_shift (wall_date w) (12 * n)) (wall_time w))"

lemma wall_after_0 [simp]: "wall_after unit 0 w = w"
  by (cases unit) (simp_all add: wall_after_def)

lemma wall_after_later:
  assumes "m < n"
  shows "wall_after unit m w + day_us \<le> wall_after unit n w"
proof -
  have "i * day_us + day_us \<le> j * day_us" if "i < j" for i j
    using mult_right_mono [of "i + 1" j day_us] that by (simp add: distrib_right less_imp_le [OF day_us_pos])
  moreover have "combine (month_shift (wall_date w) i) (wall_time w) + day_us
      \<le> combine (month_shift (wall_date w) j) (wall_time w)" if "i < j" for i j
    using that by (intro combine_later_day month_shift_less) simp_all
  ultimately show ?thesis using assms by (cases unit) (simp_all add: wall_after_def)
qed

lemma shift_local_wall_after:
  assumes "shift_local c anchor unit n w = Inr w'"
  shows "w' = wall_after unit n w"
proof -
  have "w' = combine (month_shift (wall_date w) k) (wall_time w)"
    if "and_then (add_months (wall_date w) k (cad_end_of_month c)) (\<lambda>target. case target of
        None \<Rightarrow> Inl (Skipped_month_boundary anchor k (cad_end_of_month c))
      | Some d \<Rightarrow> Inr (combine d (wall_time w))) = Inr w'" for k
    using that by (auto simp: and_then_Inr dest!: add_months_shift(1) [OF valid_wall_date] split: option.splits)
  then show ?thesis
    using assms
    by (cases unit) (auto simp: shift_local_def wall_after_def in_range_def mult.commute Let_def split: if_splits)
qed

lemma first_year:
  assumes "clock_ok w"
  shows "1 \<le> date_year (wall_date w)"
proof (rule ccontr)
  assume "\<not> ?thesis"
  then have "days_before_year (date_year (wall_date w) + 1) \<le> days_before_year 1"
    using days_before_year_mono [of "date_year (wall_date w)" 1] by simp
  moreover have "to_ordinal (wall_date w) = w div day_us + 1" by (simp add: wall_date_def from_ordinal)
  moreover have "0 \<le> w div day_us" using assms by (simp add: clock_ok_def pos_imp_zdiv_nonneg_iff)
  ultimately show False using day_in_year(2) [OF valid_wall_date, of w] by (simp add: days_before_year_def [of 1])
qed

lemma shift_local_clamp:
  assumes clamp: "cad_end_of_month c = Clamp_to_month_end" and w: "clock_ok w"
    and n: "shift_local c anchor unit n w = Inr f" and m: "0 \<le> m" "m \<le> n"
  shows "shift_local c anchor unit m w = Inr (wall_after unit m w)"
proof -
  have scaled: "clock_ok (w + i * day_us)" if "0 \<le> i" "i \<le> j" "clock_ok (w + j * day_us)" for i j
  proof -
    have "0 \<le> i * day_us" "i * day_us \<le> j * day_us"
      using that by (simp_all add: mult_right_mono less_imp_le [OF day_us_pos])
    then show ?thesis using w that(3) unfolding clock_ok_def by linarith
  qed
  have months: "add_months (wall_date w) i Clamp_to_month_end = Inr (Some (month_shift (wall_date w) i))"
    if "0 \<le> i" "i \<le> j" "add_months (wall_date w) j Clamp_to_month_end = Inr e" for i j e
  proof -
    have year: "date_year (month_shift (wall_date w) k) = (month_index (wall_date w) + k) div 12" for k
      by (simp add: month_shift_def Let_def)
    have "date_year (wall_date w) \<le> (month_index (wall_date w) + i) div 12"
      using zdiv_mono1 [of "month_index (wall_date w)" "month_index (wall_date w) + i" 12] that(1)
      by (simp add: month_parts)
    moreover have "(month_index (wall_date w) + i) div 12 \<le> (month_index (wall_date w) + j) div 12"
      using that(2) by (intro zdiv_mono1) simp_all
    ultimately show ?thesis using that(3) first_year [OF w] by (simp add: add_months_clamp year split: if_splits)
  qed
  show ?thesis
  proof (cases unit)
    case Unit_day
    then show ?thesis using n scaled [OF m]
      by (auto simp: shift_local_def Let_def in_range_def wall_after_def split: if_splits)
  next
    case Unit_week
    have "0 \<le> m * 7" "m * 7 \<le> n * 7" using m by simp_all
    from scaled [OF this] Unit_week show ?thesis using n
      by (auto simp: shift_local_def Let_def in_range_def wall_after_def split: if_splits)
  next
    case Unit_month
    then show ?thesis using n months [OF m]
      by (auto simp: shift_local_def Let_def clamp wall_after_def and_then_Inr)
  next
    case Unit_year
    have "0 \<le> m * 12" "m * 12 \<le> n * 12" using m by simp_all
    from months [OF this] Unit_year show ?thesis using n
      by (auto simp: shift_local_def Let_def clamp wall_after_def and_then_Inr mult.commute)
  qed
qed

text \<open>The instant of a wall clock, and the boundaries of the periods of a contract.\<close>

definition utc_of :: "zone \<Rightarrow> int \<Rightarrow> int" where
  "utc_of z w = w - zone_wall_offset z w"

definition local_of :: "zone \<Rightarrow> int \<Rightarrow> int" where
  "local_of z t = t + zone_offset z t"

lemma civil_zoneD:
  "civil_zone z \<Longrightarrow> w + day_us \<le> w' \<Longrightarrow> utc_of z w < utc_of z w'"
  "civil_zone z \<Longrightarrow> local_of z t + day_us \<le> w' \<Longrightarrow> t < utc_of z w'"
  by (simp_all add: civil_zone_def utc_of_def local_of_def)

definition boundary :: "zone_db \<Rightarrow> cadence \<Rightarrow> int \<Rightarrow> interval_unit \<Rightarrow> int \<Rightarrow> int \<Rightarrow> cadence_error + int" where
  "boundary zones c a unit count k = (if k = 0 then Inr a else shift zones c a unit (count * k))"

lemma nth_interval_boundary:
  "0 \<le> k \<Longrightarrow> nth_interval zones c a unit count k =
     and_then (boundary zones c a unit count k) (\<lambda>s. and_then (boundary zones c a unit count (k + 1)) (make_interval s))"
  by (simp add: nth_interval_def boundary_def)

text \<open>A cadence whose zone is known and civil; with a positive count its boundaries increase.\<close>

definition runs_in :: "zone_db \<Rightarrow> cadence \<Rightarrow> zone \<Rightarrow> bool" where
  "runs_in zones c z \<longleftrightarrow> zones (cad_timezone c) = Some z \<and> civil_zone z"

lemma runs_inD: "runs_in zones c z \<Longrightarrow> zones (cad_timezone c) = Some z" "runs_in zones c z \<Longrightarrow> civil_zone z"
  by (simp_all add: runs_in_def)

lemma shift_utc:
  assumes "runs_in zones c z" and "shift zones c a unit n = Inr b"
  shows "b = utc_of z (wall_after unit n (local_of z a))"
  using assms(2) runs_inD(1) [OF assms(1)]
  by (auto simp: shift_def zone_of_def and_then_Inr to_wall_def to_utc_def in_range_def utc_of_def local_of_def
      dest!: shift_local_wall_after split: if_splits)

lemma make_interval_Inr [simp]: "make_interval s e = Inr v \<longleftrightarrow> v = Interval s e \<and> s < e"
  by (auto simp: make_interval_def)

lemma boundary_less:
  assumes run: "runs_in zones c z" and count: "0 < count"
    and "boundary zones c a unit count j = Inr s" and "boundary zones c a unit count k = Inr e"
    and "0 \<le> j" and "j < k"
  shows "s < e"
proof -
  have "count * j < count * k" using assms(6) count by simp
  note later = wall_after_later [OF this, of unit "local_of z a"]
  have e: "e = utc_of z (wall_after unit (count * k) (local_of z a))"
    using assms(4-6) shift_utc [OF run] by (auto simp: boundary_def split: if_splits)
  show ?thesis
  proof (cases "j = 0")
    case True
    then show ?thesis using assms(3) later civil_zoneD(2) [OF runs_inD(2) [OF run]] by (simp add: boundary_def e)
  next
    case False
    then have "s = utc_of z (wall_after unit (count * j) (local_of z a))"
      using assms(3) shift_utc [OF run] by (auto simp: boundary_def)
    then show ?thesis using later civil_zoneD(1) [OF runs_inD(2) [OF run]] by (simp add: e)
  qed
qed

lemma boundary_le:
  assumes "runs_in zones c z" and "0 < count"
    and "boundary zones c a unit count j = Inr s" and "boundary zones c a unit count k = Inr e"
    and "0 \<le> j" and "j \<le> k"
  shows "s \<le> e"
  using assms boundary_less [OF assms(1-4)] by (cases "j = k") auto

lemma nth_interval_parts:
  assumes "nth_interval zones c a unit count k = Inr v" and "0 \<le> k"
  shows "boundary zones c a unit count k = Inr (starts_at v)"
    "boundary zones c a unit count (k + 1) = Inr (ends_at v)"
  using assms by (auto simp: nth_interval_boundary and_then_Inr)

lemma intervals_in_order:
  assumes "runs_in zones c z" and "0 < count"
    and "nth_interval zones c a unit count i = Inr v" and "nth_interval zones c a unit count j = Inr w"
    and "0 \<le> i" and "i < j"
  shows "ends_at v \<le> starts_at w" "j = i + 1 \<Longrightarrow> starts_at w = ends_at v"
  using nth_interval_parts [OF assms(3)] nth_interval_parts [OF assms(4)] assms(5,6)
    boundary_le [OF assms(1,2), of a unit "i + 1" "ends_at v" j "starts_at w"] by simp_all

text \<open>Under the clamping rule, boundaries before one that is in range are in range.\<close>

lemma boundary_exists:
  assumes run: "runs_in zones c z" and count: "0 < count"
    and "cad_end_of_month c = Clamp_to_month_end" and "0 \<le> a"
    and "boundary zones c a unit count n = Inr e" and "0 \<le> k" and "k \<le> n"
  shows "\<exists>s. boundary zones c a unit count k = Inr s"
proof (cases "k = 0 \<or> k = n")
  case False
  then have k: "0 < k" "k < n" using assms by simp_all
  define w where "w = local_of z a"
  from k assms(5) obtain f where f: "clock_ok w" "shift_local c a unit (count * n) w = Inr f" "clock_ok (utc_of z f)"
    by (auto simp: boundary_def shift_def zone_of_def runs_inD(1) [OF run] and_then_Inr to_wall_def to_utc_def in_range_def
        utc_of_def local_of_def w_def split: if_splits)
  have fw: "f = wall_after unit (count * n) w" by (rule shift_local_wall_after [OF f(2)])
  have order: "0 < count * k" "count * k < count * n" using k count by simp_all
  define g where "g = wall_after unit (count * k) w"
  have g: "w + day_us \<le> g" "g + day_us \<le> f"
    using wall_after_later [OF order(1), of unit w] wall_after_later [OF order(2), of unit w]
    by (simp_all add: g_def fw)
  have "shift_local c a unit (count * k) w = Inr g"
    using shift_local_clamp [OF assms(3) f(1,2)] order by (simp add: g_def)
  moreover have "clock_ok (utc_of z g)"
    using civil_zoneD(1) [OF runs_inD(2) [OF run] g(2)] civil_zoneD(2) [OF runs_inD(2) [OF run], of a g] g(1) f(3) assms(4)
    by (simp add: clock_ok_def w_def)
  ultimately show ?thesis using k f(1)
    by (simp add: boundary_def shift_def zone_of_def runs_inD(1) [OF run] to_wall_def to_utc_def in_range_def w_def local_of_def utc_of_def)
qed (use assms in \<open>auto simp: boundary_def\<close>)

subsection \<open>Periods follow each other\<close>

lemma period_parts:
  assumes "period unit count zones c (Instant t) k = Inr v"
  obtains a where "align_instant zones c t = Inr a" "0 \<le> k" "nth_interval zones c a (unit c) (count c) k = Inr v"
  using assms by (auto simp: period_def require_aware_def and_then_Inr split: if_splits)

lemma made_counts:
  "make_cadence zones c = Inr c \<Longrightarrow> 0 < cad_service_count c \<and> 0 < cad_invoice_count c"
  by (auto simp: make_cadence_def split: if_splits)

lemma periods_in_order:
  assumes "runs_in zones c z" and "0 < count c"
    and "period unit count zones c (Instant t) i = Inr v" and "period unit count zones c (Instant t) j = Inr w"
    and "i < j"
  shows "ends_at v \<le> starts_at w" "j = i + 1 \<Longrightarrow> starts_at w = ends_at v"
proof -
  from assms(3) obtain a where a: "align_instant zones c t = Inr a" "0 \<le> i"
    "nth_interval zones c a (unit c) (count c) i = Inr v" by (rule period_parts)
  from assms(4) a(1) have b: "nth_interval zones c a (unit c) (count c) j = Inr w" by (auto elim!: period_parts)
  show "ends_at v \<le> starts_at w" "j = i + 1 \<Longrightarrow> starts_at w = ends_at v"
    using intervals_in_order [OF assms(1,2) a(3) b a(2) assms(5)] by simp_all
qed

lemma period_unique:
  assumes "runs_in zones c z" and "0 < count c"
    and "period unit count zones c (Instant t) i = Inr v" and "period unit count zones c (Instant t) j = Inr w"
    and "contains v m" and "contains w m"
  shows "i = j"
  using periods_in_order(1) [OF assms(1,2,3,4)] periods_in_order(1) [OF assms(1,2,4,3)] assms(5,6)
  by (cases i j rule: linorder_cases) (auto simp: contains_def)

subsection \<open>The walk to a period\<close>

lemma walk_sound:
  assumes "walk_periods zones c s t mp i n = Inr (j, v)"
  shows "service_period zones c s j = Inr v \<and> contains v t"
  using assms
  by (induction zones c s t mp i n rule: walk_periods.induct) (auto simp: and_then_Inr split: if_splits)

text \<open>
  The walk stops at the period of the instant if it starts at or before it and has fuel for the periods up
  to it.
\<close>

lemma walk_finds:
  assumes "\<And>k. k \<le> N \<Longrightarrow> service_period zones c s (int k) = Inr (p k)"
    and "\<And>k. k < N \<Longrightarrow> ends_at (p k) = starts_at (p (Suc k))" and "t < ends_at (p N)"
    and "starts_at (p i) \<le> t" and "i \<le> N" and "N < i + n"
  shows "\<exists>j. i \<le> j \<and> j \<le> N \<and> walk_periods zones c s t mp i n = Inr (int j, p j)"
  using assms(4-)
proof (induction n arbitrary: i)
  case (Suc n)
  show ?case
  proof (cases "contains (p i) t")
    case True
    then show ?thesis using Suc.prems assms(1) [of i] by auto
  next
    case False
    then have "ends_at (p i) \<le> t" using Suc.prems(1) by (simp add: contains_def)
    then have i: "i < N" using Suc.prems(2) assms(3) by (metis leD le_neq_implies_less)
    then obtain j where "Suc i \<le> j" "j \<le> N" "walk_periods zones c s t mp (Suc i) n = Inr (int j, p j)"
      using Suc.IH [of "Suc i"] Suc.prems assms(2) [OF i] \<open>ends_at (p i) \<le> t\<close> by auto
    then show ?thesis using False assms(1) [of i] i by (intro exI [of _ j]) simp
  qed
qed simp

lemma service_periods_exist:
  assumes run: "runs_in zones c z" and made: "make_cadence zones c = Inr c"
    and clamp: "cad_end_of_month c = Clamp_to_month_end" and a: "align_instant zones c t = Inr a" "0 \<le> a"
    and n: "service_period zones c (Instant t) (int N) = Inr v" and k: "k \<le> N"
  shows "\<exists>w. service_period zones c (Instant t) (int k) = Inr w"
proof -
  define B where "B = boundary zones c a (cad_service_unit c) (cad_service_count c)"
  have count: "0 < cad_service_count c" using made_counts [OF made] by simp
  have nth: "nth_interval zones c a (cad_service_unit c) (cad_service_count c) (int N) = Inr v"
    using n a(1) by (auto simp: service_period_def elim!: period_parts)
  have "\<exists>s. B i = Inr s" if "0 \<le> i" "i \<le> int N + 1" for i
    using boundary_exists [OF run count clamp a(2) nth_interval_parts(2) [OF nth] that(1)] that(2) by (simp add: B_def)
  then obtain s e where "B (int k) = Inr s" "B (int k + 1) = Inr e" using k by fastforce
  moreover from this have "s < e" using boundary_less [OF run count] by (simp add: B_def)
  ultimately show ?thesis using a(1)
    by (simp add: service_period_def period_def require_aware_def nth_interval_boundary B_def)
qed

lemma align_clock_ok:
  assumes "clock_ok t" and "align_instant zones c t = Inr a"
  shows "clock_ok a"
  using assms by (auto simp: align_instant_def and_then_Inr to_utc_def in_range_def split: if_splits)

subsection \<open>Sample contracts\<close>

text \<open>The default zone, one hour ahead of UTC and without transitions.\<close>

definition hour_us :: int where
  "hour_us = 3600000000"

definition lagos_zones :: zone_db where
  "lagos_zones = [''Africa/Lagos'' \<mapsto> fixed_zone hour_us]"

definition sample_cadence :: cadence where
  "sample_cadence = \<lparr>cad_rate_basis = Fixed_per_service_period, cad_rate_unit = Unit_month, cad_rate_quantity = 1,
     cad_service_unit = Unit_month, cad_service_count = 1, cad_invoice_unit = Unit_month, cad_invoice_count = 1,
     cad_collection_timing = Advance, cad_alignment = Contract_anniversary, cad_timezone = ''Africa/Lagos'',
     cad_end_of_month = Clamp_to_month_end, cad_proration = No_proration, cad_anchor_day = None\<rparr>"

lemma sample_runs: "cad_timezone c = ''Africa/Lagos'' \<Longrightarrow> runs_in lagos_zones c (fixed_zone hour_us)"
  by (simp add: runs_in_def lagos_zones_def)

lemma sample_made: "make_cadence lagos_zones sample_cadence = Inr sample_cadence"
  by (simp add: make_cadence_def sample_cadence_def zone_of_def lagos_zones_def)

text \<open>The instant of a wall clock in Lagos; the rules below evaluate it without unfolding the calendar.\<close>

definition lagos :: "int \<Rightarrow> int \<Rightarrow> int \<Rightarrow> int \<Rightarrow> int" where
  "lagos y m d h = combine (Date y m d) (h * hour_us) - hour_us"

lemma combine_order:
  "combine d s \<le> combine e t \<longleftrightarrow> (to_ordinal d - 1) * day_us + s \<le> (to_ordinal e - 1) * day_us + t"
  "combine d s < combine e t \<longleftrightarrow> (to_ordinal d - 1) * day_us + s < (to_ordinal e - 1) * day_us + t"
  "numeral k \<le> combine d s \<longleftrightarrow> numeral k \<le> (to_ordinal d - 1) * day_us + s"
  "0 \<le> combine d s \<longleftrightarrow> 0 \<le> (to_ordinal d - 1) * day_us + s"
  "combine d s < numeral k \<longleftrightarrow> (to_ordinal d - 1) * day_us + s < numeral k"
  by (simp_all add: combine_def)

lemmas calendar_eval = combine_order day_us_def hour_us_def to_ordinal_def days_before_year_def days_before_month_def
  days_in_month_def is_leap_def clock_ok_def max_ordinal_def valid_date_def

lemmas cadence_eval = calendar_eval lagos_def shift_local_def shift_def zone_of_def to_wall_def to_utc_def
  add_months_def make_date_def in_range_def nth_interval_def make_interval_def require_aware_def lagos_zones_def
  fixed_zone_def align_instant_def aligned_local_def midnight_def period_def service_period_def invoice_period_def

lemma sample_period:
  "service_period lagos_zones sample_cadence (Instant (lagos 2026 1 31 9)) 0 =
     Inr (Interval (lagos 2026 1 31 9) (lagos 2026 2 28 9))"
  "service_period lagos_zones sample_cadence (Instant (lagos 2026 1 31 9)) 2 =
     Inr (Interval (lagos 2026 3 31 9) (lagos 2026 4 30 9))"
  by (simp_all add: cadence_eval sample_cadence_def)

subsection \<open>What the periods of a contract are\<close>

text \<open>
  C20: periods follow each other without gap or overlap. In a civil zone, whatever the unit, the count, the
  alignment and the end-of-month rule, a service period ends before a later one begins, and the next one
  begins at the very instant it ends; so no instant of a contract is billed in two periods.
\<close>

theorem service_periods_tile:
  assumes "make_cadence zones c = Inr c" and "runs_in zones c z"
    and "service_period zones c (Instant t) i = Inr v" and "service_period zones c (Instant t) j = Inr w"
  shows "(i < j \<longrightarrow> ends_at v \<le> starts_at w) \<and> (j = i + 1 \<longrightarrow> starts_at w = ends_at v) \<and>
    (contains v m \<and> contains w m \<longrightarrow> i = j)"
proof -
  have count: "0 < cad_service_count c" using made_counts [OF assms(1)] by simp
  note p = assms(3,4) [unfolded service_period_def]
  show ?thesis
    using periods_in_order [where count = cad_service_count, OF assms(2) count p]
      period_unique [where count = cad_service_count, OF assms(2) count p] by auto
qed

theorem service_periods_tile_witness:
  "ends_at (Interval (lagos 2026 1 31 9) (lagos 2026 2 28 9)) \<le>
     starts_at (Interval (lagos 2026 3 31 9) (lagos 2026 4 30 9))"
proof -
  have run: "runs_in lagos_zones sample_cadence (fixed_zone hour_us)"
    by (rule sample_runs) (simp add: sample_cadence_def)
  from service_periods_tile [OF sample_made run sample_period] show ?thesis by simp
qed

text \<open>
  C21: the walk to the period of an instant ends at it. In a civil zone and under the rule that clamps to the
  end of the month, if the instant lies between the aligned start and the end of some period \<open>n\<close> below the
  bound of the walk, \<open>period_containing\<close> returns a period that contains it, no later than \<open>n\<close>, which is the
  only service period that contains it. Under the rule that skips months it need not
  (\<open>strict_walk_stops\<close>).
\<close>

theorem period_walk_returns:
  assumes made: "make_cadence zones c = Inr c" and run: "runs_in zones c z"
    and clamp: "cad_end_of_month c = Clamp_to_month_end"
    and t: "clock_ok t" and a: "align_instant zones c t = Inr a" "a \<le> m"
    and n: "service_period zones c (Instant t) n = Inr v" "m < ends_at v" "nat n < max_periods"
  shows "\<exists>j w. period_containing zones sys c (Instant t) (Instant m) max_periods = Inr (j, w) \<and>
    contains w m \<and> 0 \<le> j \<and> j \<le> n \<and>
    (\<forall>i u. service_period zones c (Instant t) i = Inr u \<and> contains u m \<longrightarrow> i = j)"
proof -
  from n(1) have "0 \<le> n" unfolding service_period_def by (rule period_parts)
  then obtain N where N: "n = int N" by (metis nonneg_int_cases)
  define p where "p k = projr (service_period zones c (Instant t) (int k))" for k
  have p: "service_period zones c (Instant t) (int k) = Inr (p k)" if "k \<le> N" for k
    using service_periods_exist [OF run made clamp a(1) _ n(1) [unfolded N] that] align_clock_ok [OF t a(1)]
    by (auto simp: clock_ok_def p_def)
  have count: "0 < cad_service_count c" using made_counts [OF made] by simp
  have follow: "ends_at (p k) = starts_at (p (Suc k))" if "k < N" for k
    using service_periods_tile [OF made run p p, of k "Suc k"] that by simp
  have "starts_at (p 0) = a"
    using p [of 0] a(1) unfolding service_period_def
    by (auto elim!: period_parts dest!: nth_interval_parts(1) simp: boundary_def)
  moreover have "m < ends_at (p N)" using n(1,2) p [of N] by (simp add: N)
  ultimately obtain j where j: "j \<le> N"
    "walk_periods zones c (Instant t) m max_periods 0 max_periods = Inr (int j, p j)"
    using walk_finds [where i = 0 and n = max_periods and N = N and p = p, OF p follow] a(2) n(3) by (auto simp: N)
  have "contains (p j) m" using walk_sound [OF j(2)] p [OF j(1)] by simp
  then show ?thesis
    using j a service_periods_tile [OF made run _ p [OF j(1)]]
    by (intro exI [of _ "int j"] exI [of _ "p j"])
      (auto simp: period_containing_def require_aware_def align_start_def N)
qed

theorem period_walk_returns_witness:
  "\<exists>j w. period_containing lagos_zones (fixed_zone 0) sample_cadence (Instant (lagos 2026 1 31 9)) (Instant (lagos 2026 4 2 0)) 4096
      = Inr (j, w) \<and> contains w (lagos 2026 4 2 0) \<and> j \<le> 2"
proof -
  have run: "runs_in lagos_zones sample_cadence (fixed_zone hour_us)"
    by (rule sample_runs) (simp add: sample_cadence_def)
  have "align_instant lagos_zones sample_cadence (lagos 2026 1 31 9) = Inr (lagos 2026 1 31 9)"
    by (simp add: align_instant_def sample_cadence_def)
  from period_walk_returns [OF sample_made run _ _ this _ sample_period(2), of "lagos 2026 4 2 0" 4096 "fixed_zone 0"]
  show ?thesis by (fastforce simp: sample_cadence_def calendar_eval lagos_def)
qed

text \<open>
  Under the rule that skips, the walk stops at the first month without the anchor day, although a later period
  it would have walked contains the instant: a contract of 31 January has a period from 31 July to 31 August,
  and the walk to the first of August fails in February.
\<close>

definition strict_cadence :: cadence where
  "strict_cadence = sample_cadence\<lparr>cad_end_of_month := Strict_same_day_or_skip\<rparr>"

theorem strict_walk_stops:
  "service_period lagos_zones strict_cadence (Instant (lagos 2026 1 31 9)) 6 =
     Inr (Interval (lagos 2026 7 31 9) (lagos 2026 8 31 9))"
  "contains (Interval (lagos 2026 7 31 9) (lagos 2026 8 31 9)) (lagos 2026 8 1 0)"
  "\<exists>e. period_containing lagos_zones sys strict_cadence (Instant (lagos 2026 1 31 9)) (Instant (lagos 2026 8 1 0)) 4096 = Inl e"
proof -
  show "service_period lagos_zones strict_cadence (Instant (lagos 2026 1 31 9)) 6 =
      Inr (Interval (lagos 2026 7 31 9) (lagos 2026 8 31 9))"
    by (simp add: cadence_eval strict_cadence_def sample_cadence_def)
  show "contains (Interval (lagos 2026 7 31 9) (lagos 2026 8 31 9)) (lagos 2026 8 1 0)"
    by (simp add: contains_def lagos_def calendar_eval)
  have "\<exists>e. service_period lagos_zones strict_cadence (Instant (lagos 2026 1 31 9)) 0 = Inl e"
    by (simp add: cadence_eval strict_cadence_def sample_cadence_def)
  then have "\<exists>e. walk_periods lagos_zones strict_cadence (Instant (lagos 2026 1 31 9)) m 4096 0 (Suc n) = Inl e" for m n
    by auto
  from this [of _ 4095]
  have walk: "\<exists>e. walk_periods lagos_zones strict_cadence (Instant (lagos 2026 1 31 9)) m 4096 0 4096 = Inl e" for m by simp
  have "\<not> lagos 2026 8 1 0 < lagos 2026 1 31 9" by (simp add: lagos_def calendar_eval)
  then show "\<exists>e. period_containing lagos_zones sys strict_cadence (Instant (lagos 2026 1 31 9)) (Instant (lagos 2026 8 1 0)) 4096 = Inl e"
    using walk by (simp add: period_containing_def require_aware_def align_start_def align_instant_def strict_cadence_def sample_cadence_def)
qed

text \<open>
  C22: a calendar month is a calendar month, and the contract keeps its anchor. The end of period \<open>k\<close> of a
  cadence of months or years lies exactly as many calendar months after the aligned start as the cadence
  says, at the same wall clock time, and on the same day of the month unless that month is too short; then
  the rule is to clamp and it is the last day. A clamped day never carries over to a later boundary.
\<close>

theorem month_boundaries_keep_anchor:
  assumes "runs_in zones c z" and "service_period zones c (Instant t) k = Inr v"
    and "align_instant zones c t = Inr a"
    and "months = (if cad_service_unit c = Unit_year then 12 else 1) * cad_service_count c * (k + 1)"
    and "cad_service_unit c \<in> {Unit_month, Unit_year}" and "d = wall_date (local_of z a)"
  shows "\<exists>e. ends_at v = utc_of z (combine e (wall_time (local_of z a))) \<and> valid_date e \<and>
    month_index e = month_index d + months \<and>
    date_day e = min (date_day d) (month_length (month_index d + months)) \<and>
    (date_day e \<noteq> date_day d \<longrightarrow> cad_end_of_month c = Clamp_to_month_end)"
proof -
  define n where "n = cad_service_count c * (k + 1)"
  from assms(2,3) have k: "0 \<le> k" "nth_interval zones c a (cad_service_unit c) (cad_service_count c) k = Inr v"
    by (auto simp: service_period_def elim!: period_parts)
  then have sh: "shift zones c a (cad_service_unit c) n = Inr (ends_at v)"
    using nth_interval_parts(2) [OF k(2,1)] by (simp add: boundary_def n_def)
  have months: "months = n * (if cad_service_unit c = Unit_year then 12 else 1)"
    using assms(4) by (simp add: n_def)
  have e: "ends_at v = utc_of z (combine (month_shift d months) (wall_time (local_of z a)))"
    using shift_utc [OF assms(1) sh] assms(5) by (auto simp: wall_after_def months assms(6) mult.commute)
  have "add_months d months (cad_end_of_month c) = Inr (Some (month_shift d months))"
    using sh assms(5) runs_inD(1) [OF assms(1)] unfolding assms(6)
    by (auto simp: shift_def zone_of_def and_then_Inr to_wall_def in_range_def shift_local_def Let_def months local_of_def
        split: if_splits option.splits dest: add_months_shift(1) [OF valid_wall_date])
  then have "date_day (month_shift d months) \<noteq> date_day d \<longrightarrow> cad_end_of_month c = Clamp_to_month_end"
    using add_months_shift(2) [of d months "cad_end_of_month c"] assms(6) by auto
  then show ?thesis
    using e month_shift [of d months] assms(6) by (intro exI [of _ "month_shift d months"]) simp
qed

theorem month_boundaries_keep_anchor_witness:
  "\<exists>e. lagos 2026 4 30 9 = utc_of (fixed_zone hour_us) (combine e (9 * hour_us)) \<and>
     month_index e = month_index (Date 2026 1 31) + 3 \<and> date_day e = min 31 (month_length (month_index (Date 2026 4 30)))"
proof -
  have run: "runs_in lagos_zones sample_cadence (fixed_zone hour_us)"
    by (rule sample_runs) (simp add: sample_cadence_def)
  have a: "align_instant lagos_zones sample_cadence (lagos 2026 1 31 9) = Inr (lagos 2026 1 31 9)"
    by (simp add: align_instant_def sample_cadence_def)
  have l: "local_of (fixed_zone hour_us) (lagos 2026 1 31 9) = combine (Date 2026 1 31) (9 * hour_us)"
    by (simp add: local_of_def fixed_zone_def lagos_def)
  have "valid_date (Date 2026 1 31)" "9 * hour_us < day_us" "0 \<le> 9 * hour_us"
    by (simp_all add: calendar_eval)
  then show ?thesis
    using month_boundaries_keep_anchor [OF run sample_period(2) a refl _ refl] combine_parts [of "Date 2026 1 31" "9 * hour_us"]
    by (fastforce simp: sample_cadence_def l month_index_def)
qed

end
