(* ===== verification/Cadence_Start.thy ===== *)
theory Cadence_Start
  imports Cadence_Periods
begin

section \<open>The start of a contract\<close>

text \<open>
  Where the alignment of \<open>_align_start\<close> puts the first period, in a zone without transitions: the first
  service period contains the start of the contract, but for an anchor day that some month does not have.
\<close>

subsection \<open>Order of dates and clocks\<close>

lemma combine_less:
  assumes "to_ordinal a < to_ordinal b" and "s < day_us" and "0 \<le> u"
  shows "combine a s < combine b u"
proof -
  have "(to_ordinal a - 1) * day_us + day_us \<le> (to_ordinal b - 1) * day_us"
    using assms(1) mult_right_mono [of "to_ordinal a" "to_ordinal b - 1" day_us]
    by (simp add: left_diff_distrib less_imp_le [OF day_us_pos])
  then show ?thesis using assms(2,3) unfolding combine_def by linarith
qed

lemma local_of_fixed [simp]: "local_of (fixed_zone off) t = t + off"
  "utc_of (fixed_zone off) w = w - off" "zone_offset (fixed_zone off) t = off" "zone_wall_offset (fixed_zone off) t = off"
  by (simp_all add: local_of_def utc_of_def fixed_zone_def)

lemma midnight_le: "midnight (wall_date w) \<le> w" and less_midnight: "w < midnight (wall_date w) + day_us"
  using combine_wall [of w] wall_time_bounds [of w] unfolding midnight_def combine_def by - linarith+

lemma midnight_parts [simp]: "valid_date d \<Longrightarrow> wall_date (midnight d) = d" "valid_date d \<Longrightarrow> wall_time (midnight d) = 0"
  by (simp_all add: midnight_def)

lemma midnight_later_date:
  "valid_date d \<Longrightarrow> to_ordinal (wall_date w) < to_ordinal d \<Longrightarrow> w < midnight d"
  "valid_date d \<Longrightarrow> to_ordinal d \<le> to_ordinal (wall_date w) \<Longrightarrow> midnight d \<le> w"
proof -
  assume v: "valid_date d"
  show "w < midnight d" if "to_ordinal (wall_date w) < to_ordinal d"
    using combine_less [OF that, of "wall_time w" 0] by (simp add: midnight_def)
  show "midnight d \<le> w" if "to_ordinal d \<le> to_ordinal (wall_date w)"
  proof (cases "to_ordinal d = to_ordinal (wall_date w)")
    case True
    then show ?thesis using to_ordinal_inject [OF v valid_wall_date] midnight_le by simp
  next
    case False
    then have "midnight d < midnight (wall_date w)"
      using that combine_less [of d "wall_date w" 0 0] by (simp add: midnight_def)
    then show ?thesis using midnight_le [of w] by simp
  qed
qed

lemma date_eqI:
  "valid_date a \<Longrightarrow> valid_date b \<Longrightarrow> month_index a = month_index b \<Longrightarrow> date_day a = date_day b \<Longrightarrow> a = b"
  by (simp add: to_ordinal_inject [symmetric] to_ordinal_month)

lemma month_shift_back:
  assumes "valid_date d" and "date_day d \<le> 28"
  shows "month_shift (month_shift d (- 1)) 1 = d"
proof -
  have "date_day d \<le> month_length i" for i using month_length_bounds(1) [of i] assms(2) by linarith
  then show ?thesis using assms(1) by (intro date_eqI) (simp_all add: month_shift)
qed

lemma add_months_short:
  assumes "date_day d \<le> 28" and "add_months d n rule = Inr target"
  shows "target = Some (month_shift d n)"
proof -
  have "date_day d \<le> days_in_month y m" for y m using days_in_month_bounds(1) [of y m] assms(1) by linarith
  then show ?thesis using assms(2)
    by (auto simp: add_months_def month_shift_def make_date_def Let_def month_carry month_length_def and_then_Inr
        split: if_splits)
qed

subsection \<open>The aligned start\<close>

text \<open>One period after the aligned wall clock lies after the start.\<close>

definition starts_first :: "interval_unit \<Rightarrow> int \<Rightarrow> int \<Rightarrow> bool" where
  "starts_first unit al w \<longleftrightarrow> al \<le> w \<and> (\<forall>n \<ge> 1. w < wall_after unit n al)"

lemma starts_firstI:
  assumes "al \<le> w" and "w < wall_after unit 1 al"
  shows "starts_first unit al w"
proof -
  have "w < wall_after unit n al" if "1 \<le> n" for n
    using assms(2) wall_after_later [of 1 n unit al] that day_us_pos by (cases "n = 1") (simp, linarith)
  then show ?thesis using assms(1) by (simp add: starts_first_def)
qed

lemma wall_after_midnight:
  assumes "valid_date d"
  shows "wall_after Unit_month n (midnight d) = midnight (month_shift d n)"
    "wall_after Unit_year n (midnight d) = midnight (month_shift d (12 * n))"
  using assms by (simp_all add: wall_after_def) (simp_all add: midnight_def)

lemma starts_first_month:
  assumes "valid_date d" and "unit = Unit_month \<or> unit = Unit_year" and "midnight d \<le> w"
    and "month_index (wall_date w) < month_index d + (if unit = Unit_year then 12 else 1)"
  shows "starts_first unit (midnight d) w"
  using assms(2-4)
  by (intro starts_firstI)
    (auto simp: wall_after_midnight [OF assms(1)] month_shift [OF assms(1)] intro!: midnight_later_date(1) month_order)

lemma aligned_local_first:
  assumes "aligned_local c w = Inr al"
    and "cad_alignment c = Fixed_anchor_day \<Longrightarrow>
      cad_service_unit c \<in> {Unit_month, Unit_year} \<and> (\<exists>d. cad_anchor_day c = Some d \<and> 1 \<le> d \<and> d \<le> 28)"
  shows "starts_first (cad_service_unit c) al w"
proof -
  define D where "D = wall_date w"
  have D: "valid_date D" by (simp add: D_def)
  show ?thesis
  proof (cases "cad_alignment c")
    case Contract_anniversary
    then have "al = w" using assms(1) by (simp add: aligned_local_def)
    then show ?thesis using wall_after_later [of 0 1 "cad_service_unit c" w]
      by (intro starts_firstI) (simp_all add: less_le_trans [OF _ wall_after_later [of 0 1 "cad_service_unit c" w, simplified]])
  next
    case Calendar_period_start
    show ?thesis
    proof (cases "cad_service_unit c")
      case Unit_day
      then show ?thesis using assms(1) Calendar_period_start midnight_le [of w] less_midnight [of w]
        by (intro starts_firstI) (auto simp: aligned_local_def Let_def wall_after_def)
    next
      case Unit_week
      have "0 \<le> weekday D" "weekday D \<le> 6" by (simp_all add: weekday_def)
      then have "0 \<le> weekday D * day_us" "weekday D * day_us \<le> 6 * day_us" by (simp_all add: mult_right_mono less_imp_le [OF day_us_pos])
      moreover have "al = midnight D - weekday D * day_us"
        using assms(1) Calendar_period_start Unit_week
        by (auto simp: aligned_local_def Let_def in_range_def D_def split: if_splits)
      ultimately have "al \<le> w" "w < al + 7 * day_us"
        using midnight_le [of w] less_midnight [of w] unfolding D_def [symmetric] by linarith+
      then show ?thesis using Unit_week by (intro starts_firstI) (simp_all add: wall_after_def)
    next
      case Unit_month
      have v: "valid_date (Date (date_year D) (date_month D) 1)" "month_index (Date (date_year D) (date_month D) 1) = month_index D"
        using D days_in_month_bounds(1) [of "date_year D" "date_month D"] by (simp_all add: valid_date_def month_index_def)
      have "to_ordinal (Date (date_year D) (date_month D) 1) \<le> to_ordinal D"
        using D v by (simp add: to_ordinal_month valid_date_def)
      then show ?thesis using assms(1) Calendar_period_start Unit_month v
        by (auto simp: aligned_local_def Let_def D_def intro!: starts_first_month midnight_later_date(2))
    next
      case Unit_year
      have v: "valid_date (Date (date_year D) 1 1)" by (simp add: valid_date_def days_in_month_def)
      have i: "month_index (Date (date_year D) 1 1) \<le> month_index D" "month_index D < month_index (Date (date_year D) 1 1) + 12"
        using D by (simp_all add: valid_date_def month_index_def)
      have "to_ordinal (Date (date_year D) 1 1) \<le> to_ordinal D"
        using month_order [OF _ v D] i(1) D v
        by (cases "month_index (Date (date_year D) 1 1) = month_index D")
          (simp_all add: to_ordinal_month valid_date_def less_imp_le)
      then show ?thesis using assms(1) Calendar_period_start Unit_year v i(2)
        by (auto simp: aligned_local_def Let_def D_def intro!: starts_first_month midnight_later_date(2))
    qed
  next
    case Fixed_anchor_day
    then obtain d where d: "cad_anchor_day c = Some d" "1 \<le> d" "d \<le> 28"
      and unit: "cad_service_unit c = Unit_month \<or> cad_service_unit c = Unit_year" using assms(2) by auto
    define f where "f = Date (date_year D) (date_month D) d"
    have m: "min d (days_in_month (date_year D) (date_month D)) = d"
      using d(3) days_in_month_bounds(1) [of "date_year D" "date_month D"] by simp
    have f: "valid_date f" "month_index f = month_index D" "date_day f \<le> 28"
      using D d days_in_month_bounds(1) [of "date_year D" "date_month D"]
      by (simp_all add: f_def valid_date_def month_index_def)
    show ?thesis
    proof (cases "w < midnight f")
      case False
      then have "al = midnight f" using assms(1) Fixed_anchor_day d(1) m by (simp add: aligned_local_def Let_def f_def D_def)
      then show ?thesis using False f unit by (auto simp: D_def intro!: starts_first_month)
    next
      case True
      define p where "p = month_shift f (- 1)"
      have p: "valid_date p" "month_index p = month_index D - 1" "month_shift p 1 = f"
        using month_shift [OF f(1), of "- 1"] month_shift_back [OF f(1,3)] f(2) by (simp_all add: p_def)
      have "al = midnight p"
        using assms(1) Fixed_anchor_day d(1) m True f
        by (auto simp: aligned_local_def Let_def f_def [symmetric] D_def [symmetric] and_then_Inr p_def
            midnight_def [of "month_shift _ _"] dest: add_months_short)
      moreover have "midnight p \<le> w"
        using month_order [OF _ p(1) D] p(2) by (intro midnight_later_date(2) p(1)) (simp add: D_def)
      moreover have "wall_after Unit_month 1 (midnight p) = midnight f" by (simp add: wall_after_midnight [OF p(1)] p(3))
      moreover have "midnight f \<le> wall_after Unit_year 1 (midnight p)"
        using month_shift_less [OF p(1), of 1 12] p(3) combine_less [of f "month_shift p 12" 0 0]
        unfolding wall_after_midnight(2) [OF p(1)] by (simp add: midnight_def)
      ultimately show ?thesis using True unit by (auto intro!: starts_firstI)
    qed
  qed
qed

subsection \<open>The first period\<close>

text \<open>
  C23: a contract starts in its first service period. In a zone without transitions, aligned to the
  anniversary, to the calendar (days, weeks, months or years) or to an anchor day up to the 28th with
  periods of months or years, the aligned start is not after the start of the contract, and the first
  service period contains it.
\<close>

theorem first_period_contains_start:
  assumes "make_cadence zones c = Inr c" and "zones (cad_timezone c) = Some (fixed_zone off)"
    and "service_period zones c (Instant t) 0 = Inr v"
    and "cad_alignment c = Fixed_anchor_day \<Longrightarrow>
      cad_service_unit c \<in> {Unit_month, Unit_year} \<and> (\<exists>d. cad_anchor_day c = Some d \<and> d \<le> 28)"
  shows "contains v t"
proof -
  have run: "runs_in zones c (fixed_zone off)" using assms(2) by (simp add: runs_in_def)
  have count: "1 \<le> cad_service_count c" using made_counts [OF assms(1)] by simp
  from assms(3) obtain a where a: "align_instant zones c t = Inr a"
    "nth_interval zones c a (cad_service_unit c) (cad_service_count c) 0 = Inr v"
    by (auto simp: service_period_def elim!: period_parts)
  have s: "starts_at v = a" using nth_interval_parts(1) [OF a(2)] by (simp add: boundary_def)
  have e: "ends_at v = wall_after (cad_service_unit c) (cad_service_count c) (a + off) - off"
    using nth_interval_parts(2) [OF a(2)] shift_utc [OF run] by (simp add: boundary_def)
  have anchor: "1 \<le> d" if "cad_alignment c = Fixed_anchor_day" "cad_anchor_day c = Some d" for d
    using assms(1) that by (auto simp: make_cadence_def split: if_splits)
  have "starts_first (cad_service_unit c) (a + off) (t + off)"
  proof (cases "cad_alignment c = Contract_anniversary")
    case True
    then have "aligned_local c (t + off) = Inr (a + off)" using a(1) by (simp add: align_instant_def aligned_local_def)
    then show ?thesis by (rule aligned_local_first) (simp add: True)
  next
    case False
    then have "aligned_local c (t + off) = Inr (a + off)"
      using a(1) assms(2) by (auto simp: align_instant_def zone_of_def and_then_Inr to_wall_def to_utc_def in_range_def split: if_splits)
    then show ?thesis using assms(4) anchor by (intro aligned_local_first) auto
  qed
  then show ?thesis using count by (auto simp: contains_def s e starts_first_def)
qed

theorem first_period_contains_start_witness:
  "contains (Interval (lagos 2026 1 31 9) (lagos 2026 2 28 9)) (lagos 2026 1 31 9)"
  by (rule first_period_contains_start [OF sample_made _ sample_period(1)]) (simp_all add: sample_cadence_def lagos_zones_def)

text \<open>
  The bound on the anchor day is needed. The code moves back from the anchor day already clamped to the
  month of the start, and then counts every boundary from that date: a contract anchored on day 31 that
  starts on 30 March is aligned to 28 February, its first period ends on 28 March, before it starts, and no
  later boundary is on day 31 again.
\<close>

definition anchored_cadence :: cadence where
  "anchored_cadence = sample_cadence\<lparr>cad_alignment := Fixed_anchor_day, cad_anchor_day := Some 31\<rparr>"

lemma anchored_made: "make_cadence lagos_zones anchored_cadence = Inr anchored_cadence"
  by (simp add: make_cadence_def anchored_cadence_def sample_cadence_def zone_of_def lagos_zones_def)

lemma anchored_start_outside_first_period:
  "align_instant lagos_zones anchored_cadence (lagos 2026 3 30 12) = Inr (lagos 2026 2 28 0)"
  "service_period lagos_zones anchored_cadence (Instant (lagos 2026 3 30 12)) 0 =
     Inr (Interval (lagos 2026 2 28 0) (lagos 2026 3 28 0))"
  "\<not> contains (Interval (lagos 2026 2 28 0) (lagos 2026 3 28 0)) (lagos 2026 3 30 12)"
  "service_period lagos_zones anchored_cadence (Instant (lagos 2026 3 30 12)) 2 =
     Inr (Interval (lagos 2026 4 28 0) (lagos 2026 5 28 0))"
  by (simp_all add: cadence_eval anchored_cadence_def sample_cadence_def contains_def)

text \<open>Under the strict rule the boundary may even be left after the start of the contract.\<close>

lemma strict_anchor_after_start:
  "align_instant lagos_zones (anchored_cadence\<lparr>cad_end_of_month := Strict_same_day_or_skip\<rparr>) (lagos 2026 3 30 12) =
     Inr (lagos 2026 3 31 0)"
  by (simp_all add: cadence_eval anchored_cadence_def sample_cadence_def)

end
