(* ===== verification/Proration.thy ===== *)
theory Proration
  imports Cadence_Start
begin

section \<open>Proration and rate units\<close>

text \<open>
  Models \<open>proration_factor\<close> and \<open>rate_units_in\<close> of \<open>app/services/billing/cadence.py\<close>. Quotients are those
  of the decimal context. The seconds of an interval are exact: a duration below 272 years survives its
  way through \<open>float\<close> and \<open>str\<close>.
\<close>

subsection \<open>The two measures\<close>

definition total_seconds_of :: "interval \<Rightarrow> rat" where
  "total_seconds_of v = of_int (duration v) / 1000000"

definition dec_div :: "rat \<Rightarrow> rat \<Rightarrow> rat" where
  "dec_div a b = to_context (a / b)"

definition local_dates :: "interval \<Rightarrow> zone \<Rightarrow> cadence_error + date \<times> date" where
  "local_dates v z =
     and_then (to_wall z (starts_at v)) (\<lambda>s. and_then (to_wall z (ends_at v)) (\<lambda>e. Inr (wall_date s, wall_date e)))"

definition calendar_day_span :: "interval \<Rightarrow> zone \<Rightarrow> cadence_error + int" where
  "calendar_day_span v z = and_then (local_dates v z) (\<lambda>(s, e). Inr (to_ordinal e - to_ordinal s))"

definition proration_factor :: "zone_db \<Rightarrow> cadence \<Rightarrow> interval \<Rightarrow> interval \<Rightarrow> cadence_error + rat" where
  "proration_factor zones c v covered =
     (if \<not> (starts_at v \<le> starts_at covered \<and> ends_at covered \<le> ends_at v) then Inl Covered_outside_period
      else case cad_proration c of
          No_proration \<Rightarrow> Inr 1
        | Full_period \<Rightarrow> Inr 1
        | Actual_elapsed_time \<Rightarrow>
            (let whole = total_seconds_of v; part = total_seconds_of covered in
             Inr (if 0 < whole then dec_div part whole else 0))
        | Actual_calendar_days \<Rightarrow>
            and_then (zone_of zones c) (\<lambda>z.
            and_then (calendar_day_span v z) (\<lambda>period_days.
            and_then (calendar_day_span covered z) (\<lambda>covered_days.
              Inr (if period_days \<le> 0 then 0 else dec_div (of_int covered_days) (of_int period_days))))))"

definition rate_units_in :: "zone_db \<Rightarrow> cadence \<Rightarrow> interval \<Rightarrow> cadence_error + rat" where
  "rate_units_in zones c v =
     and_then (zone_of zones c) (\<lambda>z.
     case cad_rate_unit c of
       Unit_day \<Rightarrow> and_then (calendar_day_span v z) (\<lambda>d. Inr (of_int d))
     | Unit_week \<Rightarrow> and_then (calendar_day_span v z) (\<lambda>d. Inr (dec_div (of_int d) 7))
     | _ \<Rightarrow> and_then (local_dates v z) (\<lambda>(s, e).
         (let n = (date_year e - date_year s) * 12 + (date_month e - date_month s);
              months = (if date_day e < date_day s then n - 1 else n) in
          Inr (if cad_rate_unit c = Unit_month then of_int months else dec_div (of_int months) 12))))"

subsection \<open>Proration\<close>

text \<open>A zone in which later instants never fall on an earlier date.\<close>

definition dates_in_order :: "zone \<Rightarrow> bool" where
  "dates_in_order z \<longleftrightarrow> (\<forall>s t. s \<le> t \<longrightarrow> local_of z s div day_us \<le> local_of z t div day_us)"

lemma fixed_zone_dates [simp]: "dates_in_order (fixed_zone off)"
  by (simp add: dates_in_order_def zdiv_mono1)

lemma to_wall_Inr: "to_wall z t = Inr w \<longleftrightarrow> w = local_of z t \<and> clock_ok (local_of z t)"
  by (auto simp: to_wall_def in_range_def local_of_def)

lemma calendar_day_span_Inr:
  "calendar_day_span v z = Inr n \<longleftrightarrow>
     n = local_of z (ends_at v) div day_us - local_of z (starts_at v) div day_us \<and>
     clock_ok (local_of z (starts_at v)) \<and> clock_ok (local_of z (ends_at v))"
  by (auto simp: calendar_day_span_def local_dates_def and_then_Inr to_wall_Inr wall_date_def from_ordinal)

lemma dec_div_unit:
  assumes "0 \<le> a" and "a \<le> b"
  shows "0 \<le> dec_div a b" "dec_div a b \<le> 1" "\<bar>dec_div a b - a / b\<bar> \<le> a / b * (5 / 10 ^ 28)"
proof -
  have q: "0 \<le> a / b" "a / b \<le> 1" using assms by (auto simp: divide_le_eq_1)
  show "0 \<le> dec_div a b" "dec_div a b \<le> 1" unfolding dec_div_def
    using q by (intro to_context_nonneg to_context_le_1; simp)+
  show "\<bar>dec_div a b - a / b\<bar> \<le> a / b * (5 / 10 ^ 28)"
    unfolding dec_div_def using to_context_error [of "a / b"] q(1) by simp
qed

text \<open>The exact ratio a proration policy declares.\<close>

definition exact_ratio :: "zone \<Rightarrow> cadence \<Rightarrow> interval \<Rightarrow> interval \<Rightarrow> rat" where
  "exact_ratio z c v covered =
     (case cad_proration c of
        Actual_elapsed_time \<Rightarrow> of_int (duration covered) / of_int (duration v)
      | Actual_calendar_days \<Rightarrow>
          of_int (local_of z (ends_at covered) div day_us - local_of z (starts_at covered) div day_us) /
          of_int (local_of z (ends_at v) div day_us - local_of z (starts_at v) div day_us)
      | _ \<Rightarrow> 1)"

text \<open>
  C24: a proration factor lies between 0 and 1 and is the declared ratio to 28 digits. For a part of a
  period, in a zone whose dates follow the instants, the factor is the ratio of the elapsed time or of the
  local calendar days, rounded by half a unit of its 28th digit at most, and the whole period has factor 1
  (unless, by calendar days, it ends on the day it starts; then the factor is 0).
\<close>

theorem proration_is_declared_ratio:
  assumes "proration_factor zones c v u = Inr f" and "zones (cad_timezone c) = Some z" and "dates_in_order z"
    and "starts_at v < ends_at v" and "starts_at u < ends_at u"
  shows "0 \<le> f \<and> f \<le> 1 \<and> \<bar>f - exact_ratio z c v u\<bar> \<le> exact_ratio z c v u * (5 / 10 ^ 28) \<and>
    (u = v \<longrightarrow> f = 1 \<or> f = 0 \<and> cad_proration c = Actual_calendar_days \<and>
      local_of z (starts_at v) div day_us = local_of z (ends_at v) div day_us)"
proof -
  have inside: "starts_at v \<le> starts_at u" "ends_at u \<le> ends_at v"
    using assms(1) by (auto simp: proration_factor_def split: if_splits)
  have date: "local_of z s div day_us \<le> local_of z t div day_us" if "s \<le> t" for s t
    using assms(3) that by (simp add: dates_in_order_def)
  note in_order = date [OF inside(1)] date [OF inside(2)] date [OF less_imp_le [OF assms(5)]]
  show ?thesis
  proof (cases "cad_proration c")
    case Actual_elapsed_time
    have d: "0 < duration u" "duration u \<le> duration v"
      using inside assms(4,5) by (simp_all add: duration_def)
    have f: "f = dec_div (total_seconds_of u) (total_seconds_of v)"
      using assms(1) inside d Actual_elapsed_time by (auto simp: proration_factor_def total_seconds_of_def Let_def)
    have r: "total_seconds_of u / total_seconds_of v = exact_ratio z c v u"
      using d Actual_elapsed_time by (simp add: total_seconds_of_def exact_ratio_def)
    have s: "0 \<le> total_seconds_of u" "total_seconds_of u \<le> total_seconds_of v" "total_seconds_of v \<noteq> 0"
      using d by (simp_all add: total_seconds_of_def divide_right_mono)
    show ?thesis using dec_div_unit [OF s(1,2)] s(3) unfolding f r by (auto simp: dec_div_def)
  next
    case Actual_calendar_days
    define p where "p = local_of z (ends_at v) div day_us - local_of z (starts_at v) div day_us"
    define q where "q = local_of z (ends_at u) div day_us - local_of z (starts_at u) div day_us"
    have q: "0 \<le> q" "q \<le> p" using in_order by (simp_all add: p_def q_def)
    have f: "f = (if p \<le> 0 then 0 else dec_div (of_int q) (of_int p))"
      using assms(1,2) inside Actual_calendar_days
      by (auto simp: proration_factor_def zone_of_def and_then_Inr calendar_day_span_Inr p_def q_def)
    have r: "exact_ratio z c v u = of_int q / of_int p"
      using Actual_calendar_days by (simp add: exact_ratio_def p_def q_def)
    show ?thesis
    proof (cases "p \<le> 0")
      case True
      then have pq: "p = 0" "q = 0" using q by simp_all
      then have "local_of z (starts_at v) div day_us = local_of z (ends_at v) div day_us" by (simp add: p_def)
      then show ?thesis using Actual_calendar_days by (simp add: f r pq)
    next
      case False
      have "0 \<le> (of_int q :: rat)" "(of_int q :: rat) \<le> of_int p" using q by simp_all
      from dec_div_unit [OF this] False show ?thesis
        unfolding r f by (auto simp: dec_div_def p_def q_def)
    qed
  qed (use assms(1) inside in \<open>auto simp: proration_factor_def exact_ratio_def\<close>)
qed

text \<open>Three days of a month of 31, from 1 January: the factor is not exact, and it has 29 decimal places.\<close>

definition prorated_cadence :: cadence where
  "prorated_cadence = sample_cadence\<lparr>cad_proration := Actual_calendar_days\<rparr>"

lemma sample_proration:
  "proration_factor lagos_zones prorated_cadence (Interval (lagos 2026 1 1 0) (lagos 2026 2 1 0))
     (Interval (lagos 2026 1 1 0) (lagos 2026 1 4 0)) = Inr (9677419354838709677419354839 / 10 ^ 29)"
proof -
  have "dec_div 3 31 = 9677419354838709677419354839 / 10 ^ 29"
    using half_even_eq [of 9677419354838709677419354839 "3 / 31 * 10 ^ 29"]
    unfolding dec_div_def by (subst to_context_at [where k = 29]) simp_all
  then show ?thesis
    by (simp add: proration_factor_def prorated_cadence_def sample_cadence_def zone_of_def lagos_zones_def
        calendar_day_span_Inr and_then_Inr lagos_def combine_order fixed_zone_def local_dates_def calendar_day_span_def to_wall_def in_range_def
        calendar_eval)
qed

subsection \<open>Rate units\<close>

lemma boundary_local:
  assumes "zones (cad_timezone c) = Some (fixed_zone off)" and "boundary zones c a unit count j = Inr b"
  shows "b + off = wall_after unit (count * j) (a + off)"
proof (cases "j = 0")
  case False
  then have "shift zones c a unit (count * j) = Inr b" using assms(2) by (simp add: boundary_def)
  from shift_utc [OF _ this, of "fixed_zone off"] show ?thesis using assms(1) by (simp add: runs_in_def)
qed (use assms(2) in \<open>simp add: boundary_def\<close>)

lemma wall_date_after:
  "unit = Unit_month \<or> unit = Unit_year \<Longrightarrow>
     wall_date (wall_after unit n w) = month_shift (wall_date w) (n * (if unit = Unit_year then 12 else 1))"
  by (auto simp: wall_after_def month_shift mult.commute)

lemma month_units_Inr:
  assumes "rate_units_in zones c v = Inr u" and "zones (cad_timezone c) = Some z" and "cad_rate_unit c = Unit_month"
    and "s = wall_date (local_of z (starts_at v))" and "e = wall_date (local_of z (ends_at v))"
  shows "u = of_int (month_index e - month_index s - (if date_day e < date_day s then 1 else 0))"
  using assms
  by (auto simp: rate_units_in_def zone_of_def and_then_Inr local_dates_def to_wall_Inr month_index_def Let_def)

text \<open>
  The months a period is rated for. In a zone without transitions, a cadence of months or years with a
  monthly rate rates its period \<open>k\<close> for exactly the months of its service interval, with one exception: when
  the period ends on a clamped day that lies below the day it starts on, one month less is rated.
\<close>

theorem period_rate_months:
  assumes "zones (cad_timezone c) = Some (fixed_zone off)" and "cad_rate_unit c = Unit_month"
    and "cad_service_unit c = Unit_month \<or> cad_service_unit c = Unit_year"
    and "align_instant zones c t = Inr a" and "d = wall_date (a + off)"
    and "months = cad_service_count c * (if cad_service_unit c = Unit_year then 12 else 1)"
    and "service_period zones c (Instant t) k = Inr v" and "rate_units_in zones c v = Inr u"
  shows "u = of_int months -
    (if min (date_day d) (month_length (month_index d + months * (k + 1))) <
        min (date_day d) (month_length (month_index d + months * k)) then 1 else 0)"
proof -
  from assms(4,7) have k: "0 \<le> k" "nth_interval zones c a (cad_service_unit c) (cad_service_count c) k = Inr v"
    by (auto simp: service_period_def elim!: period_parts)
  note b = nth_interval_parts [OF k(2,1)]
  have s: "wall_date (starts_at v + off) = month_shift d (months * k)"
    and e: "wall_date (ends_at v + off) = month_shift d (months * (k + 1))"
    using boundary_local [where zones = zones and c = c, OF assms(1) b(1)]
      boundary_local [where zones = zones and c = c, OF assms(1) b(2)]
    by (simp_all add: wall_date_after [OF assms(3)] assms(5,6) mult.assoc mult.left_commute mult.commute)
  have "valid_date d" by (simp add: assms(5))
  note shifted = month_shift [OF this]
  have i: "month_index (month_shift d (months * (k + 1))) - month_index (month_shift d (months * k)) = months"
    by (simp add: shifted distrib_left)
  have less_one: "of_int (m - (if P then 1 else 0)) = (of_int m - (if P then 1 else 0) :: rat)" for m P by simp
  show ?thesis
    using month_units_Inr [OF assms(8,1,2) refl refl] by (simp only: local_of_fixed s e i shifted(3) less_one)
qed

text \<open>
  The exception is real: a contract on the 31st of January with a monthly rate is rated for no month at all in
  its first period, which ends on the 28th of February, and for one month in the second.
\<close>

definition monthly_rate_cadence :: cadence where
  "monthly_rate_cadence = sample_cadence\<lparr>cad_rate_basis := Per_rate_unit\<rparr>"

lemma sample_rate_units:
  "service_period lagos_zones monthly_rate_cadence (Instant (lagos 2026 1 31 9)) 0 =
     Inr (Interval (lagos 2026 1 31 9) (lagos 2026 2 28 9))"
  "rate_units_in lagos_zones monthly_rate_cadence (Interval (lagos 2026 1 31 9) (lagos 2026 2 28 9)) = Inr 0"
  "rate_units_in lagos_zones monthly_rate_cadence (Interval (lagos 2026 2 28 9) (lagos 2026 3 31 9)) = Inr 1"
  by (simp_all add: cadence_eval monthly_rate_cadence_def sample_cadence_def rate_units_in_def local_dates_def)

theorem period_rate_months_witness:
  "(0 :: rat) = of_int 1 - (if min 31 (month_length (month_index (Date 2026 2 1))) < min 31 (month_length (month_index (Date 2026 1 31)))
     then 1 else 0)"
proof -
  have zone: "lagos_zones (cad_timezone monthly_rate_cadence) = Some (fixed_zone hour_us)"
    by (simp add: monthly_rate_cadence_def sample_cadence_def lagos_zones_def)
  have align: "align_instant lagos_zones monthly_rate_cadence (lagos 2026 1 31 9) = Inr (lagos 2026 1 31 9)"
    by (simp add: align_instant_def monthly_rate_cadence_def sample_cadence_def)
  have d: "Date 2026 1 31 = wall_date (lagos 2026 1 31 9 + hour_us)" by (simp add: lagos_def calendar_eval)
  from period_rate_months [OF zone _ _ align d refl sample_rate_units(1,2)] show ?thesis
    by (simp add: monthly_rate_cadence_def sample_cadence_def month_index_def)
qed

theorem proration_is_declared_ratio_witness:
  "0 \<le> (9677419354838709677419354839 / 10 ^ 29 :: rat) \<and> (9677419354838709677419354839 / 10 ^ 29 :: rat) \<le> 1"
proof -
  have zone: "lagos_zones (cad_timezone prorated_cadence) = Some (fixed_zone hour_us)"
    by (simp add: prorated_cadence_def sample_cadence_def lagos_zones_def)
  have "starts_at (Interval (lagos 2026 1 1 0) (lagos 2026 2 1 0)) < ends_at (Interval (lagos 2026 1 1 0) (lagos 2026 2 1 0))"
    "starts_at (Interval (lagos 2026 1 1 0) (lagos 2026 1 4 0)) < ends_at (Interval (lagos 2026 1 1 0) (lagos 2026 1 4 0))"
    by (simp_all add: lagos_def calendar_eval)
  from proration_is_declared_ratio [OF sample_proration zone fixed_zone_dates this] show ?thesis by blast
qed

end
