(* ===== verification/Rating.thy ===== *)
theory Rating
  imports Proration
begin

section \<open>Rating\<close>

text \<open>
  Models \<open>app/services/billing/rating.py\<close>: what one contract line costs for one period, from the contract
  version, the line and the tax rates, and the same result again from the recorded inputs alone. Errors of
  the cadence pass through. The digest over the recorded inputs is the parameter \<open>digest\<close>; it is given
  the inputs themselves, with each decimal in normal form, since the text that is hashed determines them.
\<close>

subsection \<open>Contracts as rating reads them\<close>

datatype charge_component =
  Recurring_service | Installation | Activation | Addon | Equipment | Usage | Other_charge
datatype accounting_treatment = Receivable | Prepaid_consumption | Non_cash_grant
datatype contract_source = Sales_order_line | Plan_change | Renewal | Staff_correction | Migration_backfill

record contract_version =
  cv_id :: string
  cv_contract :: string
  cv_account :: string
  cv_subscription :: string
  cv_source_kind :: contract_source
  cv_source_id :: string
  cv_source_version :: int
  cv_starts_at :: int
  cv_ends_at :: "int option"
  cv_cadence :: cadence
  cv_tax_code :: "string option"
  cv_tax_inclusive :: bool

record contract_line =
  ln_version :: string
  ln_key :: string
  ln_component :: charge_component
  ln_quantity :: rat
  ln_unit_price :: rat
  ln_currency :: string
  ln_treatment :: accounting_treatment
  ln_is_finite :: bool
  ln_tax_code :: "string option"

record tax_rate =
  tx_id :: string
  tx_code :: "string option"
  tx_rate :: rat
  tx_active :: bool

record billing_db =
  bd_versions :: "contract_version list"
  bd_lines :: "contract_line list"
  bd_taxes :: "tax_rate list"

datatype rating_error =
    Contract_version_not_found string | Contract_line_not_found string | Multiple_lines_found
  | Unknown_tax_treatment string | Ambiguous_tax_treatment string | Usage_rating_requires_observation
  | Unsupported_policy_version string | Rating_fingerprint_mismatch | Coverage_outside_period
  | Invalid_numeric_input | Tax_free_with_tax_source | Tax_without_identity
  | Cadence_failure cadence_error | Invalid_decimal_operation

subsection \<open>Provenance\<close>

record rating_provenance =
  pv_version :: string
  pv_line_key :: string
  pv_policy :: string
  pv_period :: interval
  pv_currency :: string
  pv_covered :: interval
  pv_unit_price :: rat
  pv_quantity :: rat
  pv_rate_basis :: rate_basis
  pv_rate_unit :: interval_unit
  pv_rate_quantity :: rat
  pv_timezone :: string
  pv_proration_policy :: proration_policy
  pv_rate_units :: rat
  pv_proration :: rat
  pv_tax_code :: "string option"
  pv_tax_rate_id :: "string option"
  pv_tax_percent :: rat
  pv_tax_inclusive :: bool
  pv_fingerprint :: string

record rated =
  rt_version :: string
  rt_line_key :: string
  rt_period :: interval
  rt_currency :: string
  rt_net :: rat
  rt_tax :: rat
  rt_gross :: rat
  rt_provenance :: rating_provenance

text \<open>\<open>_fingerprint_payload\<close>: everything but the fingerprint, decimals as \<open>normalize()\<close> leaves them.\<close>

definition fingerprint_payload :: "rating_provenance \<Rightarrow> rating_provenance" where
  "fingerprint_payload p = p\<lparr>
     pv_unit_price := to_context (pv_unit_price p), pv_quantity := to_context (pv_quantity p),
     pv_rate_quantity := to_context (pv_rate_quantity p), pv_rate_units := to_context (pv_rate_units p),
     pv_proration := to_context (pv_proration p), pv_tax_percent := to_context (pv_tax_percent p),
     pv_fingerprint := []\<rparr>"

definition rating_input_fingerprint :: "(rating_provenance \<Rightarrow> string) \<Rightarrow> rating_provenance \<Rightarrow> string" where
  "rating_input_fingerprint digest p = digest (fingerprint_payload p)"

definition with_fingerprint :: "(rating_provenance \<Rightarrow> string) \<Rightarrow> rating_provenance \<Rightarrow> rating_provenance" where
  "with_fingerprint digest p = p\<lparr>pv_fingerprint := rating_input_fingerprint digest p\<rparr>"

definition rating_policy_version :: string where
  "rating_policy_version = ''billing-rating-v1''"

subsection \<open>The frozen arithmetic\<close>

definition dec_mul :: "rat \<Rightarrow> rat \<Rightarrow> rat" where
  "dec_mul a b = to_context (a * b)"

definition money :: "rat \<Rightarrow> rating_error + rat" where
  "money x = (case quantize_cents x of None \<Rightarrow> Inl Invalid_decimal_operation | Some v \<Rightarrow> Inr v)"

definition rate_v1 :: "rating_provenance \<Rightarrow> rating_error + rated" where
  "rate_v1 p =
     (let raw_net = dec_mul (dec_mul (dec_mul (pv_unit_price p) (pv_quantity p)) (pv_rate_units p)) (pv_proration p);
          tax_rate = dec_div (pv_tax_percent p) 100;
          result = (\<lambda>net tax gross. \<lparr>rt_version = pv_version p, rt_line_key = pv_line_key p, rt_period = pv_period p,
            rt_currency = pv_currency p, rt_net = net, rt_tax = tax, rt_gross = gross, rt_provenance = p\<rparr>) in
      if pv_tax_inclusive p \<and> 0 < tax_rate then
        and_then (money raw_net) (\<lambda>gross.
        and_then (money (dec_div gross (to_context (1 + tax_rate)))) (\<lambda>net.
          Inr (result net (to_context (gross - net)) gross)))
      else
        and_then (money raw_net) (\<lambda>net.
        and_then (money (dec_mul net tax_rate)) (\<lambda>tax.
          Inr (result net tax (to_context (net + tax))))))"

definition rate_from_provenance :: "(rating_provenance \<Rightarrow> string) \<Rightarrow> rating_provenance \<Rightarrow> rating_error + rated" where
  "rate_from_provenance digest p =
     (if pv_policy p \<noteq> rating_policy_version then Inl (Unsupported_policy_version (pv_policy p))
      else if rating_input_fingerprint digest p \<noteq> pv_fingerprint p then Inl Rating_fingerprint_mismatch
      else if starts_at (pv_covered p) < starts_at (pv_period p) \<or> ends_at (pv_period p) < ends_at (pv_covered p)
        then Inl Coverage_outside_period
      else if pv_unit_price p < 0 \<or> pv_quantity p \<le> 0 \<or> pv_rate_quantity p \<le> 0 \<or> pv_rate_units p < 0 \<or>
        \<not> (0 \<le> pv_proration p \<and> pv_proration p \<le> 1) \<or> pv_tax_percent p < 0 then Inl Invalid_numeric_input
      else if pv_tax_code p = None \<and> (pv_tax_rate_id p \<noteq> None \<or> pv_tax_percent p \<noteq> 0) then Inl Tax_free_with_tax_source
      else if pv_tax_code p \<noteq> None \<and> pv_tax_rate_id p = None then Inl Tax_without_identity
      else rate_v1 p)"

subsection \<open>Rating a line\<close>

definition effective_tax_rate ::
    "billing_db \<Rightarrow> contract_version \<Rightarrow> contract_line \<Rightarrow> rating_error + string option \<times> string option \<times> rat" where
  "effective_tax_rate db v l =
     (case opt_or (ln_tax_code l) (cv_tax_code v) of
        None \<Rightarrow> Inr (None, None, 0)
      | Some code \<Rightarrow>
          (case filter (\<lambda>r. tx_code r = Some code \<and> tx_active r) (bd_taxes db) of
             [] \<Rightarrow> Inl (Unknown_tax_treatment code)
           | [r] \<Rightarrow> Inr (Some code, Some (tx_id r), tx_rate r)
           | _ \<Rightarrow> Inl (Ambiguous_tax_treatment code)))"

definition lift_cadence :: "cadence_error + 'a \<Rightarrow> rating_error + 'a" where
  "lift_cadence m = (case m of Inl e \<Rightarrow> Inl (Cadence_failure e) | Inr a \<Rightarrow> Inr a)"

text \<open>The units and the factor of \<open>_net_for_period\<close>; its first component is not used.\<close>

definition units_for_period ::
    "zone_db \<Rightarrow> cadence \<Rightarrow> interval \<Rightarrow> interval option \<Rightarrow> rating_error + rat \<times> rat" where
  "units_for_period zones c v covered =
     and_then (case cad_rate_basis c of
         Fixed_per_service_period \<Rightarrow> Inr 1
       | Per_quantity \<Rightarrow> Inr 1
       | Per_rate_unit \<Rightarrow>
           and_then (lift_cadence (rate_units_in zones c v)) (\<lambda>u. Inr (dec_div u (cad_rate_quantity c)))
       | Usage_metered \<Rightarrow> Inl Usage_rating_requires_observation) (\<lambda>units.
     and_then (case covered of
         None \<Rightarrow> Inr 1
       | Some w \<Rightarrow> lift_cadence (proration_factor zones c v w)) (\<lambda>factor.
       Inr (units, factor)))"

definition find_version :: "billing_db \<Rightarrow> string \<Rightarrow> contract_version option" where
  "find_version db i = List.find (\<lambda>v. cv_id v = i) (bd_versions db)"

definition find_line :: "billing_db \<Rightarrow> string \<Rightarrow> string \<Rightarrow> rating_error + contract_line" where
  "find_line db i key =
     (case filter (\<lambda>l. ln_version l = i \<and> ln_key l = key) (bd_lines db) of
        [] \<Rightarrow> Inl (Contract_line_not_found key)
      | [l] \<Rightarrow> Inr l
      | _ \<Rightarrow> Inl Multiple_lines_found)"

definition cadence_of :: "zone_db \<Rightarrow> contract_version \<Rightarrow> cadence_error + cadence" where
  "cadence_of zones v = make_cadence zones (cv_cadence v)"

definition line_provenance :: "contract_version \<Rightarrow> contract_line \<Rightarrow> cadence \<Rightarrow> string \<Rightarrow> interval \<Rightarrow> interval option \<Rightarrow>
    rat \<Rightarrow> rat \<Rightarrow> string option \<Rightarrow> string option \<Rightarrow> rat \<Rightarrow> rating_provenance" where
  "line_provenance ver l c key v covered units factor code tax_id percent =
     \<lparr>pv_version = cv_id ver, pv_line_key = key, pv_policy = rating_policy_version, pv_period = v,
      pv_currency = ln_currency l, pv_covered = (case covered of None \<Rightarrow> v | Some w \<Rightarrow> w),
      pv_unit_price = ln_unit_price l, pv_quantity = ln_quantity l, pv_rate_basis = cad_rate_basis c,
      pv_rate_unit = cad_rate_unit c, pv_rate_quantity = cad_rate_quantity c, pv_timezone = cad_timezone c,
      pv_proration_policy = cad_proration c, pv_rate_units = units, pv_proration = factor,
      pv_tax_code = code, pv_tax_rate_id = tax_id, pv_tax_percent = percent,
      pv_tax_inclusive = cv_tax_inclusive ver, pv_fingerprint = []\<rparr>"

definition rate_line_period :: "(rating_provenance \<Rightarrow> string) \<Rightarrow> zone_db \<Rightarrow> billing_db \<Rightarrow>
    string \<Rightarrow> string \<Rightarrow> interval \<Rightarrow> interval option \<Rightarrow> rating_error + rated" where
  "rate_line_period digest zones db i key v covered =
     (case find_version db i of
        None \<Rightarrow> Inl (Contract_version_not_found i)
      | Some ver \<Rightarrow>
          and_then (find_line db i key) (\<lambda>l.
          and_then (lift_cadence (cadence_of zones ver)) (\<lambda>c.
          and_then (units_for_period zones c v covered) (\<lambda>(units, factor).
          and_then (effective_tax_rate db ver l) (\<lambda>(code, tax_id, percent).
            rate_from_provenance digest (with_fingerprint digest
              (line_provenance ver l c key v covered units factor code tax_id percent)))))))"

end
