(* ===== verification/Obligations.thy ===== *)
theory Obligations
  imports Rating
begin

section \<open>Billing obligations\<close>

text \<open>
  Models \<open>app/services/billing/obligations.py\<close> and the table \<open>billing_obligations\<close>: scheduling one
  obligation per contract line, version and period with its recorded rating, replaying a recorded rating,
  opening and resolving. A command either returns a value and a new table or an error; its transaction is
  then rolled back. The event the shadow consumer stages, the receipt of its input and logging are left out.
\<close>

subsection \<open>The table\<close>

datatype obligation_state =
  Scheduled | Open_state | Partially_resolved | Resolved | Canceled | Written_off
datatype resolution_kind =
  Settlement | Credit | Prepaid_consumption_of | Grant | Waiver | Write_off | Pre_earning_cancellation | Reversal
datatype record_authority = Shadow | Authoritative

text \<open>
  \<open>ob_inputs\<close> are the \<open>rating_\<close> columns of a row, \<open>None\<close> when the row is not marked complete or lacks one
  of the required ones. Identity, period and currency of a recorded rating are the row's own columns.
\<close>

record obligation =
  ob_id :: string
  ob_contract :: string
  ob_version :: string
  ob_line_key :: string
  ob_account :: string
  ob_subscription :: string
  ob_authority :: record_authority
  ob_component :: charge_component
  ob_source_kind :: contract_source
  ob_source_id :: string
  ob_source_version :: int
  ob_start :: int
  ob_end :: int
  ob_currency :: string
  ob_net :: rat
  ob_tax :: rat
  ob_gross :: rat
  ob_inputs :: "rating_provenance option"
  ob_resolved :: rat
  ob_treatment :: accounting_treatment
  ob_timing :: collection_timing
  ob_is_finite :: bool
  ob_state :: obligation_state
  ob_resolution :: "resolution_kind option"
  ob_opened_at :: "int option"
  ob_resolved_at :: "int option"
  ob_due_at :: "int option"
  ob_idempotency_key :: string

datatype obligation_error =
    Missing_idempotency_key | Version_not_found string | Line_not_found string | More_than_one_line
  | Period_outside_version | Duplicate_obligation | Provenance_conflict string
  | Incomplete_provenance string | Recorded_provenance_invalid rating_error | Recorded_result_mismatch
  | Rating_failed rating_error | Cadence_failed cadence_error | Numeric_overflow
  | Obligation_not_found string | Invalid_transition obligation_state | Invalid_amount | Exceeds_obligation
  | Constraint_violation

subsection \<open>Recorded ratings\<close>

definition from_cadence :: "cadence_error + 'a \<Rightarrow> obligation_error + 'a" where
  "from_cadence m = (case m of Inl e \<Rightarrow> Inl (Cadence_failed e) | Inr a \<Rightarrow> Inr a)"

definition recorded_provenance :: "obligation \<Rightarrow> obligation_error + rating_provenance" where
  "recorded_provenance ob =
     (case ob_inputs ob of
        None \<Rightarrow> Inl (Incomplete_provenance (ob_id ob))
      | Some p \<Rightarrow>
          and_then (from_cadence (make_interval (ob_start ob) (ob_end ob))) (\<lambda>v.
          and_then (from_cadence (make_interval (starts_at (pv_covered p)) (ends_at (pv_covered p)))) (\<lambda>w.
            Inr (p\<lparr>pv_version := ob_version ob, pv_line_key := ob_line_key ob, pv_period := v,
                   pv_currency := ob_currency ob, pv_covered := w\<rparr>))))"

definition replay_recorded_rating :: "(rating_provenance \<Rightarrow> string) \<Rightarrow> obligation \<Rightarrow> obligation_error + rated" where
  "replay_recorded_rating digest ob =
     and_then (recorded_provenance ob) (\<lambda>p.
     case rate_from_provenance digest p of
       Inl Invalid_decimal_operation \<Rightarrow> Inl (Rating_failed Invalid_decimal_operation)
     | Inl e \<Rightarrow> Inl (Recorded_provenance_invalid e)
     | Inr r \<Rightarrow>
         if ob_currency ob \<noteq> rt_currency r \<or> ob_net ob \<noteq> rt_net r \<or> ob_tax ob \<noteq> rt_tax r \<or> ob_gross ob \<noteq> rt_gross r
         then Inl Recorded_result_mismatch else Inr r)"

subsection \<open>Columns and constraints\<close>

definition stored_inputs :: "rating_provenance \<Rightarrow> rating_provenance option" where
  "stored_inputs p =
     (case (to_scale 14 4 (pv_unit_price p), to_scale 14 4 (pv_quantity p), to_scale 14 4 (pv_rate_quantity p),
            to_scale 38 28 (pv_rate_units p), to_scale 38 28 (pv_proration p), to_scale 6 4 (pv_tax_percent p)) of
        (Some price, Some quantity, Some rate_quantity, Some units, Some factor, Some percent) \<Rightarrow>
          Some (p\<lparr>pv_unit_price := price, pv_quantity := quantity, pv_rate_quantity := rate_quantity,
                  pv_rate_units := units, pv_proration := factor, pv_tax_percent := percent\<rparr>)
      | _ \<Rightarrow> None)"

definition stored_row :: "obligation \<Rightarrow> obligation option" where
  "stored_row ob =
     (case (to_scale 14 4 (ob_net ob), to_scale 14 4 (ob_tax ob), to_scale 14 4 (ob_gross ob),
            to_scale 14 4 (ob_resolved ob), map_option stored_inputs (ob_inputs ob)) of
        (Some net, Some tax, Some gross, Some resolved, inputs) \<Rightarrow>
          if inputs = Some None then None
          else Some (ob\<lparr>ob_net := net, ob_tax := tax, ob_gross := gross, ob_resolved := resolved,
                        ob_inputs := map_option the inputs\<rparr>)
      | _ \<Rightarrow> None)"

definition inputs_allowed :: "obligation \<Rightarrow> rating_provenance \<Rightarrow> bool" where
  "inputs_allowed ob p \<longleftrightarrow>
     starts_at (pv_covered p) < ends_at (pv_covered p) \<and> ob_start ob \<le> starts_at (pv_covered p) \<and>
     ends_at (pv_covered p) \<le> ob_end ob \<and>
     0 \<le> pv_unit_price p \<and> 0 < pv_quantity p \<and> 0 < pv_rate_quantity p \<and> 0 \<le> pv_rate_units p \<and>
     0 \<le> pv_proration p \<and> pv_proration p \<le> 1 \<and> 0 \<le> pv_tax_percent p \<and>
     (pv_tax_code p = None \<and> pv_tax_rate_id p = None \<and> pv_tax_percent p = 0 \<or>
      pv_tax_code p \<noteq> None \<and> pv_tax_rate_id p \<noteq> None)"

definition row_allowed :: "obligation \<Rightarrow> bool" where
  "row_allowed ob \<longleftrightarrow> ob_start ob < ob_end ob \<and> 0 \<le> ob_net ob \<and> 0 \<le> ob_tax ob \<and> 0 \<le> ob_gross ob \<and>
     0 \<le> ob_resolved ob \<and> ob_resolved ob \<le> ob_gross ob \<and>
     (case ob_inputs ob of None \<Rightarrow> True | Some p \<Rightarrow> inputs_allowed ob p)"

definition same_identity :: "obligation \<Rightarrow> obligation \<Rightarrow> bool" where
  "same_identity a b \<longleftrightarrow>
     ob_line_key a = ob_line_key b \<and> ob_version a = ob_version b \<and> ob_component a = ob_component b \<and>
     ob_source_kind a = ob_source_kind b \<and> ob_source_id a = ob_source_id b \<and>
     ob_source_version a = ob_source_version b \<and> ob_start a = ob_start b \<and> ob_end a = ob_end b \<and>
     ob_currency a = ob_currency b"

text \<open>\<open>db.flush()\<close> of a new row: every integrity error is reported as a duplicate.\<close>

definition insert_row :: "obligation list \<Rightarrow> obligation \<Rightarrow> obligation_error + obligation list" where
  "insert_row rows ob =
     (case stored_row ob of
        None \<Rightarrow> Inl Numeric_overflow
      | Some r \<Rightarrow>
          if \<not> row_allowed r \<or> (\<exists>x \<in> set rows. same_identity x r \<or> ob_id x = ob_id r) then Inl Duplicate_obligation
          else Inr (rows @ [r]))"

subsection \<open>Scheduling\<close>

record schedule_command =
  sc_version :: string
  sc_line_key :: string
  sc_index :: int
  sc_covered :: "interval option"
  sc_due_at :: "int option"
  sc_key :: "string option"

record schedule_result =
  sr_id :: string
  sr_state :: obligation_state
  sr_authority :: record_authority
  sr_period :: interval
  sr_gross :: rat
  sr_fingerprint :: string
  sr_replayed :: bool

definition find_command_line :: "billing_db \<Rightarrow> string \<Rightarrow> string \<Rightarrow> obligation_error + contract_line" where
  "find_command_line db i key =
     (case find_line db i key of
        Inl Multiple_lines_found \<Rightarrow> Inl More_than_one_line
      | Inl _ \<Rightarrow> Inl (Line_not_found key)
      | Inr l \<Rightarrow> Inr l)"

definition period_rows :: "obligation list \<Rightarrow> string \<Rightarrow> string \<Rightarrow> interval \<Rightarrow> obligation list" where
  "period_rows rows version key v =
     filter (\<lambda>ob. ob_line_key ob = key \<and> ob_version ob = version \<and> ob_start ob = starts_at v \<and> ob_end ob = ends_at v) rows"

definition replayed_result ::
    "(rating_provenance \<Rightarrow> string) \<Rightarrow> schedule_command \<Rightarrow> interval \<Rightarrow> obligation \<Rightarrow> obligation_error + schedule_result" where
  "replayed_result digest cmd v ob =
     and_then (replay_recorded_rating digest ob) (\<lambda>r.
     if pv_covered (rt_provenance r) \<noteq> (case sc_covered cmd of None \<Rightarrow> v | Some w \<Rightarrow> w)
     then Inl (Provenance_conflict (ob_id ob))
     else Inr \<lparr>sr_id = ob_id ob, sr_state = ob_state ob, sr_authority = ob_authority ob, sr_period = v,
               sr_gross = ob_gross ob, sr_fingerprint = pv_fingerprint (rt_provenance r), sr_replayed = True\<rparr>)"

definition new_obligation :: "string \<Rightarrow> record_authority \<Rightarrow> schedule_command \<Rightarrow> contract_version \<Rightarrow> contract_line \<Rightarrow>
    interval \<Rightarrow> rated \<Rightarrow> obligation" where
  "new_obligation i authority cmd ver l v r =
     \<lparr>ob_id = i, ob_contract = cv_contract ver, ob_version = cv_id ver, ob_line_key = sc_line_key cmd,
      ob_account = cv_account ver, ob_subscription = cv_subscription ver, ob_authority = authority,
      ob_component = ln_component l, ob_source_kind = cv_source_kind ver, ob_source_id = cv_source_id ver,
      ob_source_version = cv_source_version ver, ob_start = starts_at v, ob_end = ends_at v,
      ob_currency = ln_currency l, ob_net = rt_net r, ob_tax = rt_tax r, ob_gross = rt_gross r,
      ob_inputs = Some (rt_provenance r), ob_resolved = 0, ob_treatment = ln_treatment l,
      ob_timing = cad_collection_timing (cv_cadence ver), ob_is_finite = ln_is_finite l, ob_state = Scheduled,
      ob_resolution = None, ob_opened_at = None, ob_resolved_at = None, ob_due_at = sc_due_at cmd,
      ob_idempotency_key = str_or (sc_key cmd) []\<rparr>"

definition schedule_new :: "(rating_provenance \<Rightarrow> string) \<Rightarrow> zone_db \<Rightarrow> billing_db \<Rightarrow> string \<Rightarrow> record_authority \<Rightarrow>
    schedule_command \<Rightarrow> contract_version \<Rightarrow> contract_line \<Rightarrow> interval \<Rightarrow> obligation list \<Rightarrow>
    obligation_error + schedule_result \<times> obligation list" where
  "schedule_new digest zones db i authority cmd ver l v rows =
     (case rate_line_period digest zones db (cv_id ver) (sc_line_key cmd) v (sc_covered cmd) of
        Inl e \<Rightarrow> Inl (Rating_failed e)
      | Inr r \<Rightarrow>
          and_then (insert_row rows (new_obligation i authority cmd ver l v r)) (\<lambda>rows'.
            Inr (\<lparr>sr_id = i, sr_state = Scheduled, sr_authority = authority, sr_period = v, sr_gross = rt_gross r,
                  sr_fingerprint = pv_fingerprint (rt_provenance r), sr_replayed = False\<rparr>, rows')))"

definition schedule :: "(rating_provenance \<Rightarrow> string) \<Rightarrow> zone_db \<Rightarrow> billing_db \<Rightarrow> string \<Rightarrow> record_authority \<Rightarrow>
    schedule_command \<Rightarrow> obligation list \<Rightarrow> obligation_error + schedule_result \<times> obligation list" where
  "schedule digest zones db i authority cmd rows =
     (if \<not> truthy_str (sc_key cmd) then Inl Missing_idempotency_key
      else case find_version db (sc_version cmd) of
        None \<Rightarrow> Inl (Version_not_found (sc_version cmd))
      | Some ver \<Rightarrow>
          and_then (find_command_line db (cv_id ver) (sc_line_key cmd)) (\<lambda>l.
          and_then (from_cadence (cadence_of zones ver)) (\<lambda>c.
          and_then (from_cadence (service_period zones c (Instant (cv_starts_at ver)) (sc_index cmd))) (\<lambda>v.
          if (case cv_ends_at ver of None \<Rightarrow> False | Some e \<Rightarrow> e \<le> starts_at v) then Inl Period_outside_version
          else case period_rows rows (cv_id ver) (sc_line_key cmd) v of
            [] \<Rightarrow> schedule_new digest zones db i authority cmd ver l v rows
          | [ob] \<Rightarrow> and_then (replayed_result digest cmd v ob) (\<lambda>res. Inr (res, rows))
          | _ \<Rightarrow> Inl Duplicate_obligation))))"

subsection \<open>Opening and resolving\<close>

definition locked :: "obligation list \<Rightarrow> string \<Rightarrow> obligation_error + obligation" where
  "locked rows i = (case List.find (\<lambda>ob. ob_id ob = i) rows of None \<Rightarrow> Inl (Obligation_not_found i) | Some ob \<Rightarrow> Inr ob)"

text \<open>\<open>db.flush()\<close> of a changed row; a violated check is an integrity error of its own here.\<close>

definition update_row :: "obligation list \<Rightarrow> obligation \<Rightarrow> obligation_error + obligation list" where
  "update_row rows ob =
     (case stored_row ob of
        None \<Rightarrow> Inl Numeric_overflow
      | Some r \<Rightarrow> if row_allowed r then Inr (map (\<lambda>x. if ob_id x = ob_id r then r else x) rows) else Inl Constraint_violation)"

definition open_obligation ::
    "string \<Rightarrow> int option \<Rightarrow> obligation list \<Rightarrow> obligation_error + obligation_state \<times> obligation list" where
  "open_obligation i opened_at rows =
     and_then (locked rows i) (\<lambda>ob.
     if ob_state ob = Open_state then Inr (Open_state, rows)
     else if ob_state ob \<noteq> Scheduled then Inl (Invalid_transition (ob_state ob))
     else and_then (update_row rows (ob\<lparr>ob_state := Open_state,
            ob_opened_at := Some (case opened_at of None \<Rightarrow> ob_start ob | Some t \<Rightarrow> t)\<rparr>)) (\<lambda>rows'.
       Inr (Open_state, rows')))"

definition resolution_state :: "resolution_kind \<Rightarrow> rat \<Rightarrow> rat \<Rightarrow> obligation_state" where
  "resolution_state kind applied gross =
     (if kind = Write_off then Written_off
      else if kind = Pre_earning_cancellation then Canceled
      else if applied = gross then Resolved else Partially_resolved)"

definition resolve_obligation :: "string \<Rightarrow> resolution_kind \<Rightarrow> rat \<Rightarrow> int option \<Rightarrow> obligation list \<Rightarrow>
    obligation_error + obligation_state \<times> obligation list" where
  "resolve_obligation i kind amount resolved_at rows =
     and_then (locked rows i) (\<lambda>ob.
     if ob_state ob \<noteq> Open_state \<and> ob_state ob \<noteq> Partially_resolved then Inl (Invalid_transition (ob_state ob))
     else if amount \<le> 0 then Inl Invalid_amount
     else (let applied = to_context (ob_resolved ob + amount); state = resolution_state kind applied (ob_gross ob) in
       if ob_gross ob < applied then Inl Exceeds_obligation
       else and_then (update_row rows (ob\<lparr>ob_resolved := applied, ob_resolution := Some kind, ob_state := state,
              ob_resolved_at := (if state = Partially_resolved then ob_resolved_at ob
                else Some (case resolved_at of None \<Rightarrow> ob_end ob | Some t \<Rightarrow> t))\<rparr>)) (\<lambda>rows'. Inr (state, rows'))))"

text \<open>\<open>open_obligations_for_account\<close>.\<close>

definition open_obligations :: "string \<Rightarrow> string \<Rightarrow> accounting_treatment option \<Rightarrow> obligation list \<Rightarrow> obligation list" where
  "open_obligations account currency treatment rows =
     sort_key ob_start (filter (\<lambda>ob. ob_account ob = account \<and> ob_currency ob = currency \<and>
       (ob_state ob = Open_state \<or> ob_state ob = Partially_resolved) \<and>
       (case treatment of None \<Rightarrow> True | Some t \<Rightarrow> ob_treatment ob = t)) rows)"

end
