(* ===== verification/Rating_Guarantees.thy ===== *)
theory Rating_Guarantees
  imports Rating
begin

section \<open>Rated amounts\<close>

text \<open>
  What a rated obligation amounts to: net, tax and gross add up in whole cents, and the charge is the price
  times quantity, units and proration to half a cent.
\<close>

subsection \<open>Arithmetic of the context\<close>

definition unit_error :: rat where
  "unit_error = 5 / 10 ^ 28"

lemma unit_error_pos [simp]: "0 \<le> unit_error"
  by (simp add: unit_error_def)

lemma to_context_pos: "0 < x \<Longrightarrow> 0 < to_context x"
proof -
  assume x: "0 < x"
  have "10 ^ 27 \<le> half_even (x * 10 powi (27 - adjusted x))"
    using scaled_bounds(1) [OF x] by (rule half_even_mono_int(2))
  then have "0 < half_even (x * 10 powi (27 - adjusted x))" by (rule less_le_trans [rotated]) simp
  then show ?thesis using x by (simp add: to_context_scaled)
qed

text \<open>A product in the context of a value known up to a relative error.\<close>

lemma product_error:
  assumes "\<bar>x - y\<bar> \<le> d * y" and "0 \<le> x" and "0 \<le> y" and "0 \<le> u" and "0 \<le> d"
  shows "\<bar>dec_mul x u - y * u\<bar> \<le> (d + unit_error + d * unit_error) * (y * u)"
proof -
  have "x \<le> y + d * y" using assms(1) by (simp add: abs_le_iff)
  then have xu: "x * u \<le> (y + d * y) * u" using assms(4) by (rule mult_right_mono)
  have 1: "\<bar>dec_mul x u - x * u\<bar> \<le> x * u * unit_error"
    using to_context_error [of "x * u"] assms(2,4) by (simp add: dec_mul_def unit_error_def)
  also have "\<dots> \<le> (y + d * y) * u * unit_error" using xu by (rule mult_right_mono) simp
  finally have 1: "\<bar>dec_mul x u - x * u\<bar> \<le> (y + d * y) * u * unit_error" .
  have "\<bar>x * u - y * u\<bar> = \<bar>x - y\<bar> * u" using assms(4) by (simp add: abs_mult flip: left_diff_distrib)
  also have "\<dots> \<le> d * y * u" using assms(1,4) by (rule mult_right_mono)
  finally have 2: "\<bar>x * u - y * u\<bar> \<le> d * y * u" .
  have "\<bar>dec_mul x u - y * u\<bar> \<le> \<bar>dec_mul x u - x * u\<bar> + \<bar>x * u - y * u\<bar>"
    using abs_triangle_ineq [of "dec_mul x u - x * u" "x * u - y * u"] by simp
  also have "\<dots> \<le> (y + d * y) * u * unit_error + d * y * u" using 1 2 by (rule add_mono)
  also have "\<dots> = (d + unit_error + d * unit_error) * (y * u)" by (simp add: algebra_simps)
  finally show ?thesis .
qed

lemma dec_mul_nonneg: "0 \<le> a \<Longrightarrow> 0 \<le> b \<Longrightarrow> 0 \<le> dec_mul a b"
  by (simp add: dec_mul_def to_context_nonneg)

text \<open>Sums and differences of cents are exact below \<open>10^26\<close>.\<close>

definition cents :: "rat \<Rightarrow> bool" where
  "cents x \<longleftrightarrow> (\<exists>n. x = of_int n / 100)"

lemma money_Inr: "money x = Inr y \<longleftrightarrow> quantize_cents x = Some y"
  by (auto simp: money_def split: option.splits)

lemma money_cents: "money x = Inr y \<Longrightarrow> cents y"
  by (auto simp: money_Inr quantize_Some cents_def)

lemma cents_add: "cents x \<Longrightarrow> cents y \<Longrightarrow> cents (x + y)" "cents x \<Longrightarrow> cents y \<Longrightarrow> cents (x - y)"
  unfolding cents_def by (metis add_divide_distrib of_int_add) (metis diff_divide_distrib of_int_diff)

lemma cents_exact:
  assumes "cents x" and "0 \<le> x" and "x < 10 ^ 26"
  shows "fits_context x"
proof -
  obtain n where n: "x = of_int n / 100" using assms(1) by (auto simp: cents_def)
  have "0 \<le> n" using assms(2) by (simp add: n)
  moreover have "(of_int n :: rat) < of_int (10 ^ 28)" using assms(3) by (simp add: n)
  then have "n < 10 ^ 28" by (simp only: of_int_less_iff)
  ultimately show ?thesis using fits_context_scaled [of n 2] by (simp add: n)
qed

lemma to_context_cents:
  assumes "cents x" and "0 \<le> x" and "to_context x < 10 ^ 24"
  shows "to_context x = x"
proof -
  have "x < 10 ^ 26"
  proof (rule ccontr)
    assume "\<not> ?thesis"
    then have "10 ^ 26 \<le> to_context x" using fits_context_int [of "10 ^ 26"] by (intro to_context_lower) simp_all
    then show False using assms(3) by simp
  qed
  then show ?thesis using assms by (intro to_context_fits cents_exact)
qed

subsection \<open>The two branches\<close>

definition exact_price :: "rating_provenance \<Rightarrow> rat" where
  "exact_price p = pv_unit_price p * pv_quantity p * pv_rate_units p * pv_proration p"

definition raw_net :: "rating_provenance \<Rightarrow> rat" where
  "raw_net p = dec_mul (dec_mul (dec_mul (pv_unit_price p) (pv_quantity p)) (pv_rate_units p)) (pv_proration p)"

definition valid_inputs :: "rating_provenance \<Rightarrow> bool" where
  "valid_inputs p \<longleftrightarrow> 0 \<le> pv_unit_price p \<and> 0 < pv_quantity p \<and> 0 \<le> pv_rate_units p \<and> 0 \<le> pv_proration p \<and>
     pv_proration p \<le> 1 \<and> 0 \<le> pv_tax_percent p"

definition taxed_inside :: "rating_provenance \<Rightarrow> bool" where
  "taxed_inside p \<longleftrightarrow> pv_tax_inclusive p \<and> 0 < pv_tax_percent p"

lemma rate_from_provenanceD:
  assumes "rate_from_provenance digest p = Inr r"
  shows "valid_inputs p" "rate_v1 p = Inr r"
  using assms by (auto simp: rate_from_provenance_def valid_inputs_def split: if_splits)

lemma rate_v1_provenance: "rate_v1 p = Inr r \<Longrightarrow> rt_provenance r = p"
  by (auto simp: rate_v1_def Let_def and_then_Inr split: if_splits)

lemma raw_net_error:
  assumes "valid_inputs p"
  shows "0 \<le> raw_net p" "\<bar>raw_net p - exact_price p\<bar> \<le> exact_price p * (2 / 10 ^ 27)"
proof -
  note v = assms [unfolded valid_inputs_def]
  define e where "e = (\<lambda>d. d + unit_error + d * unit_error)"
  have e: "0 \<le> e d" if "0 \<le> d" for d using that by (simp add: e_def)
  have 1: "\<bar>dec_mul (pv_unit_price p) (pv_quantity p) - pv_unit_price p * pv_quantity p\<bar> \<le> e 0 * (pv_unit_price p * pv_quantity p)"
    using product_error [of "pv_unit_price p" "pv_unit_price p" 0 "pv_quantity p"] v by (simp add: e_def)
  have 2: "\<bar>dec_mul (dec_mul (pv_unit_price p) (pv_quantity p)) (pv_rate_units p)
      - pv_unit_price p * pv_quantity p * pv_rate_units p\<bar>
    \<le> e (e 0) * (pv_unit_price p * pv_quantity p * pv_rate_units p)"
    using product_error [OF 1, of "pv_rate_units p"] v e [of 0] by (simp add: e_def dec_mul_nonneg)
  have 3: "\<bar>raw_net p - exact_price p\<bar> \<le> e (e (e 0)) * exact_price p"
    using product_error [OF 2, of "pv_proration p"] v e [OF e [of 0]]
    by (simp add: e_def raw_net_def exact_price_def dec_mul_nonneg)
  have "0 \<le> exact_price p" using v by (simp add: exact_price_def)
  moreover have "e (e (e 0)) \<le> 2 / 10 ^ 27" by (simp add: e_def unit_error_def)
  ultimately have "e (e (e 0)) * exact_price p \<le> 2 / 10 ^ 27 * exact_price p" by (intro mult_right_mono)
  then show "\<bar>raw_net p - exact_price p\<bar> \<le> exact_price p * (2 / 10 ^ 27)" using 3 by (simp add: mult.commute)
  show "0 \<le> raw_net p" using v by (simp add: raw_net_def dec_mul_nonneg)
qed

lemma rate_exclusive:
  assumes "rate_v1 p = Inr r" and "valid_inputs p" and "\<not> taxed_inside p"
  shows "money (raw_net p) = Inr (rt_net r)"
    "money (dec_mul (rt_net r) (dec_div (pv_tax_percent p) 100)) = Inr (rt_tax r)"
    "rt_gross r = to_context (rt_net r + rt_tax r)"
proof -
  have "\<not> (pv_tax_inclusive p \<and> 0 < dec_div (pv_tax_percent p) 100)"
    using assms(2,3) by (auto simp: taxed_inside_def valid_inputs_def dec_div_def)
  then show "money (raw_net p) = Inr (rt_net r)"
    "money (dec_mul (rt_net r) (dec_div (pv_tax_percent p) 100)) = Inr (rt_tax r)"
    "rt_gross r = to_context (rt_net r + rt_tax r)"
    using assms(1) by (auto simp: rate_v1_def Let_def raw_net_def and_then_Inr split: if_splits)
qed

lemma rate_inclusive:
  assumes "rate_v1 p = Inr r" and "valid_inputs p" and "taxed_inside p"
  shows "money (raw_net p) = Inr (rt_gross r)"
    "money (dec_div (rt_gross r) (to_context (1 + dec_div (pv_tax_percent p) 100))) = Inr (rt_net r)"
    "rt_tax r = to_context (rt_gross r - rt_net r)"
proof -
  have "pv_tax_inclusive p \<and> 0 < dec_div (pv_tax_percent p) 100"
    using assms(2,3) by (auto simp: taxed_inside_def dec_div_def intro: to_context_pos)
  then show "money (raw_net p) = Inr (rt_gross r)"
    "money (dec_div (rt_gross r) (to_context (1 + dec_div (pv_tax_percent p) 100))) = Inr (rt_net r)"
    "rt_tax r = to_context (rt_gross r - rt_net r)"
    using assms(1) by (auto simp: rate_v1_def Let_def raw_net_def and_then_Inr split: if_splits)
qed

text \<open>Taking the tax out of a gross amount leaves no more than the gross amount.\<close>

lemma untaxed_le:
  assumes "0 \<le> g" and "fits_context g" and "cents g" and "1 \<le> d" and "money (dec_div g d) = Inr n"
  shows "0 \<le> n" "n \<le> g"
proof -
  have q: "0 \<le> g / d" "g / d \<le> g" using assms(1,4) mult_left_mono [of 1 d g] by (simp_all add: divide_le_eq)
  have "0 \<le> dec_div g d" using q(1) by (simp add: dec_div_def to_context_nonneg)
  then show "0 \<le> n" using assms(5) quantize_bounds(2) by (auto simp: money_Inr)
  have le: "dec_div g d \<le> g"
    using q to_context_upper [of "g / d" g] assms(2) by (cases "g / d = 0") (auto simp: dec_div_def)
  obtain m where m: "of_int m / 100 = g" using assms(3) by (auto simp: cents_def)
  have "dec_div g d \<le> of_int m / 100" unfolding m by (rule le)
  then have "n \<le> of_int m / 100" by (rule quantize_bounds(4) [OF assms(5) [unfolded money_Inr]])
  then show "n \<le> g" by (simp only: m)
qed

lemma rated_amounts:
  assumes "rate_from_provenance digest p = Inr r" and "rt_gross r < 10 ^ 24"
  shows "0 \<le> rt_net r \<and> 0 \<le> rt_tax r \<and> cents (rt_net r) \<and> cents (rt_tax r) \<and>
    rt_net r + rt_tax r = rt_gross r \<and>
    \<bar>(if taxed_inside p then rt_gross r else rt_net r) - exact_price p\<bar> \<le> 1 / 200 + exact_price p * (2 / 10 ^ 27) \<and>
    (\<not> taxed_inside p \<longrightarrow>
      \<bar>rt_tax r - rt_net r * (pv_tax_percent p / 100)\<bar> \<le> 1 / 200 + rt_net r * (pv_tax_percent p / 100) * (2 / 10 ^ 27))"
proof -
  note v = rate_from_provenanceD [OF assms(1)]
  note raw = raw_net_error [OF v(1)]
  have close: "\<bar>m - exact_price p\<bar> \<le> 1 / 200 + exact_price p * (2 / 10 ^ 27)" if "money (raw_net p) = Inr m" for m
    using quantize_bounds(1) [OF that [unfolded money_Inr]] raw(2) by linarith
  show ?thesis
  proof (cases "taxed_inside p")
    case True
    note b = rate_inclusive [OF v(2,1) True]
    have g: "0 \<le> rt_gross r" "cents (rt_gross r)" "fits_context (rt_gross r)"
      using b(1) raw(1) quantize_bounds(2,3) money_cents by (auto simp: money_Inr)
    have "0 \<le> dec_div (pv_tax_percent p) 100" using v(1) by (simp add: dec_div_def valid_inputs_def to_context_nonneg)
    then have "1 \<le> to_context (1 + dec_div (pv_tax_percent p) 100)" by (intro to_context_ge_1) simp
    note n = untaxed_le [OF g(1,3,2) this b(2)]
    have "cents (rt_net r)" using b(2) by (rule money_cents)
    then have "cents (rt_gross r - rt_net r)" using g(2) by (intro cents_add)
    moreover have "rt_gross r - rt_net r < 10 ^ 26" using assms(2) n(1) by simp
    ultimately have "rt_tax r = rt_gross r - rt_net r"
      unfolding b(3) using n(2) by (intro to_context_fits cents_exact) simp_all
    then show ?thesis using True n g close [OF b(1)] \<open>cents (rt_net r)\<close> cents_add(2) by simp
  next
    case False
    note b = rate_exclusive [OF v(2,1) False]
    have n: "0 \<le> rt_net r" "cents (rt_net r)" using b(1) raw(1) quantize_bounds(2) money_cents by (auto simp: money_Inr)
    have percent: "0 \<le> pv_tax_percent p / 100" using v(1) by (simp add: valid_inputs_def)
    have product: "0 \<le> dec_mul (rt_net r) (dec_div (pv_tax_percent p) 100)"
      using n(1) percent by (simp add: dec_mul_nonneg dec_div_def to_context_nonneg)
    then have t: "0 \<le> rt_tax r" "cents (rt_tax r)"
      using b(2) quantize_bounds(2) money_cents by (auto simp: money_Inr)
    have "to_context (rt_net r + rt_tax r) < 10 ^ 24" using assms(2) b(3) by simp
    then have gross: "rt_gross r = rt_net r + rt_tax r"
      unfolding b(3) using n t by (intro to_context_cents cents_add) simp_all
    have "\<bar>dec_div (pv_tax_percent p) 100 - pv_tax_percent p / 100\<bar> \<le> unit_error * (pv_tax_percent p / 100)"
      using to_context_error [of "pv_tax_percent p / 100"] percent by (simp add: dec_div_def unit_error_def mult.commute)
    from product_error [OF this _ percent n(1)] have
      "\<bar>dec_mul (dec_div (pv_tax_percent p) 100) (rt_net r) - pv_tax_percent p / 100 * rt_net r\<bar>
        \<le> (unit_error + unit_error + unit_error * unit_error) * (pv_tax_percent p / 100 * rt_net r)"
      using percent by (simp add: dec_div_def to_context_nonneg)
    also have "\<dots> \<le> 2 / 10 ^ 27 * (pv_tax_percent p / 100 * rt_net r)"
      using percent n(1) by (intro mult_right_mono) (simp_all add: unit_error_def)
    finally have "\<bar>dec_mul (rt_net r) (dec_div (pv_tax_percent p) 100) - rt_net r * (pv_tax_percent p / 100)\<bar>
        \<le> rt_net r * (pv_tax_percent p / 100) * (2 / 10 ^ 27)"
      by (simp add: dec_mul_def mult.commute mult.left_commute)
    then have "\<bar>rt_tax r - rt_net r * (pv_tax_percent p / 100)\<bar> \<le> 1 / 200 + rt_net r * (pv_tax_percent p / 100) * (2 / 10 ^ 27)"
      using quantize_bounds(1) [OF b(2) [unfolded money_Inr]] by linarith
    then show ?thesis using False n t gross close [OF b(1)] by simp
  qed
qed

text \<open>
  C7: the amounts of a rated obligation. Whatever was recorded, net and tax are whole cents and not
  negative, they add up to the gross amount exactly, and the amount charged (the gross amount if the price
  includes the tax, else the net amount) is the price times quantity, units and proration up to half a cent
  and the rounding of the 27th digit; a tax on top is the percentage of the net amount in the same sense.
\<close>

theorem rated_amounts_add_up:
  assumes "rate_from_provenance digest p = Inr r" and "rt_gross r < 10 ^ 24"
  shows "0 \<le> rt_net r \<and> 0 \<le> rt_tax r \<and> cents (rt_net r) \<and> cents (rt_tax r) \<and>
    rt_net r + rt_tax r = rt_gross r \<and>
    \<bar>(if taxed_inside p then rt_gross r else rt_net r) - exact_price p\<bar> \<le> 1 / 200 + exact_price p * (2 / 10 ^ 27) \<and>
    (\<not> taxed_inside p \<longrightarrow>
      \<bar>rt_tax r - rt_net r * (pv_tax_percent p / 100)\<bar> \<le> 1 / 200 + rt_net r * (pv_tax_percent p / 100) * (2 / 10 ^ 27))"
  by (rule rated_amounts [OF assms])

text \<open>A sample: a prorated price of 15000 with 7.5 percent tax on top, for a tenth of a month of 30 days.\<close>

definition sample_inputs :: rating_provenance where
  "sample_inputs = \<lparr>pv_version = ''v1'', pv_line_key = ''l1'', pv_policy = rating_policy_version,
     pv_period = Interval (lagos 2026 6 1 0) (lagos 2026 7 1 0), pv_currency = ''NGN'',
     pv_covered = Interval (lagos 2026 6 1 0) (lagos 2026 6 4 0), pv_unit_price = 15000, pv_quantity = 1,
     pv_rate_basis = Fixed_per_service_period, pv_rate_unit = Unit_month, pv_rate_quantity = 1,
     pv_timezone = ''Africa/Lagos'', pv_proration_policy = Actual_calendar_days, pv_rate_units = 1,
     pv_proration = 1 / 10, pv_tax_code = Some ''VAT'', pv_tax_rate_id = Some ''t1'', pv_tax_percent = 15 / 2,
     pv_tax_inclusive = False, pv_fingerprint = []\<rparr>"

text \<open>Exact evaluations in the context: the operands below have few digits.\<close>

lemma to_context_ratio:
  "\<bar>n\<bar> < 10 ^ 28 \<Longrightarrow> x = of_int n / 10 ^ k \<Longrightarrow> to_context x = x"
  by (simp add: to_context_fits fits_context_scaled)

lemma sample_rated:
  "\<exists>r. rate_from_provenance digest (with_fingerprint digest sample_inputs) = Inr r \<and>
     rt_net r = 1500 \<and> rt_tax r = 225 / 2 \<and> rt_gross r = 3225 / 2"
proof -
  have c: "to_context 15000 = 15000" "to_context 1500 = 1500" "to_context (3 / 40) = 3 / 40"
    "to_context (225 / 2) = 225 / 2" "to_context (3225 / 2) = 3225 / 2"
    by (rule to_context_ratio [where n = 15000 and k = 0] to_context_ratio [where n = 1500 and k = 0]
        to_context_ratio [where n = 75 and k = 3] to_context_ratio [where n = 1125 and k = 1]
        to_context_ratio [where n = 16125 and k = 1]; simp)+
  have h: "half_up 150000 = 150000" "half_up 11250 = 11250"
    using half_up_of_int [of 150000] half_up_of_int [of 11250] by simp_all
  have f: "rating_input_fingerprint digest (with_fingerprint digest p) = pv_fingerprint (with_fingerprint digest p)" for p
    by (simp add: rating_input_fingerprint_def with_fingerprint_def fingerprint_payload_def)
  have o: "\<not> lagos 2026 7 1 0 < lagos 2026 6 4 0" by (simp add: lagos_def calendar_eval)
  show ?thesis
    unfolding rate_from_provenance_def f
    by (simp add: with_fingerprint_def o sample_inputs_def rating_policy_version_def rate_v1_def Let_def dec_mul_def
        dec_div_def c h money_def quantize_cents_def)
qed

theorem rated_amounts_add_up_witness:
  "\<exists>r. rate_from_provenance (\<lambda>_. ''d'') (with_fingerprint (\<lambda>_. ''d'') sample_inputs) = Inr r \<and>
     rt_net r + rt_tax r = rt_gross r \<and> rt_gross r = 3225 / 2"
proof -
  obtain r where r: "rate_from_provenance (\<lambda>_. ''d'') (with_fingerprint (\<lambda>_. ''d'') sample_inputs) = Inr r"
    "rt_gross r = 3225 / 2"
    using sample_rated [of "\<lambda>_. ''d''"] by auto
  from rated_amounts_add_up [OF r(1)] r(2) have "rt_net r + rt_tax r = rt_gross r" by simp
  then show ?thesis using r by auto
qed

end
