(* ===== verification/Obligation_Guarantees.thy ===== *)
theory Obligation_Guarantees
  imports Obligations Rating_Guarantees
begin

section \<open>What the obligation table guarantees\<close>

text \<open>
  The histories of the table under the commands of its owner, while versions of contracts, prices and taxes
  change around it: one obligation per period, no instant billed twice, states and amounts in step, closed
  obligations final, and the replay of a schedule command from the recorded inputs.
\<close>

subsection \<open>Storing a row\<close>

lemma stored_inputs_stable:
  assumes "stored_inputs p = Some q"
  shows "stored_inputs q = Some q"
proof -
  from assms obtain a b c d e f where s: "to_scale 14 4 (pv_unit_price p) = Some a" "to_scale 14 4 (pv_quantity p) = Some b"
      "to_scale 14 4 (pv_rate_quantity p) = Some c" "to_scale 38 28 (pv_rate_units p) = Some d"
      "to_scale 38 28 (pv_proration p) = Some e" "to_scale 6 4 (pv_tax_percent p) = Some f"
    and q: "q = p\<lparr>pv_unit_price := a, pv_quantity := b, pv_rate_quantity := c, pv_rate_units := d,
      pv_proration := e, pv_tax_percent := f\<rparr>"
    unfolding stored_inputs_def prod.case by (simp split: option.split_asm)
  show ?thesis using s [THEN to_scale_stable] by (simp add: stored_inputs_def q)
qed

lemma stored_row_Some:
  "stored_row ob = Some r \<longleftrightarrow>
     (\<exists>net tax gross resolved inputs. to_scale 14 4 (ob_net ob) = Some net \<and> to_scale 14 4 (ob_tax ob) = Some tax \<and>
       to_scale 14 4 (ob_gross ob) = Some gross \<and> to_scale 14 4 (ob_resolved ob) = Some resolved \<and>
       (case ob_inputs ob of None \<Rightarrow> inputs = None | Some p \<Rightarrow> \<exists>q. stored_inputs p = Some q \<and> inputs = Some q) \<and>
       r = ob\<lparr>ob_net := net, ob_tax := tax, ob_gross := gross, ob_resolved := resolved, ob_inputs := inputs\<rparr>)"
  by (cases "ob_inputs ob") (auto simp: stored_row_def split: option.splits)

lemma stored_row_stable:
  assumes "stored_row ob = Some r"
  shows "stored_row r = Some r"
proof -
  from assms obtain net tax gross resolved inputs where
    s: "to_scale 14 4 (ob_net ob) = Some net" "to_scale 14 4 (ob_tax ob) = Some tax"
      "to_scale 14 4 (ob_gross ob) = Some gross" "to_scale 14 4 (ob_resolved ob) = Some resolved"
      "case ob_inputs ob of None \<Rightarrow> inputs = None | Some p \<Rightarrow> \<exists>q. stored_inputs p = Some q \<and> inputs = Some q"
    and r: "r = ob\<lparr>ob_net := net, ob_tax := tax, ob_gross := gross, ob_resolved := resolved, ob_inputs := inputs\<rparr>"
    unfolding stored_row_Some by blast
  have "inputs = None \<or> (\<exists>q. stored_inputs q = Some q \<and> inputs = Some q)"
    using s(5) by (cases "ob_inputs ob") (auto dest: stored_inputs_stable)
  then show ?thesis using s(1-4) [THEN to_scale_stable] by (auto simp: r stored_row_def)
qed

lemma insert_row_Inr:
  "insert_row rows ob = Inr rows' \<longleftrightarrow>
     (\<exists>r. stored_row ob = Some r \<and> row_allowed r \<and> (\<forall>x \<in> set rows. \<not> same_identity x r \<and> ob_id x \<noteq> ob_id r) \<and>
       rows' = rows @ [r])"
  by (auto simp: insert_row_def split: option.splits)

text \<open>A row the table can hold: it survives its columns and meets the checks.\<close>

definition row_held :: "obligation \<Rightarrow> bool" where
  "row_held ob \<longleftrightarrow> stored_row ob = Some ob \<and> row_allowed ob"

lemma stored_row_fields:
  assumes "stored_row ob = Some r"
  shows "ob_id r = ob_id ob" "ob_version r = ob_version ob" "ob_line_key r = ob_line_key ob"
    "ob_start r = ob_start ob" "ob_end r = ob_end ob" "ob_state r = ob_state ob" "ob_currency r = ob_currency ob"
    "ob_resolution r = ob_resolution ob" "ob_resolved_at r = ob_resolved_at ob" "same_identity r x = same_identity ob x"
  using assms by (auto simp: stored_row_Some same_identity_def)

subsection \<open>Periods of the rows\<close>

text \<open>
  What the environment keeps of a contract version while it writes prices, taxes, lines and ends: the
  cadence and the start.
\<close>

type_synonym version_terms = "string \<Rightarrow> cadence \<times> int"

definition keeps_terms :: "version_terms \<Rightarrow> billing_db \<Rightarrow> bool" where
  "keeps_terms terms db \<longleftrightarrow>
     (\<forall>i v. find_version db i = Some v \<longrightarrow> cv_id v = i \<and> terms i = (cv_cadence v, cv_starts_at v))"

inductive obligation_step ::
    "(rating_provenance \<Rightarrow> string) \<Rightarrow> zone_db \<Rightarrow> version_terms \<Rightarrow> obligation list \<Rightarrow> obligation list \<Rightarrow> bool"
  for digest zones terms where
  Schedule_step: "schedule digest zones db i authority cmd rows = Inr (res, rows') \<Longrightarrow> keeps_terms terms db \<Longrightarrow>
    obligation_step digest zones terms rows rows'"
| Open_step: "open_obligation i opened_at rows = Inr (s, rows') \<Longrightarrow> obligation_step digest zones terms rows rows'"
| Resolve_step: "resolve_obligation i kind amount resolved_at rows = Inr (s, rows') \<Longrightarrow>
    obligation_step digest zones terms rows rows'"

inductive obligation_history ::
    "(rating_provenance \<Rightarrow> string) \<Rightarrow> zone_db \<Rightarrow> version_terms \<Rightarrow> obligation list \<Rightarrow> bool"
  for digest zones terms where
  Empty_table: "obligation_history digest zones terms []"
| Next_table: "obligation_history digest zones terms rows \<Longrightarrow> obligation_step digest zones terms rows rows' \<Longrightarrow>
    obligation_history digest zones terms rows'"

text \<open>The row a schedule command adds, and its period.\<close>

definition has_period :: "zone_db \<Rightarrow> version_terms \<Rightarrow> obligation \<Rightarrow> bool" where
  "has_period zones terms ob \<longleftrightarrow>
     (\<exists>k. make_cadence zones (fst (terms (ob_version ob))) = Inr (fst (terms (ob_version ob))) \<and>
       service_period zones (fst (terms (ob_version ob))) (Instant (snd (terms (ob_version ob)))) k =
         Inr (Interval (ob_start ob) (ob_end ob)))"

lemma make_cadence_same: "make_cadence zones c = Inr d \<Longrightarrow> d = c"
  by (auto simp: make_cadence_def and_then_Inr split: if_splits option.splits)

lemma from_cadence_Inr: "from_cadence m = Inr a \<longleftrightarrow> m = Inr a"
  by (auto simp: from_cadence_def split: sum.splits)

lemma schedule_cases:
  assumes "schedule digest zones db i authority cmd rows = Inr (res, rows')" and "keeps_terms terms db"
  obtains (replayed) "rows' = rows" "sr_replayed res"
  | (added) ver l v r row where "find_version db (sc_version cmd) = Some ver" "cv_id ver = sc_version cmd"
      "find_line db (sc_version cmd) (sc_line_key cmd) = Inr l"
      "make_cadence zones (cv_cadence ver) = Inr (cv_cadence ver)"
      "service_period zones (cv_cadence ver) (Instant (cv_starts_at ver)) (sc_index cmd) = Inr v"
      "terms (sc_version cmd) = (cv_cadence ver, cv_starts_at ver)"
      "period_rows rows (sc_version cmd) (sc_line_key cmd) v = []"
      "rate_line_period digest zones db (sc_version cmd) (sc_line_key cmd) v (sc_covered cmd) = Inr r"
      "stored_row (new_obligation i authority cmd ver l v r) = Some row" "row_allowed row"
      "\<forall>x \<in> set rows. \<not> same_identity x row \<and> ob_id x \<noteq> ob_id row" "rows' = rows @ [row]"
      "\<not> sr_replayed res" "sr_id res = i" "sr_period res = v" "sr_gross res = rt_gross r"
      "sr_fingerprint res = pv_fingerprint (rt_provenance r)" "sr_authority res = authority" "sr_state res = Scheduled"
proof -
  from assms(1) obtain ver where ver: "find_version db (sc_version cmd) = Some ver"
    by (auto simp: schedule_def split: if_splits option.splits)
  have id: "cv_id ver = sc_version cmd" and terms: "terms (sc_version cmd) = (cv_cadence ver, cv_starts_at ver)"
    using assms(2) ver by (simp_all add: keeps_terms_def)
  from assms(1) ver id obtain l v where l: "find_command_line db (sc_version cmd) (sc_line_key cmd) = Inr l"
    and c: "cadence_of zones ver = Inr (cv_cadence ver)"
    and v: "service_period zones (cv_cadence ver) (Instant (cv_starts_at ver)) (sc_index cmd) = Inr v"
    and rest: "(case period_rows rows (sc_version cmd) (sc_line_key cmd) v of
            [] \<Rightarrow> schedule_new digest zones db i authority cmd ver l v rows
          | [ob] \<Rightarrow> and_then (replayed_result digest cmd v ob) (\<lambda>res. Inr (res, rows))
          | _ \<Rightarrow> Inl Duplicate_obligation) = Inr (res, rows')"
    by (auto simp: schedule_def and_then_Inr from_cadence_Inr cadence_of_def dest!: make_cadence_same split: if_splits)
  have line: "find_line db (sc_version cmd) (sc_line_key cmd) = Inr l"
    using l by (auto simp: find_command_line_def split: sum.splits rating_error.splits)
  show ?thesis
  proof (cases "period_rows rows (sc_version cmd) (sc_line_key cmd) v")
    case Nil
    with rest id obtain r row where f: "rate_line_period digest zones db (sc_version cmd) (sc_line_key cmd) v (sc_covered cmd) = Inr r"
      "stored_row (new_obligation i authority cmd ver l v r) = Some row" "row_allowed row"
      "\<forall>x \<in> set rows. \<not> same_identity x row \<and> ob_id x \<noteq> ob_id row" "rows' = rows @ [row]"
      and res: "res = \<lparr>sr_id = i, sr_state = Scheduled, sr_authority = authority, sr_period = v, sr_gross = rt_gross r,
         sr_fingerprint = pv_fingerprint (rt_provenance r), sr_replayed = False\<rparr>"
      by (auto simp: schedule_new_def and_then_Inr insert_row_Inr split: sum.splits)
    show ?thesis
      by (rule added [OF ver id line c [unfolded cadence_of_def] v terms Nil f]) (simp_all only: res schedule_result.simps not_False_eq_True)
  next
    case (Cons ob rest')
    then have one: "rest' = []" using rest by (cases rest') simp_all
    have "rows' = rows" "sr_replayed res"
      using rest unfolding Cons one by (auto simp: and_then_Inr replayed_result_def split: if_splits)
    then show ?thesis by (rule replayed)
  qed
qed

text \<open>Opening and resolving replace one row, whose identity, amounts and recorded inputs stay.\<close>

definition fixed_part :: "obligation \<Rightarrow> obligation" where
  "fixed_part ob = ob\<lparr>ob_resolved := 0, ob_state := Scheduled, ob_resolution := None, ob_opened_at := None,
     ob_resolved_at := None\<rparr>"

definition replace_row :: "obligation \<Rightarrow> obligation list \<Rightarrow> obligation list" where
  "replace_row r rows = map (\<lambda>x. if ob_id x = ob_id r then r else x) rows"

lemma locked_Inr: "locked rows i = Inr ob \<Longrightarrow> ob \<in> set rows \<and> ob_id ob = i"
  by (auto simp: locked_def find_Some_iff split: option.splits)

lemma update_row_Inr:
  "update_row rows ob = Inr rows' \<longleftrightarrow> (\<exists>r. stored_row ob = Some r \<and> row_allowed r \<and> rows' = replace_row r rows)"
  by (auto simp: update_row_def replace_row_def split: option.splits)

lemma held_columns:
  assumes "row_held ob"
  shows "to_scale 14 4 (ob_net ob) = Some (ob_net ob)" "to_scale 14 4 (ob_tax ob) = Some (ob_tax ob)"
    "to_scale 14 4 (ob_gross ob) = Some (ob_gross ob)" "to_scale 14 4 (ob_resolved ob) = Some (ob_resolved ob)"
    "case ob_inputs ob of None \<Rightarrow> True | Some p \<Rightarrow> stored_inputs p = Some p"
proof -
  from assms obtain net tax gross resolved inputs where
    s: "to_scale 14 4 (ob_net ob) = Some net" "to_scale 14 4 (ob_tax ob) = Some tax"
      "to_scale 14 4 (ob_gross ob) = Some gross" "to_scale 14 4 (ob_resolved ob) = Some resolved"
      "case ob_inputs ob of None \<Rightarrow> inputs = None | Some p \<Rightarrow> \<exists>q. stored_inputs p = Some q \<and> inputs = Some q"
    and r: "ob = ob\<lparr>ob_net := net, ob_tax := tax, ob_gross := gross, ob_resolved := resolved, ob_inputs := inputs\<rparr>"
    unfolding row_held_def stored_row_Some by blast
  have "ob_net ob = net" "ob_tax ob = tax" "ob_gross ob = gross" "ob_resolved ob = resolved" "ob_inputs ob = inputs"
    by (subst r, simp)+
  then show "to_scale 14 4 (ob_net ob) = Some (ob_net ob)" "to_scale 14 4 (ob_tax ob) = Some (ob_tax ob)"
    "to_scale 14 4 (ob_gross ob) = Some (ob_gross ob)" "to_scale 14 4 (ob_resolved ob) = Some (ob_resolved ob)"
    "case ob_inputs ob of None \<Rightarrow> True | Some p \<Rightarrow> stored_inputs p = Some p"
    using s by (auto split: option.splits)
qed

text \<open>A held row with another resolved amount and another state is stored as it is but for that amount.\<close>

lemma stored_held:
  assumes "row_held ob" and "fixed_part x = fixed_part ob"
  shows "stored_row x = Some r \<longleftrightarrow> (\<exists>q. to_scale 14 4 (ob_resolved x) = Some q \<and> r = x\<lparr>ob_resolved := q\<rparr>)"
proof -
  note c = held_columns [OF assms(1)]
  have "ob_net (fixed_part x) = ob_net (fixed_part ob)" "ob_tax (fixed_part x) = ob_tax (fixed_part ob)"
    "ob_gross (fixed_part x) = ob_gross (fixed_part ob)" "ob_inputs (fixed_part x) = ob_inputs (fixed_part ob)"
    using assms(2) by simp_all
  then have f: "ob_net x = ob_net ob" "ob_tax x = ob_tax ob" "ob_gross x = ob_gross ob" "ob_inputs x = ob_inputs ob"
    by (simp_all add: fixed_part_def)
  have whole: "x\<lparr>ob_net := ob_net x, ob_tax := ob_tax x, ob_gross := ob_gross x, ob_resolved := q, ob_inputs := ob_inputs x\<rparr>
      = x\<lparr>ob_resolved := q\<rparr>" for q by simp
  show ?thesis
    unfolding stored_row_Some using c(1-3,5) by (cases "ob_inputs ob") (auto simp: f whole [unfolded f])
qed

lemma open_cases:
  assumes "open_obligation i opened_at rows = Inr (s, rows')" and "\<forall>x \<in> set rows. row_held x"
  obtains (same) "rows' = rows"
  | (opened) ob r where "ob \<in> set rows" "ob_id ob = i" "ob_state ob = Scheduled"
      "r = ob\<lparr>ob_state := Open_state, ob_opened_at := Some (case opened_at of None \<Rightarrow> ob_start ob | Some t \<Rightarrow> t)\<rparr>"
      "row_held r" "rows' = replace_row r rows"
proof -
  from assms(1) obtain ob where ob: "locked rows i = Inr ob" by (auto simp: open_obligation_def and_then_Inr)
  note in_rows = locked_Inr [OF ob]
  show ?thesis
  proof (cases "ob_state ob = Open_state")
    case True
    then show ?thesis using assms(1) ob same by (simp add: open_obligation_def)
  next
    case False
    define x where "x = ob\<lparr>ob_state := Open_state, ob_opened_at := Some (case opened_at of None \<Rightarrow> ob_start ob | Some t \<Rightarrow> t)\<rparr>"
    have sched: "ob_state ob = Scheduled" using assms(1) ob False by (auto simp: open_obligation_def split: if_splits)
    with assms(1) ob have "update_row rows x = Inr rows'"
      by (auto simp: open_obligation_def x_def and_then_Inr)
    moreover have held: "row_held ob" using assms(2) in_rows by blast
    have f: "fixed_part x = fixed_part ob" by (simp add: x_def fixed_part_def)
    have "stored_row x = Some x"
      using stored_held [OF held f] held_columns(4) [OF held] by (simp add: x_def)
    ultimately have "row_held x" "rows' = replace_row x rows" by (auto simp: update_row_Inr row_held_def)
    then show ?thesis using in_rows sched x_def opened by blast
  qed
qed

lemma resolve_cases:
  assumes "resolve_obligation i kind amount resolved_at rows = Inr (s, rows')" and "\<forall>x \<in> set rows. row_held x"
  obtains ob r q applied where "ob \<in> set rows" "ob_id ob = i" "ob_state ob = Open_state \<or> ob_state ob = Partially_resolved"
    "0 < amount" "applied = to_context (ob_resolved ob + amount)" "applied \<le> ob_gross ob" "to_scale 14 4 applied = Some q"
    "s = resolution_state kind applied (ob_gross ob)"
    "r = ob\<lparr>ob_resolved := q, ob_resolution := Some kind, ob_state := s,
       ob_resolved_at := (if s = Partially_resolved then ob_resolved_at ob
         else Some (case resolved_at of None \<Rightarrow> ob_end ob | Some t \<Rightarrow> t))\<rparr>"
    "row_held r" "rows' = replace_row r rows"
proof -
  from assms(1) obtain ob where ob: "locked rows i = Inr ob" by (auto simp: resolve_obligation_def and_then_Inr)
  note in_rows = locked_Inr [OF ob]
  define applied where "applied = to_context (ob_resolved ob + amount)"
  define x where "x = ob\<lparr>ob_resolved := applied, ob_resolution := Some kind, ob_state := s,
       ob_resolved_at := (if s = Partially_resolved then ob_resolved_at ob
         else Some (case resolved_at of None \<Rightarrow> ob_end ob | Some t \<Rightarrow> t))\<rparr>"
  from assms(1) ob have state: "ob_state ob = Open_state \<or> ob_state ob = Partially_resolved" and "0 < amount"
    and "applied \<le> ob_gross ob" and s: "s = resolution_state kind applied (ob_gross ob)"
    and up: "update_row rows x = Inr rows'"
    by (auto simp: resolve_obligation_def and_then_Inr Let_def applied_def x_def split: if_splits)
  have held: "row_held ob" using assms(2) in_rows by blast
  have f: "fixed_part x = fixed_part ob" by (simp add: x_def fixed_part_def)
  from up stored_held [OF held f] obtain q where q: "to_scale 14 4 applied = Some q"
    and r: "row_allowed (x\<lparr>ob_resolved := q\<rparr>)" "rows' = replace_row (x\<lparr>ob_resolved := q\<rparr>) rows"
    "stored_row x = Some (x\<lparr>ob_resolved := q\<rparr>)"
    by (auto simp: update_row_Inr x_def)
  have "row_held (x\<lparr>ob_resolved := q\<rparr>)" using r(1) stored_row_stable [OF r(3)] by (simp add: row_held_def)
  then show ?thesis
    using in_rows state \<open>0 < amount\<close> \<open>applied \<le> ob_gross ob\<close> s q r(2) that [of ob applied q "x\<lparr>ob_resolved := q\<rparr>"]
    by (simp add: applied_def x_def)
qed

subsection \<open>The invariant of the table\<close>

definition closed_obligation :: "obligation \<Rightarrow> bool" where
  "closed_obligation ob \<longleftrightarrow> ob_state ob \<in> {Resolved, Canceled, Written_off}"

definition state_in_step :: "obligation \<Rightarrow> bool" where
  "state_in_step ob \<longleftrightarrow>
     (ob_state ob \<in> {Scheduled, Open_state} \<longrightarrow> ob_resolved ob = 0 \<and> ob_resolution ob = None) \<and>
     (ob_state ob = Resolved \<longrightarrow> ob_resolved ob = ob_gross ob) \<and>
     (ob_state ob = Written_off \<longleftrightarrow> ob_resolution ob = Some Write_off) \<and>
     (ob_state ob = Canceled \<longleftrightarrow> ob_resolution ob = Some Pre_earning_cancellation) \<and>
     (ob_resolved_at ob \<noteq> None \<longleftrightarrow> closed_obligation ob)"

definition row_ok :: "zone_db \<Rightarrow> version_terms \<Rightarrow> obligation \<Rightarrow> bool" where
  "row_ok zones terms ob \<longleftrightarrow> row_held ob \<and> has_period zones terms ob \<and> state_in_step ob"

definition period_key :: "obligation \<Rightarrow> string \<times> string \<times> int \<times> int" where
  "period_key ob = (ob_version ob, ob_line_key ob, ob_start ob, ob_end ob)"

definition table_ok :: "zone_db \<Rightarrow> version_terms \<Rightarrow> obligation list \<Rightarrow> bool" where
  "table_ok zones terms rows \<longleftrightarrow>
     (\<forall>ob \<in> set rows. row_ok zones terms ob) \<and> distinct (map ob_id rows) \<and> distinct (map period_key rows)"

lemma new_row_fields:
  assumes "stored_row (new_obligation i authority cmd ver l v r) = Some row"
  shows "ob_id row = i" "ob_version row = cv_id ver" "ob_line_key row = sc_line_key cmd" "ob_start row = starts_at v"
    "ob_end row = ends_at v" "ob_state row = Scheduled" "ob_resolved row = 0" "ob_resolution row = None"
    "ob_resolved_at row = None"
  using assms by (auto simp: stored_row_Some new_obligation_def to_scale_Some half_up_of_int [of 0, simplified])

lemma new_row_ok:
  assumes "stored_row (new_obligation i authority cmd ver l v r) = Some row" and "row_allowed row"
    and "make_cadence zones (cv_cadence ver) = Inr (cv_cadence ver)"
    and "service_period zones (cv_cadence ver) (Instant (cv_starts_at ver)) (sc_index cmd) = Inr v"
    and "terms (cv_id ver) = (cv_cadence ver, cv_starts_at ver)"
  shows "row_ok zones terms row"
  using assms(2-5) stored_row_stable [OF assms(1)]
  by (auto simp: row_ok_def row_held_def has_period_def state_in_step_def closed_obligation_def new_row_fields [OF assms(1)])

lemma schedule_table_ok:
  assumes "schedule digest zones db i authority cmd rows = Inr (res, rows')" and "keeps_terms terms db"
    and "table_ok zones terms rows"
  shows "table_ok zones terms rows'"
  using assms(1,2)
proof (cases rule: schedule_cases)
  case replayed
  then show ?thesis using assms(3) by simp
next
  case (added ver l v r row)
  note f = new_row_fields [OF added(9)]
  have "row_ok zones terms row" using new_row_ok [OF added(9,10,4,5)] added(2,6) by simp
  moreover have "ob_id row \<notin> ob_id ` set rows" using added(11) by auto
  moreover have "period_key row \<notin> period_key ` set rows"
    using added(7) f added(2) by (auto simp: period_rows_def filter_empty_conv period_key_def)
  ultimately show ?thesis using assms(3) added(12) by (simp add: table_ok_def)
qed

text \<open>Replacing a row by one with the same identity keeps the invariant if the new row is in order.\<close>

lemma replace_row_keeps:
  assumes "ob \<in> set rows" and "fixed_part r = fixed_part ob" and "distinct (map ob_id rows)"
  shows "map ob_id (replace_row r rows) = map ob_id rows" "map period_key (replace_row r rows) = map period_key rows"
proof -
  have "ob_id (fixed_part r) = ob_id (fixed_part ob)" "period_key (fixed_part r) = period_key (fixed_part ob)"
    using assms(2) by simp_all
  then have same: "ob_id r = ob_id ob" "period_key r = period_key ob" by (simp_all add: fixed_part_def period_key_def)
  have "x = ob" if "x \<in> set rows" "ob_id x = ob_id r" for x
    using that same assms(1,3) by (auto simp: distinct_map inj_on_def)
  then show "map ob_id (replace_row r rows) = map ob_id rows" "map period_key (replace_row r rows) = map period_key rows"
    using same by (auto simp: replace_row_def)
qed

lemma has_period_fixed: "has_period zones terms (fixed_part ob) = has_period zones terms ob"
  by (simp add: has_period_def fixed_part_def)

lemma replace_row_table_ok:
  assumes "table_ok zones terms rows" and "ob \<in> set rows" and "fixed_part r = fixed_part ob"
    and "row_held r" and "state_in_step r"
  shows "table_ok zones terms (replace_row r rows)"
proof -
  have "has_period zones terms r"
    using assms(1-3) has_period_fixed [of zones terms r] has_period_fixed [of zones terms ob]
    by (auto simp: table_ok_def row_ok_def)
  then have "row_ok zones terms x" if "x \<in> set (replace_row r rows)" for x
    using that assms(1,4,5) by (auto simp: replace_row_def table_ok_def row_ok_def split: if_splits)
  then show ?thesis
    using assms(1) replace_row_keeps [OF assms(2,3)] by (simp add: table_ok_def)
qed

lemma opened_in_step:
  assumes "state_in_step ob" and "ob_state ob = Scheduled"
  shows "state_in_step (ob\<lparr>ob_state := Open_state, ob_opened_at := t\<rparr>)"
  using assms by (auto simp: state_in_step_def closed_obligation_def)

lemma resolved_in_step:
  assumes "row_held ob" and "state_in_step ob" and "ob_state ob = Open_state \<or> ob_state ob = Partially_resolved"
    and "to_scale 14 4 applied = Some q" and "s = resolution_state kind applied (ob_gross ob)"
  shows "state_in_step (ob\<lparr>ob_resolved := q, ob_resolution := Some kind, ob_state := s,
       ob_resolved_at := (if s = Partially_resolved then ob_resolved_at ob else Some t)\<rparr>)"
proof -
  have "ob_resolved_at ob = None" using assms(2,3) by (auto simp: state_in_step_def closed_obligation_def)
  moreover have "applied = ob_gross ob \<Longrightarrow> q = ob_gross ob"
    using held_columns(3) [OF assms(1)] assms(4) by simp
  ultimately show ?thesis
    by (auto simp: state_in_step_def closed_obligation_def assms(5) resolution_state_def)
qed

lemma table_held: "table_ok zones terms rows \<Longrightarrow> \<forall>x \<in> set rows. row_held x"
  by (simp add: table_ok_def row_ok_def)

lemma step_table_ok:
  assumes "obligation_step digest zones terms rows rows'" and "table_ok zones terms rows"
  shows "table_ok zones terms rows'"
  using assms(1)
proof cases
  case (Schedule_step db i authority cmd res)
  then show ?thesis using assms(2) by (rule schedule_table_ok)
next
  case (Open_step i opened_at s)
  from this table_held [OF assms(2)] show ?thesis
  proof (cases rule: open_cases)
    case same
    show ?thesis unfolding same by (rule assms(2))
  next
    case (opened ob r)
    have "state_in_step ob" using assms(2) opened(1) by (auto simp: table_ok_def row_ok_def)
    then have "state_in_step r" unfolding opened(4) by (rule opened_in_step [OF _ opened(3)])
    moreover have "fixed_part r = fixed_part ob" by (simp add: opened(4) fixed_part_def)
    ultimately show ?thesis unfolding opened(6) by (intro replace_row_table_ok [OF assms(2) opened(1)] opened(5))
  qed
next
  case (Resolve_step i kind amount resolved_at s)
  from this table_held [OF assms(2)] show ?thesis
  proof (cases rule: resolve_cases)
    case (1 ob r q applied)
    have ok: "row_held ob" "state_in_step ob" using assms(2) 1(1) by (auto simp: table_ok_def row_ok_def)
    have "state_in_step r" unfolding 1(9) by (rule resolved_in_step [OF ok 1(3,7,8)])
    moreover have "fixed_part r = fixed_part ob" by (simp add: 1(9) fixed_part_def)
    ultimately show ?thesis unfolding 1(11) by (intro replace_row_table_ok [OF assms(2) 1(1)] 1(10))
  qed
qed

lemma history_table_ok:
  assumes "obligation_history digest zones terms rows"
  shows "table_ok zones terms rows"
  using assms by induction (simp_all add: table_ok_def [of _ _ "[]"] step_table_ok)

subsection \<open>No instant is billed twice\<close>

text \<open>
  One obligation per instant. In every history of the table, with the zone of the contract version
  civil, two obligations of the same contract line and version whose periods contain the same instant are
  the same row: no command, and no change of prices, taxes or contract ends between the commands, makes the
  owner charge a line twice for one instant.
\<close>

theorem no_instant_billed_twice:
  assumes "obligation_history digest zones terms rows" and "runs_in zones (fst (terms (ob_version x))) z"
    and "x \<in> set rows" and "y \<in> set rows" and "ob_version x = ob_version y" and "ob_line_key x = ob_line_key y"
    and "ob_start x \<le> t \<and> t < ob_end x" and "ob_start y \<le> t \<and> t < ob_end y"
  shows "x = y"
proof -
  note ok = history_table_ok [OF assms(1)]
  define c where "c = fst (terms (ob_version x))"
  from ok assms(3,5) obtain j where j: "make_cadence zones c = Inr c"
    "service_period zones c (Instant (snd (terms (ob_version x)))) j = Inr (Interval (ob_start x) (ob_end x))"
    unfolding c_def by (auto simp: table_ok_def row_ok_def has_period_def)
  from ok assms(4,5) obtain k where
    k: "service_period zones c (Instant (snd (terms (ob_version x)))) k = Inr (Interval (ob_start y) (ob_end y))"
    unfolding c_def by (auto simp: table_ok_def row_ok_def has_period_def)
  have "0 < cad_service_count c" using made_counts [OF j(1)] by simp
  from period_unique [where count = cad_service_count, OF assms(2) [folded c_def] this
      j(2) [unfolded service_period_def] k [unfolded service_period_def], of t] assms(7,8)
  have "j = k" by (simp add: contains_def)
  then have "period_key x = period_key y" using j(2) k assms(5,6) by (simp add: period_key_def)
  then show ?thesis using ok assms(3,4) by (auto simp: table_ok_def distinct_map inj_on_def)
qed

text \<open>
  C8: states and amounts stay in step. In every history an obligation has between nothing and its gross
  amount applied to it; nothing is applied before it is open; a resolved one is applied in full; it is
  written off or canceled exactly by a resolution of that kind; and it carries a time of resolution exactly
  when it is closed.
\<close>

theorem obligation_states_in_step:
  assumes "obligation_history digest zones terms rows" and "x \<in> set rows"
  shows "0 \<le> ob_resolved x \<and> ob_resolved x \<le> ob_gross x \<and>
    (ob_state x \<in> {Scheduled, Open_state} \<longrightarrow> ob_resolved x = 0 \<and> ob_resolution x = None) \<and>
    (ob_state x = Resolved \<longrightarrow> ob_resolved x = ob_gross x) \<and>
    (ob_state x = Written_off \<longleftrightarrow> ob_resolution x = Some Write_off) \<and>
    (ob_state x = Canceled \<longleftrightarrow> ob_resolution x = Some Pre_earning_cancellation) \<and>
    (ob_resolved_at x \<noteq> None \<longleftrightarrow> ob_state x \<in> {Resolved, Canceled, Written_off})"
  using history_table_ok [OF assms(1)] assms(2)
  by (auto simp: table_ok_def row_ok_def row_held_def row_allowed_def state_in_step_def closed_obligation_def)

subsection \<open>Closed obligations are final\<close>

lemma replaced_rows:
  assumes "distinct (map ob_id rows)" and "ob \<in> set rows" and "ob_id r = ob_id ob" and "x \<in> set rows"
  shows "(if x = ob then r else x) \<in> set (replace_row r rows)"
  using assms by (auto simp: replace_row_def distinct_map inj_on_def image_iff intro!: bexI)

lemma applied_grows:
  assumes "0 \<le> res" and "to_scale 14 4 res = Some res" and "0 < amount" and "to_scale 14 4 (to_context (res + amount)) = Some q"
  shows "res \<le> q"
proof -
  have r: "res = of_int (half_up (res * 10 ^ 4)) / 10 ^ 4" "\<bar>half_up (res * 10 ^ 4)\<bar> < 10 ^ 14"
    using assms(2) by (simp_all add: to_scale_Some)
  have "\<bar>half_up (res * 10 ^ 4)\<bar> < 10 ^ 28" using r(2) by simp
  from fits_context_scaled [OF this, of 4] r(1) have "fits_context res" by simp
  then have "res \<le> to_context (res + amount)"
    using assms(1,3) to_context_lower [of res "res + amount"] to_context_nonneg [of amount] by (cases "res = 0") simp_all
  then show ?thesis using to_scale_mono_int(2) [OF assms(4), of "half_up (res * 10 ^ 4)"] r(1) by simp
qed

text \<open>
  C9: what a command may change. Every command keeps every obligation with its identity, its period, its
  amounts and its recorded inputs, never takes back an applied amount, and leaves a resolved, canceled or
  written-off obligation exactly as it is.
\<close>

theorem closed_obligations_are_final:
  assumes "obligation_history digest zones terms rows" and "obligation_step digest zones terms rows rows'"
    and "x \<in> set rows"
  shows "\<exists>y \<in> set rows'. ob_id y = ob_id x \<and> fixed_part y = fixed_part x \<and> ob_resolved x \<le> ob_resolved y \<and>
    (closed_obligation x \<longrightarrow> y = x)"
proof -
  note ok = history_table_ok [OF assms(1)]
  have ids: "distinct (map ob_id rows)" using ok by (simp add: table_ok_def)
  have kept: ?thesis if "x \<in> set rows'" using that by (intro bexI [of _ x]) simp_all
  from assms(2) show ?thesis
  proof cases
    case (Schedule_step db i authority cmd res)
    then have "x \<in> set rows'" using assms(3) by (cases rule: schedule_cases) simp_all
    then show ?thesis by (rule kept)
  next
    case (Open_step i opened_at s)
    from this table_held [OF ok] show ?thesis
    proof (cases rule: open_cases)
      case same
      then show ?thesis using assms(3) kept by simp
    next
      case (opened ob r)
      have "(if x = ob then r else x) \<in> set rows'"
        using replaced_rows [OF ids opened(1) _ assms(3), of r] by (simp add: opened(4,6))
      then show ?thesis
        by (rule bexI [rotated]) (simp add: opened(3,4) fixed_part_def closed_obligation_def)
    qed
  next
    case (Resolve_step i kind amount resolved_at s)
    from this table_held [OF ok] show ?thesis
    proof (cases rule: resolve_cases)
      case (1 ob r q applied)
      have held: "row_held ob" using table_held [OF ok] 1(1) by simp
      then have "0 \<le> ob_resolved ob" by (simp add: row_held_def row_allowed_def)
      then have grows: "ob_resolved ob \<le> q"
        using applied_grows [OF _ held_columns(4) [OF held] 1(4)] 1(5,7) by simp
      have "(if x = ob then r else x) \<in> set rows'"
        using replaced_rows [OF ids 1(1) _ assms(3), of r] by (simp add: 1(9,11))
      then show ?thesis
        by (rule bexI [rotated]) (use 1(3) grows in \<open>auto simp: 1(9) fixed_part_def closed_obligation_def\<close>)
    qed
  qed
qed

subsection \<open>Scheduling again\<close>

lemma rate_line_provenance:
  assumes "rate_line_period digest zones db i key v covered = Inr r" and "find_version db i = Some ver"
    and "find_line db i key = Inr l" and "cv_id ver = i"
  shows "rate_from_provenance digest (rt_provenance r) = Inr r" "pv_version (rt_provenance r) = i"
    "pv_line_key (rt_provenance r) = key" "pv_period (rt_provenance r) = v"
    "pv_currency (rt_provenance r) = ln_currency l"
    "pv_covered (rt_provenance r) = (case covered of None \<Rightarrow> v | Some w \<Rightarrow> w)"
    "pv_fingerprint (rt_provenance r) = rating_input_fingerprint digest (rt_provenance r)" "rt_currency r = ln_currency l"
proof -
  from assms obtain c units factor code tax_id percent where p: "rate_from_provenance digest (with_fingerprint digest
      (line_provenance ver l c key v covered units factor code tax_id percent)) = Inr r"
    by (auto simp: rate_line_period_def and_then_Inr)
  define p where "p = line_provenance ver l c key v covered units factor code tax_id percent"
  note p = p [folded p_def]
  have r: "rt_provenance r = with_fingerprint digest p"
    using rate_from_provenanceD(2) [OF p] by (rule rate_v1_provenance)
  show "rate_from_provenance digest (rt_provenance r) = Inr r" "pv_version (rt_provenance r) = i"
    "pv_line_key (rt_provenance r) = key" "pv_period (rt_provenance r) = v"
    "pv_currency (rt_provenance r) = ln_currency l"
    "pv_covered (rt_provenance r) = (case covered of None \<Rightarrow> v | Some w \<Rightarrow> w)"
    "pv_fingerprint (rt_provenance r) = rating_input_fingerprint digest (rt_provenance r)"
    using p assms(4)
    by (simp_all add: r) (simp_all add: with_fingerprint_def rating_input_fingerprint_def fingerprint_payload_def p_def line_provenance_def)
  have "rt_currency r = pv_currency (with_fingerprint digest p)"
    using rate_from_provenanceD(2) [OF p] by (auto simp: rate_v1_def Let_def and_then_Inr split: if_splits)
  then show "rt_currency r = ln_currency l" by (simp add: with_fingerprint_def p_def line_provenance_def)
qed

text \<open>Amounts of a rating that fit their columns are stored as they are.\<close>

lemma cents_column: "cents x \<Longrightarrow> to_scale 14 4 x = Some y \<Longrightarrow> y = x"
proof -
  assume x: "cents x" "to_scale 14 4 x = Some y"
  then obtain n where "x = of_int n / 100" by (auto simp: cents_def)
  then have "x * 10 ^ 4 = of_int (n * 100)" by simp
  then show "y = x" using x(2) unfolding to_scale_Some by (simp only: half_up_of_int) auto
qed

lemma stored_amounts:
  assumes "rate_from_provenance digest p = Inr r" and "to_scale 14 4 (rt_net r) = Some net"
    and "to_scale 14 4 (rt_tax r) = Some tax" and "to_scale 14 4 (rt_gross r) = Some gross"
  shows "net = rt_net r" "tax = rt_tax r" "gross = rt_gross r"
proof -
  define n where "n = half_up (rt_gross r * 10 ^ 4)"
  have "\<bar>n\<bar> < 10 ^ 14" using assms(4) by (simp add: to_scale_Some n_def)
  then have "(of_int n :: rat) \<le> of_int (10 ^ 14)" by (simp only: of_int_le_iff)
  moreover have "rt_gross r * 10 ^ 4 - of_int n \<le> 1 / 2"
    using half_up_bounds [of "rt_gross r * 10 ^ 4"] unfolding n_def abs_le_iff by linarith
  ultimately have "rt_gross r \<le> 10 ^ 10 + 1" by simp
  then have "rt_gross r < 10 ^ 24" by simp
  from rated_amounts [OF assms(1) this]
  have "cents (rt_net r)" "cents (rt_tax r)" "cents (rt_gross r)" using cents_add(1) by metis+
  then show "net = rt_net r" "tax = rt_tax r" "gross = rt_gross r" using assms(2-4) cents_column by blast+
qed

lemma stored_inputs_fields:
  assumes "stored_inputs p = Some q"
  shows "pv_version q = pv_version p" "pv_line_key q = pv_line_key p" "pv_period q = pv_period p"
    "pv_currency q = pv_currency p" "pv_covered q = pv_covered p" "pv_fingerprint q = pv_fingerprint p"
    "pv_policy q = pv_policy p"
  using assms unfolding stored_inputs_def prod.case by (auto split: option.split_asm)

lemma new_row_columns:
  assumes "stored_row (new_obligation i authority cmd ver l v r) = Some row"
    and "stored_inputs (rt_provenance r) = Some q"
  shows "ob_inputs row = Some q" "ob_currency row = ln_currency l" "ob_authority row = authority"
    "to_scale 14 4 (rt_net r) = Some (ob_net row)" "to_scale 14 4 (rt_tax r) = Some (ob_tax row)"
    "to_scale 14 4 (rt_gross r) = Some (ob_gross row)"
  using assms by (auto simp: stored_row_Some new_obligation_def)

text \<open>Replaying the row a schedule command has just added.\<close>

lemma replay_new_row:
  assumes row: "stored_row (new_obligation i authority cmd ver l v r) = Some row" "row_allowed row"
    and q: "stored_inputs (rt_provenance r) = Some q"
    and rated: "rate_line_period digest zones db (cv_id ver) (sc_line_key cmd) v covered = Inr r"
      "find_version db (cv_id ver) = Some ver" "find_line db (cv_id ver) (sc_line_key cmd) = Inr l"
  shows "q = rt_provenance r \<Longrightarrow> replay_recorded_rating digest row = Inr r"
    "digest (fingerprint_payload q) \<noteq> digest (fingerprint_payload (rt_provenance r)) \<Longrightarrow>
      replay_recorded_rating digest row = Inl (Recorded_provenance_invalid Rating_fingerprint_mismatch)"
proof -
  note p = rate_line_provenance [OF rated refl]
  note f = stored_inputs_fields [OF q]
  note c = new_row_columns [OF row(1) q]
  note n = new_row_fields [OF row(1)]
  have "ob_start row < ob_end row" "starts_at (pv_covered q) < ends_at (pv_covered q)"
    using row(2) c(1) by (simp_all add: row_allowed_def inputs_allowed_def)
  then have recorded: "recorded_provenance row = Inr q"
    by (simp add: recorded_provenance_def c(1,2) from_cadence_def make_interval_def n f p flip: f)
      (simp add: f p n)
  show "replay_recorded_rating digest row = Inr r" if "q = rt_provenance r"
    using recorded p(1,8) stored_amounts [OF p(1) c(4-6)] that by (simp add: replay_recorded_rating_def c(2))
  assume "digest (fingerprint_payload q) \<noteq> digest (fingerprint_payload (rt_provenance r))"
  moreover have "pv_policy q = rating_policy_version"
    using p(1) by (simp add: rate_from_provenance_def f split: if_splits)
  ultimately have "rate_from_provenance digest q = Inl Rating_fingerprint_mismatch"
    by (simp add: rate_from_provenance_def rating_input_fingerprint_def f p(7))
  then show "replay_recorded_rating digest row = Inl (Recorded_provenance_invalid Rating_fingerprint_mismatch)"
    by (simp add: replay_recorded_rating_def recorded)
qed

text \<open>
  C14: scheduling the same obligation again. After a command that added an obligation, the same command sent
  again (under any key, and after any change of prices, taxes or lines that leaves the version, its cadence
  and the line in place) changes nothing and returns the recorded obligation marked as replayed, with the
  amounts recorded first, provided the recorded inputs went through their columns unchanged. If a column
  rounded them to inputs with another digest, the owner refuses the replay as corrupt.
\<close>

theorem schedule_again:
  assumes first: "schedule digest zones db i authority cmd rows = Inr (res, rows')" "\<not> sr_replayed res" "keeps_terms terms db"
    and rated: "rate_line_period digest zones db (sc_version cmd) (sc_line_key cmd) (sr_period res) (sc_covered cmd) = Inr r"
      "stored_inputs (rt_provenance r) = Some q"
    and later: "keeps_terms terms db'" "find_version db' (sc_version cmd) = Some ver'"
      "find_line db' (sc_version cmd) (sc_line_key cmd) = Inr l'"
      "\<forall>e. cv_ends_at ver' = Some e \<longrightarrow> starts_at (sr_period res) < e"
    and again: "cmd' = cmd\<lparr>sc_key := k, sc_due_at := due\<rparr>" "truthy_str k"
  shows "(q = rt_provenance r \<longrightarrow>
      schedule digest zones db' j authority' cmd' rows' = Inr (res\<lparr>sr_replayed := True\<rparr>, rows')) \<and>
    (digest (fingerprint_payload q) \<noteq> digest (fingerprint_payload (rt_provenance r)) \<longrightarrow>
      schedule digest zones db' j authority' cmd' rows' = Inl (Recorded_provenance_invalid Rating_fingerprint_mismatch))"
  using first(1,3)
proof (cases rule: schedule_cases)
  case replayed
  then show ?thesis using first(2) by simp
next
  case (added ver l v s row)
  have s: "s = r" "sr_period res = v" using added(8,15) rated(1) by simp_all
  note n = new_row_fields [OF added(9)]
  note c = new_row_columns [OF added(9) [unfolded s(1)] rated(2)]
  have ver': "cv_id ver' = sc_version cmd" "cv_cadence ver' = cv_cadence ver" "cv_starts_at ver' = cv_starts_at ver"
    using later(1,2) added(6) by (auto simp: keeps_terms_def)
  have found: "period_rows rows' (sc_version cmd) (sc_line_key cmd) v = [row]"
    using added(7,12) n added(2) by (simp add: period_rows_def)
  have rates: "rate_line_period digest zones db (cv_id ver) (sc_line_key cmd) v (sc_covered cmd) = Inr r"
    "find_version db (cv_id ver) = Some ver" "find_line db (cv_id ver) (sc_line_key cmd) = Inr l"
    using added(1,2,3,8) s by simp_all
  note replay = replay_new_row [OF added(9) [unfolded s(1)] added(10) rated(2) rates]
  note p = rate_line_provenance [OF rates(1-3) refl]
  have step: "schedule digest zones db' j authority' cmd' rows' =
      and_then (replayed_result digest cmd v row) (\<lambda>res. Inr (res, rows'))"
    using later(2-4) again ver' added(4,5) found s(2)
    by (auto simp: schedule_def find_command_line_def cadence_of_def from_cadence_def replayed_result_def split: option.splits)
  have gross: "ob_gross row = rt_gross r" using stored_amounts(3) [OF p(1) c(4-6)] .
  show ?thesis
    unfolding step using replay p(6) n c(3) gross added(13-19) s
    by (auto simp: replayed_result_def)
qed

end
