(* ===== verification/Obligation_Samples.thy ===== *)
theory Obligation_Samples
  imports Obligation_Guarantees
begin

section \<open>Sample obligations\<close>

text \<open>
  A contract of 31000 a month, prorated by calendar days, of which three days of January are covered; and
  what becomes of its recorded inputs. The theorems on the table are applied to it.
\<close>

definition sample_version :: contract_version where
  "sample_version = \<lparr>cv_id = ''v1'', cv_contract = ''c1'', cv_account = ''a1'', cv_subscription = ''s1'',
     cv_source_kind = Sales_order_line, cv_source_id = ''o1'', cv_source_version = 1,
     cv_starts_at = lagos 2026 1 1 0, cv_ends_at = None, cv_cadence = prorated_cadence, cv_tax_code = None,
     cv_tax_inclusive = False\<rparr>"

definition sample_line :: contract_line where
  "sample_line = \<lparr>ln_version = ''v1'', ln_key = ''l1'', ln_component = Recurring_service, ln_quantity = 1,
     ln_unit_price = 31000, ln_currency = ''NGN'', ln_treatment = Receivable, ln_is_finite = False, ln_tax_code = None\<rparr>"

definition sample_billing :: billing_db where
  "sample_billing = \<lparr>bd_versions = [sample_version], bd_lines = [sample_line], bd_taxes = []\<rparr>"

definition sample_terms :: version_terms where
  "sample_terms _ = (prorated_cadence, lagos 2026 1 1 0)"

definition january :: interval where
  "january = Interval (lagos 2026 1 1 0) (lagos 2026 2 1 0)"

definition three_days :: interval where
  "three_days = Interval (lagos 2026 1 1 0) (lagos 2026 1 4 0)"

definition billed_command :: schedule_command where
  "billed_command = \<lparr>sc_version = ''v1'', sc_line_key = ''l1'', sc_index = 0, sc_covered = Some three_days,
     sc_due_at = None, sc_key = Some ''k1''\<rparr>"

definition three_day_factor :: rat where
  "three_day_factor = 9677419354838709677419354839 / 10 ^ 29"

definition three_day_inputs :: "(rating_provenance \<Rightarrow> string) \<Rightarrow> rating_provenance" where
  "three_day_inputs digest = with_fingerprint digest
     (line_provenance sample_version sample_line prorated_cadence ''l1'' january (Some three_days) 1 three_day_factor None None 0)"

definition three_day_rating :: "(rating_provenance \<Rightarrow> string) \<Rightarrow> rated" where
  "three_day_rating digest = \<lparr>rt_version = ''v1'', rt_line_key = ''l1'', rt_period = january, rt_currency = ''NGN'',
     rt_net = 3000, rt_tax = 0, rt_gross = 3000, rt_provenance = three_day_inputs digest\<rparr>"

lemma sample_keeps_terms: "keeps_terms sample_terms sample_billing"
  by (auto simp: keeps_terms_def sample_terms_def sample_billing_def find_version_def sample_version_def split: if_splits)

lemma sample_found:
  "find_version sample_billing ''v1'' = Some sample_version" "find_line sample_billing ''v1'' ''l1'' = Inr sample_line"
  "cadence_of lagos_zones sample_version = Inr prorated_cadence"
  by (simp_all add: sample_billing_def find_version_def find_line_def sample_version_def sample_line_def cadence_of_def
      make_cadence_def prorated_cadence_def sample_cadence_def zone_of_def lagos_zones_def)

lemma sample_january: "service_period lagos_zones prorated_cadence (Instant (lagos 2026 1 1 0)) 0 = Inr january"
  by (simp add: cadence_eval prorated_cadence_def sample_cadence_def january_def)

lemma sample_factor: "proration_factor lagos_zones prorated_cadence january three_days = Inr three_day_factor"
  using sample_proration by (simp add: january_def three_days_def three_day_factor_def)

lemma with_fingerprint_valid: "rating_input_fingerprint digest (with_fingerprint digest p) = pv_fingerprint (with_fingerprint digest p)"
  by (simp add: rating_input_fingerprint_def with_fingerprint_def fingerprint_payload_def)

lemma sample_rate: "rate_line_period digest lagos_zones sample_billing ''v1'' ''l1'' january (Some three_days) =
    Inr (three_day_rating digest)"
proof -
  have c: "to_context 31000 = 31000" "to_context 3000 = 3000"
    by (rule to_context_ratio [where n = 31000 and k = 0] to_context_ratio [where n = 3000 and k = 0]; simp)+
  have p: "to_context (31000 * three_day_factor) = 3000"
  proof -
    have "half_even (31000 * three_day_factor * 10 ^ 24) = 3 * 10 ^ 27"
      by (rule half_even_eq) (simp add: three_day_factor_def)
    then show ?thesis by (subst to_context_at [where k = 24]) (simp_all add: three_day_factor_def)
  qed
  have h: "half_up 300000 = 300000" "half_up 0 = 0" using half_up_of_int [of 300000] half_up_of_int [of 0] by simp_all
  have o: "\<not> lagos 2026 2 1 0 < lagos 2026 1 4 0" by (simp add: lagos_def calendar_eval)
  have "units_for_period lagos_zones prorated_cadence january (Some three_days) = Inr (1, three_day_factor)"
    by (simp add: units_for_period_def sample_factor lift_cadence_def) (simp add: prorated_cadence_def sample_cadence_def)
  moreover have "effective_tax_rate sample_billing sample_version sample_line = Inr (None, None, 0)"
    by (simp add: effective_tax_rate_def sample_version_def sample_line_def)
  moreover have "rate_from_provenance digest (three_day_inputs digest) = Inr (three_day_rating digest)"
    unfolding rate_from_provenance_def three_day_inputs_def with_fingerprint_valid
    by (simp add: with_fingerprint_def line_provenance_def january_def three_days_def o rate_v1_def Let_def dec_mul_def
        dec_div_def c p h money_def quantize_cents_def three_day_rating_def three_day_inputs_def sample_version_def sample_line_def)
      (simp add: three_day_factor_def prorated_cadence_def sample_cadence_def)
  ultimately show ?thesis
    by (simp add: rate_line_period_def sample_found lift_cadence_def three_day_inputs_def)
qed

text \<open>The factor has 29 places and its column keeps 28, so the recorded factor is another number.\<close>

definition recorded_factor :: rat where
  "recorded_factor = 967741935483870967741935484 / 10 ^ 28"

lemma recorded_inputs: "stored_inputs (three_day_inputs digest) = Some ((three_day_inputs digest)\<lparr>pv_proration := recorded_factor\<rparr>)"
proof -
  have "half_up (three_day_factor * 10 ^ 28) = 967741935483870967741935484"
    by (rule half_up_eq) (simp add: three_day_factor_def)
  then have f: "to_scale 38 28 three_day_factor = Some recorded_factor" by (simp add: to_scale_Some recorded_factor_def)
  have i: "to_scale 14 4 31000 = Some 31000" "to_scale 14 4 1 = Some 1" "to_scale 38 28 1 = Some 1" "to_scale 6 4 0 = Some 0"
    by (rule to_scale_exact [where n = "31000 * 10 ^ 4"] to_scale_exact [where n = "10 ^ 4"]
        to_scale_exact [where n = "10 ^ 28"] to_scale_exact [where n = 0]; simp)+
  show ?thesis
    by (simp add: stored_inputs_def three_day_inputs_def with_fingerprint_def line_provenance_def f i sample_line_def
        prorated_cadence_def sample_cadence_def)
qed

definition billed_row :: "(rating_provenance \<Rightarrow> string) \<Rightarrow> obligation" where
  "billed_row digest = (new_obligation ''b1'' Shadow billed_command sample_version sample_line january
     (three_day_rating digest))\<lparr>ob_inputs := Some ((three_day_inputs digest)\<lparr>pv_proration := recorded_factor\<rparr>)\<rparr>"

definition sample_result :: "(rating_provenance \<Rightarrow> string) \<Rightarrow> schedule_result" where
  "sample_result digest = \<lparr>sr_id = ''b1'', sr_state = Scheduled, sr_authority = Shadow, sr_period = january, sr_gross = 3000,
     sr_fingerprint = pv_fingerprint (three_day_inputs digest), sr_replayed = False\<rparr>"

lemma sample_stored: "stored_row (new_obligation ''b1'' Shadow billed_command sample_version sample_line january
    (three_day_rating digest)) = Some (billed_row digest)"
proof -
  have i: "to_scale 14 4 3000 = Some 3000" "to_scale 14 4 0 = Some 0"
    by (rule to_scale_exact [where n = "3000 * 10 ^ 4"] to_scale_exact [where n = 0]; simp)+
  show ?thesis
    by (simp add: stored_row_def new_obligation_def three_day_rating_def recorded_inputs i billed_row_def)
qed

lemma sample_allowed: "row_allowed (billed_row digest)"
  by (simp add: row_allowed_def inputs_allowed_def billed_row_def new_obligation_def three_day_rating_def three_day_inputs_def
      with_fingerprint_def line_provenance_def january_def three_days_def recorded_factor_def sample_line_def)
    (simp add: lagos_def calendar_eval prorated_cadence_def sample_cadence_def)

lemma sample_schedule:
  "schedule digest lagos_zones sample_billing ''b1'' Shadow billed_command [] = Inr (sample_result digest, [billed_row digest])"
proof -
  have v: "sc_version billed_command = ''v1''" "sc_line_key billed_command = ''l1''" "sc_index billed_command = 0"
    "sc_covered billed_command = Some three_days" "truthy_str (sc_key billed_command)" "cv_id sample_version = ''v1''"
    "cv_starts_at sample_version = lagos 2026 1 1 0" "cv_ends_at sample_version = None"
    by (simp_all add: billed_command_def sample_version_def)
  show ?thesis
    by (simp add: schedule_def v sample_found find_command_line_def from_cadence_def sample_january period_rows_def
        schedule_new_def sample_rate insert_row_def sample_stored sample_allowed sample_result_def)
      (simp add: three_day_rating_def)
qed

lemma sample_history: "obligation_history digest lagos_zones sample_terms [billed_row digest]"
  by (rule Next_table [OF Empty_table Schedule_step [OF sample_schedule sample_keeps_terms]])

subsection \<open>The theorems on the sample\<close>

lemma sample_row_fields:
  "ob_start (billed_row digest) = lagos 2026 1 1 0" "ob_end (billed_row digest) = lagos 2026 2 1 0"
  "ob_version (billed_row digest) = ''v1''" "ob_line_key (billed_row digest) = ''l1''" "ob_state (billed_row digest) = Scheduled"
  "ob_id (billed_row digest) = ''b1''" "ob_resolved (billed_row digest) = 0" "ob_gross (billed_row digest) = 3000"
  by (simp_all add: billed_row_def new_obligation_def january_def billed_command_def sample_version_def three_day_rating_def)

theorem no_instant_billed_twice_witness:
  "\<exists>!x. x \<in> set [billed_row (\<lambda>_. ''a'')] \<and> ob_version x = ''v1'' \<and> ob_line_key x = ''l1'' \<and>
     ob_start x \<le> lagos 2026 1 2 0 \<and> lagos 2026 1 2 0 < ob_end x"
proof (rule ex_ex1I)
  show "\<exists>x. x \<in> set [billed_row (\<lambda>_. ''a'')] \<and> ob_version x = ''v1'' \<and> ob_line_key x = ''l1'' \<and>
      ob_start x \<le> lagos 2026 1 2 0 \<and> lagos 2026 1 2 0 < ob_end x"
    by (simp add: sample_row_fields) (simp add: lagos_def calendar_eval)
  have run: "runs_in lagos_zones (fst (sample_terms i)) (fixed_zone hour_us)" for i
    by (rule sample_runs) (simp add: sample_terms_def prorated_cadence_def sample_cadence_def)
  show "x = y" if "x \<in> set [billed_row (\<lambda>_. ''a'')] \<and> ob_version x = ''v1'' \<and> ob_line_key x = ''l1'' \<and>
        ob_start x \<le> lagos 2026 1 2 0 \<and> lagos 2026 1 2 0 < ob_end x"
      "y \<in> set [billed_row (\<lambda>_. ''a'')] \<and> ob_version y = ''v1'' \<and> ob_line_key y = ''l1'' \<and>
        ob_start y \<le> lagos 2026 1 2 0 \<and> lagos 2026 1 2 0 < ob_end y" for x y
  proof -
    have lines: "ob_version x = ob_version y" "ob_line_key x = ob_line_key y" using that by (elim conjE, simp only:)+
    have first: "x \<in> set [billed_row (\<lambda>_. ''a'')]" "ob_start x \<le> lagos 2026 1 2 0 \<and> lagos 2026 1 2 0 < ob_end x"
      using that(1) by blast+
    have second: "y \<in> set [billed_row (\<lambda>_. ''a'')]" "ob_start y \<le> lagos 2026 1 2 0 \<and> lagos 2026 1 2 0 < ob_end y"
      using that(2) by blast+
    show ?thesis
      by (rule no_instant_billed_twice [OF sample_history run first(1) second(1) lines first(2) second(2)])
  qed
qed

text \<open>The sample obligation opened, and settled in full.\<close>

definition opened_row :: obligation where
  "opened_row = (billed_row (\<lambda>_. ''a''))\<lparr>ob_state := Open_state, ob_opened_at := Some (lagos 2026 1 1 0)\<rparr>"

definition settled_row :: obligation where
  "settled_row = opened_row\<lparr>ob_resolved := 3000, ob_resolution := Some Settlement, ob_state := Resolved,
     ob_resolved_at := Some (lagos 2026 1 5 0)\<rparr>"

lemma sample_column: "to_scale 14 4 3000 = Some 3000"
  by (rule to_scale_exact [where n = "3000 * 10 ^ 4"]) simp_all

lemma held_changed:
  assumes "row_held ob" and "fixed_part x = fixed_part ob" and "to_scale 14 4 (ob_resolved x) = Some (ob_resolved x)"
    and "0 \<le> ob_resolved x" and "ob_resolved x \<le> ob_gross ob"
  shows "stored_row x = Some x" "row_allowed x"
proof -
  show "stored_row x = Some x" using stored_held [OF assms(1,2)] assms(3) by simp
  have "row_allowed (fixed_part ob)"
    using assms(1,4,5) by (auto simp: row_held_def row_allowed_def fixed_part_def inputs_allowed_def split: option.splits)
  moreover have "row_allowed (x\<lparr>ob_resolved := 0\<rparr>) = row_allowed (fixed_part x)"
    by (simp add: row_allowed_def fixed_part_def inputs_allowed_def split: option.splits)
  moreover have "ob_gross (fixed_part x) = ob_gross (fixed_part ob)" using assms(2) by simp
  then have "ob_gross x = ob_gross ob" by (simp add: fixed_part_def)
  ultimately show "row_allowed x"
    using assms(2,4,5) by (simp add: row_allowed_def inputs_allowed_def split: option.splits)
qed

lemma sample_held: "row_held (billed_row (\<lambda>_. ''a''))" "row_held opened_row"
proof -
  show first: "row_held (billed_row (\<lambda>_. ''a''))"
    using table_held [OF history_table_ok [OF sample_history]] by simp
  have "to_scale 14 4 0 = Some 0" by (rule to_scale_exact [where n = 0]) simp_all
  then show "row_held opened_row"
    using held_changed [OF first, of opened_row]
    by (simp add: opened_row_def fixed_part_def sample_row_fields row_held_def)
qed

lemma sample_settle:
  "open_obligation ''b1'' None [billed_row (\<lambda>_. ''a'')] = Inr (Open_state, [opened_row])"
  "resolve_obligation ''b1'' Settlement 3000 (Some (lagos 2026 1 5 0)) [opened_row] = Inr (Resolved, [settled_row])"
proof -
  show "open_obligation ''b1'' None [billed_row (\<lambda>_. ''a'')] = Inr (Open_state, [opened_row])"
    using sample_held(2) by (simp add: open_obligation_def locked_def sample_row_fields update_row_def row_held_def
        opened_row_def)
  have c: "to_context 3000 = 3000" by (rule to_context_ratio [where n = 3000 and k = 0]) simp_all
  have "stored_row settled_row = Some settled_row" "row_allowed settled_row"
    using held_changed [OF sample_held(2), of settled_row]
    by (simp_all add: settled_row_def fixed_part_def sample_column) (simp_all add: opened_row_def sample_row_fields)
  then show "resolve_obligation ''b1'' Settlement 3000 (Some (lagos 2026 1 5 0)) [opened_row] = Inr (Resolved, [settled_row])"
    by (simp add: resolve_obligation_def locked_def opened_row_def sample_row_fields c resolution_state_def update_row_def
        settled_row_def)
qed

lemma sample_settled: "obligation_history (\<lambda>_. ''a'') lagos_zones sample_terms [opened_row]"
    "obligation_history (\<lambda>_. ''a'') lagos_zones sample_terms [settled_row]"
proof -
  show o: "obligation_history (\<lambda>_. ''a'') lagos_zones sample_terms [opened_row]"
    by (rule Next_table [OF sample_history Open_step [OF sample_settle(1)]])
  show "obligation_history (\<lambda>_. ''a'') lagos_zones sample_terms [settled_row]"
    by (rule Next_table [OF o Resolve_step [OF sample_settle(2)]])
qed

theorem obligation_states_in_step_witness: "ob_resolved settled_row = ob_gross settled_row \<and> ob_resolved_at settled_row \<noteq> None"
  using obligation_states_in_step [OF sample_settled(2), of settled_row] by (simp add: settled_row_def)

theorem closed_obligations_are_final_witness:
  "\<exists>y \<in> set [settled_row]. ob_id y = ''b1'' \<and> fixed_part y = fixed_part opened_row \<and> ob_resolved opened_row \<le> ob_resolved y"
  using closed_obligations_are_final [OF sample_settled(1) Resolve_step [OF sample_settle(2)], of opened_row]
  by (simp add: opened_row_def sample_row_fields)

text \<open>
  With a digest that tells the factor from the recorded one, sending the command again is refused: the
  factor 3/31 does not survive its column.
\<close>

definition factor_digest :: "rating_provenance \<Rightarrow> string" where
  "factor_digest p = (if pv_proration p = three_day_factor then ''a'' else ''b'')"

lemma sample_factors_fit: "to_context three_day_factor = three_day_factor" "to_context recorded_factor = recorded_factor"
proof -
  have "fits_context (of_int 9677419354838709677419354839 / 10 ^ 29)" "fits_context (of_int 967741935483870967741935484 / 10 ^ 28)"
    by (rule fits_context_scaled, simp)+
  then show "to_context three_day_factor = three_day_factor" "to_context recorded_factor = recorded_factor"
    by (simp_all add: to_context_fits three_day_factor_def recorded_factor_def)
qed

theorem schedule_again_witness:
  "schedule factor_digest lagos_zones sample_billing ''b2'' Shadow (billed_command\<lparr>sc_key := Some ''k2'', sc_due_at := None\<rparr>)
      [billed_row factor_digest] = Inl (Recorded_provenance_invalid Rating_fingerprint_mismatch)"
proof -
  have r: "sr_period (sample_result factor_digest) = january" "\<not> sr_replayed (sample_result factor_digest)"
    "sc_version billed_command = ''v1''" "sc_line_key billed_command = ''l1''" "sc_covered billed_command = Some three_days"
    "rt_provenance (three_day_rating factor_digest) = three_day_inputs factor_digest"
    by (simp_all add: sample_result_def billed_command_def three_day_rating_def)
  have differ: "factor_digest (fingerprint_payload ((three_day_inputs factor_digest)\<lparr>pv_proration := recorded_factor\<rparr>)) \<noteq>
      factor_digest (fingerprint_payload (rt_provenance (three_day_rating factor_digest)))"
    unfolding r
    by (simp add: factor_digest_def fingerprint_payload_def three_day_inputs_def with_fingerprint_def line_provenance_def
        sample_factors_fit) (simp add: three_day_factor_def recorded_factor_def)
  have open_end: "\<forall>e. cv_ends_at sample_version = Some e \<longrightarrow> starts_at january < e"
    by (simp add: sample_version_def)
  have stored: "stored_inputs (rt_provenance (three_day_rating factor_digest)) =
      Some ((three_day_inputs factor_digest)\<lparr>pv_proration := recorded_factor\<rparr>)"
    using recorded_inputs by (simp add: r)
  have key: "truthy_str (Some ''k2'')" by simp
  note again = schedule_again [OF sample_schedule r(2) sample_keeps_terms _ _ sample_keeps_terms, where cmd' =
      "billed_command\<lparr>sc_key := Some ''k2'', sc_due_at := None\<rparr>" and k = "Some ''k2''" and due = None,
      unfolded r(1,3-5), OF sample_rate stored sample_found(1,2) open_end refl key]
  show ?thesis by (rule mp [OF conjunct2 [OF again] differ])
qed

end
