(* ===== verification/Tables.thy ===== *)
theory Tables
  imports Results
begin

section \<open>Tables\<close>

text \<open>
  A table is the list of its rows in the order of their insertion. A query is a filter, an update replaces
  the row with the same identity. Several tables number the rows of a family (the generations of a timer, the
  versions of a contract): the interface \<open>numbered_rows\<close> has what numbering relies on.
\<close>

subsection \<open>Queries and updates\<close>

text \<open>\<open>scalar_one_or_none()\<close> raises on a second row, with the given error.\<close>

definition one_or_none :: "'e \<Rightarrow> 'r list \<Rightarrow> 'e + 'r option" where
  "one_or_none several rows = (case rows of [] \<Rightarrow> Inr None | [r] \<Rightarrow> Inr (Some r) | _ \<Rightarrow> Inl several)"

text \<open>\<open>order_by(number.desc()).limit(1)\<close>.\<close>

definition greatest :: "('r \<Rightarrow> int) \<Rightarrow> 'r list \<Rightarrow> 'r option" where
  "greatest number rows = (case sort_key (\<lambda>r. - number r) rows of [] \<Rightarrow> None | r # _ \<Rightarrow> Some r)"

text \<open>The attributes of one row written back.\<close>

definition put_row :: "('r \<Rightarrow> 'k) \<Rightarrow> 'r \<Rightarrow> 'r list \<Rightarrow> 'r list" where
  "put_row key r rows = map (\<lambda>x. if key x = key r then r else x) rows"

lemma one_or_none_None: "one_or_none e rows = Inr None \<longleftrightarrow> rows = []"
  by (auto simp: one_or_none_def split: list.splits)

lemma one_or_none_Some: "one_or_none e rows = Inr (Some r) \<longleftrightarrow> rows = [r]"
  by (auto simp: one_or_none_def split: list.splits)

lemma one_or_none_SomeD: "one_or_none e (filter P rows) = Inr (Some r) \<Longrightarrow> r \<in> set rows \<and> P r"
  using filter_set [of P rows] by (auto simp: one_or_none_Some filter_eq_Cons_iff)

lemma one_or_none_unique:
  assumes "distinct rows" and "\<And>x y. x \<in> set rows \<Longrightarrow> y \<in> set rows \<Longrightarrow> x = y"
  shows "\<exists>r. one_or_none e rows = Inr r"
proof (cases rows)
  case (Cons x xs)
  have "xs = []"
  proof (cases xs)
    case (Cons y ys)
    have "x = y" by (rule assms(2)) (simp_all add: \<open>rows = x # xs\<close> Cons)
    then show ?thesis using assms(1) by (simp add: \<open>rows = x # xs\<close> Cons)
  qed simp
  then show ?thesis by (simp add: Cons one_or_none_def)
qed (simp add: one_or_none_def)

lemma greatest_None: "greatest number rows = None \<longleftrightarrow> rows = []"
proof -
  have "sort_key (\<lambda>r. - number r) rows = [] \<longleftrightarrow> rows = []"
    by (metis length_0_conv length_sort)
  then show ?thesis by (auto simp: greatest_def split: list.splits)
qed

lemma greatest_Some:
  assumes "greatest number rows = Some r"
  shows "r \<in> set rows" "x \<in> set rows \<Longrightarrow> number x \<le> number r"
proof -
  from assms obtain xs where s: "sort_key (\<lambda>r. - number r) rows = r # xs"
    by (auto simp: greatest_def split: list.splits)
  have "set (r # xs) = set rows" using set_sort [of "\<lambda>r. - number r" rows] s by simp
  then show "r \<in> set rows" by auto
  have "sorted (map (\<lambda>r. - number r) (r # xs))" using sorted_sort_key [of "\<lambda>r. - number r" rows] s by simp
  then show "number x \<le> number r" if "x \<in> set rows"
    using that \<open>set (r # xs) = set rows\<close> by auto
qed

lemma find_member: "List.find P xs = Some x \<Longrightarrow> x \<in> set xs \<and> P x"
  by (induction xs) (auto split: if_splits)

lemma find_none: "List.find P xs = None \<longleftrightarrow> (\<forall>x \<in> set xs. \<not> P x)"
  by (induction xs) auto

lemma find_unique: "distinct (map key xs) \<Longrightarrow> x \<in> set xs \<Longrightarrow> key x = k \<Longrightarrow> List.find (\<lambda>y. key y = k) xs = Some x"
  by (induction xs) auto

lemma filter_single:
  assumes "distinct xs" and "x \<in> set xs" and "P x" and "\<And>y. y \<in> set xs \<Longrightarrow> P y \<Longrightarrow> y = x"
  shows "filter P xs = [x]"
proof -
  define ys where "ys = filter P xs"
  have ys: "distinct ys" "x \<in> set ys" using assms(1-3) by (simp_all add: ys_def)
  have same: "y = x" if "y \<in> set ys" for y using that assms(4) by (simp add: ys_def)
  have "ys = [x]"
  proof (cases ys)
    case (Cons y zs)
    have "z = y" if "z \<in> set zs" for z using same [of z] same [of y] that by (simp add: Cons)
    then have "zs = []" using ys(1) by (cases zs) (auto simp: Cons)
    then show ?thesis using same [of y] by (simp add: Cons)
  qed (use ys(2) in simp)
  then show ?thesis by (simp add: ys_def)
qed

lemma put_row_set: "x \<in> set (put_row key r rows) \<Longrightarrow> x = r \<or> x \<in> set rows \<and> key x \<noteq> key r"
  by (auto simp: put_row_def split: if_splits)

lemma put_row_kept: "x \<in> set rows \<Longrightarrow> key x \<noteq> key r \<Longrightarrow> x \<in> set (put_row key r rows)"
  by (force simp: put_row_def)

lemma put_row_new: "x \<in> set rows \<Longrightarrow> key x = key r \<Longrightarrow> r \<in> set (put_row key r rows)"
  by (force simp: put_row_def)

lemma put_row_map:
  assumes "distinct (map key rows)" and "ob \<in> set rows" and "key r = key ob" and "f r = f ob"
  shows "map f (put_row key r rows) = map f rows"
  using assms by (auto simp: put_row_def distinct_map inj_on_def)

lemma put_row_keys [simp]: "map key (put_row key r rows) = map key rows"
  by (simp add: put_row_def)

lemma put_row_filter:
  assumes "distinct (map key rows)" and "ob \<in> set rows" and "key r = key ob" and "\<And>x. P x = P' (g x)" and "g r = g ob"
  shows "map f (filter P (put_row key r rows)) = map f (put_row key r (filter P rows))"
proof -
  have "P x = P r" if "x \<in> set rows" "key x = key r" for x
    using that assms by (metis distinct_map inj_onD)
  then have "filter P (put_row key r rows) = put_row key r (filter P rows)"
    by (induction rows) (auto simp: put_row_def)
  then show ?thesis by simp
qed

lemma filter_put_row:
  assumes "distinct (map key rows)" and "d \<in> set rows" and "key r = key d" and "\<not> P d" and "\<not> P r"
  shows "filter P (put_row key r rows) = filter P rows"
proof -
  have "\<not> P x" if "x \<in> set rows" "key x = key r" for x
    using that assms(1-4) by (metis distinct_map inj_onD)
  then show ?thesis using assms(5) unfolding put_row_def by (induction rows) auto
qed

subsection \<open>Numbered rows\<close>

text \<open>The rows of each family are numbered 1, 2, 3 and so on in the order of their insertion.\<close>

definition gapless :: "('r \<Rightarrow> 'g) \<Rightarrow> ('r \<Rightarrow> int) \<Rightarrow> 'r list \<Rightarrow> bool" where
  "gapless family number rows \<longleftrightarrow>
     (\<forall>g. map number (filter (\<lambda>r. family r = g) rows) = map int [1..<Suc (length (filter (\<lambda>r. family r = g) rows))])"

lemma gapless_Nil [simp]: "gapless family number []"
  by (simp add: gapless_def)

lemma gapless_cong:
  assumes "map (\<lambda>r. (family r, number r)) rows' = map (\<lambda>r. (family r, number r)) rows"
  shows "gapless family number rows' \<longleftrightarrow> gapless family number rows"
proof -
  have m: "map number (filter (\<lambda>r. family r = g) xs) = map snd (filter (\<lambda>p. fst p = g) (map (\<lambda>r. (family r, number r)) xs))"
    for g xs by (simp add: filter_map comp_def)
  have "length (filter (\<lambda>r. family r = g) xs) = length (map number (filter (\<lambda>r. family r = g) xs))" for g xs by simp
  then show ?thesis unfolding gapless_def using m assms by metis
qed

lemma gapless_number:
  assumes "gapless family number rows" and "r \<in> set rows"
  shows "1 \<le> number r" "number r \<le> int (length (filter (\<lambda>x. family x = family r) rows))"
proof -
  have "number r \<in> set (map number (filter (\<lambda>x. family x = family r) rows))" using assms(2) by simp
  then have "number r \<in> set (map int [1..<Suc (length (filter (\<lambda>x. family x = family r) rows))])"
    using assms(1) by (simp only: gapless_def)
  then show "1 \<le> number r" "number r \<le> int (length (filter (\<lambda>x. family x = family r) rows))" by auto
qed

lemma gapless_distinct:
  assumes "gapless family number rows"
  shows "distinct (map (\<lambda>r. (family r, number r)) rows)"
proof -
  have d: "distinct (map number (filter (\<lambda>r. family r = g) rows))" for g
    using assms by (simp add: gapless_def distinct_map del: upt_Suc)
  show ?thesis
    using d
  proof (induction rows)
    case (Cons r rows)
    have "distinct (map number (filter (\<lambda>x. family x = g) rows))" for g
      using Cons.prems [of g] by (simp split: if_splits)
    moreover have "(family r, number r) \<notin> (\<lambda>r. (family r, number r)) ` set rows"
      using Cons.prems [of "family r"] by auto
    ultimately show ?case using Cons.IH by simp
  qed simp
qed

lemma gapless_ex1:
  assumes "gapless family number rows" and "r \<in> set rows" and "1 \<le> g" and "g \<le> number r"
  shows "\<exists>!x. x \<in> set rows \<and> family x = family r \<and> number x = g"
proof -
  let ?n = "length (filter (\<lambda>x. family x = family r) rows)"
  have "nat g \<in> set [1..<Suc ?n]"
    using assms(3,4) gapless_number(2) [OF assms(1,2)] by (simp only: set_upt atLeastLessThan_iff) linarith
  then have "int (nat g) \<in> set (map int [1..<Suc ?n])" by (simp only: set_map imageI)
  then have "g \<in> set (map number (filter (\<lambda>x. family x = family r) rows))"
    using assms(1,3) by (simp only: gapless_def) simp
  then show ?thesis using gapless_distinct [OF assms(1)] by (auto simp: distinct_map inj_on_def)
qed

locale numbered_rows =
  fixes family :: "'r \<Rightarrow> 'g"
    and number :: "'r \<Rightarrow> int"
    and latest :: "'r list \<Rightarrow> 'g \<Rightarrow> 'r option"
  assumes latest_None: "latest rows g = None \<longleftrightarrow> (\<forall>r \<in> set rows. family r \<noteq> g)"
    and latest_in: "latest rows g = Some r \<Longrightarrow> r \<in> set rows \<and> family r = g"
    and latest_greatest: "latest rows g = Some r \<Longrightarrow> x \<in> set rows \<Longrightarrow> family x = g \<Longrightarrow> number x \<le> number r"
begin

lemma next_number:
  assumes "gapless family number rows"
  shows "(case latest rows g of None \<Rightarrow> 1 | Some r \<Rightarrow> number r + 1) = 1 + int (length (filter (\<lambda>x. family x = g) rows))"
proof (cases "latest rows g")
  case None
  then have "filter (\<lambda>x. family x = g) rows = []" by (simp add: latest_None filter_empty_conv)
  then show ?thesis by (simp add: None)
next
  case (Some r)
  let ?n = "length (filter (\<lambda>x. family x = g) rows)"
  have r: "r \<in> set rows" "family r = g" using latest_in [OF Some] by simp_all
  have "0 < ?n" using r by (auto simp: filter_empty_conv)
  then have "?n \<in> set [1..<Suc ?n]" by (simp only: set_upt atLeastLessThan_iff) linarith
  then have "int ?n \<in> set (map int [1..<Suc ?n])" by (simp only: set_map imageI)
  then have "int ?n \<in> set (map number (filter (\<lambda>x. family x = g) rows))" using assms by (simp only: gapless_def)
  then have "int ?n \<le> number r" using latest_greatest [OF Some] by auto
  with gapless_number(2) [OF assms r(1)] r(2) show ?thesis by (simp add: Some)
qed

lemma append_numbered:
  assumes "gapless family number rows"
    and "number r = (case latest rows (family r) of None \<Rightarrow> 1 | Some x \<Rightarrow> number x + 1)"
  shows "gapless family number (rows @ [r])" "\<forall>x \<in> set rows. family x = family r \<longrightarrow> number x < number r"
proof -
  have n: "number r = 1 + int (length (filter (\<lambda>x. family x = family r) rows))"
    using assms(2) next_number [OF assms(1)] by simp
  show "gapless family number (rows @ [r])" using assms(1) n by (auto simp: gapless_def)
  show "\<forall>x \<in> set rows. family x = family r \<longrightarrow> number x < number r"
    using gapless_number(2) [OF assms(1)] n by fastforce
qed

lemma latest_unique:
  assumes "gapless family number rows" and "latest rows g = Some r" and "x \<in> set rows" and "family x = g"
    and "number r \<le> number x"
  shows "x = r"
proof -
  have "number x = number r" "family x = family r"
    using latest_greatest [OF assms(2-4)] assms(4,5) latest_in [OF assms(2)] by simp_all
  then show ?thesis
    using gapless_distinct [OF assms(1)] assms(3) latest_in [OF assms(2)] by (auto simp: distinct_map inj_on_def)
qed

end

end
