(* ===== verification/Timers.thy ===== *)
theory Timers
  imports Tables Cadence
begin

section \<open>Durable timers\<close>

text \<open>
  Models \<open>app/services/runtime_durable_timers.py\<close> and the table \<open>durable_timers\<close>: staging a timer inside
  the command of its owner, cancelling it, and the bounded scan that fires what is due. The fresh identity of
  a new timer and the identities of the emitted events are arguments. The order of the scan is by due time;
  rows due at the same instant come in the order of insertion.
\<close>

subsection \<open>The table\<close>

datatype timer_status = Timer_scheduled | Timer_fired | Timer_canceled | Timer_superseded

record timer =
  tm_id :: string
  tm_owner :: string
  tm_entity_kind :: string
  tm_entity :: string
  tm_purpose :: string
  tm_generation :: int
  tm_due_at :: int
  tm_expected_version :: int
  tm_output :: string
  tm_status :: timer_status
  tm_fired_at :: "int option"
  tm_fired_event :: "string option"

datatype timer_error =
    Timer_requires_owner_command | Invalid_timer_due_at | Invalid_timer_output
  | Several_current_timers | Timer_integrity_error

text \<open>Owner, entity kind, entity and purpose.\<close>

type_synonym timer_slot = "string \<times> string \<times> string \<times> string"

definition timer_key :: "timer \<Rightarrow> timer_slot" where
  "timer_key r = (tm_owner r, tm_entity_kind r, tm_entity r, tm_purpose r)"

definition latest_timer :: "timer list \<Rightarrow> timer_slot \<Rightarrow> timer option" where
  "latest_timer rows k = greatest tm_generation (filter (\<lambda>r. timer_key r = k) rows)"

definition current_timer :: "timer list \<Rightarrow> timer_slot \<Rightarrow> timer_error + timer option" where
  "current_timer rows k =
     one_or_none Several_current_timers (filter (\<lambda>r. timer_key r = k \<and> tm_status r = Timer_scheduled) rows)"

text \<open>The insert: the two unique indexes, the check on the generation, the primary key.\<close>

definition insert_timer :: "timer list \<Rightarrow> timer \<Rightarrow> timer_error + timer list" where
  "insert_timer rows r =
     (if tm_generation r < 1 \<or>
         (\<exists>x \<in> set rows. tm_id x = tm_id r \<or>
           timer_key x = timer_key r \<and> (tm_generation x = tm_generation r \<or>
             tm_status x = Timer_scheduled \<and> tm_status r = Timer_scheduled))
      then Inl Timer_integrity_error else Inr (rows @ [r]))"

subsection \<open>Staging\<close>

record timer_command =
  tc_owner :: string
  tc_entity_kind :: string
  tc_entity :: string
  tc_purpose :: string
  tc_due_at :: moment
  tc_output :: string
  tc_expected_version :: int

definition command_key :: "timer_command \<Rightarrow> timer_slot" where
  "command_key cmd = (tc_owner cmd, tc_entity_kind cmd, tc_entity cmd, tc_purpose cmd)"

definition new_timer :: "string \<Rightarrow> timer_command \<Rightarrow> int \<Rightarrow> int \<Rightarrow> timer" where
  "new_timer i cmd generation due =
     \<lparr>tm_id = i, tm_owner = tc_owner cmd, tm_entity_kind = tc_entity_kind cmd, tm_entity = tc_entity cmd,
      tm_purpose = tc_purpose cmd, tm_generation = generation, tm_due_at = due,
      tm_expected_version = tc_expected_version cmd, tm_output = tc_output cmd, tm_status = Timer_scheduled,
      tm_fired_at = None, tm_fired_event = None\<rparr>"

text \<open>The previous generation, if it is still scheduled, is superseded.\<close>

definition supersede :: "timer list \<Rightarrow> timer option \<Rightarrow> timer list" where
  "supersede rows latest =
     (case latest of
        None \<Rightarrow> rows
      | Some r \<Rightarrow> if tm_status r = Timer_scheduled then put_row tm_id (r\<lparr>tm_status := Timer_superseded\<rparr>) rows else rows)"

text \<open>\<open>active\<close> is \<open>owner_command_active\<close>: an owner command is running in the session.\<close>

definition schedule_timer ::
    "bool \<Rightarrow> string \<Rightarrow> timer_command \<Rightarrow> timer list \<Rightarrow> timer_error + timer \<times> timer list" where
  "schedule_timer active i cmd rows =
     (if \<not> active then Inl Timer_requires_owner_command
      else case tc_due_at cmd of
        Naive_time _ \<Rightarrow> Inl Invalid_timer_due_at
      | Instant due \<Rightarrow>
          if py_strip (tc_output cmd) = [] then Inl Invalid_timer_output
          else (let latest = latest_timer rows (command_key cmd);
                    generation = (case latest of None \<Rightarrow> 1 | Some r \<Rightarrow> tm_generation r + 1);
                    r = new_timer i cmd generation due in
            and_then (insert_timer (supersede rows latest) r) (\<lambda>rows'. Inr (r, rows'))))"

definition cancel_timer :: "bool \<Rightarrow> timer_slot \<Rightarrow> timer list \<Rightarrow> timer_error + bool \<times> timer list" where
  "cancel_timer active k rows =
     (if \<not> active then Inl Timer_requires_owner_command
      else and_then (current_timer rows k) (\<lambda>current.
        case current of
          None \<Rightarrow> Inr (False, rows)
        | Some r \<Rightarrow> Inr (True, put_row tm_id (r\<lparr>tm_status := Timer_canceled\<rparr>) rows)))"

subsection \<open>Firing\<close>

text \<open>The trigger event of a fired timer.\<close>

record fired_trigger =
  tr_event :: string
  tr_trigger :: string
  tr_timer :: string
  tr_owner :: string
  tr_entity_kind :: string
  tr_entity :: string
  tr_purpose :: string
  tr_generation :: int
  tr_expected_version :: int
  tr_due_at :: int

definition trigger_of :: "(string \<Rightarrow> string) \<Rightarrow> timer \<Rightarrow> fired_trigger" where
  "trigger_of event r =
     \<lparr>tr_event = event (tm_id r), tr_trigger = tm_output r, tr_timer = tm_id r, tr_owner = tm_owner r,
      tr_entity_kind = tm_entity_kind r, tr_entity = tm_entity r, tr_purpose = tm_purpose r,
      tr_generation = tm_generation r, tr_expected_version = tm_expected_version r, tr_due_at = tm_due_at r\<rparr>"

definition due_by :: "int \<Rightarrow> timer \<Rightarrow> bool" where
  "due_by t r \<longleftrightarrow> tm_status r = Timer_scheduled \<and> tm_due_at r \<le> t"

definition due_timers :: "int \<Rightarrow> nat \<Rightarrow> timer list \<Rightarrow> timer list" where
  "due_timers now limit rows = take limit (sort_key tm_due_at (filter (due_by now) rows))"

definition mark_fired :: "(string \<Rightarrow> string) \<Rightarrow> int \<Rightarrow> timer \<Rightarrow> timer" where
  "mark_fired event now r = r\<lparr>tm_status := Timer_fired, tm_fired_at := Some now, tm_fired_event := Some (event (tm_id r))\<rparr>"

definition fire_due :: "(string \<Rightarrow> string) \<Rightarrow> int \<Rightarrow> nat \<Rightarrow> timer list \<Rightarrow> fired_trigger list \<times> timer list" where
  "fire_due event now limit rows =
     (let due = due_timers now limit rows in
      (map (trigger_of event) due, fold (\<lambda>r. put_row tm_id (mark_fired event now r)) due rows))"

definition fire_due_timers :: "(string \<Rightarrow> string) \<Rightarrow> moment \<Rightarrow> nat \<Rightarrow> timer list \<Rightarrow> timer_error + fired_trigger list \<times> timer list" where
  "fire_due_timers event now limit rows =
     (case now of Naive_time _ \<Rightarrow> Inl Invalid_timer_due_at | Instant t \<Rightarrow> Inr (fire_due event t limit rows))"

subsection \<open>Generations\<close>

lemma latest_timer_None: "latest_timer rows k = None \<longleftrightarrow> (\<forall>r \<in> set rows. timer_key r \<noteq> k)"
  by (simp add: latest_timer_def greatest_None filter_empty_conv)

interpretation timers: numbered_rows timer_key tm_generation latest_timer
proof
  show "latest_timer rows k = None \<longleftrightarrow> (\<forall>r \<in> set rows. timer_key r \<noteq> k)" for rows k by (rule latest_timer_None)
  show "latest_timer rows k = Some r \<Longrightarrow> r \<in> set rows \<and> timer_key r = k" for rows k r
    by (auto simp: latest_timer_def dest: greatest_Some(1))
  show "latest_timer rows k = Some r \<Longrightarrow> x \<in> set rows \<Longrightarrow> timer_key x = k \<Longrightarrow> tm_generation x \<le> tm_generation r" for rows k r x
    by (auto simp: latest_timer_def dest: greatest_Some(2))
qed

inductive timer_step :: "timer list \<Rightarrow> timer list \<Rightarrow> bool" where
  Schedule_timer: "schedule_timer active i cmd rows = Inr (r, rows') \<Longrightarrow> timer_step rows rows'"
| Cancel_timer: "cancel_timer active k rows = Inr (b, rows') \<Longrightarrow> timer_step rows rows'"
| Fire_timers: "fire_due_timers event now limit rows = Inr (trs, rows') \<Longrightarrow> timer_step rows rows'"

inductive timer_history :: "timer list \<Rightarrow> bool" where
  No_timers: "timer_history []"
| Next_timers: "timer_history rows \<Longrightarrow> timer_step rows rows' \<Longrightarrow> timer_history rows'"

definition timer_in_step :: "timer \<Rightarrow> bool" where
  "timer_in_step r \<longleftrightarrow> (tm_status r = Timer_fired \<longleftrightarrow> tm_fired_at r \<noteq> None) \<and>
     (case tm_fired_at r of None \<Rightarrow> True | Some t \<Rightarrow> tm_due_at r \<le> t)"

definition timers_ok :: "timer list \<Rightarrow> bool" where
  "timers_ok rows \<longleftrightarrow> distinct (map tm_id rows) \<and> gapless timer_key tm_generation rows \<and> list_all timer_in_step rows \<and>
     (\<forall>r \<in> set rows. \<forall>x \<in> set rows. tm_status r = Timer_scheduled \<and> timer_key x = timer_key r \<longrightarrow>
       tm_generation x \<le> tm_generation r)"

lemma timers_okD:
  assumes "timers_ok rows"
  shows "distinct (map tm_id rows)" "gapless timer_key tm_generation rows" "\<forall>r \<in> set rows. timer_in_step r"
    "r \<in> set rows \<Longrightarrow> tm_status r = Timer_scheduled \<Longrightarrow> x \<in> set rows \<Longrightarrow> timer_key x = timer_key r \<Longrightarrow>
      tm_generation x \<le> tm_generation r"
  using assms by (auto simp: timers_ok_def list_all_iff)

text \<open>The key and the generation of a row never change.\<close>

definition same_timer :: "timer \<Rightarrow> timer \<Rightarrow> bool" where
  "same_timer r x \<longleftrightarrow> tm_id r = tm_id x \<and> timer_key r = timer_key x \<and> tm_generation r = tm_generation x \<and>
     tm_due_at r = tm_due_at x"

lemma same_timer_update [simp]:
  "same_timer (r\<lparr>tm_status := s\<rparr>) r" "same_timer (mark_fired event now r) r"
  by (simp_all add: same_timer_def timer_key_def mark_fired_def)

lemma put_timer_ok:
  assumes "timers_ok rows" and "ob \<in> set rows" and "same_timer r ob" and "tm_status r \<noteq> Timer_scheduled"
    and "timer_in_step r"
  shows "timers_ok (put_row tm_id r rows)"
proof -
  note ok = timers_okD [OF assms(1)]
  have same: "tm_id r = tm_id ob" "timer_key r = timer_key ob" "tm_generation r = tm_generation ob"
    using assms(3) by (simp_all add: same_timer_def)
  have "map (\<lambda>x. (timer_key x, tm_generation x)) (put_row tm_id r rows) = map (\<lambda>x. (timer_key x, tm_generation x)) rows"
    by (rule put_row_map [OF ok(1) assms(2)]) (simp_all add: same)
  then have "gapless timer_key tm_generation (put_row tm_id r rows)" using ok(2) gapless_cong by blast
  moreover have "\<exists>z \<in> set rows. same_timer x z" if "x \<in> set (put_row tm_id r rows)" for x
    using put_row_set [OF that] assms(2,3) by (auto simp: same_timer_def)
  moreover have "x \<in> set rows" if "x \<in> set (put_row tm_id r rows)" "tm_status x = Timer_scheduled" for x
    using put_row_set [OF that(1)] assms(4) that(2) by auto
  moreover have "timer_in_step x" if "x \<in> set (put_row tm_id r rows)" for x
    using put_row_set [OF that] assms(5) ok(3) by auto
  ultimately show ?thesis
    using ok(1,4) unfolding timers_ok_def list_all_iff same_timer_def by (metis put_row_keys)
qed

lemma latest_generation:
  assumes "timers_ok rows"
  shows "(case latest_timer rows k of None \<Rightarrow> 1 | Some r \<Rightarrow> tm_generation r + 1) =
    1 + int (length (filter (\<lambda>r. timer_key r = k) rows))"
  by (rule timers.next_number [OF timers_okD(2) [OF assms]])

lemma new_timer_fields [simp]:
  "tm_id (new_timer i cmd g due) = i" "timer_key (new_timer i cmd g due) = command_key cmd"
  "tm_generation (new_timer i cmd g due) = g" "tm_status (new_timer i cmd g due) = Timer_scheduled"
  "tm_due_at (new_timer i cmd g due) = due" "timer_in_step (new_timer i cmd g due)"
  by (simp_all add: new_timer_def timer_key_def command_key_def timer_in_step_def)

text \<open>The rows with the current timer of the key superseded, as staging leaves them before its insert.\<close>

lemma superseded_rows:
  assumes "timers_ok rows"
  shows "timers_ok (supersede rows (latest_timer rows k)) \<and>
    map tm_id (supersede rows (latest_timer rows k)) = map tm_id rows \<and>
    map timer_key (supersede rows (latest_timer rows k)) = map timer_key rows \<and>
    (\<forall>x \<in> set (supersede rows (latest_timer rows k)). timer_key x = k \<longrightarrow> tm_status x \<noteq> Timer_scheduled) \<and>
    (\<forall>x. timer_key x \<noteq> k \<longrightarrow> x \<in> set (supersede rows (latest_timer rows k)) \<longleftrightarrow> x \<in> set rows)"
proof (cases "latest_timer rows k")
  case None
  then have "\<forall>r \<in> set rows. timer_key r \<noteq> k" by (simp add: latest_timer_None)
  then show ?thesis using assms by (simp add: supersede_def None)
next
  case (Some r)
  note ok = timers_okD [OF assms]
  note r = timers.latest_in [OF Some]
  have only: "x = r" if "x \<in> set rows" "timer_key x = k" "tm_status x = Timer_scheduled" for x
    using timers.latest_unique [OF ok(2) Some that(1,2)] ok(4) [OF that(1,3)] r that(2) by auto
  show ?thesis
  proof (cases "tm_status r = Timer_scheduled")
    case False
    then show ?thesis using assms only by (auto simp: supersede_def Some)
  next
    case True
    define s where "s = r\<lparr>tm_status := Timer_superseded\<rparr>"
    have s: "same_timer s r" "tm_status s \<noteq> Timer_scheduled" "timer_in_step s" "tm_id s = tm_id r" "timer_key s = k"
      using ok(3) r True by (auto simp: s_def timer_in_step_def timer_key_def)
    have r': "tm_id x = tm_id s \<Longrightarrow> x \<in> set rows \<Longrightarrow> x = r" for x
      using ok(1) r s(4) by (simp add: distinct_map inj_on_def)
    have "map timer_key (put_row tm_id s rows) = map timer_key rows"
      by (rule put_row_map [OF ok(1), of r]) (simp_all add: r s)
    moreover have "\<forall>x \<in> set (put_row tm_id s rows). timer_key x = k \<longrightarrow> tm_status x \<noteq> Timer_scheduled"
      using s(2,4) only by (auto dest!: put_row_set)
    moreover have "timer_key x \<noteq> k \<longrightarrow> x \<in> set (put_row tm_id s rows) \<longleftrightarrow> x \<in> set rows" for x
      using put_row_kept [of x rows tm_id s] put_row_set [of x tm_id s rows] r' r s(5) by blast
    ultimately show ?thesis
      using put_timer_ok [OF assms conjunct1 [OF r] s(1-3)] by (simp add: supersede_def Some True s_def)
  qed
qed

lemma map_filter_length: "map f xs = map f ys \<Longrightarrow> length (filter (\<lambda>x. f x = k) xs) = length (filter (\<lambda>x. f x = k) ys)"
proof -
  assume "map f xs = map f ys"
  then have "length (filter (\<lambda>y. y = k) (map f xs)) = length (filter (\<lambda>y. y = k) (map f ys))" by simp
  then show ?thesis by (simp add: filter_map comp_def)
qed

lemma schedule_timer_cases:
  assumes "timers_ok rows" and "tc_due_at cmd = Instant due" and "py_strip (tc_output cmd) \<noteq> []"
  obtains rows1 r where "schedule_timer True i cmd rows = (if i \<in> tm_id ` set rows then Inl Timer_integrity_error else Inr (r, rows1 @ [r]))"
    "i \<notin> tm_id ` set rows \<longrightarrow> timers_ok (rows1 @ [r])"
    "r = new_timer i cmd (1 + int (length (filter (\<lambda>x. timer_key x = command_key cmd) rows))) due"
    "\<forall>x \<in> set rows1. timer_key x = command_key cmd \<longrightarrow> tm_status x \<noteq> Timer_scheduled"
    "\<forall>x. timer_key x \<noteq> command_key cmd \<longrightarrow> x \<in> set rows1 \<longleftrightarrow> x \<in> set rows"
proof -
  define k where "k = command_key cmd"
  define rows1 where "rows1 = supersede rows (latest_timer rows k)"
  have s: "timers_ok rows1" "map tm_id rows1 = map tm_id rows" "map timer_key rows1 = map timer_key rows"
    "\<forall>x \<in> set rows1. timer_key x = k \<longrightarrow> tm_status x \<noteq> Timer_scheduled"
    "\<forall>x. timer_key x \<noteq> k \<longrightarrow> x \<in> set rows1 \<longleftrightarrow> x \<in> set rows"
    using superseded_rows [OF assms(1), of k] unfolding rows1_def by blast+
  define n where "n = 1 + int (length (filter (\<lambda>x. timer_key x = k) rows))"
  define r where "r = new_timer i cmd n due"
  have n: "(case latest_timer rows1 k of None \<Rightarrow> 1 | Some x \<Rightarrow> tm_generation x + 1) = n"
    using latest_generation [OF s(1), of k] map_filter_length [OF s(3), of k] by (simp add: n_def)
  note app = timers.append_numbered [OF timers_okD(2) [OF s(1)], of r]
  have grows: "gapless timer_key tm_generation (rows1 @ [r])" "\<forall>x \<in> set rows1. timer_key x = k \<longrightarrow> tm_generation x < n"
    using app n by (simp_all add: r_def k_def)
  have fresh: "i \<notin> tm_id ` set rows1 \<longleftrightarrow> i \<notin> tm_id ` set rows" using arg_cong [OF s(2), of set] by simp
  have ins: "insert_timer rows1 r = (if i \<in> tm_id ` set rows then Inl Timer_integrity_error else Inr (rows1 @ [r]))"
    using grows(2) s(4) fresh by (auto simp: insert_timer_def r_def k_def n_def)
  have "schedule_timer True i cmd rows = (if i \<in> tm_id ` set rows then Inl Timer_integrity_error else Inr (r, rows1 @ [r]))"
    using latest_generation [OF assms(1), of k] assms(2,3) ins
    by (simp add: schedule_timer_def k_def [symmetric] rows1_def [symmetric] n_def [symmetric] Let_def r_def [symmetric])
  moreover have "timers_ok (rows1 @ [r])" if "i \<notin> tm_id ` set rows"
    using s(1,4) grows that fresh by (auto simp: timers_ok_def r_def k_def less_imp_le)
  ultimately show ?thesis using that [of r rows1] s(4,5) by (auto simp: r_def n_def k_def)
qed

end
