(* ===== verification/Contracts.thy ===== *)
theory Contracts
  imports Obligations Timers
begin

section \<open>Billing contracts\<close>

text \<open>
  Models \<open>app/services/billing/contracts.py\<close> with the tables \<open>billing_contracts\<close>, \<open>billing_contract_versions\<close>
  and \<open>billing_contract_lines\<close>: recording versions of contracted terms, cancelling one, and the lookups.
  Actor, command and correlation identities and timestamps of creation are left out; the authority the
  ownership manifest permits, the time of opening and fresh identities are arguments. A version and a line
  extend the records that rating and scheduling read.
\<close>

subsection \<open>The tables\<close>

datatype version_status = Draft_version | Effective_version | Superseded_version | Canceled_version

record contract =
  ct_id :: string
  ct_account :: string
  ct_subscription :: string
  ct_authority :: record_authority
  ct_opened_at :: int
  ct_closed_at :: "int option"

record version_row = contract_version +
  vr_number :: int
  vr_status :: version_status
  vr_authority :: record_authority
  vr_price :: rat
  vr_currency :: string
  vr_terms_days :: int
  vr_discount_code :: "string option"
  vr_discount :: "rat option"
  vr_supersedes :: "string option"
  vr_superseded_at :: "int option"
  vr_reason :: string
  vr_key :: string

record line_row = contract_line +
  lr_id :: string
  lr_component_key :: string
  lr_description :: string

record contract_db =
  cd_contracts :: "contract list"
  cd_versions :: "version_row list"
  cd_lines :: "line_row list"
  cd_timers :: "timer list"

datatype billing_contract_error =
    Invalid_contract_terms string | Mixed_currency_contract string string | Duplicate_contract_line
  | Missing_contract_key | Contract_account_mismatch string string | Out_of_order_version int int
  | Unknown_contract string | Unknown_contract_version string | Several_rows | Integrity_error | Column_overflow
  | Mixed_awareness_comparison | Duplicate_subscription_output | Invalid_addon_time | Invalid_addon_terms string
  | Unsupported_addon_cadence | Duplicate_addon_terms string | Ambiguous_pending_terms string
  | Stale_pending_terms string | Invalid_pending_boundary string int | Stale_addon_snapshot
  | Invalid_addon_period | Sales_anchor_mismatch string | Invalid_pending_timer string
  | Pending_version_not_found string int | Invalid_entitlement_period | Contract_cadence_error cadence_error | Contract_timer_error timer_error

text \<open>What rating reads of the tables.\<close>

definition billing_view :: "tax_rate list \<Rightarrow> contract_db \<Rightarrow> billing_db" where
  "billing_view taxes db =
     \<lparr>bd_versions = map contract_version.truncate (cd_versions db), bd_lines = map contract_line.truncate (cd_lines db),
      bd_taxes = taxes\<rparr>"

subsection \<open>Columns and constraints\<close>

definition stored_version :: "version_row \<Rightarrow> version_row option" where
  "stored_version v =
     (case (to_scale 14 4 (vr_price v), to_scale 14 4 (cad_rate_quantity (cv_cadence v)), map_option (to_scale 14 4) (vr_discount v)) of
        (Some price, Some quantity, discount) \<Rightarrow>
          if discount = Some None then None
          else Some (v\<lparr>vr_price := price, cv_cadence := (cv_cadence v)\<lparr>cad_rate_quantity := quantity\<rparr>,
                       vr_discount := map_option the discount\<rparr>)
      | _ \<Rightarrow> None)"

definition version_allowed :: "version_row \<Rightarrow> bool" where
  "version_allowed v \<longleftrightarrow> (case cv_ends_at v of None \<Rightarrow> True | Some e \<Rightarrow> cv_starts_at v < e) \<and> 0 \<le> vr_price v \<and>
     0 < cad_service_count (cv_cadence v) \<and> 0 < cad_invoice_count (cv_cadence v) \<and> 0 < cad_rate_quantity (cv_cadence v) \<and>
     (case cad_anchor_day (cv_cadence v) of None \<Rightarrow> True | Some d \<Rightarrow> 1 \<le> d \<and> d \<le> 31)"

text \<open>An instant before an end that may be open, and two half-open intervals that meet.\<close>

definition before_end :: "int \<Rightarrow> int option \<Rightarrow> bool" where
  "before_end t e = (case e of None \<Rightarrow> True | Some e \<Rightarrow> t < e)"

definition version_covers :: "version_row \<Rightarrow> int \<Rightarrow> bool" where
  "version_covers v t \<longleftrightarrow> cv_starts_at v \<le> t \<and> before_end t (cv_ends_at v)"

definition versions_overlap :: "version_row \<Rightarrow> version_row \<Rightarrow> bool" where
  "versions_overlap v w \<longleftrightarrow> before_end (cv_starts_at v) (cv_ends_at w) \<and> before_end (cv_starts_at w) (cv_ends_at v)"

text \<open>
  The unique number and the exclusion constraint of the migration, which covers effective versions only.
  The partial unique index on the open effective version is a case of the latter.
\<close>

definition version_collides :: "version_row \<Rightarrow> version_row \<Rightarrow> bool" where
  "version_collides v w \<longleftrightarrow> cv_contract v = cv_contract w \<and>
     (vr_number v = vr_number w \<or>
      vr_status v = Effective_version \<and> vr_status w = Effective_version \<and> versions_overlap v w)"

definition insert_version :: "version_row list \<Rightarrow> version_row \<Rightarrow> billing_contract_error + version_row list" where
  "insert_version rows v =
     (case stored_version v of
        None \<Rightarrow> Inl Column_overflow
      | Some r \<Rightarrow>
          if \<not> version_allowed r \<or> (\<exists>x \<in> set rows. cv_id x = cv_id r \<or> version_collides x r) then Inl Integrity_error
          else Inr (rows @ [r]))"

definition update_version :: "version_row list \<Rightarrow> version_row \<Rightarrow> billing_contract_error + version_row list" where
  "update_version rows r =
     (if \<not> version_allowed r \<or> (\<exists>x \<in> set rows. cv_id x \<noteq> cv_id r \<and> version_collides x r) then Inl Integrity_error
      else Inr (put_row cv_id r rows))"

definition stored_line :: "line_row \<Rightarrow> line_row option" where
  "stored_line l =
     (case (to_scale 14 4 (ln_quantity l), to_scale 14 4 (ln_unit_price l)) of
        (Some quantity, Some price) \<Rightarrow> Some (l\<lparr>ln_quantity := quantity, ln_unit_price := price\<rparr>)
      | _ \<Rightarrow> None)"

definition insert_line :: "line_row list \<Rightarrow> line_row \<Rightarrow> billing_contract_error + line_row list" where
  "insert_line rows l =
     (case stored_line l of
        None \<Rightarrow> Inl Column_overflow
      | Some r \<Rightarrow>
          if ln_unit_price r < 0 \<or> ln_quantity r \<le> 0 \<or>
            (\<exists>x \<in> set rows. lr_id x = lr_id r \<or>
              ln_version x = ln_version r \<and> ln_component x = ln_component r \<and> lr_component_key x = lr_component_key r)
          then Inl Integrity_error else Inr (rows @ [r]))"

subsection \<open>Commands\<close>

record line_input =
  li_component :: charge_component
  li_description :: string
  li_unit_price :: rat
  li_currency :: string
  li_treatment :: accounting_treatment
  li_quantity :: rat
  li_component_key :: string
  li_is_finite :: bool
  li_tax_code :: "string option"
  li_line_key :: "string option"

record version_command =
  vc_account :: string
  vc_subscription :: string
  vc_source_kind :: contract_source
  vc_source_id :: string
  vc_starts_at :: moment
  vc_price :: rat
  vc_currency :: string
  vc_cadence :: cadence
  vc_lines :: "line_input list"
  vc_source_version :: int
  vc_ends_at :: "moment option"
  vc_terms_days :: int
  vc_tax_code :: "string option"
  vc_tax_inclusive :: bool
  vc_discount_code :: "string option"
  vc_discount :: "rat option"

record version_result =
  vs_contract :: string
  vs_version :: string
  vs_number :: int
  vs_authority :: record_authority
  vs_lines :: "string list"
  vs_replayed :: bool

text \<open>\<open>uuid4\<close>: the identities a command may draw, the lines and line keys by their position.\<close>

record fresh_ids =
  fr_contract :: string
  fr_version :: string
  fr_line :: "nat \<Rightarrow> string"
  fr_line_key :: "nat \<Rightarrow> string"
  fr_timer :: string

definition check_line :: "string \<Rightarrow> line_input \<Rightarrow> billing_contract_error + unit" where
  "check_line currency l =
     (if li_currency l \<noteq> currency then Inl (Mixed_currency_contract (li_currency l) currency)
      else if li_unit_price l < 0 \<or> li_quantity l \<le> 0
        then Inl (Invalid_contract_terms ''Line unit price must be non-negative and quantity positive.'')
      else Inr ())"

text \<open>\<open>_validate\<close>, with the start and the end as instants.\<close>

definition validate_command :: "version_command \<Rightarrow> billing_contract_error + int \<times> int option" where
  "validate_command cmd =
     (case vc_starts_at cmd of
        Naive_time _ \<Rightarrow> Inl (Invalid_contract_terms ''Contract start must be timezone-aware.'')
      | Instant s \<Rightarrow>
          and_then (case vc_ends_at cmd of
              None \<Rightarrow> Inr None
            | Some (Naive_time _) \<Rightarrow> Inl Mixed_awareness_comparison
            | Some (Instant e) \<Rightarrow>
                if e \<le> s then Inl (Invalid_contract_terms ''Contract version must end after it starts.'') else Inr (Some e)) (\<lambda>e.
          if vc_price cmd < 0 then Inl (Invalid_contract_terms ''Contracted price cannot be negative.'')
          else if length (vc_currency cmd) \<noteq> 3 then Inl (Invalid_contract_terms ''Currency must be a three-letter code.'')
          else if vc_lines cmd = [] then Inl (Invalid_contract_terms ''A contract version requires at least one line.'')
          else and_then (fold_err (\<lambda>_ l. check_line (vc_currency cmd) l) () (vc_lines cmd)) (\<lambda>_.
            if \<not> distinct (map (\<lambda>l. (li_component l, li_component_key l)) (vc_lines cmd)) then Inl Duplicate_contract_line
            else Inr (s, e))))"

subsection \<open>Lookups\<close>

definition ensure_contract :: "record_authority \<Rightarrow> int \<Rightarrow> string \<Rightarrow> string \<Rightarrow> string \<Rightarrow> contract list \<Rightarrow>
    billing_contract_error + contract \<times> contract list" where
  "ensure_contract authority now i account subscription rows =
     and_then (one_or_none Several_rows (filter (\<lambda>c. ct_subscription c = subscription) rows)) (\<lambda>found.
     case found of
       Some c \<Rightarrow>
         if ct_account c \<noteq> account then Inl (Contract_account_mismatch (ct_account c) account) else Inr (c, rows)
     | None \<Rightarrow>
         (let c = \<lparr>ct_id = i, ct_account = account, ct_subscription = subscription, ct_authority = authority,
                   ct_opened_at = now, ct_closed_at = None\<rparr> in
          if \<exists>x \<in> set rows. ct_id x = i then Inl Integrity_error else Inr (c, rows @ [c])))"

definition current_effective :: "version_row list \<Rightarrow> string \<Rightarrow> billing_contract_error + version_row option" where
  "current_effective rows c =
     one_or_none Several_rows (filter (\<lambda>v. cv_contract v = c \<and> vr_status v = Effective_version \<and> cv_ends_at v = None) rows)"

definition latest_version :: "version_row list \<Rightarrow> string \<Rightarrow> version_row option" where
  "latest_version rows c = greatest vr_number (filter (\<lambda>v. cv_contract v = c) rows)"

definition next_number :: "version_row list \<Rightarrow> string \<Rightarrow> int" where
  "next_number rows c = (case latest_version rows c of None \<Rightarrow> 1 | Some v \<Rightarrow> vr_number v + 1)"

definition inherited_line_key :: "contract_db \<Rightarrow> string \<Rightarrow> charge_component \<Rightarrow> string \<Rightarrow> string \<Rightarrow> string" where
  "inherited_line_key db c component key fresh =
     (case greatest (\<lambda>(v, l). vr_number v)
         [(v, l). v \<leftarrow> cd_versions db, cv_contract v = c, l \<leftarrow> cd_lines db, ln_version l = cv_id v \<and>
           ln_component l = component \<and> lr_component_key l = key] of
        None \<Rightarrow> fresh
      | Some (v, l) \<Rightarrow> ln_key l)"

definition version_in_force :: "version_row \<Rightarrow> bool" where
  "version_in_force v \<longleftrightarrow> vr_status v = Effective_version \<or> vr_status v = Superseded_version"

definition effective_version_at :: "contract_db \<Rightarrow> string \<Rightarrow> moment \<Rightarrow> billing_contract_error + version_row option" where
  "effective_version_at db subscription m =
     (case m of
        Naive_time _ \<Rightarrow> Inl (Invalid_contract_terms ''Effective-version lookup requires a timezone-aware instant.'')
      | Instant t \<Rightarrow> Inr (greatest vr_number (filter (\<lambda>v. version_in_force v \<and> version_covers v t \<and>
          (\<exists>c \<in> set (cd_contracts db). ct_id c = cv_contract v \<and> ct_subscription c = subscription)) (cd_versions db))))"

subsection \<open>Recording a version\<close>

definition new_version :: "string \<Rightarrow> string \<Rightarrow> int \<Rightarrow> record_authority \<Rightarrow> int \<Rightarrow> int option \<Rightarrow> string option \<Rightarrow>
    string \<Rightarrow> string \<Rightarrow> version_command \<Rightarrow> version_row" where
  "new_version i c number authority s e supersedes reason key cmd =
     \<lparr>cv_id = i, cv_contract = c, cv_account = vc_account cmd, cv_subscription = vc_subscription cmd,
      cv_source_kind = vc_source_kind cmd, cv_source_id = vc_source_id cmd, cv_source_version = vc_source_version cmd,
      cv_starts_at = s, cv_ends_at = e, cv_cadence = vc_cadence cmd, cv_tax_code = vc_tax_code cmd,
      cv_tax_inclusive = vc_tax_inclusive cmd, vr_number = number, vr_status = Effective_version,
      vr_authority = authority, vr_price = vc_price cmd, vr_currency = vc_currency cmd,
      vr_terms_days = vc_terms_days cmd, vr_discount_code = vc_discount_code cmd, vr_discount = vc_discount cmd,
      vr_supersedes = supersedes, vr_superseded_at = None, vr_reason = reason, vr_key = key\<rparr>"

text \<open>The current version is closed where its successor starts.\<close>

definition close_version :: "int \<Rightarrow> version_row \<Rightarrow> version_row" where
  "close_version t v = v\<lparr>cv_ends_at := Some t, vr_status := Superseded_version, vr_superseded_at := Some t\<rparr>"

definition close_current :: "int \<Rightarrow> version_row option \<Rightarrow> version_row list \<Rightarrow> billing_contract_error + version_row list" where
  "close_current t current rows =
     (case current of None \<Rightarrow> Inr rows | Some v \<Rightarrow> update_version rows (close_version t v))"

definition new_line :: "string \<Rightarrow> string \<Rightarrow> string \<Rightarrow> line_input \<Rightarrow> line_row" where
  "new_line i version key l =
     \<lparr>ln_version = version, ln_key = key, ln_component = li_component l, ln_quantity = li_quantity l,
      ln_unit_price = li_unit_price l, ln_currency = li_currency l, ln_treatment = li_treatment l,
      ln_is_finite = li_is_finite l, ln_tax_code = li_tax_code l, lr_id = i, lr_component_key = li_component_key l,
      lr_description = li_description l\<rparr>"

definition add_line :: "fresh_ids \<Rightarrow> string \<Rightarrow> string \<Rightarrow> contract_db \<times> nat \<Rightarrow> line_input \<Rightarrow> billing_contract_error + contract_db \<times> nat" where
  "add_line fr c version = (\<lambda>(db, n) l.
     (let key = (case li_line_key l of
            Some k \<Rightarrow> k
          | None \<Rightarrow> inherited_line_key db c (li_component l) (li_component_key l) (fr_line_key fr n)) in
      and_then (insert_line (cd_lines db) (new_line (fr_line fr n) version key l)) (\<lambda>ls.
        Inr (db\<lparr>cd_lines := ls\<rparr>, Suc n))))"

definition line_ids :: "contract_db \<Rightarrow> string \<Rightarrow> string list" where
  "line_ids db version = map lr_id (filter (\<lambda>l. ln_version l = version) (cd_lines db))"

definition record_new :: "record_authority \<Rightarrow> fresh_ids \<Rightarrow> string \<Rightarrow> string \<Rightarrow> version_command \<Rightarrow> int \<Rightarrow> int option \<Rightarrow>
    contract \<Rightarrow> contract_db \<Rightarrow> billing_contract_error + version_result \<times> contract_db" where
  "record_new authority fr reason key cmd s e c db =
     and_then (current_effective (cd_versions db) (ct_id c)) (\<lambda>current.
     case (case current of None \<Rightarrow> None | Some v \<Rightarrow> if s \<le> cv_starts_at v then Some (cv_starts_at v) else None) of
       Some t \<Rightarrow> Inl (Out_of_order_version t s)
     | None \<Rightarrow>
         (let number = next_number (cd_versions db) (ct_id c) in
         and_then (close_current s current (cd_versions db)) (\<lambda>rows.
         and_then (insert_version rows (new_version (fr_version fr) (ct_id c) number authority s e
           (map_option cv_id current) reason key cmd)) (\<lambda>rows'.
         and_then (fold_err (add_line fr (ct_id c) (fr_version fr)) (db\<lparr>cd_versions := rows'\<rparr>, 0) (vc_lines cmd)) (\<lambda>(db', n).
           Inr (\<lparr>vs_contract = ct_id c, vs_version = fr_version fr, vs_number = number, vs_authority = authority,
                 vs_lines = map (fr_line fr) [0..<n], vs_replayed = False\<rparr>, db'))))))"

text \<open>\<open>_record_version\<close>.\<close>

definition record_version :: "record_authority \<Rightarrow> int \<Rightarrow> fresh_ids \<Rightarrow> string \<Rightarrow> string option \<Rightarrow> version_command \<Rightarrow>
    contract_db \<Rightarrow> billing_contract_error + version_result \<times> contract_db" where
  "record_version authority now fr reason key cmd db =
     and_then (validate_command cmd) (\<lambda>(s, e).
     if \<not> truthy_str key then Inl Missing_contract_key
     else and_then (ensure_contract authority now (fr_contract fr) (vc_account cmd) (vc_subscription cmd) (cd_contracts db)) (\<lambda>(c, cs).
       let db1 = db\<lparr>cd_contracts := cs\<rparr> in
       and_then (one_or_none Several_rows (filter (\<lambda>v. cv_contract v = ct_id c \<and> vr_key v = str_or key []) (cd_versions db1))) (\<lambda>existing.
       case existing of
         Some v \<Rightarrow> Inr (\<lparr>vs_contract = ct_id c, vs_version = cv_id v, vs_number = vr_number v, vs_authority = vr_authority v,
             vs_lines = line_ids db1 (cv_id v), vs_replayed = True\<rparr>, db1)
       | None \<Rightarrow> record_new authority fr reason (str_or key []) cmd s e c db1)))"

text \<open>\<open>_cancel_version\<close>.\<close>

definition cancel_version :: "string \<Rightarrow> string \<Rightarrow> contract_db \<Rightarrow> billing_contract_error + string \<times> contract_db" where
  "cancel_version reason i db =
     (case List.find (\<lambda>v. cv_id v = i) (cd_versions db) of
        None \<Rightarrow> Inl (Unknown_contract_version i)
      | Some v \<Rightarrow>
          if vr_status v = Canceled_version then Inr (i, db)
          else and_then (update_version (cd_versions db) (v\<lparr>vr_status := Canceled_version,
                 vr_superseded_at := Some (case vr_superseded_at v of None \<Rightarrow> cv_starts_at v | Some t \<Rightarrow> t),
                 vr_reason := reason\<rparr>)) (\<lambda>rows. Inr (i, db\<lparr>cd_versions := rows\<rparr>)))"

end
