(* ===== verification/Contract_Addons.thy ===== *)
theory Contract_Addons
  imports Contracts
begin

section \<open>Pending terms of a contract\<close>

text \<open>
  The rest of \<open>app/services/billing/contracts.py\<close>: contracts from a funded sale, recurring add-ons that wait
  in a draft version for the next period boundary, the timer that activates the draft, and the output that
  names the obligations to schedule. The receipt of the consumed event is left out; the order of a sales
  line is the argument \<open>sales_lines\<close>, a table of another owner. \<open>upper\<close> leaves the two characters whose
  capitals lie beyond U+00FF.
\<close>

subsection \<open>Text\<close>

definition py_upper_char :: "char \<Rightarrow> string" where
  "py_upper_char c = (let n = (of_char c :: nat) in
     if 97 \<le> n \<and> n \<le> 122 \<or> 224 \<le> n \<and> n \<le> 254 \<and> n \<noteq> 247 then [char_of (n - 32)]
     else if n = 223 then ''SS'' else [c])"

definition py_upper :: "string \<Rightarrow> string" where
  "py_upper s = concat (map py_upper_char s)"

definition padded :: "nat \<Rightarrow> int \<Rightarrow> string" where
  "padded w n = (let s = show_int n in replicate (w - length s) (CHR ''0'') @ s)"

text \<open>\<open>isoformat\<close> of an instant in UTC.\<close>

definition iso_utc :: "int \<Rightarrow> string" where
  "iso_utc t =
     (let d = wall_date t; us = wall_time t mod 1000000; s = wall_time t div 1000000
      in padded 4 (date_year d) @ ''-'' @ padded 2 (date_month d) @ ''-'' @ padded 2 (date_day d) @ ''T'' @
         padded 2 (s div 3600) @ '':'' @ padded 2 (s div 60 mod 60) @ '':'' @ padded 2 (s mod 60) @
         (if us = 0 then [] else ''.'' @ padded 6 us) @ ''+00:00'')"

subsection \<open>Sales funding\<close>

datatype billing_cycle = Daily_cycle | Weekly_cycle | Monthly_cycle | Quarterly_cycle | Annual_cycle
datatype billing_mode = Prepaid_mode | Postpaid_mode

fun cycle_interval :: "billing_cycle \<Rightarrow> interval_unit \<times> int" where
  "cycle_interval Daily_cycle = (Unit_day, 1)"
| "cycle_interval Weekly_cycle = (Unit_week, 1)"
| "cycle_interval Monthly_cycle = (Unit_month, 1)"
| "cycle_interval Quarterly_cycle = (Unit_month, 3)"
| "cycle_interval Annual_cycle = (Unit_year, 1)"

record sales_snapshot =
  sn_sales_line :: string
  sn_account :: string
  sn_subscription :: string
  sn_starts_at :: moment
  sn_description :: string
  sn_quantity :: rat
  sn_unit_price :: rat
  sn_currency :: string
  sn_cycle :: billing_cycle
  sn_mode :: billing_mode

definition cadence_result :: "cadence_error + 'a \<Rightarrow> billing_contract_error + 'a" where
  "cadence_result m = (case m of Inl e \<Rightarrow> Inl (Contract_cadence_error e) | Inr a \<Rightarrow> Inr a)"

definition sales_cadence :: "sales_snapshot \<Rightarrow> cadence" where
  "sales_cadence s =
     \<lparr>cad_rate_basis = Fixed_per_service_period, cad_rate_unit = fst (cycle_interval (sn_cycle s)), cad_rate_quantity = 1,
      cad_service_unit = fst (cycle_interval (sn_cycle s)), cad_service_count = snd (cycle_interval (sn_cycle s)),
      cad_invoice_unit = fst (cycle_interval (sn_cycle s)), cad_invoice_count = snd (cycle_interval (sn_cycle s)),
      cad_collection_timing = (if sn_mode s = Prepaid_mode then Advance else Arrears),
      cad_alignment = Contract_anniversary, cad_timezone = ''Africa/Lagos'', cad_end_of_month = Clamp_to_month_end,
      cad_proration = No_proration, cad_anchor_day = None\<rparr>"

definition sales_funding_command :: "zone_db \<Rightarrow> sales_snapshot \<Rightarrow> billing_contract_error + version_command" where
  "sales_funding_command zones s =
     and_then (cadence_result (make_cadence zones (sales_cadence s))) (\<lambda>c.
     let currency = py_upper (py_strip (sn_currency s)) in
     Inr \<lparr>vc_account = sn_account s, vc_subscription = sn_subscription s, vc_source_kind = Sales_order_line,
          vc_source_id = sn_sales_line s, vc_starts_at = sn_starts_at s, vc_price = sn_unit_price s,
          vc_currency = currency, vc_cadence = c,
          vc_lines = [\<lparr>li_component = Recurring_service, li_description = sn_description s,
            li_unit_price = sn_unit_price s, li_currency = currency,
            li_treatment = (if sn_mode s = Prepaid_mode then Prepaid_consumption else Receivable),
            li_quantity = sn_quantity s, li_component_key = sn_sales_line s, li_is_finite = False,
            li_tax_code = None, li_line_key = None\<rparr>],
          vc_source_version = 1, vc_ends_at = None, vc_terms_days = 0, vc_tax_code = None, vc_tax_inclusive = False,
          vc_discount_code = None, vc_discount = None\<rparr>)"

text \<open>The output \<open>billing.contracts.shadow_recorded\<close>: version, line key and period index per line that is not finite.\<close>

record recorded_output =
  ro_sales_order :: string
  ro_change_kind :: string
  ro_source_kind :: string
  ro_source_id :: string
  ro_subscription :: "string option"
  ro_contracts :: "(string \<times> string \<times> record_authority) list"
  ro_obligations :: "(string \<times> string \<times> int) list"

definition obligation_inputs :: "contract_db \<Rightarrow> version_result \<Rightarrow> (string \<times> string \<times> int) list" where
  "obligation_inputs db r =
     map (\<lambda>l. (vs_version r, ln_key l, 0)) (filter (\<lambda>l. lr_id l \<in> set (vs_lines r) \<and> \<not> ln_is_finite l) (cd_lines db))"

definition shadow_output :: "contract_db \<Rightarrow> string \<Rightarrow> string \<Rightarrow> string \<Rightarrow> string option \<Rightarrow> string option \<Rightarrow>
    version_result list \<Rightarrow> recorded_output" where
  "shadow_output db order kind source_kind source_id subscription results =
     \<lparr>ro_sales_order = order, ro_change_kind = kind, ro_source_kind = source_kind,
      ro_source_id = (case source_id of None \<Rightarrow> order | Some i \<Rightarrow> i), ro_subscription = subscription,
      ro_contracts = map (\<lambda>r. (vs_contract r, vs_version r, vs_authority r)) results,
      ro_obligations = concat (map (obligation_inputs db) results)\<rparr>"

fun record_snapshots :: "record_authority \<Rightarrow> int \<Rightarrow> zone_db \<Rightarrow> string \<Rightarrow> string option \<Rightarrow>
    (fresh_ids \<times> sales_snapshot) list \<Rightarrow> contract_db \<Rightarrow> billing_contract_error + version_result list \<times> contract_db" where
  "record_snapshots authority now zones reason key [] db = Inr ([], db)"
| "record_snapshots authority now zones reason key ((fr, s) # rest) db =
     and_then (sales_funding_command zones s) (\<lambda>cmd.
     and_then (record_version authority now fr reason key cmd db) (\<lambda>(r, db1).
     and_then (record_snapshots authority now zones reason key rest db1) (\<lambda>(rs, db2).
       Inr (r # rs, db2))))"

definition consume_sales_funding :: "record_authority \<Rightarrow> int \<Rightarrow> zone_db \<Rightarrow> string \<Rightarrow> string option \<Rightarrow> string \<Rightarrow>
    (fresh_ids \<times> sales_snapshot) list \<Rightarrow> contract_db \<Rightarrow>
    billing_contract_error + (version_result list \<times> recorded_output) \<times> contract_db" where
  "consume_sales_funding authority now zones reason key order snapshots db =
     (if \<not> distinct (map (sn_subscription \<circ> snd) snapshots) then Inl Duplicate_subscription_output
      else and_then (record_snapshots authority now zones reason key snapshots db) (\<lambda>(rs, db').
        Inr ((rs, shadow_output db' order ''sales_funding'' ''sales_order'' None None rs), db')))"

subsection \<open>Drafts\<close>

text \<open>\<open>_create_pending_version\<close>: the current terms cloned into a draft that starts at the boundary.\<close>

definition draft_of :: "string \<Rightarrow> int \<Rightarrow> string \<Rightarrow> int \<Rightarrow> contract_source \<Rightarrow> string \<Rightarrow> version_row \<Rightarrow> version_row" where
  "draft_of i number c eff source_kind reason current = current\<lparr>
     cv_id := i, cv_contract := c, vr_number := number, vr_status := Draft_version, cv_source_kind := source_kind,
     cv_source_id := cv_subscription current, cv_source_version := cv_source_version current + 1,
     cv_starts_at := eff, cv_ends_at := None, vr_supersedes := Some (cv_id current), vr_superseded_at := None,
     vr_reason := reason, vr_key := ''pending:'' @ c @ '':'' @ iso_utc eff\<rparr>"

definition copy_line :: "fresh_ids \<Rightarrow> string \<Rightarrow> line_row list \<times> nat \<Rightarrow> line_row \<Rightarrow> billing_contract_error + line_row list \<times> nat" where
  "copy_line fr draft = (\<lambda>(rows, n) l.
     and_then (insert_line rows (l\<lparr>ln_version := draft, lr_id := fr_line fr n\<rparr>)) (\<lambda>rows'. Inr (rows', Suc n)))"

definition create_pending_version :: "fresh_ids \<Rightarrow> contract \<Rightarrow> version_row \<Rightarrow> int \<Rightarrow> contract_source \<Rightarrow> string \<Rightarrow>
    contract_db \<Rightarrow> billing_contract_error + version_row \<times> contract_db \<times> nat" where
  "create_pending_version fr c current eff source_kind reason db =
     (if eff \<le> cv_starts_at current then Inl (Invalid_pending_boundary (cv_id current) eff)
      else (let draft = draft_of (fr_version fr) (next_number (cd_versions db) (ct_id c)) (ct_id c) eff source_kind reason current in
        and_then (insert_version (cd_versions db) draft) (\<lambda>rows.
        and_then (fold_err (copy_line fr (cv_id draft)) (cd_lines db, 0)
            (filter (\<lambda>l. ln_version l = cv_id current) (cd_lines db))) (\<lambda>(ls, n).
          Inr (draft, db\<lparr>cd_versions := rows, cd_lines := ls\<rparr>, n)))))"

definition pending_draft :: "fresh_ids \<Rightarrow> contract \<Rightarrow> version_row \<Rightarrow> int \<Rightarrow> contract_source \<Rightarrow> string \<Rightarrow>
    contract_db \<Rightarrow> billing_contract_error + version_row \<times> contract_db \<times> nat" where
  "pending_draft fr c current eff source_kind reason db =
     (case filter (\<lambda>v. cv_contract v = ct_id c \<and> vr_status v = Draft_version) (cd_versions db) of
        [] \<Rightarrow> create_pending_version fr c current eff source_kind reason db
      | [d] \<Rightarrow> if cv_starts_at d \<noteq> eff \<or> vr_supersedes d \<noteq> Some (cv_id current) then Inl (Stale_pending_terms (cv_id d))
          else Inr (d, db, 0)
      | _ \<Rightarrow> Inl (Ambiguous_pending_terms (ct_id c)))"

definition pending_purpose :: string where "pending_purpose = ''pending_terms_effective''"
definition pending_trigger :: string where "pending_trigger = ''billing.contracts.pending_terms_effective_due''"
definition contract_owner :: string where "contract_owner = ''billing.contracts''"

record pending_result =
  pn_contract :: string
  pn_draft :: string
  pn_number :: int
  pn_effective_at :: int
  pn_timer :: string
  pn_generation :: int

definition stage_pending :: "string \<Rightarrow> contract \<Rightarrow> version_row \<Rightarrow> int \<Rightarrow> contract_db \<Rightarrow>
    billing_contract_error + pending_result \<times> contract_db" where
  "stage_pending i c draft eff db =
     (case schedule_timer True i \<lparr>tc_owner = contract_owner, tc_entity_kind = ''billing_contract'', tc_entity = ct_id c,
          tc_purpose = pending_purpose, tc_due_at = Instant eff, tc_output = pending_trigger,
          tc_expected_version = vr_number draft\<rparr> (cd_timers db) of
        Inl e \<Rightarrow> Inl (Contract_timer_error e)
      | Inr (t, ts) \<Rightarrow>
          Inr (\<lparr>pn_contract = ct_id c, pn_draft = cv_id draft, pn_number = vr_number draft, pn_effective_at = eff,
                pn_timer = tm_id t, pn_generation = tm_generation t\<rparr>, db\<lparr>cd_timers := ts\<rparr>))"

definition treatment_of :: "version_row \<Rightarrow> accounting_treatment" where
  "treatment_of v = (if cad_collection_timing (cv_cadence v) = Advance then Prepaid_consumption else Receivable)"

definition addon_line :: "fresh_ids \<Rightarrow> nat \<Rightarrow> contract_db \<Rightarrow> string \<Rightarrow> string \<Rightarrow> version_row \<Rightarrow> string \<Rightarrow> string \<Rightarrow> rat \<Rightarrow> rat \<Rightarrow>
    string \<Rightarrow> line_row" where
  "addon_line fr n db c draft current addon description quantity price currency =
     \<lparr>ln_version = draft, ln_key = inherited_line_key db c Addon addon (fr_line_key fr n), ln_component = Addon,
      ln_quantity = quantity, ln_unit_price = price, ln_currency = currency, ln_treatment = treatment_of current,
      ln_is_finite = False, ln_tax_code = cv_tax_code current, lr_id = fr_line fr n, lr_component_key = addon,
      lr_description = description\<rparr>"

subsection \<open>Purchase of a recurring add-on\<close>

record addon_purchase =
  ap_account :: string
  ap_subscription :: string
  ap_addon :: string
  ap_description :: string
  ap_quantity :: rat
  ap_price :: rat
  ap_currency :: string
  ap_purchased_at :: moment
  ap_cycle :: "billing_cycle option"

text \<open>The lines of one version for one add-on, and whether one has the purchased terms.\<close>

definition addon_lines :: "contract_db \<Rightarrow> string \<Rightarrow> string \<Rightarrow> line_row list" where
  "addon_lines db version addon =
     filter (\<lambda>l. ln_version l = version \<and> ln_component l = Addon \<and> lr_component_key l = addon) (cd_lines db)"

definition same_terms :: "addon_purchase \<Rightarrow> string \<Rightarrow> accounting_treatment \<Rightarrow> line_row \<Rightarrow> bool" where
  "same_terms term currency treatment l \<longleftrightarrow> lr_description l = ap_description term \<and> ln_quantity l = ap_quantity term \<and>
     ln_unit_price l = ap_price term \<and> ln_currency l = currency \<and> ln_treatment l = treatment"

text \<open>What the walk raises and is not a \<open>DomainError\<close> leaves the command as it is.\<close>

fun is_domain_error :: "cadence_error \<Rightarrow> bool" where
  "is_domain_error Anchor_assertion = False"
| "is_domain_error Out_of_range = False"
| "is_domain_error Mixed_awareness = False"
| "is_domain_error _ = True"

definition purchase_boundary :: "zone_db \<Rightarrow> zone \<Rightarrow> cadence \<Rightarrow> version_row \<Rightarrow> moment \<Rightarrow> billing_contract_error + int" where
  "purchase_boundary zones sys cad current m =
     (case period_containing zones sys cad (Instant (cv_starts_at current)) m 4096 of
        Inl e \<Rightarrow> if is_domain_error e then Inl Invalid_addon_time else Inl (Contract_cadence_error e)
      | Inr (_, v) \<Rightarrow> Inr (ends_at v))"

definition add_purchased :: "fresh_ids \<Rightarrow> contract \<Rightarrow> version_row \<Rightarrow> string \<Rightarrow> addon_purchase \<Rightarrow> int \<Rightarrow> contract_db \<Rightarrow>
    billing_contract_error + pending_result option \<times> contract_db" where
  "add_purchased fr c current currency term eff db =
     and_then (pending_draft fr c current eff Plan_change ''Pending recurring add-on terms'' db) (\<lambda>(draft, db1, n).
     and_then (update_version (cd_versions db1) (draft\<lparr>cv_source_kind := Plan_change, cv_source_id := ct_subscription c,
         vr_reason := ''Pending live recurring add-on terms''\<rparr>)) (\<lambda>rows.
     let db2 = db1\<lparr>cd_versions := rows\<rparr> in
     and_then (one_or_none Several_rows (addon_lines db2 (cv_id draft) (ap_addon term))) (\<lambda>existing.
     and_then (case existing of
         Some l \<Rightarrow> if same_terms term currency (treatment_of current) l then Inr (cd_lines db2)
           else Inl (Duplicate_addon_terms (ap_addon term))
       | None \<Rightarrow> insert_line (cd_lines db2) (addon_line fr n db2 (ct_id c) (cv_id draft) current (ap_addon term)
           (ap_description term) (ap_quantity term) (ap_price term) currency)) (\<lambda>ls.
     and_then (stage_pending (fr_timer fr) c draft eff (db2\<lparr>cd_lines := ls\<rparr>)) (\<lambda>(p, db').
       Inr (Some p, db'))))))"

definition consume_addon_purchase :: "zone_db \<Rightarrow> zone \<Rightarrow> fresh_ids \<Rightarrow> addon_purchase \<Rightarrow> contract_db \<Rightarrow>
    billing_contract_error + pending_result option \<times> contract_db" where
  "consume_addon_purchase zones sys fr term db =
     (if (case ap_purchased_at term of Naive_time _ \<Rightarrow> True | Instant _ \<Rightarrow> False) then Inl Invalid_addon_time
      else if ap_quantity term \<le> 0 \<or> ap_price term < 0 then Inl (Invalid_addon_terms (ap_addon term))
      else and_then (one_or_none Several_rows
          (filter (\<lambda>c. ct_subscription c = ap_subscription term \<and> ct_account c = ap_account term) (cd_contracts db))) (\<lambda>found.
      case found of
        None \<Rightarrow> Inl (Unknown_contract (ap_subscription term))
      | Some c \<Rightarrow>
          and_then (current_effective (cd_versions db) (ct_id c)) (\<lambda>cur.
          case cur of
            None \<Rightarrow> Inl (Unknown_contract_version (ct_id c))
          | Some current \<Rightarrow>
              and_then (cadence_result (make_cadence zones (cv_cadence current))) (\<lambda>cad.
              if (case ap_cycle term of None \<Rightarrow> False
                  | Some cycle \<Rightarrow> cycle_interval cycle \<noteq> (cad_service_unit cad, cad_service_count cad))
              then Inl Unsupported_addon_cadence
              else (let currency = py_upper (py_strip (ap_currency term)) in
              if currency \<noteq> vr_currency current then Inl (Mixed_currency_contract currency (vr_currency current))
              else and_then (one_or_none Several_rows (addon_lines db (cv_id current) (ap_addon term))) (\<lambda>effective.
              case effective of
                Some l \<Rightarrow> if same_terms term currency (treatment_of current) l \<and> \<not> ln_is_finite l then Inr (None, db)
                  else Inl (Duplicate_addon_terms (ap_addon term))
              | None \<Rightarrow>
                  and_then (purchase_boundary zones sys cad current (ap_purchased_at term)) (\<lambda>eff.
                    add_purchased fr c current currency term eff db)))))))"

subsection \<open>Backfill of recurring add-ons\<close>

record addon_term =
  at_addon :: string
  at_description :: string
  at_quantity :: rat
  at_price :: rat
  at_currency :: string

text \<open>\<open>SalesOrderLine\<close> as the pairs of a line and its order; the sales that opened versions of a contract.\<close>

definition sale_versions :: "(string \<times> string) list \<Rightarrow> version_row list \<Rightarrow> string \<Rightarrow> (version_row \<times> string) list" where
  "sale_versions sales rows c =
     [(v, order). v \<leftarrow> rows, cv_contract v = c \<and> cv_source_kind v = Sales_order_line,
       (line, order) \<leftarrow> sales, line = cv_source_id v]"

definition add_term :: "fresh_ids \<Rightarrow> string \<Rightarrow> string \<Rightarrow> version_row \<Rightarrow> contract_db \<times> nat \<Rightarrow> addon_term \<Rightarrow>
    billing_contract_error + contract_db \<times> nat" where
  "add_term fr c draft current = (\<lambda>(db, n) term.
     and_then (insert_line (cd_lines db) (addon_line fr n db c draft current (at_addon term) (at_description term)
         (at_quantity term) (at_price term) (at_currency term))) (\<lambda>ls.
       Inr (db\<lparr>cd_lines := ls\<rparr>, Suc n)))"

definition replace_addons :: "fresh_ids \<Rightarrow> contract \<Rightarrow> version_row \<Rightarrow> int \<Rightarrow> addon_term list \<Rightarrow> contract_db \<Rightarrow>
    billing_contract_error + pending_result \<times> contract_db" where
  "replace_addons fr c current eff terms db =
     and_then (pending_draft fr c current eff Migration_backfill ''Pending recurring add-on migration snapshot'' db) (\<lambda>(draft, db1, n).
     and_then (fold_err (add_term fr (ct_id c) (cv_id draft) current)
         (db1\<lparr>cd_lines := filter (\<lambda>l. \<not> (ln_version l = cv_id draft \<and> ln_component l = Addon \<and> \<not> ln_is_finite l)) (cd_lines db1)\<rparr>, n)
         terms) (\<lambda>(db2, _).
       stage_pending (fr_timer fr) c draft eff db2))"

definition consume_addon_backfill :: "zone_db \<Rightarrow> (string \<times> string) list \<Rightarrow> fresh_ids \<Rightarrow> string \<Rightarrow> string \<Rightarrow> string \<Rightarrow>
    string \<Rightarrow> string \<Rightarrow> interval \<Rightarrow> addon_term list \<Rightarrow> contract_db \<Rightarrow> billing_contract_error + pending_result \<times> contract_db" where
  "consume_addon_backfill zones sales fr order account subscription i current_id target terms db =
     and_then (one_or_none Several_rows
         (filter (\<lambda>c. ct_id c = i \<and> ct_subscription c = subscription) (cd_contracts db))) (\<lambda>found.
     case found of
       None \<Rightarrow> Inl (Unknown_contract i)
     | Some c \<Rightarrow>
         if ct_account c \<noteq> account then Inl (Contract_account_mismatch (ct_account c) account)
         else and_then (current_effective (cd_versions db) (ct_id c)) (\<lambda>cur.
         case (case cur of None \<Rightarrow> None | Some v \<Rightarrow> if cv_id v = current_id then Some v else None) of
           None \<Rightarrow> Inl Stale_addon_snapshot
         | Some current \<Rightarrow>
             and_then (cadence_result (make_cadence zones (cv_cadence current))) (\<lambda>cad.
             and_then (cadence_result (service_period zones cad (Instant (starts_at target)) 0)) (\<lambda>expected.
             if expected \<noteq> target then Inl Invalid_addon_period
             else if order \<notin> snd ` set (sale_versions sales (cd_versions db) (ct_id c)) then Inl (Sales_anchor_mismatch order)
             else replace_addons fr c current (starts_at target) terms db))))"

subsection \<open>Activation\<close>

text \<open>\<open>_sales_order_anchor\<close>: the sale of the lowest version that has one.\<close>

definition sales_order_anchor :: "(string \<times> string) list \<Rightarrow> version_row list \<Rightarrow> string \<Rightarrow> billing_contract_error + string" where
  "sales_order_anchor sales rows c =
     (case greatest (\<lambda>(v, order). - vr_number v) (sale_versions sales rows c) of
        None \<Rightarrow> Inl (Sales_anchor_mismatch c)
      | Some (v, order) \<Rightarrow> Inr order)"

record activation =
  ac_contract :: string
  ac_timer :: string
  ac_expected_version :: int
  ac_generation :: int

text \<open>\<open>_activate_pending_terms\<close> of the handler in \<open>billing_lifecycle_projection.py\<close>.\<close>

definition delivered :: "fired_trigger \<Rightarrow> activation option" where
  "delivered tr =
     (if tr_trigger tr = pending_trigger then
        Some \<lparr>ac_contract = tr_entity tr, ac_timer = tr_timer tr, ac_expected_version = tr_expected_version tr,
              ac_generation = tr_generation tr\<rparr>
      else None)"

text \<open>The delivered timer names the pending terms of the contract and has fired.\<close>

definition timer_matches :: "activation \<Rightarrow> timer \<Rightarrow> bool" where
  "timer_matches act r \<longleftrightarrow> tm_owner r = contract_owner \<and> tm_entity_kind r = ''billing_contract'' \<and>
     tm_entity r = ac_contract act \<and> tm_purpose r = pending_purpose \<and> tm_generation r = ac_generation act \<and>
     tm_expected_version r = ac_expected_version act \<and> tm_output r = pending_trigger \<and> tm_status r = Timer_fired"

definition activation_result :: "contract \<Rightarrow> version_row \<Rightarrow> contract_db \<Rightarrow> version_result" where
  "activation_result c draft db =
     \<lparr>vs_contract = ct_id c, vs_version = cv_id draft, vs_number = vr_number draft, vs_authority = vr_authority draft,
      vs_lines = line_ids db (cv_id draft), vs_replayed = False\<rparr>"

definition activate :: "(string \<times> string) list \<Rightarrow> contract \<Rightarrow> version_row \<Rightarrow> version_row \<Rightarrow> contract_db \<Rightarrow>
    billing_contract_error + (version_result \<times> recorded_output) \<times> contract_db" where
  "activate sales c current draft db =
     and_then (update_version (cd_versions db) (close_version (cv_starts_at draft) current)) (\<lambda>rows1.
     and_then (update_version rows1 (draft\<lparr>vr_status := Effective_version\<rparr>)) (\<lambda>rows.
     let db' = db\<lparr>cd_versions := rows\<rparr>; r = activation_result c draft db'; live = (cv_source_kind draft = Plan_change) in
     and_then (sales_order_anchor sales rows (ct_id c)) (\<lambda>order.
       Inr ((r, shadow_output db' order
           (if live then ''recurring_addon_purchase'' else ''recurring_addon_backfill'')
           (if live then ''subscription'' else ''sales_order'')
           (if live then Some (ct_subscription c) else None)
           (if live then Some (ct_subscription c) else None) [r]), db'))))"

definition consume_pending_due :: "(string \<times> string) list \<Rightarrow> activation \<Rightarrow> contract_db \<Rightarrow>
    billing_contract_error + (version_result \<times> recorded_output) \<times> contract_db" where
  "consume_pending_due sales act db =
     (case (case List.find (\<lambda>r. tm_id r = ac_timer act) (cd_timers db) of
              None \<Rightarrow> None
            | Some t \<Rightarrow> if timer_matches act t then Some t else None) of
        None \<Rightarrow> Inl (Invalid_pending_timer (ac_timer act))
      | Some t \<Rightarrow>
          (case List.find (\<lambda>c. ct_id c = ac_contract act) (cd_contracts db) of
             None \<Rightarrow> Inl (Unknown_contract (ac_contract act))
           | Some c \<Rightarrow>
               and_then (one_or_none Several_rows
                 (filter (\<lambda>v. cv_contract v = ct_id c \<and> vr_number v = ac_expected_version act) (cd_versions db))) (\<lambda>found.
               case (case found of None \<Rightarrow> None | Some v \<Rightarrow> if vr_status v = Draft_version then Some v else None) of
                 None \<Rightarrow> Inl (Pending_version_not_found (ct_id c) (ac_expected_version act))
               | Some draft \<Rightarrow>
                   and_then (current_effective (cd_versions db) (ct_id c)) (\<lambda>cur.
                   case (case cur of None \<Rightarrow> None | Some v \<Rightarrow> if vr_supersedes draft = Some (cv_id v) then Some v else None) of
                     None \<Rightarrow> Inl (Stale_pending_terms (cv_id draft))
                   | Some current \<Rightarrow>
                       if tm_due_at t \<noteq> cv_starts_at draft then Inl (Invalid_pending_timer (tm_id t))
                       else activate sales c current draft db))))"

end
