(* ===== verification/Timer_Guarantees.thy ===== *)
theory Timer_Guarantees
  imports Timers
begin

section \<open>What durable timers guarantee\<close>

text \<open>
  Generations are counted without gap and the current timer is the newest one, staging inside an owner
  command never fails on the table, and every due timer fires within as many scans as the batch requires.
\<close>

subsection \<open>Firing a batch\<close>

lemma mark_fired_fields [simp]:
  "tm_id (mark_fired event now r) = tm_id r" "timer_key (mark_fired event now r) = timer_key r"
  "tm_generation (mark_fired event now r) = tm_generation r" "tm_status (mark_fired event now r) = Timer_fired"
  "tm_due_at (mark_fired event now r) = tm_due_at r"
  by (simp_all add: mark_fired_def timer_key_def)

lemma fired_rows:
  assumes "distinct (map tm_id rows)" and "set due \<subseteq> set rows" and "distinct due"
  shows "fold (\<lambda>r. put_row tm_id (mark_fired event now r)) due rows =
    map (\<lambda>x. if x \<in> set due then mark_fired event now x else x) rows"
  using assms
proof (induction due arbitrary: rows)
  case (Cons r due)
  let ?rows = "put_row tm_id (mark_fired event now r) rows"
  have same: "x = r" if "x \<in> set rows" "tm_id x = tm_id r" for x
    using that Cons.prems(1,2) by (simp add: distinct_map inj_on_def)
  have due: "tm_id x \<noteq> tm_id r" if "x \<in> set due" for x
    using that same [of x] Cons.prems(2,3) by auto
  have "set due \<subseteq> set ?rows" using Cons.prems(2) due by (auto intro: put_row_kept)
  moreover have "distinct (map tm_id ?rows)" using Cons.prems(1) put_row_keys [of tm_id "mark_fired event now r" rows] by simp
  ultimately have "fold (\<lambda>r. put_row tm_id (mark_fired event now r)) (r # due) rows =
      map (\<lambda>x. if x \<in> set due then mark_fired event now x else x) ?rows"
    using Cons.IH [of ?rows] Cons.prems(3) by simp
  also have "\<dots> = map (\<lambda>x. if x \<in> set (r # due) then mark_fired event now x else x) rows"
  proof -
    have "mark_fired event now r \<notin> set due" using due [of "mark_fired event now r"] by auto
    then show ?thesis using same by (auto simp: put_row_def)
  qed
  finally show ?case .
qed simp

lemma set_due_timers: "set (due_timers now limit rows) \<subseteq> {r \<in> set rows. due_by now r}"
  using set_take_subset [of limit "sort_key tm_due_at (filter (due_by now) rows)"] by (auto simp: due_timers_def)

lemma distinct_due_timers: "distinct (map tm_id rows) \<Longrightarrow> distinct (due_timers now limit rows)"
  by (simp add: due_timers_def distinct_map)

lemma fire_due_rows:
  assumes "distinct (map tm_id rows)"
  shows "snd (fire_due event now limit rows) =
    map (\<lambda>x. if x \<in> set (due_timers now limit rows) then mark_fired event now x else x) rows"
proof -
  have "set (due_timers now limit rows) \<subseteq> set rows" using set_due_timers [of now limit rows] by blast
  then show ?thesis
    unfolding fire_due_def Let_def snd_conv by (rule fired_rows [OF assms _ distinct_due_timers [OF assms]])
qed

lemma fold_fired_ok:
  assumes "timers_ok rows" and "set due \<subseteq> set rows" and "distinct (map tm_id due)" and "\<forall>r \<in> set due. tm_due_at r \<le> now"
  shows "timers_ok (fold (\<lambda>r. put_row tm_id (mark_fired event now r)) due rows)"
  using assms
proof (induction due arbitrary: rows)
  case (Cons r due)
  have "timers_ok (put_row tm_id (mark_fired event now r) rows)"
    using Cons.prems by (intro put_timer_ok [of _ r]) (auto simp: timer_in_step_def mark_fired_def same_timer_def timer_key_def)
  moreover have "set due \<subseteq> set (put_row tm_id (mark_fired event now r) rows)"
    using Cons.prems(2,3) by (auto intro!: put_row_kept simp: image_iff)
  ultimately show ?case using Cons.IH Cons.prems(3,4) by simp
qed simp

lemma fire_due_ok:
  assumes "timers_ok rows"
  shows "timers_ok (snd (fire_due event now limit rows))"
proof -
  note ids = timers_okD(1) [OF assms]
  have "inj_on tm_id (set (due_timers now limit rows))"
    using ids set_due_timers [of now limit rows] by (auto simp: distinct_map intro: inj_on_subset)
  then have "distinct (map tm_id (due_timers now limit rows))" using distinct_due_timers [OF ids] by (simp add: distinct_map)
  then show ?thesis
    using fold_fired_ok [OF assms, of "due_timers now limit rows" now] set_due_timers [of now limit rows]
    by (auto simp: fire_due_def Let_def due_by_def)
qed

subsection \<open>The invariant\<close>

lemma current_timer_ok:
  assumes "timers_ok rows"
  shows "\<exists>r. current_timer rows k = Inr r"
proof -
  let ?xs = "filter (\<lambda>r. timer_key r = k \<and> tm_status r = Timer_scheduled) rows"
  note ok = timers_okD [OF assms]
  have "x = y" if "x \<in> set ?xs" "y \<in> set ?xs" for x y
  proof -
    have "tm_generation x = tm_generation y" using that ok(4) [of x y] ok(4) [of y x] by force
    then show ?thesis using that gapless_distinct [OF ok(2)] by (auto simp: distinct_map inj_on_def)
  qed
  moreover have "distinct ?xs" using ok(1) by (simp add: distinct_map)
  ultimately show ?thesis unfolding current_timer_def by (intro one_or_none_unique)
qed

lemma current_timer_iff:
  assumes "timers_ok xs"
  shows "current_timer xs k = Inr (Some x) \<longleftrightarrow> x \<in> set xs \<and> timer_key x = k \<and> tm_status x = Timer_scheduled"
proof
  assume "current_timer xs k = Inr (Some x)"
  then show "x \<in> set xs \<and> timer_key x = k \<and> tm_status x = Timer_scheduled"
    unfolding current_timer_def by (rule one_or_none_SomeD)
next
  assume x: "x \<in> set xs \<and> timer_key x = k \<and> tm_status x = Timer_scheduled"
  obtain c where c: "current_timer xs k = Inr c" using current_timer_ok [OF assms] by blast
  define ys where "ys = filter (\<lambda>r. timer_key r = k \<and> tm_status r = Timer_scheduled) xs"
  have "x \<in> set ys" using x by (simp add: ys_def)
  then show "current_timer xs k = Inr (Some x)"
    using c unfolding current_timer_def ys_def [symmetric]
    by (cases c) (auto simp: one_or_none_None one_or_none_Some)
qed

lemma timer_step_ok:
  assumes "timer_step rows rows'" and "timers_ok rows"
  shows "timers_ok rows'"
  using assms(1)
proof cases
  case (Schedule_timer active i cmd r)
  then obtain due where due: "active" "tc_due_at cmd = Instant due" "py_strip (tc_output cmd) \<noteq> []"
    by (cases "tc_due_at cmd") (auto simp: schedule_timer_def split: if_splits)
  obtain rows1 r' where s: "schedule_timer True i cmd rows = (if i \<in> tm_id ` set rows then Inl Timer_integrity_error else Inr (r', rows1 @ [r']))"
    "i \<notin> tm_id ` set rows \<longrightarrow> timers_ok (rows1 @ [r'])"
    by (rule schedule_timer_cases [OF assms(2) due(2,3), where i = i]) (rule that; assumption)
  then show ?thesis using Schedule_timer due(1) by (auto split: if_splits)
next
  case (Cancel_timer active k b)
  then obtain cur where cur: "current_timer rows k = Inr cur"
    "rows' = (case cur of None \<Rightarrow> rows | Some r \<Rightarrow> put_row tm_id (r\<lparr>tm_status := Timer_canceled\<rparr>) rows)"
    by (auto simp: cancel_timer_def and_then_Inr split: if_splits option.splits)
  show ?thesis
  proof (cases cur)
    case (Some r)
    have r: "r \<in> set rows" "tm_status r = Timer_scheduled"
      using one_or_none_SomeD [OF cur(1) [unfolded Some current_timer_def]] by simp_all
    then have "timer_in_step (r\<lparr>tm_status := Timer_canceled\<rparr>)"
      using timers_okD(3) [OF assms(2)] by (auto simp: timer_in_step_def)
    then show ?thesis using cur(2) Some put_timer_ok [OF assms(2) r(1)] by simp
  qed (use assms(2) cur(2) in simp)
next
  case (Fire_timers event now limit trs)
  then obtain t where "fire_due event t limit rows = (trs, rows')"
    by (cases now) (auto simp: fire_due_timers_def)
  then show ?thesis using fire_due_ok [OF assms(2), of event t limit] by simp
qed

lemma timer_history_ok: "timer_history rows \<Longrightarrow> timers_ok rows"
  by (induction rule: timer_history.induct) (simp add: timers_ok_def, rule timer_step_ok)

text \<open>
  C26: generations. In every history of staging, cancelling and firing, the timers of one owner, entity and
  purpose are numbered 1, 2, 3 and so on, at most the newest of them is scheduled, and a timer counts as
  fired exactly when it has a time of firing, which is never before it is due.
\<close>

theorem timer_generations:
  assumes "timer_history rows" and "r \<in> set rows"
  shows "(\<forall>g. 1 \<le> g \<and> g \<le> tm_generation r \<longrightarrow> (\<exists>!x. x \<in> set rows \<and> timer_key x = timer_key r \<and> tm_generation x = g)) \<and>
    (\<forall>x \<in> set rows. tm_status r = Timer_scheduled \<and> timer_key x = timer_key r \<longrightarrow> tm_generation x \<le> tm_generation r) \<and>
    (tm_status r = Timer_fired \<longleftrightarrow> (\<exists>t \<ge> tm_due_at r. tm_fired_at r = Some t))"
proof -
  note ok = timers_okD [OF timer_history_ok [OF assms(1)]]
  have "\<exists>!x. x \<in> set rows \<and> timer_key x = timer_key r \<and> tm_generation x = g" if "1 \<le> g \<and> g \<le> tm_generation r" for g
    by (rule gapless_ex1 [OF ok(2) assms(2)]) (use that in simp_all)
  moreover have "tm_status r = Timer_fired \<longleftrightarrow> (\<exists>t \<ge> tm_due_at r. tm_fired_at r = Some t)"
    using ok(3) assms(2) by (auto simp: timer_in_step_def split: option.splits)
  ultimately show ?thesis using ok(4) [OF assms(2)] by blast
qed

text \<open>
  C27: staging replaces the current timer. In every history, staging a timer inside an owner command, with
  an aware due time, an output and a fresh identity, never fails; the new timer has the next generation of
  its key and is the current one from then on, and the current timers of all other keys stay.
\<close>

theorem staging_replaces_current:
  assumes "timer_history rows" and "tc_due_at cmd = Instant due" and "py_strip (tc_output cmd) \<noteq> []"
    and "i \<notin> tm_id ` set rows"
  shows "\<exists>r rows'. schedule_timer True i cmd rows = Inr (r, rows') \<and> tm_due_at r = due \<and>
    tm_generation r = 1 + int (length (filter (\<lambda>x. timer_key x = command_key cmd) rows)) \<and>
    current_timer rows' (command_key cmd) = Inr (Some r) \<and>
    (\<forall>k r'. k \<noteq> command_key cmd \<longrightarrow> current_timer rows' k = Inr (Some r') \<longleftrightarrow> current_timer rows k = Inr (Some r'))"
proof -
  note ok = timer_history_ok [OF assms(1)]
  obtain rows1 r where all: "schedule_timer True i cmd rows = (if i \<in> tm_id ` set rows then Inl Timer_integrity_error else Inr (r, rows1 @ [r]))"
    "i \<notin> tm_id ` set rows \<longrightarrow> timers_ok (rows1 @ [r])"
    "r = new_timer i cmd (1 + int (length (filter (\<lambda>x. timer_key x = command_key cmd) rows))) due"
    "\<forall>x \<in> set rows1. timer_key x = command_key cmd \<longrightarrow> tm_status x \<noteq> Timer_scheduled"
    "\<forall>x. timer_key x \<noteq> command_key cmd \<longrightarrow> x \<in> set rows1 \<longleftrightarrow> x \<in> set rows"
    by (rule schedule_timer_cases [OF ok assms(2,3), where i = i]) (rule that; assumption)
  note s = all(1) [unfolded if_not_P [OF assms(4)]] mp [OF all(2) assms(4)] all(3-5)
  note current = current_timer_iff
  have "current_timer (rows1 @ [r]) (command_key cmd) = Inr (Some r)"
    unfolding current [OF s(2)] by (simp add: s(3))
  moreover have "current_timer (rows1 @ [r]) k = Inr (Some r') \<longleftrightarrow> current_timer rows k = Inr (Some r')"
    if "k \<noteq> command_key cmd" for k r'
    unfolding current [OF s(2)] current [OF ok] using s(3,5) that by auto
  ultimately show ?thesis using s(1,3) by simp
qed

subsection \<open>Every due timer fires\<close>

fun fire_runs :: "(string \<Rightarrow> string) \<Rightarrow> nat \<Rightarrow> int list \<Rightarrow> timer list \<Rightarrow> fired_trigger list \<times> timer list" where
  "fire_runs event limit [] rows = ([], rows)"
| "fire_runs event limit (now # nows) rows =
     (let (trs, rows1) = fire_due event now limit rows; (trs', rows2) = fire_runs event limit nows rows1 in (trs @ trs', rows2))"

text \<open>The rows due by \<open>t\<close> come first in a later scan.\<close>

lemma filter_take_sorted:
  assumes "sorted (map f xs)"
  shows "filter (\<lambda>x. f x \<le> t) (take n xs) = take n (filter (\<lambda>x. f x \<le> t) xs)"
  using assms
proof (induction xs arbitrary: n)
  case (Cons x xs)
  show ?case
  proof (cases "f x \<le> t")
    case True
    then show ?thesis using Cons by (cases n) simp_all
  next
    case False
    then have none: "\<forall>y \<in> set (x # xs). \<not> f y \<le> t" using Cons.prems by auto
    then have "filter (\<lambda>x. f x \<le> t) (x # xs) = []" by (simp only: filter_empty_conv)
    moreover have "filter (\<lambda>x. f x \<le> t) (take n (x # xs)) = []"
      using none set_take_subset [of n "x # xs"] by (auto simp only: filter_empty_conv)
    ultimately show ?thesis by (simp only: take_Nil)
  qed
qed simp

lemma batch_due:
  assumes "t \<le> now"
  shows "length (filter (due_by t) (due_timers now limit rows)) = min limit (length (filter (due_by t) rows))"
proof -
  have later: "due_by t r \<longleftrightarrow> due_by now r \<and> tm_due_at r \<le> t" for r using assms by (auto simp: due_by_def)
  let ?s = "sort_key tm_due_at (filter (due_by now) rows)"
  have all: "due_by now r" if "r \<in> set (take limit ?s)" for r using that set_take_subset [of limit ?s] by auto
  have "filter (due_by t) (take limit ?s) = filter (\<lambda>r. tm_due_at r \<le> t) (take limit ?s)"
    by (rule filter_cong [OF refl]) (use all later in blast)
  also have "\<dots> = take limit (filter (\<lambda>r. tm_due_at r \<le> t) ?s)" by (simp add: filter_take_sorted)
  finally have taken: "length (filter (due_by t) (take limit ?s)) = min (length (filter (\<lambda>r. tm_due_at r \<le> t) ?s)) limit"
    by (simp only: length_take)
  have "filter (\<lambda>r. tm_due_at r \<le> t) ?s = sort_key tm_due_at (filter (due_by t) rows)"
    by (simp add: filter_sort filter_filter later [symmetric])
  then show ?thesis unfolding due_timers_def taken by (simp only: length_sort min.commute)
qed

lemma fire_reduces:
  assumes "distinct (map tm_id rows)" and "t \<le> now"
  shows "length (filter (due_by t) (snd (fire_due event now limit rows))) = length (filter (due_by t) rows) - limit"
proof -
  let ?due = "due_timers now limit rows"
  have rows: "distinct rows" "distinct ?due" using assms(1) distinct_due_timers by (simp_all add: distinct_map)
  have "length (filter (due_by t) (snd (fire_due event now limit rows))) = length (filter (\<lambda>r. due_by t r \<and> r \<notin> set ?due) rows)"
    unfolding fire_due_rows [OF assms(1)] filter_map length_map
    by (rule arg_cong [where f = length], rule filter_cong) (auto simp: due_by_def)
  also have "\<dots> + length (filter (due_by t) ?due) = length (filter (due_by t) rows)"
  proof -
    have "card ({r \<in> set rows. due_by t r \<and> r \<notin> set ?due} \<union> {r \<in> set ?due. due_by t r}) =
        card {r \<in> set rows. due_by t r \<and> r \<notin> set ?due} + card {r \<in> set ?due. due_by t r}"
      by (rule card_Un_disjoint) auto
    moreover have "{r \<in> set rows. due_by t r \<and> r \<notin> set ?due} \<union> {r \<in> set ?due. due_by t r} = {r \<in> set rows. due_by t r}"
      using set_due_timers [of now limit rows] by blast
    ultimately show ?thesis
      using distinct_card [OF distinct_filter [OF rows(1)]] distinct_card [OF distinct_filter [OF rows(2)]] by (simp add: Collect_conj_eq [symmetric])
  qed
  finally show ?thesis using batch_due [OF assms(2), of limit rows] by linarith
qed

text \<open>Each timer fires at most once: a scan announces scheduled timers, and leaves them fired.\<close>

lemma fire_keeps_fired:
  assumes "distinct (map tm_id rows)"
  shows "distinct (map tm_id (snd (fire_due event now limit rows)))"
    "set (filter (\<lambda>r. tm_status r = Timer_scheduled) (snd (fire_due event now limit rows))) \<subseteq>
      {r \<in> set rows. tm_status r = Timer_scheduled \<and> r \<notin> set (due_timers now limit rows)}"
    "r \<in> set rows \<Longrightarrow> \<exists>x \<in> set (snd (fire_due event now limit rows)). tm_id x = tm_id r \<and>
      (x = r \<or> tm_status x = Timer_fired \<and> tm_id r \<in> tr_timer ` set (fst (fire_due event now limit rows)))"
proof -
  have rows: "snd (fire_due event now limit rows) =
      map (\<lambda>x. if x \<in> set (due_timers now limit rows) then mark_fired event now x else x) rows"
    by (rule fire_due_rows [OF assms])
  have ids: "map tm_id (snd (fire_due event now limit rows)) = map tm_id rows" by (simp add: rows)
  then show "distinct (map tm_id (snd (fire_due event now limit rows)))" using assms by simp
  show "set (filter (\<lambda>r. tm_status r = Timer_scheduled) (snd (fire_due event now limit rows))) \<subseteq>
      {r \<in> set rows. tm_status r = Timer_scheduled \<and> r \<notin> set (due_timers now limit rows)}"
    by (auto simp: rows)
  show "\<exists>x \<in> set (snd (fire_due event now limit rows)). tm_id x = tm_id r \<and>
      (x = r \<or> tm_status x = Timer_fired \<and> tm_id r \<in> tr_timer ` set (fst (fire_due event now limit rows)))"
    if "r \<in> set rows"
  proof -
    have "(if r \<in> set (due_timers now limit rows) then mark_fired event now r else r) \<in> set (snd (fire_due event now limit rows))"
      using that unfolding rows set_map by (rule imageI)
    moreover have "tm_id r \<in> tr_timer ` set (fst (fire_due event now limit rows))" if "r \<in> set (due_timers now limit rows)"
      using that by (force simp: fire_due_def Let_def trigger_of_def)
    ultimately show ?thesis
      by (intro bexI [of _ "if r \<in> set (due_timers now limit rows) then mark_fired event now r else r"]) simp_all
  qed
qed

lemma fire_runs_once:
  assumes "distinct (map tm_id rows)"
  shows "distinct (map tr_timer (fst (fire_runs event limit nows rows))) \<and>
    tr_timer ` set (fst (fire_runs event limit nows rows)) \<subseteq> tm_id ` {r \<in> set rows. tm_status r = Timer_scheduled}"
  using assms
proof (induction nows arbitrary: rows)
  case (Cons now nows)
  let ?rows = "snd (fire_due event now limit rows)" and ?due = "due_timers now limit rows"
  note fired = fire_keeps_fired [OF Cons.prems, where event = event and now = now and limit = limit]
  note IH = Cons.IH [OF fired(1)]
  have trs: "map tr_timer (fst (fire_due event now limit rows)) = map tm_id ?due"
    by (simp add: fire_due_def Let_def trigger_of_def comp_def)
  have due: "set ?due \<subseteq> {r \<in> set rows. tm_status r = Timer_scheduled}"
    using set_due_timers [of now limit rows] by (auto simp: due_by_def)
  have inj: "inj_on tm_id (set rows)" using Cons.prems by (simp add: distinct_map)
  have later: "{r \<in> set ?rows. tm_status r = Timer_scheduled} \<subseteq> {r \<in> set rows. tm_status r = Timer_scheduled} - set ?due"
    using fired(2) by auto
  have ids: "distinct (map tm_id ?due)"
    using distinct_due_timers [OF Cons.prems] inj due by (auto simp: distinct_map intro: inj_on_subset)
  have apart: "tm_id ` ({r \<in> set rows. tm_status r = Timer_scheduled} - set ?due) \<inter> tm_id ` set ?due = {}"
    using inj due by (auto simp: inj_on_def)
  have rest: "tr_timer ` set (fst (fire_runs event limit nows ?rows)) \<subseteq> tm_id ` ({r \<in> set rows. tm_status r = Timer_scheduled} - set ?due)"
    using conjunct2 [OF IH] image_mono [OF later, of tm_id] by (rule subset_trans)
  have announced: "tr_timer ` set (fst (fire_due event now limit rows)) = tm_id ` set ?due"
    using arg_cong [OF trs, of set] by simp
  have "tr_timer ` set (fst (fire_due event now limit rows)) \<inter> tr_timer ` set (fst (fire_runs event limit nows ?rows)) = {}"
    unfolding announced using apart rest by blast
  moreover have "tr_timer ` set (fst (fire_due event now limit rows)) \<union> tr_timer ` set (fst (fire_runs event limit nows ?rows)) \<subseteq>
      tm_id ` {r \<in> set rows. tm_status r = Timer_scheduled}"
    unfolding announced using due rest by blast
  moreover have "distinct (map tr_timer (fst (fire_due event now limit rows)))" using ids by (simp only: trs)
  ultimately show ?case using IH by (simp add: split_beta image_Un)
qed simp

lemma fire_runs_reduces:
  assumes "distinct (map tm_id rows)" and "\<forall>now \<in> set nows. t \<le> now"
  shows "length (filter (due_by t) (snd (fire_runs event limit nows rows))) =
    length (filter (due_by t) rows) - limit * length nows"
  using assms
proof (induction nows arbitrary: rows)
  case (Cons now nows)
  then show ?case
    using fire_keeps_fired(1) [OF Cons.prems(1)] fire_reduces [OF Cons.prems(1), of t now event limit]
    by (simp add: split_beta)
qed simp

lemma fire_runs_rows:
  assumes "distinct (map tm_id rows)" and "r \<in> set rows" and "tm_status r = Timer_scheduled \<or> tm_status r = Timer_fired"
  shows "\<exists>x \<in> set (snd (fire_runs event limit nows rows)). tm_id x = tm_id r \<and>
    (x = r \<or> tm_status x = Timer_fired \<and> (tm_status r = Timer_scheduled \<longrightarrow> tm_id r \<in> tr_timer ` set (fst (fire_runs event limit nows rows))))"
  using assms
proof (induction nows arbitrary: rows r)
  case (Cons now nows)
  note fired = fire_keeps_fired [OF Cons.prems(1), where event = event and now = now and limit = limit]
  from fired(3) [OF Cons.prems(2)] obtain x where x: "x \<in> set (snd (fire_due event now limit rows))" "tm_id x = tm_id r"
    "x = r \<or> tm_status x = Timer_fired \<and> tm_id r \<in> tr_timer ` set (fst (fire_due event now limit rows))" by blast
  then have "tm_status x = Timer_scheduled \<or> tm_status x = Timer_fired" using Cons.prems(3) by auto
  from Cons.IH [OF fired(1) x(1) this] x(2,3) show ?case by (auto simp: split_beta)
qed auto

text \<open>
  C19: no timer is forgotten. Whatever was scheduled, after as many scans as the batch size needs for the
  timers due by a time, each at that time or later, every one of them has fired, its trigger was announced,
  and no trigger was announced twice.
\<close>

theorem due_timers_fire:
  assumes "timer_history rows" and "fire_runs event limit nows rows = (trs, rows')"
    and "length (filter (due_by t) rows) \<le> limit * length nows" and "\<forall>now \<in> set nows. t \<le> now"
  shows "distinct (map tr_timer trs) \<and>
    (\<forall>r \<in> set rows. due_by t r \<longrightarrow> tm_id r \<in> tr_timer ` set trs \<and>
      (\<exists>x \<in> set rows'. tm_id x = tm_id r \<and> tm_status x = Timer_fired))"
proof -
  note ids = timers_okD(1) [OF timer_history_ok [OF assms(1)]]
  have "filter (due_by t) rows' = []"
    using fire_runs_reduces [OF ids assms(4), of event limit] assms(2,3) by simp
  then have none: "\<not> due_by t x" if "x \<in> set rows'" for x using that by (simp add: filter_empty_conv)
  have "tm_id r \<in> tr_timer ` set trs \<and> (\<exists>x \<in> set rows'. tm_id x = tm_id r \<and> tm_status x = Timer_fired)"
    if r: "r \<in> set rows" "due_by t r" for r
    using fire_runs_rows [OF ids r(1), of event limit nows] r(2) none by (auto simp: assms(2) due_by_def)
  then show ?thesis using fire_runs_once [OF ids, of event limit nows] by (simp add: assms(2))
qed

subsection \<open>A sample history\<close>

definition sample_timer_command :: timer_command where
  "sample_timer_command = \<lparr>tc_owner = ''billing.contracts'', tc_entity_kind = ''billing_contract'', tc_entity = ''c1'',
     tc_purpose = ''pending_terms_effective'', tc_due_at = Instant 100, tc_output = ''due'', tc_expected_version = 2\<rparr>"

definition first_timer :: timer where
  "first_timer = new_timer ''t1'' sample_timer_command 1 100"

definition second_timer :: timer where
  "second_timer = new_timer ''t2'' sample_timer_command 2 100"

lemma sample_staging:
  "schedule_timer True ''t1'' sample_timer_command [] = Inr (first_timer, [first_timer])"
  "schedule_timer True ''t2'' sample_timer_command [first_timer] =
     Inr (second_timer, [first_timer\<lparr>tm_status := Timer_superseded\<rparr>, second_timer])"
  by code_simp+

lemma sample_timers: "timer_history [first_timer]" "timer_history [first_timer\<lparr>tm_status := Timer_superseded\<rparr>, second_timer]"
  using Next_timers [OF No_timers Schedule_timer [OF sample_staging(1)]]
    Next_timers [OF _ Schedule_timer [OF sample_staging(2)]] by blast+

theorem timer_generations_witness:
  "\<exists>!x. x \<in> {first_timer\<lparr>tm_status := Timer_superseded\<rparr>, second_timer} \<and> timer_key x = timer_key second_timer \<and> tm_generation x = 1"
  using timer_generations [OF sample_timers(2), of second_timer] by (simp add: second_timer_def)

theorem staging_replaces_current_witness:
  "\<exists>r rows'. schedule_timer True ''t2'' sample_timer_command [first_timer] = Inr (r, rows') \<and> tm_generation r = 2 \<and>
     current_timer rows' (command_key sample_timer_command) = Inr (Some r)"
  using staging_replaces_current [OF sample_timers(1), of sample_timer_command 100 "''t2''"]
  by (simp add: first_timer_def) (fastforce simp: sample_timer_command_def py_strip_def py_isspace_def)

theorem due_timers_fire_witness:
  "\<exists>trs rows'. fire_runs (\<lambda>i. i) 1 [120] [first_timer] = (trs, rows') \<and> map tr_timer trs = [''t1''] \<and>
     (\<exists>x \<in> set rows'. tm_id x = ''t1'' \<and> tm_status x = Timer_fired)"
proof -
  obtain trs rows' where f: "fire_runs (\<lambda>i. i) 1 [120] [first_timer] = (trs, rows')" by (rule prod.exhaust)
  have d: "due_by 100 first_timer" by (simp add: due_by_def first_timer_def)
  then have n: "length (filter (due_by 100) [first_timer]) \<le> 1 * length [120::int]" by simp
  from due_timers_fire [OF sample_timers(1) f n] d
  have "\<exists>x \<in> set rows'. tm_id x = ''t1'' \<and> tm_status x = Timer_fired" by (simp add: first_timer_def)
  moreover have "map tr_timer trs = [''t1'']"
    using f by (auto simp: fire_due_def due_timers_def due_by_def first_timer_def Let_def trigger_of_def)
  ultimately show ?thesis using f by (intro exI [of _ trs] exI [of _ rows'] conjI)
qed

end
