(* ===== verification/Contract_Changes.thy ===== *)
theory Contract_Changes
  imports Contract_Addons Timer_Guarantees
begin

section \<open>Steps of the contract tables\<close>

text \<open>
  The steps of the owner of contracts, and each of them as a short sequence of changes of the tables.
  Timers change in between, by any owner and by the scan that fires them.
\<close>

inductive contract_step :: "zone_db \<Rightarrow> zone \<Rightarrow> (string \<times> string) list \<Rightarrow> contract_db \<Rightarrow> contract_db \<Rightarrow> bool"
  for zones sys sales where
  Record_step: "record_version authority now fr reason key cmd db = Inr (r, db') \<Longrightarrow> contract_step zones sys sales db db'"
| Cancel_step: "cancel_version reason i db = Inr (j, db') \<Longrightarrow> contract_step zones sys sales db db'"
| Funding_step: "consume_sales_funding authority now zones reason key order snapshots db = Inr (r, db') \<Longrightarrow>
    contract_step zones sys sales db db'"
| Purchase_step: "consume_addon_purchase zones sys fr term db = Inr (p, db') \<Longrightarrow> contract_step zones sys sales db db'"
| Backfill_step: "consume_addon_backfill zones sales fr order account subscription i current_id target terms db = Inr (p, db') \<Longrightarrow>
    contract_step zones sys sales db db'"
| Due_step: "consume_pending_due sales act db = Inr (r, db') \<Longrightarrow> contract_step zones sys sales db db'"
| Timers_step: "timer_step (cd_timers db) ts \<Longrightarrow> contract_step zones sys sales db (db\<lparr>cd_timers := ts\<rparr>)"

inductive contract_history :: "zone_db \<Rightarrow> zone \<Rightarrow> (string \<times> string) list \<Rightarrow> contract_db \<Rightarrow> bool"
  for zones sys sales where
  No_contracts: "contract_history zones sys sales \<lparr>cd_contracts = [], cd_versions = [], cd_lines = [], cd_timers = []\<rparr>"
| Next_contracts: "contract_history zones sys sales db \<Longrightarrow> contract_step zones sys sales db db' \<Longrightarrow>
    contract_history zones sys sales db'"

subsection \<open>Columns\<close>

lemma stored_version_Some:
  "stored_version v = Some r \<longleftrightarrow>
     (\<exists>price quantity discount. to_scale 14 4 (vr_price v) = Some price \<and>
       to_scale 14 4 (cad_rate_quantity (cv_cadence v)) = Some quantity \<and>
       (case vr_discount v of None \<Rightarrow> discount = None | Some x \<Rightarrow> \<exists>y. to_scale 14 4 x = Some y \<and> discount = Some y) \<and>
       r = v\<lparr>vr_price := price, cv_cadence := (cv_cadence v)\<lparr>cad_rate_quantity := quantity\<rparr>, vr_discount := discount\<rparr>)"
  by (cases "vr_discount v") (auto simp: stored_version_def split: option.splits)

text \<open>Amounts that went through their columns are stored again as they are.\<close>

definition columns_held :: "version_row \<Rightarrow> bool" where
  "columns_held v \<longleftrightarrow> to_scale 14 4 (vr_price v) = Some (vr_price v) \<and>
     to_scale 14 4 (cad_rate_quantity (cv_cadence v)) = Some (cad_rate_quantity (cv_cadence v)) \<and>
     (case vr_discount v of None \<Rightarrow> True | Some x \<Rightarrow> to_scale 14 4 x = Some x)"

lemma stored_columns: "stored_version v = Some r \<Longrightarrow> columns_held r"
  using to_scale_stable by (cases "vr_discount v") (fastforce simp: stored_version_Some columns_held_def)+

lemma stored_held_version: "columns_held v \<Longrightarrow> stored_version v = Some v"
  unfolding stored_version_Some columns_held_def by (cases "vr_discount v") auto

subsection \<open>Changes of the tables\<close>

definition close_rows :: "int \<Rightarrow> version_row option \<Rightarrow> version_row list \<Rightarrow> version_row list" where
  "close_rows s cur rows = (case cur of None \<Rightarrow> rows | Some v \<Rightarrow> put_row cv_id (close_version s v) rows)"

definition can_insert :: "version_row list \<Rightarrow> version_row \<Rightarrow> bool" where
  "can_insert rows r \<longleftrightarrow> columns_held r \<and> version_allowed r \<and> (\<forall>x \<in> set rows. cv_id x \<noteq> cv_id r \<and> \<not> version_collides x r)"

definition can_update :: "version_row list \<Rightarrow> version_row \<Rightarrow> bool" where
  "can_update rows r \<longleftrightarrow> version_allowed r \<and> (\<forall>x \<in> set rows. cv_id x \<noteq> cv_id r \<longrightarrow> \<not> version_collides x r)"

definition cancel_row :: "string \<Rightarrow> version_row \<Rightarrow> version_row" where
  "cancel_row reason v = v\<lparr>vr_status := Canceled_version,
     vr_superseded_at := Some (case vr_superseded_at v of None \<Rightarrow> cv_starts_at v | Some t \<Rightarrow> t), vr_reason := reason\<rparr>"

definition edit_row :: "contract_source \<Rightarrow> string \<Rightarrow> string \<Rightarrow> version_row \<Rightarrow> version_row" where
  "edit_row kind source reason v = v\<lparr>cv_source_kind := kind, cv_source_id := source, vr_reason := reason\<rparr>"

text \<open>Amounts of a line that went through their columns; a line copied into another version.\<close>

definition line_held :: "line_row \<Rightarrow> bool" where
  "line_held l \<longleftrightarrow> to_scale 14 4 (ln_quantity l) = Some (ln_quantity l) \<and> to_scale 14 4 (ln_unit_price l) = Some (ln_unit_price l)"

definition same_line :: "line_row \<Rightarrow> line_row \<Rightarrow> bool" where
  "same_line l' l \<longleftrightarrow> l' = l\<lparr>ln_version := ln_version l', lr_id := lr_id l'\<rparr>"

definition recurring_addon :: "line_row \<Rightarrow> bool" where
  "recurring_addon l \<longleftrightarrow> ln_component l = Addon \<and> \<not> ln_is_finite l"

definition lines_of :: "contract_db \<Rightarrow> string \<Rightarrow> line_row list" where
  "lines_of db i = filter (\<lambda>l. ln_version l = i) (cd_lines db)"

definition lines_outside :: "string \<Rightarrow> line_row list \<Rightarrow> line_row list" where
  "lines_outside version ls = filter (\<lambda>l. ln_version l \<noteq> version) ls"

inductive db_change :: "contract_db \<Rightarrow> contract_db \<Rightarrow> bool" where
  Open_contract: "\<forall>x \<in> set (cd_contracts db). ct_subscription x \<noteq> ct_subscription c \<and> ct_id x \<noteq> ct_id c \<Longrightarrow>
    db_change db (db\<lparr>cd_contracts := cd_contracts db @ [c]\<rparr>)"
| Record_terms: "c \<in> set (cd_contracts db) \<Longrightarrow> current_effective (cd_versions db) (ct_id c) = Inr cur \<Longrightarrow>
    (\<And>v. cur = Some v \<Longrightarrow> cv_starts_at v < cv_starts_at r \<and> can_update (cd_versions db) (close_version (cv_starts_at r) v)) \<Longrightarrow>
    can_insert (close_rows (cv_starts_at r) cur (cd_versions db)) r \<Longrightarrow>
    cv_contract r = ct_id c \<Longrightarrow> cv_account r = ct_account c \<Longrightarrow> cv_subscription r = ct_subscription c \<Longrightarrow>
    vr_number r = next_number (cd_versions db) (ct_id c) \<Longrightarrow> vr_status r = Effective_version \<Longrightarrow> vr_superseded_at r = None \<Longrightarrow>
    \<forall>l \<in> set ls. ln_version l = cv_id r \<and> line_held l \<Longrightarrow>
    db_change db (db\<lparr>cd_versions := close_rows (cv_starts_at r) cur (cd_versions db) @ [r], cd_lines := cd_lines db @ ls\<rparr>)"
| Add_draft: "c \<in> set (cd_contracts db) \<Longrightarrow> current_effective (cd_versions db) (ct_id c) = Inr (Some cur) \<Longrightarrow>
    filter (\<lambda>v. cv_contract v = ct_id c \<and> vr_status v = Draft_version) (cd_versions db) = [] \<Longrightarrow>
    r = draft_of i (next_number (cd_versions db) (ct_id c)) (ct_id c) eff kind reason cur \<Longrightarrow> cv_starts_at cur < eff \<Longrightarrow>
    can_insert (cd_versions db) r \<Longrightarrow> \<forall>l \<in> set ls. ln_version l = i \<and> line_held l \<Longrightarrow>
    \<forall>l \<in> set (lines_of db (cv_id cur)). \<exists>l' \<in> set ls. same_line l' l \<Longrightarrow>
    \<forall>l' \<in> set ls. \<exists>l \<in> set (lines_of db (cv_id cur)). same_line l' l \<Longrightarrow>
    db_change db (db\<lparr>cd_versions := cd_versions db @ [r], cd_lines := cd_lines db @ ls\<rparr>)"
| Edit_draft: "d \<in> set (cd_versions db) \<Longrightarrow> vr_status d = Draft_version \<Longrightarrow> can_update (cd_versions db) (edit_row kind source reason d) \<Longrightarrow>
    db_change db (db\<lparr>cd_versions := put_row cv_id (edit_row kind source reason d) (cd_versions db)\<rparr>)"
| Draft_lines: "d \<in> set (cd_versions db) \<Longrightarrow> vr_status d = Draft_version \<Longrightarrow>
    lines_outside (cv_id d) ls = lines_outside (cv_id d) (cd_lines db) \<Longrightarrow> \<forall>l \<in> set ls. l \<in> set (cd_lines db) \<or> line_held l \<and> recurring_addon l \<Longrightarrow>
    \<forall>l \<in> set (lines_of db (cv_id d)). \<not> recurring_addon l \<longrightarrow> l \<in> set ls \<Longrightarrow> db_change db (db\<lparr>cd_lines := ls\<rparr>)"
| Activate_draft: "c \<in> set (cd_contracts db) \<Longrightarrow> current_effective (cd_versions db) (ct_id c) = Inr (Some cur) \<Longrightarrow>
    d \<in> set (cd_versions db) \<Longrightarrow> cv_contract d = ct_id c \<Longrightarrow> vr_status d = Draft_version \<Longrightarrow> vr_supersedes d = Some (cv_id cur) \<Longrightarrow>
    can_update (cd_versions db) (close_version (cv_starts_at d) cur) \<Longrightarrow>
    can_update (close_rows (cv_starts_at d) (Some cur) (cd_versions db)) (d\<lparr>vr_status := Effective_version\<rparr>) \<Longrightarrow>
    db_change db (db\<lparr>cd_versions := put_row cv_id (d\<lparr>vr_status := Effective_version\<rparr>)
      (close_rows (cv_starts_at d) (Some cur) (cd_versions db))\<rparr>)"
| Cancel_terms: "v \<in> set (cd_versions db) \<Longrightarrow> vr_status v \<noteq> Canceled_version \<Longrightarrow> can_update (cd_versions db) (cancel_row reason v) \<Longrightarrow>
    db_change db (db\<lparr>cd_versions := put_row cv_id (cancel_row reason v) (cd_versions db)\<rparr>)"
| Change_timers: "timer_step (cd_timers db) ts \<or> ts = cd_timers db \<Longrightarrow> db_change db (db\<lparr>cd_timers := ts\<rparr>)"

lemma insert_version_Inr:
  "insert_version rows v = Inr rows' \<longleftrightarrow> (\<exists>r. stored_version v = Some r \<and> can_insert rows r \<and> rows' = rows @ [r])"
  by (auto simp: insert_version_def can_insert_def dest: stored_columns split: option.splits)

lemma update_version_Inr: "update_version rows r = Inr rows' \<longleftrightarrow> can_update rows r \<and> rows' = put_row cv_id r rows"
  by (auto simp: update_version_def can_update_def)

lemma close_current_Inr:
  "close_current s cur rows = Inr rows' \<longleftrightarrow>
     (\<forall>v. cur = Some v \<longrightarrow> can_update rows (close_version s v)) \<and> rows' = close_rows s cur rows"
  by (cases cur) (auto simp: close_current_def close_rows_def update_version_Inr)

lemma stored_line_Some:
  "stored_line l = Some r \<longleftrightarrow> (\<exists>quantity price. to_scale 14 4 (ln_quantity l) = Some quantity \<and>
     to_scale 14 4 (ln_unit_price l) = Some price \<and> r = l\<lparr>ln_quantity := quantity, ln_unit_price := price\<rparr>)"
  by (auto simp: stored_line_def split: option.splits)

lemma stored_line_held: "stored_line l = Some r \<Longrightarrow> line_held r \<and> ln_version r = ln_version l"
  using to_scale_stable by (fastforce simp: stored_line_Some line_held_def)

lemma held_line_stored: "line_held l \<Longrightarrow> stored_line l = Some l"
  by (simp add: line_held_def stored_line_def)

lemma insert_line_Inr:
  "insert_line ls l = Inr ls' \<Longrightarrow> \<exists>r. stored_line l = Some r \<and> line_held r \<and> ln_version r = ln_version l \<and> ls' = ls @ [r]"
  by (auto simp: insert_line_def dest: stored_line_held split: option.splits if_splits)

lemma new_version_fields [simp]:
  "cv_id (new_version i c n authority s e previous reason key cmd) = i" "cv_contract (new_version i c n authority s e previous reason key cmd) = c"
  "cv_account (new_version i c n authority s e previous reason key cmd) = vc_account cmd"
  "cv_subscription (new_version i c n authority s e previous reason key cmd) = vc_subscription cmd"
  "cv_starts_at (new_version i c n authority s e previous reason key cmd) = s" "cv_ends_at (new_version i c n authority s e previous reason key cmd) = e"
  "vr_number (new_version i c n authority s e previous reason key cmd) = n"
  "vr_status (new_version i c n authority s e previous reason key cmd) = Effective_version"
  "vr_superseded_at (new_version i c n authority s e previous reason key cmd) = None"
  by (simp_all add: new_version_def)

lemma stored_fields:
  assumes "stored_version v = Some r"
  shows "cv_id r = cv_id v" "cv_contract r = cv_contract v" "cv_account r = cv_account v" "cv_subscription r = cv_subscription v"
    "cv_starts_at r = cv_starts_at v" "cv_ends_at r = cv_ends_at v" "vr_number r = vr_number v" "vr_status r = vr_status v"
    "vr_superseded_at r = vr_superseded_at v" "vr_supersedes r = vr_supersedes v" "vr_key r = vr_key v"
  using assms by (auto simp: stored_version_Some)

lemma current_effectiveD:
  assumes "current_effective rows c = Inr (Some v)"
  shows "v \<in> set rows" "cv_contract v = c" "vr_status v = Effective_version" "cv_ends_at v = None"
  using one_or_none_SomeD [OF assms [unfolded current_effective_def]] by simp_all

subsection \<open>Operations as changes\<close>

lemma add_line_appends:
  "fold_err (add_line fr c i) (db, n) ls = Inr (db', m) \<Longrightarrow>
     \<exists>new. db' = db\<lparr>cd_lines := cd_lines db @ new\<rparr> \<and> (\<forall>l \<in> set new. ln_version l = i \<and> line_held l)"
proof (induction ls arbitrary: db n)
  case (Cons l ls)
  from Cons.prems obtain key lines where
    l: "insert_line (cd_lines db) (new_line (fr_line fr n) i key l) = Inr lines"
    and rest: "fold_err (add_line fr c i) (db\<lparr>cd_lines := lines\<rparr>, Suc n) ls = Inr (db', m)"
    by (auto simp: add_line_def and_then_Inr Let_def)
  from insert_line_Inr [OF l] obtain r where r: "ln_version r = i" "line_held r" "lines = cd_lines db @ [r]" by (auto simp: new_line_def)
  from Cons.IH [OF rest] obtain new where
    "db' = db\<lparr>cd_lines := lines\<rparr>\<lparr>cd_lines := cd_lines (db\<lparr>cd_lines := lines\<rparr>) @ new\<rparr>" "\<forall>l \<in> set new. ln_version l = i \<and> line_held l" by blast
  then show ?case using r by (intro exI [of _ "r # new"]) simp
qed (intro exI [of _ "[]"], simp)

lemma record_new_change:
  assumes "record_new authority fr reason key cmd s e c db = Inr (r, db')" and "c \<in> set (cd_contracts db)"
    and "vc_account cmd = ct_account c" "vc_subscription cmd = ct_subscription c"
  shows "db_change db db'"
proof -
  from assms(1) obtain cur rows rows' n where cur: "current_effective (cd_versions db) (ct_id c) = Inr cur"
    and order: "\<forall>v. cur = Some v \<longrightarrow> cv_starts_at v < s"
    and close: "close_current s cur (cd_versions db) = Inr rows"
    and ins: "insert_version rows (new_version (fr_version fr) (ct_id c) (next_number (cd_versions db) (ct_id c)) authority s e
           (map_option cv_id cur) reason key cmd) = Inr rows'"
    and lines: "fold_err (add_line fr (ct_id c) (fr_version fr)) (db\<lparr>cd_versions := rows'\<rparr>, 0) (vc_lines cmd) = Inr (db', n)"
    by (auto simp: record_new_def and_then_Inr Let_def split: option.splits if_splits)
  obtain v where v: "stored_version (new_version (fr_version fr) (ct_id c) (next_number (cd_versions db) (ct_id c)) authority s e
           (map_option cv_id cur) reason key cmd) = Some v" "can_insert rows v" "rows' = rows @ [v]"
    using ins by (auto simp: insert_version_Inr)
  note f = stored_fields [OF v(1), simplified]
  from add_line_appends [OF lines] obtain new where
    db': "db' = db\<lparr>cd_versions := rows', cd_lines := cd_lines db @ new\<rparr>" and new: "\<forall>l \<in> set new. ln_version l = fr_version fr \<and> line_held l"
    by auto
  have rows: "rows = close_rows s cur (cd_versions db)" using close by (simp add: close_current_Inr)
  have "db_change db (db\<lparr>cd_versions := close_rows (cv_starts_at v) cur (cd_versions db) @ [v], cd_lines := cd_lines db @ new\<rparr>)"
    by (rule Record_terms [OF assms(2) cur]) (use order close v(2) new assms(3,4) rows in \<open>auto simp: f close_current_Inr\<close>)
  then show ?thesis by (subst db') (simp add: v(3) rows f)
qed

lemma ensure_contract_cases:
  assumes "ensure_contract authority now i account subscription rows = Inr (c, cs)"
  obtains (found) "cs = rows" "c \<in> set rows" "ct_subscription c = subscription" "ct_account c = account"
  | (opened) "cs = rows @ [c]" "\<forall>x \<in> set rows. ct_subscription x \<noteq> ct_subscription c \<and> ct_id x \<noteq> ct_id c"
      "ct_subscription c = subscription" "ct_account c = account"
proof -
  from assms obtain f where f: "one_or_none Several_rows (filter (\<lambda>c. ct_subscription c = subscription) rows) = Inr f"
    by (auto simp: ensure_contract_def and_then_Inr)
  show ?thesis
  proof (cases f)
    case None
    then have "\<forall>x \<in> set rows. ct_subscription x \<noteq> subscription" using f by (simp add: one_or_none_None filter_empty_conv)
    then show ?thesis using assms f None by (intro opened) (auto simp: ensure_contract_def Let_def split: if_splits)
  next
    case (Some x)
    then show ?thesis using assms f one_or_none_SomeD [OF f [unfolded Some]]
      by (intro found) (auto simp: ensure_contract_def split: if_splits)
  qed
qed

lemma record_version_change:
  assumes "record_version authority now fr reason key cmd db = Inr (r, db')"
  shows "db_change\<^sup>*\<^sup>* db db'"
proof -
  from assms obtain s e c cs where ensure: "ensure_contract authority now (fr_contract fr) (vc_account cmd) (vc_subscription cmd) (cd_contracts db) = Inr (c, cs)"
    and rest: "db' = db\<lparr>cd_contracts := cs\<rparr> \<or> record_new authority fr reason (str_or key []) cmd s e c (db\<lparr>cd_contracts := cs\<rparr>) = Inr (r, db')"
    by (auto simp: record_version_def and_then_Inr Let_def split: if_splits option.splits)
  have c: "db_change\<^sup>*\<^sup>* db (db\<lparr>cd_contracts := cs\<rparr>) \<and> c \<in> set cs \<and> ct_account c = vc_account cmd \<and> ct_subscription c = vc_subscription cmd"
    using ensure
  proof (cases rule: ensure_contract_cases)
    case found
    then show ?thesis by simp
  next
    case opened
    then show ?thesis using r_into_rtranclp [where r = db_change, OF Open_contract [OF opened(2)]] by simp
  qed
  from rest show ?thesis
  proof
    assume "record_new authority fr reason (str_or key []) cmd s e c (db\<lparr>cd_contracts := cs\<rparr>) = Inr (r, db')"
    from record_new_change [OF this] c show ?thesis by (auto intro: rtranclp.rtrancl_into_rtrancl)
  qed (use c in simp)
qed

lemma record_snapshots_change:
  "record_snapshots authority now zones reason key snapshots db = Inr (rs, db') \<Longrightarrow> db_change\<^sup>*\<^sup>* db db'"
proof (induction authority now zones reason key snapshots db arbitrary: rs rule: record_snapshots.induct)
  case (2 authority now zones reason key fr s rest db)
  from "2.prems" obtain cmd r db1 rs' where s: "sales_funding_command zones s = Inr cmd" "record_version authority now fr reason key cmd db = Inr (r, db1)"
    "record_snapshots authority now zones reason key rest db1 = Inr (rs', db')" by (auto simp: and_then_Inr)
  from record_version_change [OF s(2)] "2.IH" [OF s(1,2) refl s(3)] show ?case by (rule rtranclp_trans)
qed simp

lemma consume_sales_funding_change:
  "consume_sales_funding authority now zones reason key order snapshots db = Inr (r, db') \<Longrightarrow> db_change\<^sup>*\<^sup>* db db'"
  by (auto simp: consume_sales_funding_def and_then_Inr dest!: record_snapshots_change split: if_splits)

lemma cancel_version_change:
  assumes "cancel_version reason i db = Inr (j, db')"
  shows "db_change\<^sup>*\<^sup>* db db'"
proof -
  from assms obtain v where v: "List.find (\<lambda>v. cv_id v = i) (cd_versions db) = Some v"
    by (auto simp: cancel_version_def split: option.splits)
  show ?thesis
  proof (cases "vr_status v = Canceled_version")
    case False
    from assms have "can_update (cd_versions db) (cancel_row reason v)"
      and db': "db' = db\<lparr>cd_versions := put_row cv_id (cancel_row reason v) (cd_versions db)\<rparr>"
      unfolding cancel_version_def v option.case if_not_P [OF False] cancel_row_def [symmetric] and_then_Inr update_version_Inr by auto
    then show ?thesis unfolding db' using Cancel_terms [OF _ False] find_member [OF v] by blast
  qed (use assms v in \<open>simp add: cancel_version_def\<close>)
qed

lemma copy_line_appends:
  "fold_err (copy_line fr i) (rows, n) ls = Inr (rows', m) \<Longrightarrow> \<forall>l \<in> set ls. line_held l \<Longrightarrow>
     \<exists>new. rows' = rows @ new \<and> (\<forall>l \<in> set new. ln_version l = i \<and> line_held l) \<and> (\<forall>l \<in> set ls. \<exists>l' \<in> set new. same_line l' l) \<and>
       (\<forall>l' \<in> set new. \<exists>l \<in> set ls. same_line l' l)"
proof (induction ls arbitrary: rows n)
  case (Cons l ls)
  from Cons.prems(1) obtain rows1 where l: "insert_line rows (l\<lparr>ln_version := i, lr_id := fr_line fr n\<rparr>) = Inr rows1"
    and rest: "fold_err (copy_line fr i) (rows1, Suc n) ls = Inr (rows', m)" by (auto simp: copy_line_def and_then_Inr)
  from insert_line_Inr [OF l] obtain r where r: "stored_line (l\<lparr>ln_version := i, lr_id := fr_line fr n\<rparr>) = Some r" "line_held r"
    "ln_version r = i" "rows1 = rows @ [r]" by auto
  have "stored_line (l\<lparr>ln_version := i, lr_id := fr_line fr n\<rparr>) = Some (l\<lparr>ln_version := i, lr_id := fr_line fr n\<rparr>)"
    using Cons.prems(2) by (simp add: held_line_stored line_held_def)
  then have "same_line r l" using r(1) by (simp add: same_line_def)
  moreover from Cons.IH [OF rest] Cons.prems(2) obtain new where "rows' = rows1 @ new" "\<forall>l \<in> set new. ln_version l = i \<and> line_held l"
    "\<forall>l \<in> set ls. \<exists>l' \<in> set new. same_line l' l" "\<forall>l' \<in> set new. \<exists>l \<in> set ls. same_line l' l" by auto
  ultimately show ?case using r(2-4) by (intro exI [of _ "r # new"]) auto
qed simp

lemma draft_of_fields [simp]:
  "cv_id (draft_of i n c eff kind reason v) = i" "cv_contract (draft_of i n c eff kind reason v) = c"
  "cv_account (draft_of i n c eff kind reason v) = cv_account v" "cv_subscription (draft_of i n c eff kind reason v) = cv_subscription v"
  "cv_starts_at (draft_of i n c eff kind reason v) = eff" "cv_ends_at (draft_of i n c eff kind reason v) = None"
  "vr_number (draft_of i n c eff kind reason v) = n" "vr_status (draft_of i n c eff kind reason v) = Draft_version"
  "vr_supersedes (draft_of i n c eff kind reason v) = Some (cv_id v)" "vr_superseded_at (draft_of i n c eff kind reason v) = None"
  "columns_held (draft_of i n c eff kind reason v) = columns_held v" "cv_cadence (draft_of i n c eff kind reason v) = cv_cadence v"
  by (simp_all add: draft_of_def columns_held_def)

lemma pending_draft_change:
  assumes "pending_draft fr c cur eff kind reason db = Inr (d, db', n)" and "c \<in> set (cd_contracts db)"
    and "current_effective (cd_versions db) (ct_id c) = Inr (Some cur)" and "columns_held cur" and "\<forall>l \<in> set (cd_lines db). line_held l"
  shows "db_change\<^sup>*\<^sup>* db db'" "d \<in> set (cd_versions db')" "vr_status d = Draft_version" "cv_contract d = ct_id c"
    "cv_starts_at d = eff" "vr_supersedes d = Some (cv_id cur)" "cd_timers db' = cd_timers db" "cd_contracts db' = cd_contracts db"
    "filter version_in_force (cd_versions db') = filter version_in_force (cd_versions db)"
proof -
  let ?drafts = "filter (\<lambda>v. cv_contract v = ct_id c \<and> vr_status v = Draft_version) (cd_versions db)"
  consider (new) "?drafts = []" | (old) x where "?drafts = [x]"
    using assms(1) by (cases ?drafts; cases "tl ?drafts") (auto simp: pending_draft_def)
  then have "db_change\<^sup>*\<^sup>* db db' \<and> d \<in> set (cd_versions db') \<and> vr_status d = Draft_version \<and> cv_contract d = ct_id c \<and>
    cv_starts_at d = eff \<and> vr_supersedes d = Some (cv_id cur) \<and> cd_timers db' = cd_timers db \<and> cd_contracts db' = cd_contracts db \<and>
    filter version_in_force (cd_versions db') = filter version_in_force (cd_versions db)"
  proof cases
    case new
    let ?d = "draft_of (fr_version fr) (next_number (cd_versions db) (ct_id c)) (ct_id c) eff kind reason cur"
    from assms(1) new obtain rows ls where late: "cv_starts_at cur < eff" and ins: "insert_version (cd_versions db) ?d = Inr rows"
      and lines: "fold_err (copy_line fr (fr_version fr)) (cd_lines db, 0) (filter (\<lambda>l. ln_version l = cv_id cur) (cd_lines db)) = Inr (ls, n)"
      and d: "d = ?d" "db' = db\<lparr>cd_versions := rows, cd_lines := ls\<rparr>"
      by (auto simp: pending_draft_def create_pending_version_def Let_def and_then_Inr split: if_splits)
    have "stored_version ?d = Some ?d" using assms(4) by (simp add: stored_held_version)
    with ins have rows: "rows = cd_versions db @ [?d]" "can_insert (cd_versions db) ?d" by (auto simp: insert_version_Inr)
    from copy_line_appends [OF lines] assms(5) obtain more where ls: "ls = cd_lines db @ more"
      "\<forall>l \<in> set more. ln_version l = fr_version fr \<and> line_held l" "\<forall>l \<in> set (lines_of db (cv_id cur)). \<exists>l' \<in> set more. same_line l' l"
      "\<forall>l' \<in> set more. \<exists>l \<in> set (lines_of db (cv_id cur)). same_line l' l"
      by (auto simp: lines_of_def)
    have "db_change db db'"
      unfolding d(2) rows(1) ls(1) by (rule Add_draft [OF assms(2,3) new refl late rows(2) ls(2-4)])
    then show ?thesis using d rows by (auto simp: version_in_force_def)
  next
    case old
    then have "x \<in> set (cd_versions db)" "cv_contract x = ct_id c" "vr_status x = Draft_version"
      using filter_set [of "\<lambda>v. cv_contract v = ct_id c \<and> vr_status v = Draft_version" "cd_versions db"] by auto
    then show ?thesis using assms(1) by (auto simp: pending_draft_def old split: if_splits)
  qed
  then show "db_change\<^sup>*\<^sup>* db db'" "d \<in> set (cd_versions db')" "vr_status d = Draft_version" "cv_contract d = ct_id c"
    "cv_starts_at d = eff" "vr_supersedes d = Some (cv_id cur)" "cd_timers db' = cd_timers db" "cd_contracts db' = cd_contracts db"
    "filter version_in_force (cd_versions db') = filter version_in_force (cd_versions db)" by blast+
qed

lemma stage_pending_change:
  assumes "stage_pending i c d eff db = Inr (p, db')"
  shows "db_change db db'"
proof -
  from assms obtain active cmd t ts where s: "schedule_timer active i cmd (cd_timers db) = Inr (t, ts)" "db' = db\<lparr>cd_timers := ts\<rparr>"
    by (auto simp: stage_pending_def split: sum.splits)
  show ?thesis unfolding s(2) using Change_timers Schedule_timer [OF s(1)] by blast
qed

lemma lines_outside_append: "\<forall>l \<in> set new. ln_version l = i \<Longrightarrow> lines_outside i (ls @ new) = lines_outside i ls"
  by (simp add: lines_outside_def)

lemma stored_addon_line:
  "stored_line (addon_line fr n db c draft cur addon description quantity price currency) = Some r \<Longrightarrow>
     ln_version r = draft \<and> line_held r \<and> recurring_addon r"
  by (rule conjI, use stored_line_held in \<open>force simp: addon_line_def\<close>, rule conjI, use stored_line_held in \<open>blast\<close>)
    (auto simp: stored_line_Some recurring_addon_def addon_line_def)

lemma add_purchased_cases:
  assumes "add_purchased fr c cur currency term eff db = Inr (p, db')" and "c \<in> set (cd_contracts db)"
    and "current_effective (cd_versions db) (ct_id c) = Inr (Some cur)" and "columns_held cur" and "\<forall>l \<in> set (cd_lines db). line_held l"
  obtains d db1 n ls q where
    "pending_draft fr c cur eff Plan_change ''Pending recurring add-on terms'' db = Inr (d, db1, n)"
    "d \<in> set (cd_versions db1)" "vr_status d = Draft_version" "cv_contract d = ct_id c" "cv_starts_at d = eff"
    "can_update (cd_versions db1) (edit_row Plan_change (ct_subscription c) ''Pending live recurring add-on terms'' d)"
    "(\<exists>l. addon_lines db1 (cv_id d) (ap_addon term) = [l] \<and> same_terms term currency (treatment_of cur) l) \<and> ls = [] \<or>
      (\<exists>l. ls = [l] \<and> stored_line (addon_line fr n (db1\<lparr>cd_versions := put_row cv_id (edit_row Plan_change (ct_subscription c)
          ''Pending live recurring add-on terms'' d) (cd_versions db1)\<rparr>) (ct_id c) (cv_id d) cur (ap_addon term)
        (ap_description term) (ap_quantity term) (ap_price term) currency) = Some l)"
    "\<forall>l \<in> set ls. ln_version l = cv_id d \<and> line_held l \<and> recurring_addon l"
    "stage_pending (fr_timer fr) c d eff (db1\<lparr>cd_versions := put_row cv_id (edit_row Plan_change (ct_subscription c)
       ''Pending live recurring add-on terms'' d) (cd_versions db1), cd_lines := cd_lines db1 @ ls\<rparr>) = Inr (q, db')"
    "p = Some q"
proof -
  from assms(1) obtain d db1 n where d: "pending_draft fr c cur eff Plan_change ''Pending recurring add-on terms'' db = Inr (d, db1, n)"
    by (auto simp: add_purchased_def and_then_Inr)
  let ?db2 = "db1\<lparr>cd_versions := put_row cv_id (edit_row Plan_change (ct_subscription c)
     ''Pending live recurring add-on terms'' d) (cd_versions db1)\<rparr>"
  from assms(1) d obtain ex lines q where
    up: "can_update (cd_versions db1) (edit_row Plan_change (ct_subscription c) ''Pending live recurring add-on terms'' d)"
    and ex: "one_or_none Several_rows (addon_lines ?db2 (cv_id d) (ap_addon term)) = Inr ex"
    and lines: "(case ex of
         Some l \<Rightarrow> if same_terms term currency (treatment_of cur) l then Inr (cd_lines ?db2)
           else Inl (Duplicate_addon_terms (ap_addon term))
       | None \<Rightarrow> insert_line (cd_lines ?db2) (addon_line fr n ?db2 (ct_id c) (cv_id d) cur (ap_addon term)
           (ap_description term) (ap_quantity term) (ap_price term) currency)) = Inr lines"
    and q: "stage_pending (fr_timer fr) c d eff (?db2\<lparr>cd_lines := lines\<rparr>) = Inr (q, db')" "p = Some q"
    unfolding add_purchased_def d and_then_simps prod.case edit_row_def [symmetric] and_then_Inr update_version_Inr Let_def by auto
  note f = pending_draft_change [OF d assms(2-5)]
  have "\<exists>ls. lines = cd_lines db1 @ ls \<and> (\<forall>l \<in> set ls. ln_version l = cv_id d \<and> line_held l \<and> recurring_addon l) \<and>
      ((\<exists>l. addon_lines db1 (cv_id d) (ap_addon term) = [l] \<and> same_terms term currency (treatment_of cur) l) \<and> ls = [] \<or>
      (\<exists>l. ls = [l] \<and> stored_line (addon_line fr n ?db2 (ct_id c) (cv_id d) cur (ap_addon term)
        (ap_description term) (ap_quantity term) (ap_price term) currency) = Some l))"
  proof (cases ex)
    case None
    then obtain l where "stored_line (addon_line fr n ?db2 (ct_id c) (cv_id d) cur (ap_addon term)
        (ap_description term) (ap_quantity term) (ap_price term) currency) = Some l" "lines = cd_lines db1 @ [l]"
      using lines by (auto simp: insert_line_def split: option.splits if_splits)
    then show ?thesis using stored_addon_line by fastforce
  next
    case (Some l)
    then show ?thesis using ex lines by (auto simp: one_or_none_Some addon_lines_def split: if_splits)
  qed
  then show ?thesis using that [OF d f(2-5) up _ _ _ q(2)] q(1) by fastforce
qed

lemma add_purchased_change:
  assumes "add_purchased fr c cur currency term eff db = Inr (p, db')" and "c \<in> set (cd_contracts db)"
    and "current_effective (cd_versions db) (ct_id c) = Inr (Some cur)" and "columns_held cur" and "\<forall>l \<in> set (cd_lines db). line_held l"
  shows "db_change\<^sup>*\<^sup>* db db'"
  using assms
proof (cases rule: add_purchased_cases)
  case (1 d db1 n ls q)
  define d' where "d' = edit_row Plan_change (ct_subscription c) ''Pending live recurring add-on terms'' d"
  have d': "cv_id d' = cv_id d" "vr_status d' = Draft_version" using 1(3) by (simp_all add: d'_def edit_row_def)
  let ?db2 = "db1\<lparr>cd_versions := put_row cv_id d' (cd_versions db1)\<rparr>"
  have in2: "d' \<in> set (cd_versions ?db2)" using put_row_new [OF 1(2), of cv_id d'] d'(1) by simp
  have "db_change\<^sup>*\<^sup>* db db1" by (rule pending_draft_change(1) [OF 1(1) assms(2-5)])
  moreover have "db_change db1 ?db2" unfolding d'_def by (rule Edit_draft [OF 1(2,3,6)])
  moreover have "db_change ?db2 (?db2\<lparr>cd_lines := cd_lines db1 @ ls\<rparr>)"
    by (rule Draft_lines [OF in2 d'(2)]) (use 1(8) in \<open>auto simp: lines_outside_append d'(1) lines_of_def\<close>)
  moreover have "db_change (?db2\<lparr>cd_lines := cd_lines db1 @ ls\<rparr>) db'"
    using stage_pending_change [OF 1(9)] by (simp add: d'_def)
  ultimately show ?thesis by (meson rtranclp.rtrancl_into_rtrancl)
qed

lemma consume_addon_purchase_cases:
  assumes "consume_addon_purchase zones sys fr term db = Inr (p, db')"
  obtains (satisfied) "p = None" "db' = db"
  | (pending) c cur cad k v t where "c \<in> set (cd_contracts db)" "ct_subscription c = ap_subscription term"
      "ct_account c = ap_account term" "current_effective (cd_versions db) (ct_id c) = Inr (Some cur)"
      "make_cadence zones (cv_cadence cur) = Inr cad" "ap_purchased_at term = Instant t"
      "period_containing zones sys cad (Instant (cv_starts_at cur)) (Instant t) 4096 = Inr (k, v)"
      "0 < ap_quantity term" "0 \<le> ap_price term" "py_upper (py_strip (ap_currency term)) = vr_currency cur"
      "addon_lines db (cv_id cur) (ap_addon term) = []"
      "add_purchased fr c cur (vr_currency cur) term (ends_at v) db = Inr (p, db')"
proof -
  from assms obtain t where t: "ap_purchased_at term = Instant t" "0 < ap_quantity term" "0 \<le> ap_price term"
    by (cases "ap_purchased_at term") (auto simp: consume_addon_purchase_def split: if_splits)
  with assms obtain c where c: "one_or_none Several_rows
      (filter (\<lambda>c. ct_subscription c = ap_subscription term \<and> ct_account c = ap_account term) (cd_contracts db)) = Inr (Some c)"
    by (auto simp: consume_addon_purchase_def and_then_Inr split: option.splits)
  with assms t obtain cur where cur: "current_effective (cd_versions db) (ct_id c) = Inr (Some cur)"
    by (auto simp: consume_addon_purchase_def and_then_Inr split: option.splits)
  with assms t c obtain cad ex where cad: "make_cadence zones (cv_cadence cur) = Inr cad"
    and currency: "py_upper (py_strip (ap_currency term)) = vr_currency cur"
    and ex: "one_or_none Several_rows (addon_lines db (cv_id cur) (ap_addon term)) = Inr ex"
    and rest: "(case ex of
                Some l \<Rightarrow> if same_terms term (vr_currency cur) (treatment_of cur) l \<and> \<not> ln_is_finite l then Inr (None, db)
                  else Inl (Duplicate_addon_terms (ap_addon term))
              | None \<Rightarrow>
                  and_then (purchase_boundary zones sys cad cur (Instant t)) (\<lambda>eff.
                    add_purchased fr c cur (vr_currency cur) term eff db)) = Inr (p, db')"
    by (auto simp: consume_addon_purchase_def and_then_Inr Let_def cadence_result_def split: if_splits sum.splits)
  show ?thesis
  proof (cases ex)
    case None
    with rest t obtain k v where "period_containing zones sys cad (Instant (cv_starts_at cur)) (Instant t) 4096 = Inr (k, v)"
      "add_purchased fr c cur (vr_currency cur) term (ends_at v) db = Inr (p, db')"
      by (auto simp: and_then_Inr purchase_boundary_def split: sum.splits if_splits)
    then show ?thesis
      using pending one_or_none_SomeD [OF c] cur cad t currency ex None by (auto simp: one_or_none_None)
  next
    case (Some l)
    then show ?thesis using rest satisfied by (auto split: if_splits)
  qed
qed

lemma add_term_appends:
  "fold_err (add_term fr c i cur) (db, n) ts = Inr (db', m) \<Longrightarrow>
     \<exists>new. db' = db\<lparr>cd_lines := cd_lines db @ new\<rparr> \<and> (\<forall>l \<in> set new. ln_version l = i \<and> line_held l \<and> recurring_addon l)"
proof (induction ts arbitrary: db n)
  case (Cons t ts)
  from Cons.prems obtain lines where
    l: "insert_line (cd_lines db) (addon_line fr n db c i cur (at_addon t) (at_description t) (at_quantity t) (at_price t) (at_currency t)) = Inr lines"
    and rest: "fold_err (add_term fr c i cur) (db\<lparr>cd_lines := lines\<rparr>, Suc n) ts = Inr (db', m)"
    by (auto simp: add_term_def and_then_Inr)
  from insert_line_Inr [OF l] obtain r where r: "ln_version r = i" "line_held r" "recurring_addon r" "lines = cd_lines db @ [r]"
    using stored_addon_line by metis
  from Cons.IH [OF rest] obtain new where
    "db' = db\<lparr>cd_lines := lines\<rparr>\<lparr>cd_lines := cd_lines (db\<lparr>cd_lines := lines\<rparr>) @ new\<rparr>" "\<forall>l \<in> set new. ln_version l = i \<and> line_held l \<and> recurring_addon l" by blast
  then show ?case using r by (intro exI [of _ "r # new"]) simp
qed (intro exI [of _ "[]"], simp)

lemma replace_addons_change:
  assumes "replace_addons fr c cur eff terms db = Inr (p, db')" and "c \<in> set (cd_contracts db)"
    and "current_effective (cd_versions db) (ct_id c) = Inr (Some cur)" and "columns_held cur" and "\<forall>l \<in> set (cd_lines db). line_held l"
  shows "db_change\<^sup>*\<^sup>* db db'"
proof -
  from assms(1) obtain d db1 n db2 m where
    d: "pending_draft fr c cur eff Migration_backfill ''Pending recurring add-on migration snapshot'' db = Inr (d, db1, n)"
    and ts: "fold_err (add_term fr (ct_id c) (cv_id d) cur)
       (db1\<lparr>cd_lines := filter (\<lambda>l. \<not> (ln_version l = cv_id d \<and> ln_component l = Addon \<and> \<not> ln_is_finite l)) (cd_lines db1)\<rparr>, n) terms =
         Inr (db2, m)"
    and st: "stage_pending (fr_timer fr) c d eff db2 = Inr (p, db')"
    by (auto simp: replace_addons_def and_then_Inr)
  note f = pending_draft_change [OF d assms(2-5)]
  from add_term_appends [OF ts] obtain new where new: "\<forall>l \<in> set new. ln_version l = cv_id d \<and> line_held l \<and> recurring_addon l"
    and db2: "db2 = db1\<lparr>cd_lines := filter (\<lambda>l. \<not> (ln_version l = cv_id d \<and> ln_component l = Addon \<and> \<not> ln_is_finite l)) (cd_lines db1) @ new\<rparr>"
    by auto
  have "db_change db1 db2"
    unfolding db2
  proof (rule Draft_lines [OF f(2,3)])
    have "lines_outside (cv_id d) new = []" using new by (simp add: lines_outside_def filter_empty_conv)
    then show "lines_outside (cv_id d) (filter (\<lambda>l. \<not> (ln_version l = cv_id d \<and> ln_component l = Addon \<and> \<not> ln_is_finite l)) (cd_lines db1) @ new) =
        lines_outside (cv_id d) (cd_lines db1)"
      by (auto simp: lines_outside_def intro: filter_cong)
  qed (use new in \<open>auto simp: lines_of_def recurring_addon_def\<close>)
  then show ?thesis using f(1) stage_pending_change [OF st] by (meson rtranclp.rtrancl_into_rtrancl)
qed

lemma consume_addon_backfill_cases:
  assumes "consume_addon_backfill zones sales fr order account subscription i current_id target terms db = Inr (p, db')"
  obtains c cur where "c \<in> set (cd_contracts db)" "current_effective (cd_versions db) (ct_id c) = Inr (Some cur)"
    "replace_addons fr c cur (starts_at target) terms db = Inr (p, db')"
proof -
  from assms obtain c where c: "one_or_none Several_rows (filter (\<lambda>c. ct_id c = i \<and> ct_subscription c = subscription) (cd_contracts db)) = Inr (Some c)"
    by (auto simp: consume_addon_backfill_def and_then_Inr split: option.splits)
  with assms obtain cur where "current_effective (cd_versions db) (ct_id c) = Inr (Some cur)"
    "replace_addons fr c cur (starts_at target) terms db = Inr (p, db')"
    by (auto simp: consume_addon_backfill_def and_then_Inr split: option.splits if_splits)
  then show ?thesis using that one_or_none_SomeD [OF c] by blast
qed

lemma consume_pending_due_cases:
  assumes "consume_pending_due sales act db = Inr (r, db')"
  obtains t c d cur rows where "t \<in> set (cd_timers db)" "tm_id t = ac_timer act" "timer_matches act t" "c \<in> set (cd_contracts db)"
    "ct_id c = ac_contract act" "d \<in> set (cd_versions db)" "cv_contract d = ct_id c" "vr_number d = ac_expected_version act"
    "vr_status d = Draft_version" "current_effective (cd_versions db) (ct_id c) = Inr (Some cur)"
    "vr_supersedes d = Some (cv_id cur)" "tm_due_at t = cv_starts_at d"
    "can_update (cd_versions db) (close_version (cv_starts_at d) cur)"
    "can_update (close_rows (cv_starts_at d) (Some cur) (cd_versions db)) (d\<lparr>vr_status := Effective_version\<rparr>)"
    "rows = put_row cv_id (d\<lparr>vr_status := Effective_version\<rparr>) (close_rows (cv_starts_at d) (Some cur) (cd_versions db))"
    "db' = db\<lparr>cd_versions := rows\<rparr>" "activate sales c cur d db = Inr (r, db')"
proof -
  from assms obtain t where t: "List.find (\<lambda>r. tm_id r = ac_timer act) (cd_timers db) = Some t" "timer_matches act t"
    by (auto simp: consume_pending_due_def split: option.splits if_splits)
  with assms obtain c where c: "List.find (\<lambda>c. ct_id c = ac_contract act) (cd_contracts db) = Some c"
    by (auto simp: consume_pending_due_def split: option.splits)
  with assms t obtain d where d: "one_or_none Several_rows
      (filter (\<lambda>v. cv_contract v = ct_id c \<and> vr_number v = ac_expected_version act) (cd_versions db)) = Inr (Some d)" "vr_status d = Draft_version"
    by (auto simp: consume_pending_due_def and_then_Inr split: option.splits if_splits)
  with assms t c obtain cur where cur: "current_effective (cd_versions db) (ct_id c) = Inr (Some cur)" "vr_supersedes d = Some (cv_id cur)"
    "tm_due_at t = cv_starts_at d" "activate sales c cur d db = Inr (r, db')"
    by (auto simp: consume_pending_due_def and_then_Inr split: option.splits if_splits)
  from cur(4) have rows: "can_update (cd_versions db) (close_version (cv_starts_at d) cur)"
    "can_update (close_rows (cv_starts_at d) (Some cur) (cd_versions db)) (d\<lparr>vr_status := Effective_version\<rparr>)"
    "db' = db\<lparr>cd_versions := put_row cv_id (d\<lparr>vr_status := Effective_version\<rparr>) (close_rows (cv_starts_at d) (Some cur) (cd_versions db))\<rparr>"
    by (auto simp: activate_def and_then_Inr update_version_Inr close_rows_def Let_def)
  show ?thesis
    using that [OF _ _ t(2) _ _ _ _ _ d(2) cur(1-3) rows(1,2) refl rows(3) cur(4)]
      find_member [OF t(1)] find_member [OF c] one_or_none_SomeD [OF d(1)] by blast
qed

lemma contract_step_changes:
  assumes "contract_step zones sys sales db db'" and "\<forall>v \<in> set (cd_versions db). columns_held v" and "\<forall>l \<in> set (cd_lines db). line_held l"
  shows "db_change\<^sup>*\<^sup>* db db'"
  using assms(1)
proof cases
  case (Purchase_step fr trm p)
  then show ?thesis
  proof (cases rule: consume_addon_purchase_cases)
    case (pending c cur cad k v t)
    with assms(2,3) current_effectiveD(1) add_purchased_change show ?thesis by blast
  qed simp
next
  case (Backfill_step fr order account subscription i current_id target terms p)
  then show ?thesis
    by (cases rule: consume_addon_backfill_cases) (use assms(2,3) current_effectiveD(1) replace_addons_change in \<open>blast\<close>)
next
  case (Due_step act r)
  then show ?thesis
  proof (cases rule: consume_pending_due_cases)
    case (1 t c d cur rows)
    from Activate_draft [OF 1(4,10,6,7,9,11,13,14)] show ?thesis unfolding 1(15,16) by blast
  qed
next
  case (Timers_step ts)
  then show ?thesis using Change_timers by blast
qed (blast dest: record_version_change cancel_version_change consume_sales_funding_change)+

end
