(* ===== verification/Contract_History.thy ===== *)
theory Contract_History
  imports Contract_Changes
begin

section \<open>Histories of the contract tables\<close>

text \<open>
  What every change of the contract tables keeps: versions numbered without gap, at most one draft and no two
  effective versions that meet, rows consistent with their status, their contract and their lines; and what
  a version keeps for good.
\<close>

subsection \<open>The invariant\<close>

interpretation contract_versions: numbered_rows cv_contract vr_number latest_version
proof
  show "latest_version rows c = None \<longleftrightarrow> (\<forall>v \<in> set rows. cv_contract v \<noteq> c)" for rows c
    by (simp add: latest_version_def greatest_None filter_empty_conv)
  show "latest_version rows c = Some v \<Longrightarrow> v \<in> set rows \<and> cv_contract v = c" for rows c v
    by (auto simp: latest_version_def dest: greatest_Some(1))
  show "latest_version rows c = Some v \<Longrightarrow> x \<in> set rows \<Longrightarrow> cv_contract x = c \<Longrightarrow> vr_number x \<le> vr_number v" for rows c v x
    by (auto simp: latest_version_def dest: greatest_Some(2))
qed

text \<open>A draft is open, a superseded version is closed at the instant of its supersession.\<close>

definition status_in_step :: "version_row \<Rightarrow> bool" where
  "status_in_step v \<longleftrightarrow>
     (case vr_status v of
        Draft_version \<Rightarrow> cv_ends_at v = None \<and> vr_superseded_at v = None
      | Effective_version \<Rightarrow> vr_superseded_at v = None
      | Superseded_version \<Rightarrow> cv_ends_at v \<noteq> None \<and> vr_superseded_at v = cv_ends_at v
      | Canceled_version \<Rightarrow> vr_superseded_at v \<noteq> None)"

definition clash :: "version_row \<Rightarrow> version_row \<Rightarrow> bool" where
  "clash v w \<longleftrightarrow> cv_contract v = cv_contract w \<and>
     (vr_status v = Draft_version \<and> vr_status w = Draft_version \<or>
      vr_status v = Effective_version \<and> vr_status w = Effective_version \<and> versions_overlap v w)"

definition row_good :: "version_row \<Rightarrow> bool" where
  "row_good v \<longleftrightarrow> columns_held v \<and> version_allowed v \<and> status_in_step v"

definition version_rows_ok :: "version_row list \<Rightarrow> bool" where
  "version_rows_ok rows \<longleftrightarrow> distinct (map cv_id rows) \<and> gapless cv_contract vr_number rows \<and> (\<forall>v \<in> set rows. row_good v) \<and>
     (\<forall>v \<in> set rows. \<forall>w \<in> set rows. clash v w \<longrightarrow> v = w)"

lemma clash_sym: "clash v w \<longleftrightarrow> clash w v"
  by (auto simp: clash_def versions_overlap_def)

lemma rows_okD:
  assumes "version_rows_ok rows"
  shows "distinct (map cv_id rows)" "gapless cv_contract vr_number rows" "v \<in> set rows \<Longrightarrow> row_good v"
    "v \<in> set rows \<Longrightarrow> w \<in> set rows \<Longrightarrow> clash v w \<Longrightarrow> v = w"
    "v \<in> set rows \<Longrightarrow> w \<in> set rows \<Longrightarrow> cv_id v = cv_id w \<Longrightarrow> v = w"
  using assms by (auto simp: version_rows_ok_def distinct_map inj_on_def)

text \<open>A row written back in its place.\<close>

definition same_place :: "version_row \<Rightarrow> version_row \<Rightarrow> bool" where
  "same_place r v \<longleftrightarrow> cv_id r = cv_id v \<and> cv_contract r = cv_contract v \<and> vr_number r = vr_number v \<and>
     cv_account r = cv_account v \<and> cv_subscription r = cv_subscription v \<and> cv_starts_at r = cv_starts_at v \<and>
     cv_cadence r = cv_cadence v \<and> vr_price r = vr_price v \<and> vr_discount r = vr_discount v"

lemma next_number_count:
  "gapless cv_contract vr_number rows \<Longrightarrow> next_number rows c = 1 + int (length (filter (\<lambda>v. cv_contract v = c) rows))"
  unfolding next_number_def by (rule contract_versions.next_number)

lemma put_rows_ok:
  assumes "version_rows_ok rows" and "v \<in> set rows" and "same_place r v" and "status_in_step r" and "can_update rows r"
    and "vr_status r = Draft_version \<Longrightarrow> vr_status v = Draft_version"
  shows "version_rows_ok (put_row cv_id r rows)" "\<And>c. next_number (put_row cv_id r rows) c = next_number rows c"
proof -
  note ok = rows_okD [OF assms(1)]
  note same = assms(3) [unfolded same_place_def]
  have "map (\<lambda>x. (cv_contract x, vr_number x)) (put_row cv_id r rows) = map (\<lambda>x. (cv_contract x, vr_number x)) rows"
    by (rule put_row_map [OF ok(1) assms(2)]) (use same in simp_all)
  then have g: "gapless cv_contract vr_number (put_row cv_id r rows)" using ok(2) gapless_cong by blast
  have good: "row_good r"
    using ok(3) [OF assms(2)] assms(4,5) same by (auto simp: row_good_def columns_held_def can_update_def)
  have other: "x = y" if "x \<in> set rows" "y \<in> set rows" "clash x y" for x y using ok(4) that .
  have new: "\<not> clash r x" if "x \<in> set rows" "cv_id x \<noteq> cv_id r" for x
    using that assms(2,5,6) same ok(4) [OF assms(2) that(1)] unfolding clash_def can_update_def version_collides_def versions_overlap_def by auto
  have "x = y" if "x \<in> set (put_row cv_id r rows)" "y \<in> set (put_row cv_id r rows)" "clash x y" for x y
    using put_row_set [OF that(1)] put_row_set [OF that(2)] new other that(3) clash_sym by blast
  moreover have "row_good x" if "x \<in> set (put_row cv_id r rows)" for x
    using put_row_set [OF that] good ok(3) by auto
  ultimately show "version_rows_ok (put_row cv_id r rows)" using ok(1) g by (simp add: version_rows_ok_def)
  have m: "map cv_contract (put_row cv_id r rows) = map cv_contract rows"
    by (rule put_row_map [OF ok(1) assms(2)]) (use same in simp_all)
  have count: "length (filter (\<lambda>x. cv_contract x = c) xs) = length (filter (\<lambda>y. y = c) (map cv_contract xs))" for c xs
    by (simp add: filter_map comp_def)
  have "length (filter (\<lambda>x. cv_contract x = c) (put_row cv_id r rows)) = length (filter (\<lambda>x. cv_contract x = c) rows)" for c
    by (simp only: count m)
  then show "next_number (put_row cv_id r rows) c = next_number rows c" for c
    using next_number_count [OF g] next_number_count [OF ok(2)] by simp
qed

lemma append_version_rows_ok:
  assumes "version_rows_ok rows" and "can_insert rows r" and "status_in_step r" and "vr_number r = next_number rows (cv_contract r)"
    and "vr_status r = Draft_version \<Longrightarrow> \<forall>v \<in> set rows. cv_contract v = cv_contract r \<longrightarrow> vr_status v \<noteq> Draft_version"
  shows "version_rows_ok (rows @ [r])"
proof -
  note ok = rows_okD [OF assms(1)]
  have "gapless cv_contract vr_number (rows @ [r])"
    using contract_versions.append_numbered(1) [OF ok(2)] assms(4) unfolding next_number_def by blast
  moreover have new: "\<not> clash r x" if "x \<in> set rows" for x
    using that assms(2,5) unfolding clash_def can_insert_def version_collides_def versions_overlap_def by auto
  have "x = y" if xy: "x \<in> set (rows @ [r])" "y \<in> set (rows @ [r])" "clash x y" for x y
  proof -
    consider "x \<in> set rows" "y \<in> set rows" | "x = r" "y = r" | "x = r" "y \<in> set rows" | "y = r" "x \<in> set rows"
      using xy(1,2) by auto
    then show ?thesis
      by cases (use xy(3) ok(4) new clash_sym in \<open>blast+\<close>)
  qed
  moreover have "row_good r" using assms(2,3) by (simp add: can_insert_def row_good_def)
  ultimately show ?thesis using ok(1,3) assms(2) by (auto simp: version_rows_ok_def can_insert_def)
qed

lemma close_rows_ok:
  assumes "version_rows_ok rows" and "current_effective rows c = Inr cur"
    and "\<And>v. cur = Some v \<Longrightarrow> can_update rows (close_version s v)"
  shows "version_rows_ok (close_rows s cur rows)" "next_number (close_rows s cur rows) c' = next_number rows c'"
proof -
  have "version_rows_ok (close_rows s cur rows) \<and> next_number (close_rows s cur rows) c' = next_number rows c'"
  proof (cases cur)
    case None
    then show ?thesis using assms(1) by (simp add: close_rows_def)
  next
    case (Some v)
    note cur = current_effectiveD [OF assms(2) [unfolded Some]]
    have "same_place (close_version s v) v" "status_in_step (close_version s v)" "vr_status (close_version s v) \<noteq> Draft_version"
      by (simp_all add: same_place_def close_version_def status_in_step_def)
    then show ?thesis
      using put_rows_ok [OF assms(1) cur(1) _ _ assms(3) [OF Some]] by (simp add: close_rows_def Some)
  qed
  then show "version_rows_ok (close_rows s cur rows)" "next_number (close_rows s cur rows) c' = next_number rows c'" by blast+
qed

subsection \<open>The invariant of the tables\<close>

definition at_home :: "contract_db \<Rightarrow> version_row \<Rightarrow> bool" where
  "at_home db v \<longleftrightarrow> (\<exists>c \<in> set (cd_contracts db). ct_id c = cv_contract v \<and> ct_account c = cv_account v \<and>
     ct_subscription c = cv_subscription v)"

definition db_ok :: "contract_db \<Rightarrow> bool" where
  "db_ok db \<longleftrightarrow> distinct (map ct_id (cd_contracts db)) \<and> distinct (map ct_subscription (cd_contracts db)) \<and>
     version_rows_ok (cd_versions db) \<and> (\<forall>v \<in> set (cd_versions db). at_home db v) \<and>
     (\<forall>l \<in> set (cd_lines db). ln_version l \<in> cv_id ` set (cd_versions db) \<and> line_held l) \<and> timers_ok (cd_timers db)"

lemma db_okD:
  assumes "db_ok db"
  shows "version_rows_ok (cd_versions db)" "timers_ok (cd_timers db)" "v \<in> set (cd_versions db) \<Longrightarrow> at_home db v"
    "l \<in> set (cd_lines db) \<Longrightarrow> ln_version l \<in> cv_id ` set (cd_versions db) \<and> line_held l"
    "distinct (map ct_id (cd_contracts db))" "distinct (map ct_subscription (cd_contracts db))"
  using assms by (auto simp: db_ok_def)

lemma put_version_ok:
  assumes "db_ok db" and "version_rows_ok rows" and "map cv_id rows = map cv_id (cd_versions db)"
    and "\<And>v. v \<in> set rows \<Longrightarrow> \<exists>w \<in> set (cd_versions db). same_place v w"
  shows "db_ok (db\<lparr>cd_versions := rows\<rparr>)"
proof -
  have "cv_id ` set rows = cv_id ` set (cd_versions db)" using arg_cong [OF assms(3), of set] by simp
  moreover have "at_home (db\<lparr>cd_versions := rows\<rparr>) v" if "v \<in> set rows" for v
    using assms(4) [OF that] db_okD(3) [OF assms(1)] by (fastforce simp: at_home_def same_place_def)
  ultimately show ?thesis using assms(1,2) by (simp add: db_ok_def)
qed

lemma append_version_ok:
  assumes "db_ok (db\<lparr>cd_versions := rows\<rparr>)" and "version_rows_ok (rows @ [r])" and "at_home db r" and "\<forall>l \<in> set ls. ln_version l = cv_id r \<and> line_held l"
  shows "db_ok (db\<lparr>cd_versions := rows @ [r], cd_lines := cd_lines db @ ls\<rparr>)"
  using assms by (auto simp: db_ok_def at_home_def)

lemma same_place_refl [simp]: "same_place v v"
  by (simp add: same_place_def)

lemma same_place_rows [simp]:
  "same_place (close_version s v) v" "same_place (edit_row kind source reason v) v" "same_place (cancel_row reason v) v"
  "same_place (v\<lparr>vr_status := x\<rparr>) v"
  by (simp_all add: same_place_def close_version_def edit_row_def cancel_row_def)

lemma close_rows_place:
  assumes "current_effective rows c = Inr cur"
  shows "map cv_id (close_rows s cur rows) = map cv_id rows" "v \<in> set (close_rows s cur rows) \<Longrightarrow> \<exists>w \<in> set rows. same_place v w"
proof -
  show "map cv_id (close_rows s cur rows) = map cv_id rows"
    by (cases cur) (simp_all add: close_rows_def)
  assume v: "v \<in> set (close_rows s cur rows)"
  show "\<exists>w \<in> set rows. same_place v w"
  proof (cases cur)
    case None
    then show ?thesis using v same_place_refl by (auto simp: close_rows_def simp del: same_place_refl)
  next
    case (Some x)
    note x = current_effectiveD(1) [OF assms [unfolded Some]]
    have "v = close_version s x \<or> v \<in> set rows"
      using v put_row_set [of v cv_id "close_version s x" rows] by (auto simp: close_rows_def Some)
    then show ?thesis using x same_place_rows(1) same_place_refl by blast
  qed
qed

lemma close_db_ok:
  assumes "db_ok db" and "current_effective (cd_versions db) c = Inr cur"
    and "\<And>v. cur = Some v \<Longrightarrow> can_update (cd_versions db) (close_version s v)"
  shows "db_ok (db\<lparr>cd_versions := close_rows s cur (cd_versions db)\<rparr>)"
  by (rule put_version_ok [OF assms(1) close_rows_ok(1) [OF db_okD(1) [OF assms(1)] assms(2,3)] close_rows_place [OF assms(2)]])

lemma put_db_ok:
  assumes "db_ok db" and "v \<in> set (cd_versions db)" and "same_place r v" and "status_in_step r"
    and "can_update (cd_versions db) r" and "vr_status r = Draft_version \<Longrightarrow> vr_status v = Draft_version"
  shows "db_ok (db\<lparr>cd_versions := put_row cv_id r (cd_versions db)\<rparr>)"
proof (rule put_version_ok [OF assms(1) put_rows_ok(1) [OF db_okD(1) [OF assms(1)] assms(2-6)]])
  show "map cv_id (put_row cv_id r (cd_versions db)) = map cv_id (cd_versions db)" by simp
  show "\<exists>w \<in> set (cd_versions db). same_place x w" if "x \<in> set (put_row cv_id r (cd_versions db))" for x
    using put_row_set [OF that] assms(2,3) same_place_refl by blast
qed

lemma db_change_ok:
  assumes "db_change db db'" and "db_ok db"
  shows "db_ok db'"
  using assms
proof cases
  case (Open_contract c)
  then show ?thesis using assms(2) by (auto simp: db_ok_def at_home_def)
next
  case (Record_terms c cur r ls)
  let ?rows = "close_rows (cv_starts_at r) cur (cd_versions db)"
  have ok: "db_ok (db\<lparr>cd_versions := ?rows\<rparr>)"
    by (rule close_db_ok [OF assms(2) Record_terms(3)]) (use Record_terms(4) in blast)
  have "version_rows_ok (?rows @ [r])"
    using append_version_rows_ok [of ?rows r] db_okD(1) [OF ok] Record_terms(4-11)
      close_rows_ok(2) [OF db_okD(1) [OF assms(2)] Record_terms(3)] by (simp add: status_in_step_def)
  then show ?thesis
    unfolding Record_terms(1)
    by (rule append_version_ok [OF ok]) (use Record_terms(2,6-8,12) in \<open>auto simp: at_home_def\<close>)
next
  case (Add_draft c cur r i eff kind reason ls)
  note cur = current_effectiveD [OF Add_draft(3)]
  have "at_home db r" using db_okD(3) [OF assms(2) cur(1)] cur(2) by (simp add: Add_draft(5) at_home_def)
  moreover have "version_rows_ok (cd_versions db @ [r])"
    by (rule append_version_rows_ok [OF db_okD(1) [OF assms(2)] Add_draft(7)])
      (use Add_draft(4) in \<open>auto simp: Add_draft(5) status_in_step_def filter_empty_conv\<close>)
  ultimately show ?thesis
    unfolding Add_draft(1) using append_version_ok [where db = db and rows = "cd_versions db" and r = r and ls = ls] assms(2) Add_draft(8) by (simp add: Add_draft(5))
next
  case (Edit_draft d kind source reason)
  have "status_in_step d" using rows_okD(3) [OF db_okD(1) [OF assms(2)] Edit_draft(2)] by (simp add: row_good_def)
  then have "status_in_step (edit_row kind source reason d)" using Edit_draft(3) by (simp add: status_in_step_def edit_row_def)
  from put_db_ok [OF assms(2) Edit_draft(2) _ this Edit_draft(4)] show ?thesis unfolding Edit_draft(1) by (simp add: Edit_draft(3))
next
  case (Draft_lines d ls)
  have "ln_version l \<in> cv_id ` set (cd_versions db) \<and> line_held l" if "l \<in> set ls" for l
  proof (cases "ln_version l = cv_id d")
    case False
    then have "l \<in> set (lines_outside (cv_id d) (cd_lines db))"
      using that unfolding Draft_lines(4) [symmetric] by (simp add: lines_outside_def)
    then show ?thesis using db_okD(4) [OF assms(2)] by (simp add: lines_outside_def)
  qed (use Draft_lines(2,5) that db_okD(4) [OF assms(2)] in auto)
  then show ?thesis using assms(2) by (simp add: Draft_lines(1) db_ok_def at_home_def)
next
  case (Activate_draft c cur d)
  let ?rows = "close_rows (cv_starts_at d) (Some cur) (cd_versions db)"
  note cur = current_effectiveD [OF Activate_draft(3)]
  have "db_ok (db\<lparr>cd_versions := ?rows\<rparr>)"
    by (rule close_db_ok [OF assms(2) Activate_draft(3)]) (use Activate_draft(8) in blast)
  moreover have "d \<in> set ?rows"
  proof -
    have "cv_id d \<noteq> cv_id cur" using rows_okD(5) [OF db_okD(1) [OF assms(2)] Activate_draft(4) cur(1)] Activate_draft(6) cur(3) by auto
    then show ?thesis using Activate_draft(4) by (simp add: close_rows_def put_row_kept close_version_def)
  qed
  moreover have "status_in_step (d\<lparr>vr_status := Effective_version\<rparr>)"
    using rows_okD(3) [OF db_okD(1) [OF assms(2)] Activate_draft(4)] Activate_draft(6) by (simp add: row_good_def status_in_step_def)
  ultimately show ?thesis
    unfolding Activate_draft(1) using put_db_ok [where db = "db\<lparr>cd_versions := ?rows\<rparr>" and v = d and r = "d\<lparr>vr_status := Effective_version\<rparr>"] Activate_draft(9) by simp
next
  case (Cancel_terms v reason)
  have "status_in_step (cancel_row reason v)" by (simp add: status_in_step_def cancel_row_def)
  moreover have "vr_status (cancel_row reason v) \<noteq> Draft_version" by (simp add: cancel_row_def)
  ultimately show ?thesis
    unfolding Cancel_terms(1) using put_db_ok [OF assms(2) Cancel_terms(2) same_place_rows(3) _ Cancel_terms(4)] by blast
next
  case (Change_timers ts)
  then show ?thesis using assms(2) timer_step_ok by (auto simp: db_ok_def at_home_def)
qed

lemma db_changes_ok: "db_change\<^sup>*\<^sup>* db db' \<Longrightarrow> db_ok db \<Longrightarrow> db_ok db'"
  by (induction rule: rtranclp_induct) (auto intro: db_change_ok)

lemma db_ok_columns:
  "db_ok db \<Longrightarrow> \<forall>v \<in> set (cd_versions db). columns_held v" "db_ok db \<Longrightarrow> \<forall>l \<in> set (cd_lines db). line_held l"
  using rows_okD(3) [OF db_okD(1)] db_okD(4) by (auto simp: row_good_def)

lemma contract_history_ok: "contract_history zones sys sales db \<Longrightarrow> db_ok db"
proof (induction rule: contract_history.induct)
  case (Next_contracts db db')
  then show ?case using db_changes_ok contract_step_changes db_ok_columns by blast
qed (simp add: db_ok_def version_rows_ok_def timers_ok_def)

subsection \<open>What a version keeps\<close>

text \<open>The order in which a version goes through its states.\<close>

fun status_rank :: "version_status \<Rightarrow> nat" where
  "status_rank Draft_version = 0"
| "status_rank Effective_version = 1"
| "status_rank Superseded_version = 2"
| "status_rank Canceled_version = 3"

text \<open>The contracted terms of a row: all but its end, its status and the reason of the last command.\<close>

definition contracted_terms :: "version_row \<Rightarrow> version_row" where
  "contracted_terms v = v\<lparr>cv_ends_at := None, vr_status := Draft_version, vr_superseded_at := None, vr_reason := []\<rparr>"

definition draft_terms :: "version_row \<Rightarrow> version_row" where
  "draft_terms v = (contracted_terms v)\<lparr>cv_source_kind := Plan_change, cv_source_id := []\<rparr>"

definition version_kept :: "version_row \<Rightarrow> version_row \<Rightarrow> bool" where
  "version_kept v w \<longleftrightarrow> draft_terms w = draft_terms v \<and> status_rank (vr_status v) \<le> status_rank (vr_status w) \<and>
     (vr_status v \<noteq> Draft_version \<longrightarrow> contracted_terms w = contracted_terms v \<and>
       (\<forall>e. cv_ends_at v = Some e \<longrightarrow> cv_ends_at w = Some e))"

definition db_kept :: "contract_db \<Rightarrow> contract_db \<Rightarrow> bool" where
  "db_kept db db' \<longleftrightarrow> (\<forall>v \<in> set (cd_versions db). \<exists>w \<in> set (cd_versions db'). version_kept v w \<and>
     (vr_status v \<noteq> Draft_version \<longrightarrow> lines_of db' (cv_id v) = lines_of db (cv_id v)))"

lemma draft_terms_fields:
  assumes "draft_terms w = draft_terms v"
  shows "cv_id w = cv_id v" "cv_contract w = cv_contract v" "vr_number w = vr_number v" "cv_starts_at w = cv_starts_at v"
    "cv_cadence w = cv_cadence v" "vr_supersedes w = vr_supersedes v"
  using arg_cong [OF assms, of cv_id] arg_cong [OF assms, of cv_contract] arg_cong [OF assms, of vr_number]
    arg_cong [OF assms, of cv_starts_at] arg_cong [OF assms, of cv_cadence] arg_cong [OF assms, of vr_supersedes]
  by (simp_all add: draft_terms_def contracted_terms_def)

lemma rank_draft: "status_rank s \<le> status_rank s' \<Longrightarrow> s \<noteq> Draft_version \<Longrightarrow> s' \<noteq> Draft_version"
  by (cases s; cases s') simp_all

lemma version_keptD:
  assumes "version_kept v w"
  shows "draft_terms w = draft_terms v" "cv_id w = cv_id v" "vr_status v \<noteq> Draft_version \<Longrightarrow> vr_status w \<noteq> Draft_version"
  using assms draft_terms_fields(1) [of w v] rank_draft unfolding version_kept_def by blast+

lemma version_kept_refl: "version_kept v v"
  by (simp add: version_kept_def)

lemma version_kept_trans: "version_kept u v \<Longrightarrow> version_kept v w \<Longrightarrow> version_kept u w"
  using rank_draft unfolding version_kept_def by (metis order_trans)

lemma db_kept_trans:
  assumes "db_kept db1 db2" and "db_kept db2 db3"
  shows "db_kept db1 db3"
  unfolding db_kept_def
proof
  fix u assume "u \<in> set (cd_versions db1)"
  with assms(1) obtain v where v: "v \<in> set (cd_versions db2)" "version_kept u v"
    "vr_status u \<noteq> Draft_version \<longrightarrow> lines_of db2 (cv_id u) = lines_of db1 (cv_id u)" by (auto simp: db_kept_def)
  with assms(2) obtain w where w: "w \<in> set (cd_versions db3)" "version_kept v w"
    "vr_status v \<noteq> Draft_version \<longrightarrow> lines_of db3 (cv_id v) = lines_of db2 (cv_id v)" by (auto simp: db_kept_def)
  note version_keptD [OF v(2)]
  then show "\<exists>w \<in> set (cd_versions db3). version_kept u w \<and>
      (vr_status u \<noteq> Draft_version \<longrightarrow> lines_of db3 (cv_id u) = lines_of db1 (cv_id u))"
    using w v version_kept_trans [OF v(2) w(2)] by auto
qed

text \<open>A change of the rows that replaces one of them, or appends one.\<close>

lemma put_kept:
  assumes "version_rows_ok rows" and "v \<in> set rows" and "version_kept v r" and "x \<in> set rows"
  shows "\<exists>w \<in> set (put_row cv_id r rows). version_kept x w"
proof (cases "cv_id x = cv_id v")
  case True
  then have "x = v" using rows_okD(5) [OF assms(1,4,2)] by blast
  moreover have "r \<in> set (put_row cv_id r rows)"
    by (rule put_row_new [OF assms(2)]) (simp add: version_keptD(2) [OF assms(3)])
  ultimately show ?thesis using assms(3) by blast
next
  case False
  then have "cv_id x \<noteq> cv_id r" by (simp add: version_keptD(2) [OF assms(3)])
  then show ?thesis using put_row_kept [OF assms(4)] version_kept_refl by blast
qed

lemma close_kept:
  assumes "version_rows_ok rows" and "current_effective rows c = Inr cur" and "x \<in> set rows"
  shows "\<exists>w \<in> set (close_rows s cur rows). version_kept x w"
proof (cases cur)
  case None
  then show ?thesis using assms(3) version_kept_refl by (auto simp: close_rows_def)
next
  case (Some v)
  note cur = current_effectiveD [OF assms(2) [unfolded Some]]
  have "version_kept v (close_version s v)"
    using cur(3,4) by (simp add: version_kept_def close_version_def draft_terms_def contracted_terms_def)
  from put_kept [OF assms(1) cur(1) this assms(3)] show ?thesis by (simp add: close_rows_def Some)
qed

lemma lines_of_append: "\<forall>l \<in> set ls. ln_version l \<noteq> i \<Longrightarrow> lines_of (db\<lparr>cd_versions := rows, cd_lines := cd_lines db @ ls\<rparr>) i = lines_of db i"
  by (simp add: lines_of_def filter_empty_conv)

lemma lines_of_rows [simp]: "lines_of (db\<lparr>cd_versions := rows\<rparr>) i = lines_of db i"
  "lines_of (db\<lparr>cd_contracts := cs\<rparr>) i = lines_of db i" "lines_of (db\<lparr>cd_timers := ts\<rparr>) i = lines_of db i"
  by (simp_all add: lines_of_def)

lemma db_change_kept:
  assumes "db_change db db'" and "db_ok db"
  shows "db_kept db db'"
  using assms(1)
proof cases
  case (Record_terms c cur r ls)
  let ?rows = "close_rows (cv_starts_at r) cur (cd_versions db)"
  show ?thesis
    unfolding db_kept_def
  proof
    fix x assume x: "x \<in> set (cd_versions db)"
    from close_kept [OF db_okD(1) [OF assms(2)] Record_terms(3) x] obtain w where w: "w \<in> set ?rows" "version_kept x w" by blast
    have "cv_id x \<noteq> cv_id r"
      using w(1) Record_terms(5) by (simp add: version_keptD(2) [OF w(2), symmetric] can_insert_def)
    then have "lines_of db' (cv_id x) = lines_of db (cv_id x)"
      using Record_terms(12) unfolding Record_terms(1) by (intro lines_of_append) auto
    then show "\<exists>w \<in> set (cd_versions db'). version_kept x w \<and>
        (vr_status x \<noteq> Draft_version \<longrightarrow> lines_of db' (cv_id x) = lines_of db (cv_id x))"
      using w by (auto simp: Record_terms(1))
  qed
next
  case (Add_draft c cur r i eff kind reason ls)
  have "lines_of db' (cv_id x) = lines_of db (cv_id x)" if "x \<in> set (cd_versions db)" for x
    using that Add_draft(7,8) unfolding Add_draft(1) by (intro lines_of_append) (auto simp: Add_draft(5) can_insert_def)
  then show ?thesis using version_kept_refl by (auto simp: db_kept_def Add_draft(1))
next
  case (Edit_draft d kind source reason)
  have "version_kept d (edit_row kind source reason d)"
    by (simp add: version_kept_def Edit_draft(3) edit_row_def draft_terms_def contracted_terms_def)
  then show ?thesis
    using put_kept [OF db_okD(1) [OF assms(2)] Edit_draft(2)] by (simp add: db_kept_def Edit_draft(1))
next
  case (Draft_lines d ls)
  have "lines_of db' (cv_id x) = lines_of db (cv_id x)" if "x \<in> set (cd_versions db)" "vr_status x \<noteq> Draft_version" for x
  proof -
    have "cv_id x \<noteq> cv_id d" using rows_okD(5) [OF db_okD(1) [OF assms(2)] that(1) Draft_lines(2)] that(2) Draft_lines(3) by auto
    then have outside: "filter (\<lambda>l. ln_version l = cv_id x) xs = filter (\<lambda>l. ln_version l = cv_id x) (lines_outside (cv_id d) xs)" for xs
      by (auto simp: lines_outside_def intro: filter_cong)
    show ?thesis unfolding lines_of_def outside [of ls] outside [of "cd_lines db"] Draft_lines(1) using Draft_lines(4) by (simp add: outside [of ls])
  qed
  then show ?thesis using version_kept_refl by (auto simp: db_kept_def Draft_lines(1))
next
  case (Activate_draft c cur d)
  let ?rows = "close_rows (cv_starts_at d) (Some cur) (cd_versions db)" and ?d = "d\<lparr>vr_status := Effective_version\<rparr>"
  note ok = db_okD(1) [OF assms(2)]
  have rows: "version_rows_ok ?rows"
    by (rule close_rows_ok(1) [OF ok Activate_draft(3)]) (use Activate_draft(8) in blast)
  have "cv_id d \<noteq> cv_id cur"
    using rows_okD(5) [OF ok Activate_draft(4) current_effectiveD(1) [OF Activate_draft(3)]] current_effectiveD(3) [OF Activate_draft(3)] Activate_draft(6) by auto
  then have d: "d \<in> set ?rows" using Activate_draft(4) by (simp add: close_rows_def put_row_kept close_version_def)
  have kept: "version_kept d ?d" by (simp add: version_kept_def Activate_draft(6) draft_terms_def contracted_terms_def)
  have "\<exists>w \<in> set (put_row cv_id ?d ?rows). version_kept x w" if x: "x \<in> set (cd_versions db)" for x
  proof -
    from close_kept [OF ok Activate_draft(3) x] obtain w where w: "w \<in> set ?rows" "version_kept x w" by blast
    from put_kept [OF rows d kept w(1)] version_kept_trans [OF w(2)] show ?thesis by blast
  qed
  then show ?thesis by (simp add: db_kept_def Activate_draft(1))
next
  case (Cancel_terms v reason)
  have "version_kept v (cancel_row reason v)"
    by (cases "vr_status v") (simp_all add: version_kept_def cancel_row_def draft_terms_def contracted_terms_def)
  then show ?thesis
    using put_kept [OF db_okD(1) [OF assms(2)] Cancel_terms(2)] by (simp add: db_kept_def Cancel_terms(1))
qed (use version_kept_refl in \<open>auto simp: db_kept_def\<close>)

lemma db_changes_kept: "db_change\<^sup>*\<^sup>* db db' \<Longrightarrow> db_ok db \<Longrightarrow> db_kept db db'"
proof (induction rule: rtranclp_induct)
  case base
  show ?case using version_kept_refl by (auto simp: db_kept_def)
next
  case (step db1 db2)
  then show ?case using db_kept_trans db_change_kept db_changes_ok by blast
qed

lemma contract_step_kept: "contract_step zones sys sales db db' \<Longrightarrow> db_ok db \<Longrightarrow> db_ok db' \<and> db_kept db db'"
  using contract_step_changes db_ok_columns db_changes_kept db_changes_ok by blast

lemma contract_steps_kept: "(contract_step zones sys sales)\<^sup>*\<^sup>* db db' \<Longrightarrow> db_ok db \<Longrightarrow> db_ok db' \<and> db_kept db db'"
proof (induction rule: rtranclp_induct)
  case base
  then show ?case using version_kept_refl by (auto simp: db_kept_def)
next
  case (step db1 db2)
  then show ?case using contract_step_kept db_kept_trans by blast
qed

subsection \<open>Drafts\<close>

text \<open>The terms a draft takes over, and the draft as the copy of the version it will supersede.\<close>

definition carried_terms :: "version_row \<Rightarrow> cadence \<times> rat \<times> string \<times> int \<times> string option \<times> bool \<times> string option \<times> rat option" where
  "carried_terms v = (cv_cadence v, vr_price v, vr_currency v, vr_terms_days v, cv_tax_code v, cv_tax_inclusive v,
     vr_discount_code v, vr_discount v)"

definition draft_follows :: "contract_db \<Rightarrow> version_row \<Rightarrow> bool" where
  "draft_follows db d \<longleftrightarrow> (\<exists>v \<in> set (cd_versions db). vr_supersedes d = Some (cv_id v) \<and> vr_status v \<noteq> Draft_version \<and>
     cv_contract v = cv_contract d \<and> cv_starts_at v < cv_starts_at d \<and> carried_terms d = carried_terms v \<and>
     (\<forall>l \<in> set (lines_of db (cv_id v)). \<not> recurring_addon l \<longrightarrow> (\<exists>l' \<in> set (lines_of db (cv_id d)). same_line l' l)) \<and>
     (\<forall>l' \<in> set (lines_of db (cv_id d)). \<not> recurring_addon l' \<longrightarrow> (\<exists>l \<in> set (lines_of db (cv_id v)). same_line l' l)))"

lemma carried_draft_terms:
  assumes "draft_terms w = draft_terms v"
  shows "carried_terms w = carried_terms v"
  using arg_cong [OF assms, of carried_terms] by (simp add: carried_terms_def draft_terms_def contracted_terms_def)

lemma draft_stays:
  assumes "draft_follows db d" and "db_kept db db'" and "draft_terms d' = draft_terms d"
    and "\<forall>l. \<not> recurring_addon l \<longrightarrow> l \<in> set (lines_of db' (cv_id d)) \<longleftrightarrow> l \<in> set (lines_of db (cv_id d))"
    and addons: "\<And>l' l. same_line l' l \<Longrightarrow> recurring_addon l' = recurring_addon l"
  shows "draft_follows db' d'"
proof -
  note f = draft_terms_fields [OF assms(3)] carried_draft_terms [OF assms(3)]
  from assms(1) obtain v where v: "v \<in> set (cd_versions db)" "vr_supersedes d = Some (cv_id v)" "vr_status v \<noteq> Draft_version"
    "cv_contract v = cv_contract d" "cv_starts_at v < cv_starts_at d" "carried_terms d = carried_terms v"
    "\<forall>l \<in> set (lines_of db (cv_id v)). \<not> recurring_addon l \<longrightarrow> (\<exists>l' \<in> set (lines_of db (cv_id d)). same_line l' l)"
    "\<forall>l' \<in> set (lines_of db (cv_id d)). \<not> recurring_addon l' \<longrightarrow> (\<exists>l \<in> set (lines_of db (cv_id v)). same_line l' l)"
    by (auto simp: draft_follows_def)
  from assms(2) v(1,3) obtain w where w: "w \<in> set (cd_versions db')" "version_kept v w" "lines_of db' (cv_id v) = lines_of db (cv_id v)"
    by (auto simp: db_kept_def)
  note k = version_keptD [OF w(2)]
  note g = draft_terms_fields [OF k(1)] carried_draft_terms [OF k(1)]
  have lines: "\<exists>l' \<in> set (lines_of db' (cv_id d)). same_line l' l" if "l \<in> set (lines_of db' (cv_id w))" "\<not> recurring_addon l" for l
    using that v(7) w(3) assms(4) addons unfolding g(1) by metis
  have lines': "\<exists>l \<in> set (lines_of db' (cv_id w)). same_line l' l" if "l' \<in> set (lines_of db' (cv_id d))" "\<not> recurring_addon l'" for l'
    using that v(8) w(3) assms(4) unfolding g(1) by metis
  show ?thesis
    unfolding draft_follows_def
    by (rule bexI [OF _ w(1)]) (use v(2,4-6) k(3) [OF v(3)] f g lines lines' in simp)
qed

lemma same_line_addon: "same_line l' l \<Longrightarrow> recurring_addon l' = recurring_addon l"
proof -
  assume "same_line l' l"
  then have "l' = l\<lparr>ln_version := ln_version l', lr_id := lr_id l'\<rparr>" by (simp add: same_line_def)
  from arg_cong [OF this, of recurring_addon] show ?thesis by (simp add: recurring_addon_def)
qed

lemma db_change_drafts:
  assumes "db_change db db'" and "db_ok db" and "d \<in> set (cd_versions db')" and "vr_status d = Draft_version"
  shows "draft_follows db' d \<or> (\<exists>d0 \<in> set (cd_versions db). vr_status d0 = Draft_version \<and> draft_terms d = draft_terms d0 \<and>
    (\<forall>l. \<not> recurring_addon l \<longrightarrow> l \<in> set (lines_of db' (cv_id d0)) \<longleftrightarrow> l \<in> set (lines_of db (cv_id d0))))"
  using assms(1)
proof cases
  case (Record_terms c cur r ls)
  have "d \<in> set (cd_versions db)"
    using assms(3,4) Record_terms(10) put_row_set [of d cv_id]
    by (cases cur) (fastforce simp: Record_terms(1) close_rows_def close_version_def)+
  moreover have "cv_id d \<noteq> cv_id r"
    using assms(3,4) Record_terms(5,10) by (auto simp: Record_terms(1) can_insert_def)
  then have "lines_of db' (cv_id d) = lines_of db (cv_id d)"
    using Record_terms(12) unfolding Record_terms(1) by (intro lines_of_append) auto
  ultimately show ?thesis using assms(4) by auto
next
  case (Add_draft c cur r i eff kind reason ls)
  have cur: "cur \<in> set (cd_versions db)" "cv_contract cur = ct_id c" "vr_status cur = Effective_version"
    using current_effectiveD [OF Add_draft(3)] by simp_all
  have fresh: "i \<notin> cv_id ` set (cd_versions db)" using Add_draft(7) by (auto simp: Add_draft(5) can_insert_def)
  have old: "lines_of db' (cv_id x) = lines_of db (cv_id x)" if "x \<in> set (cd_versions db)" for x
    using that fresh Add_draft(8) unfolding Add_draft(1) by (intro lines_of_append) auto
  have "draft_follows db' d" if "d = r"
  proof -
    have "lines_of db i = []" using db_okD(4) [OF assms(2)] fresh by (auto simp: lines_of_def filter_empty_conv)
    then have "set (lines_of db' (cv_id d)) = set ls"
      using that Add_draft(8) by (auto simp: Add_draft(1,5) lines_of_def filter_empty_conv)
    then have lines: "\<forall>l \<in> set (lines_of db' (cv_id cur)). \<exists>l' \<in> set (lines_of db' (cv_id d)). same_line l' l"
      "\<forall>l' \<in> set (lines_of db' (cv_id d)). \<exists>l \<in> set (lines_of db' (cv_id cur)). same_line l' l"
      using Add_draft(9,10) old [OF cur(1)] by simp_all
    have "carried_terms d = carried_terms cur" by (simp add: that Add_draft(5) carried_terms_def) (simp add: draft_of_def)
    moreover have "cur \<in> set (cd_versions db')" using cur(1) by (simp add: Add_draft(1))
    ultimately show ?thesis
      unfolding draft_follows_def using that cur Add_draft(6) lines by (intro bexI [of _ cur]) (simp_all add: Add_draft(5))
  qed
  then show ?thesis using assms(3,4) old by (auto simp: Add_draft(1))
next
  case (Edit_draft e kind source reason)
  have "draft_terms (edit_row kind source reason e) = draft_terms e" by (simp add: edit_row_def draft_terms_def contracted_terms_def)
  then show ?thesis
    using assms(3,4) put_row_set [of d cv_id "edit_row kind source reason e" "cd_versions db"] Edit_draft(2,3) by (auto simp: Edit_draft(1))
next
  case (Draft_lines e ls)
  have "l \<in> set (lines_of db' (cv_id d)) \<longleftrightarrow> l \<in> set (lines_of db (cv_id d))" if l: "\<not> recurring_addon l" for l
  proof (cases "cv_id d = cv_id e")
    case True
    then show ?thesis using l Draft_lines(5,6) by (auto simp: Draft_lines(1) lines_of_def)
  next
    case False
    have "l \<in> set (lines_of db' (cv_id d)) \<longleftrightarrow> ln_version l = cv_id d \<and> l \<in> set (lines_outside (cv_id e) ls)"
      using False by (auto simp: Draft_lines(1) lines_of_def lines_outside_def)
    then show ?thesis using False unfolding Draft_lines(4) by (auto simp: lines_of_def lines_outside_def)
  qed
  then show ?thesis using assms(3,4) by (auto simp: Draft_lines(1))
next
  case (Activate_draft c cur e)
  have "d \<in> set (cd_versions db)"
    using assms(3,4) put_row_set [of d cv_id "close_version (cv_starts_at e) cur" "cd_versions db"]
      put_row_set [of d cv_id "e\<lparr>vr_status := Effective_version\<rparr>" "close_rows (cv_starts_at e) (Some cur) (cd_versions db)"]
    by (auto simp: Activate_draft(1) close_rows_def close_version_def)
  then show ?thesis using assms(4) by (auto simp: Activate_draft(1))
next
  case (Cancel_terms v reason)
  have "d \<in> set (cd_versions db)"
    using assms(3,4) put_row_set [of d cv_id "cancel_row reason v" "cd_versions db"] by (auto simp: Cancel_terms(1) cancel_row_def)
  then show ?thesis using assms(4) by (auto simp: Cancel_terms(1))
qed (use assms(3,4) in \<open>auto simp: lines_of_def\<close>)

definition drafts_ok :: "contract_db \<Rightarrow> bool" where
  "drafts_ok db \<longleftrightarrow> (\<forall>d \<in> set (cd_versions db). vr_status d = Draft_version \<longrightarrow> draft_follows db d)"

lemma db_changes_drafts: "db_change\<^sup>*\<^sup>* db db' \<Longrightarrow> db_ok db \<Longrightarrow> drafts_ok db \<Longrightarrow> drafts_ok db'"
proof (induction rule: rtranclp_induct)
  case (step db1 db2)
  have ok: "db_ok db1" by (rule db_changes_ok [OF step.hyps(1) step.prems(1)])
  have "db_kept db1 db2" by (rule db_change_kept [OF step.hyps(2) ok])
  then show ?case
    using db_change_drafts [OF step.hyps(2) ok] draft_stays [OF _ _ _ _ same_line_addon] step.IH [OF step.prems]
    unfolding drafts_ok_def by metis
qed

lemma contract_history_drafts: "contract_history zones sys sales db \<Longrightarrow> drafts_ok db"
proof (induction rule: contract_history.induct)
  case (Next_contracts db db')
  have ok: "db_ok db" by (rule contract_history_ok [OF Next_contracts.hyps(1)])
  show ?case
    by (rule db_changes_drafts [OF contract_step_changes [OF Next_contracts.hyps(2) db_ok_columns [OF ok]] ok Next_contracts.IH])
qed (simp add: drafts_ok_def)

end
