(* ===== verification/Contract_Guarantees.thy ===== *)
theory Contract_Guarantees
  imports Contract_History
begin

section \<open>What the contract tables guarantee\<close>

text \<open>
  Over every history of the commands of the owner: the order of versions, the permanence of recorded terms,
  and the lookups that expect one row.
\<close>

text \<open>
  Versions in order. In every history the versions of a contract are numbered 1, 2, 3 and so on, each
  number once, whatever commands were interleaved; a contract has at most one draft; no two effective
  versions of a contract are in force at the same instant; a draft has no end, a superseded version ends at
  the instant of its supersession; and each version carries the account and subscription of its contract.
\<close>

theorem contract_versions_in_order:
  assumes "contract_history zones sys sales db" and "v \<in> set (cd_versions db)"
  shows "(1 \<le> n \<and> n \<le> vr_number v \<longrightarrow> (\<exists>!w. w \<in> set (cd_versions db) \<and> cv_contract w = cv_contract v \<and> vr_number w = n)) \<and>
    (\<forall>w \<in> set (cd_versions db). cv_contract w = cv_contract v \<and> vr_status w = vr_status v \<and>
      (vr_status v = Draft_version \<or> vr_status v = Effective_version \<and> version_covers v t \<and> version_covers w t) \<longrightarrow> w = v) \<and>
    (vr_status v = Draft_version \<longrightarrow> cv_ends_at v = None) \<and>
    (vr_status v = Superseded_version \<longrightarrow> vr_superseded_at v = cv_ends_at v \<and> (\<exists>e. cv_ends_at v = Some e \<and> cv_starts_at v < e)) \<and>
    (\<exists>c \<in> set (cd_contracts db). ct_id c = cv_contract v \<and> ct_account c = cv_account v \<and> ct_subscription c = cv_subscription v)"
proof -
  have db: "db_ok db" by (rule contract_history_ok [OF assms(1)])
  note ok = rows_okD [OF db_okD(1) [OF db]]
  have "\<exists>!w. w \<in> set (cd_versions db) \<and> cv_contract w = cv_contract v \<and> vr_number w = n" if "1 \<le> n \<and> n \<le> vr_number v"
    by (rule gapless_ex1 [OF ok(2) assms(2)]) (use that in simp_all)
  moreover have "w = v" if "w \<in> set (cd_versions db)" "cv_contract w = cv_contract v" "vr_status w = vr_status v"
    "vr_status v = Draft_version \<or> vr_status v = Effective_version \<and> version_covers v t \<and> version_covers w t" for w
    using that ok(4) [OF that(1) assms(2)]
    by (auto simp: clash_def versions_overlap_def version_covers_def before_end_def split: option.splits)
  moreover have "row_good v" by (rule ok(3) [OF assms(2)])
  ultimately show ?thesis
    using db_okD(3) [OF db assms(2)]
    by (auto simp: row_good_def status_in_step_def version_allowed_def at_home_def split: option.splits)
qed

text \<open>
  C10: recorded terms are permanent. Whatever the owner does afterwards, a version that has left its draft
  keeps its identity, number, source, start, price, currency, cadence, taxes, discount and lines exactly; an
  end once set stays; and its status only moves on, from effective to superseded or canceled. A draft keeps
  all of these but its source and its lines.
\<close>

theorem recorded_terms_are_permanent:
  assumes "contract_history zones sys sales db" and "(contract_step zones sys sales)\<^sup>*\<^sup>* db db'" and "v \<in> set (cd_versions db)"
  shows "\<exists>w \<in> set (cd_versions db'). draft_terms w = draft_terms v \<and> status_rank (vr_status v) \<le> status_rank (vr_status w) \<and>
    (vr_status v \<noteq> Draft_version \<longrightarrow> contracted_terms w = contracted_terms v \<and>
      (\<forall>e. cv_ends_at v = Some e \<longrightarrow> cv_ends_at w = Some e) \<and> lines_of db' (cv_id v) = lines_of db (cv_id v))"
proof -
  have "db_kept db db'" using contract_steps_kept [OF assms(2) contract_history_ok [OF assms(1)]] by blast
  then show ?thesis using assms(3) unfolding db_kept_def version_kept_def by fastforce
qed

end
