(* ===== verification/Contract_Timeline.thy ===== *)
theory Contract_Timeline
  imports Contract_History
begin

section \<open>The timeline of a contract\<close>

text \<open>
  The versions in force of a contract that has neither canceled nor bounded versions tile the time from its
  first start on: exactly one is in force at each instant, and the lookup finds it.
\<close>

definition force_of :: "contract_db \<Rightarrow> string \<Rightarrow> version_row set" where
  "force_of db c = {v \<in> set (cd_versions db). version_in_force v \<and> cv_contract v = c}"

definition open_ended :: "contract_db \<Rightarrow> string \<Rightarrow> bool" where
  "open_ended db c \<longleftrightarrow> (\<forall>v \<in> set (cd_versions db). cv_contract v = c \<longrightarrow>
     vr_status v \<noteq> Canceled_version \<and> (vr_status v = Effective_version \<longrightarrow> cv_ends_at v = None))"

definition tiled :: "version_row set \<Rightarrow> bool" where
  "tiled F \<longleftrightarrow> (\<forall>v \<in> F. \<forall>w \<in> F. v \<noteq> w \<longrightarrow> \<not> versions_overlap v w) \<and>
     (\<forall>v \<in> F. \<forall>e. cv_ends_at v = Some e \<longrightarrow> cv_starts_at v < e \<and> (\<exists>w \<in> F. cv_starts_at w = e)) \<and>
     (F = {} \<or> (\<exists>v \<in> F. vr_status v = Effective_version \<and> cv_ends_at v = None))"

lemma tiledD: "tiled F \<Longrightarrow> v \<in> F \<Longrightarrow> cv_ends_at v = Some e \<Longrightarrow> cv_starts_at v < e \<and> (\<exists>w \<in> F. cv_starts_at w = e)"
  by (simp add: tiled_def)

lemma tiled_empty [simp]: "tiled {}"
  by (simp add: tiled_def)

lemma tiled_single: "cv_ends_at r = None \<Longrightarrow> vr_status r = Effective_version \<Longrightarrow> tiled {r}"
  by (simp add: tiled_def)

text \<open>The current version closed where its successor starts.\<close>

lemma tiled_switch:
  assumes "tiled F" and "cur \<in> F" and "cv_ends_at cur = None" and "cv_starts_at cur < cv_starts_at r" and "cv_ends_at r = None"
    and "vr_status r = Effective_version"
  shows "tiled (insert r (insert (close_version (cv_starts_at r) cur) (F - {cur})))"
proof -
  define u where "u = close_version (cv_starts_at r) cur"
  have u: "cv_starts_at u = cv_starts_at cur" "cv_ends_at u = Some (cv_starts_at r)" by (simp_all add: u_def close_version_def)
  have past: "\<exists>e. cv_ends_at x = Some e \<and> e \<le> cv_starts_at cur" if "x \<in> F - {cur}" for x
  proof -
    have "\<not> versions_overlap x cur" using assms(1,2) that by (auto simp: tiled_def)
    then show ?thesis using assms(3) by (auto simp: versions_overlap_def before_end_def split: option.splits)
  qed
  have apart: "\<not> versions_overlap x y" if "x \<in> insert r (insert u (F - {cur}))" "y \<in> insert r (insert u (F - {cur}))" "x \<noteq> y" for x y
  proof -
    have old: "\<not> versions_overlap x y" if "x \<in> F - {cur}" "y \<in> F - {cur}" "x \<noteq> y" for x y
      using that assms(1) by (auto simp: tiled_def)
    have ru: "\<not> versions_overlap r u" using u by (simp add: versions_overlap_def before_end_def)
    have rx: "\<not> versions_overlap r x" if "x \<in> F - {cur}" for x
      using past [OF that] assms(4) by (auto simp: versions_overlap_def before_end_def)
    have ux: "\<not> versions_overlap u x" if "x \<in> F - {cur}" for x
      using past [OF that] u(1) by (auto simp: versions_overlap_def before_end_def)
    have sym: "versions_overlap x y \<longleftrightarrow> versions_overlap y x" for x y by (auto simp: versions_overlap_def)
    from that old ru rx ux sym show ?thesis by blast
  qed
  have chain: "\<exists>w \<in> insert r (insert u (F - {cur})). cv_starts_at w = e" if "x \<in> F - {cur}" "cv_ends_at x = Some e" for x e
  proof -
    from tiledD [OF assms(1) _ that(2)] that(1) obtain w where "w \<in> F" "cv_starts_at w = e" by blast
    then show ?thesis using u(1) by (cases "w = cur") auto
  qed
  have pos: "cv_starts_at x < e" if "x \<in> F - {cur}" "cv_ends_at x = Some e" for x e
    using assms(1) that by (auto simp: tiled_def)
  have "tiled (insert r (insert u (F - {cur})))"
    unfolding tiled_def
  proof (intro conjI ballI allI impI)
    fix x e assume x: "x \<in> insert r (insert u (F - {cur}))" "cv_ends_at x = Some e"
    have c: "x = u \<or> x \<in> F - {cur}" using x assms(5) by auto
    show "cv_starts_at x < e" using c
    proof
      assume "x = u" then show ?thesis using x(2) u assms(4) by simp
    next
      assume "x \<in> F - {cur}" then show ?thesis using x(2) by (rule pos)
    qed
    show "\<exists>w \<in> insert r (insert u (F - {cur})). cv_starts_at w = e" using c
    proof
      assume "x = u" then show ?thesis using x(2) u by simp
    next
      assume "x \<in> F - {cur}" then show ?thesis using x(2) by (rule chain)
    qed
  qed (use apart assms(5,6) in auto)
  then show ?thesis by (simp add: u_def)
qed

text \<open>Exactly one version of a tiled set covers an instant from the first start on.\<close>

lemma tiled_covers:
  assumes "tiled F" and "finite F" and "v0 \<in> F" and "cv_starts_at v0 \<le> t"
  shows "\<exists>!v. v \<in> F \<and> version_covers v t"
proof -
  let ?early = "{v \<in> F. cv_starts_at v \<le> t}"
  have "finite ?early" "?early \<noteq> {}" using assms(2-4) by auto
  then have "\<exists>v \<in> ?early. cv_starts_at v = Max (cv_starts_at ` ?early)"
    using Max_in [of "cv_starts_at ` ?early"] by (metis (no_types, lifting) finite_imageI image_iff image_is_empty)
  then obtain v where v: "v \<in> F" "cv_starts_at v \<le> t" "cv_starts_at v = Max (cv_starts_at ` ?early)" by blast
  have latest: "cv_starts_at w \<le> cv_starts_at v" if "w \<in> F" "cv_starts_at w \<le> t" for w
    unfolding v(3) using that \<open>finite ?early\<close> by (intro Max_ge) auto
  have covers: "version_covers v t"
  proof (cases "cv_ends_at v")
    case (Some e)
    have "t < e"
    proof (rule ccontr)
      assume "\<not> t < e"
      moreover from tiledD [OF assms(1) v(1) Some] obtain w where "cv_starts_at v < e" "w \<in> F" "cv_starts_at w = e" by blast
      ultimately show False using latest [of w] by simp
    qed
    then show ?thesis using v(2) Some by (simp add: version_covers_def before_end_def)
  qed (use v(2) in \<open>simp add: version_covers_def before_end_def\<close>)
  have "w = v" if "w \<in> F" "version_covers w t" for w
  proof (rule ccontr)
    assume "w \<noteq> v"
    with assms(1) that(1) v(1) have "\<not> versions_overlap w v" by (simp add: tiled_def)
    with that(2) covers show False by (auto simp: versions_overlap_def version_covers_def before_end_def split: option.splits)
  qed
  with v(1) covers show ?thesis by blast
qed

subsection \<open>Every history tiles\<close>

definition timeline_ok :: "contract_db \<Rightarrow> string \<Rightarrow> bool" where
  "timeline_ok db c \<longleftrightarrow> (open_ended db c \<longrightarrow> tiled (force_of db c))"

lemma current_of_tiled:
  assumes "tiled (force_of db c)" and "current_effective (cd_versions db) c = Inr None"
  shows "force_of db c = {}"
proof -
  have "\<forall>v \<in> set (cd_versions db). \<not> (cv_contract v = c \<and> vr_status v = Effective_version \<and> cv_ends_at v = None)"
    using assms(2) by (simp add: current_effective_def one_or_none_None filter_empty_conv)
  then show ?thesis using assms(1) by (auto simp: tiled_def force_of_def)
qed

lemma put_force:
  assumes "version_rows_ok rows" and "v \<in> set rows" and "cv_id r = cv_id v"
  shows "x \<in> set (put_row cv_id r rows) \<longleftrightarrow> x = r \<or> x \<in> set rows \<and> x \<noteq> v"
proof
  assume "x \<in> set (put_row cv_id r rows)"
  then show "x = r \<or> x \<in> set rows \<and> x \<noteq> v" using put_row_set [of x cv_id r rows] assms(3) by auto
next
  assume "x = r \<or> x \<in> set rows \<and> x \<noteq> v"
  then show "x \<in> set (put_row cv_id r rows)"
  proof
    assume "x = r"
    then show ?thesis using put_row_new [OF assms(2), of cv_id r] assms(3) by simp
  next
    assume x: "x \<in> set rows \<and> x \<noteq> v"
    then have "cv_id x \<noteq> cv_id r" using rows_okD(5) [OF assms(1) _ assms(2)] assms(3) by auto
    then show ?thesis using x by (intro put_row_kept) simp_all
  qed
qed

lemma close_force:
  assumes "version_rows_ok rows" and "current_effective rows c = Inr (Some cur)"
  shows "x \<in> set (close_rows s (Some cur) rows) \<longleftrightarrow> x = close_version s cur \<or> x \<in> set rows \<and> x \<noteq> cur"
  using put_force [OF assms(1) current_effectiveD(1) [OF assms(2)]] by (simp add: close_rows_def close_version_def)

lemma timeline_switch:
  assumes "version_rows_ok (cd_versions db)" and "timeline_ok db c'" and "current_effective (cd_versions db) c = Inr (Some cur)"
    and "cv_starts_at cur < cv_starts_at r"
    and rows: "\<And>x. x \<in> set (cd_versions db') \<longleftrightarrow> x = r \<or> x = close_version (cv_starts_at r) cur \<or> x \<in> set (cd_versions db) \<and> x \<noteq> cur \<and> x \<noteq> d"
    and "vr_status d = Draft_version \<or> d = cur" and "vr_status r = Effective_version" and "cv_contract r = c"
  shows "timeline_ok db' c'"
  unfolding timeline_ok_def
proof
  assume clean: "open_ended db' c'"
  note cur = current_effectiveD [OF assms(3)]
  have "open_ended db c'"
    unfolding open_ended_def
  proof (intro ballI impI)
    fix v assume v: "v \<in> set (cd_versions db)" "cv_contract v = c'"
    show "vr_status v \<noteq> Canceled_version \<and> (vr_status v = Effective_version \<longrightarrow> cv_ends_at v = None)"
    proof (cases "v = cur \<or> v = d")
      case True
      then show ?thesis using cur assms(6) by auto
    next
      case False
      then show ?thesis using clean v by (simp add: open_ended_def rows)
    qed
  qed
  then have t: "tiled (force_of db c')" using assms(2) by (simp add: timeline_ok_def)
  show "tiled (force_of db' c')"
  proof (cases "c' = c")
    case True
    have "cv_ends_at r = None" using clean assms(7,8) by (simp add: open_ended_def rows True)
    moreover have "cur \<in> force_of db c" using cur by (simp add: force_of_def version_in_force_def)
    moreover have "force_of db' c = insert r (insert (close_version (cv_starts_at r) cur) (force_of db c - {cur}))"
      using cur assms(6-8) by (auto simp: force_of_def rows version_in_force_def close_version_def)
    ultimately show ?thesis using tiled_switch [OF t [unfolded True] _ cur(4) assms(4) _ assms(7)] by (simp add: True)
  next
    case False
    have "force_of db' c' = force_of db c'"
      using cur assms(6-8) False by (auto simp: force_of_def rows version_in_force_def close_version_def)
    then show ?thesis using t by simp
  qed
qed

lemma timeline_same:
  assumes "timeline_ok db c" and "force_of db' c = force_of db c" and "open_ended db' c \<Longrightarrow> open_ended db c"
  shows "timeline_ok db' c"
  using assms by (simp add: timeline_ok_def)

lemma db_change_timeline:
  assumes "db_change db db'" and "db_ok db" and "timeline_ok db c'"
  shows "timeline_ok db' c'"
  using assms(1)
proof cases
  case (Record_terms c cur r ls)
  note ok = db_okD(1) [OF assms(2)]
  show ?thesis
  proof (cases cur)
    case None
    have rows: "cd_versions db' = cd_versions db @ [r]" by (simp add: Record_terms(1) None close_rows_def)
    show ?thesis
      unfolding timeline_ok_def
    proof
      assume clean: "open_ended db' c'"
      then have "open_ended db c'" by (simp add: open_ended_def rows)
      then have t: "tiled (force_of db c')" using assms(3) by (simp add: timeline_ok_def)
      show "tiled (force_of db' c')"
      proof (cases "c' = ct_id c")
        case True
        have "force_of db c' = {}" by (rule current_of_tiled [OF t]) (simp add: True Record_terms(3) None [symmetric])
        then have "force_of db' c' = {r}" using Record_terms(6,10) True by (auto simp: force_of_def rows version_in_force_def)
        moreover have "cv_ends_at r = None" using clean Record_terms(6,10) by (simp add: open_ended_def rows True)
        ultimately show ?thesis using tiled_single Record_terms(10) by simp
      next
        case False
        then have "force_of db' c' = force_of db c'" using Record_terms(6) by (auto simp: force_of_def rows)
        then show ?thesis using t by simp
      qed
    qed
  next
    case (Some v)
    note cur = Record_terms(3) [unfolded Some]
    have "x \<in> set (cd_versions db') \<longleftrightarrow> x = r \<or> x = close_version (cv_starts_at r) v \<or> x \<in> set (cd_versions db) \<and> x \<noteq> v \<and> x \<noteq> v" for x
      using close_force [OF ok cur, of x "cv_starts_at r"] by (auto simp: Record_terms(1) Some)
    from timeline_switch [OF ok assms(3) cur _ this] show ?thesis using Record_terms(4,6,10) Some by simp
  qed
next
  case (Add_draft c cur r i eff kind reason ls)
  have "vr_status r = Draft_version" by (simp add: Add_draft(5))
  then show ?thesis
    by (intro timeline_same [OF assms(3)]) (auto simp: Add_draft(1) force_of_def version_in_force_def open_ended_def)
next
  case (Edit_draft d kind source reason)
  have "x \<in> set (cd_versions db') \<longleftrightarrow> x = edit_row kind source reason d \<or> x \<in> set (cd_versions db) \<and> x \<noteq> d" for x
    using put_force [OF db_okD(1) [OF assms(2)] Edit_draft(2), of "edit_row kind source reason d"] by (simp add: Edit_draft(1) edit_row_def)
  moreover have "vr_status (edit_row kind source reason d) = Draft_version" by (simp add: edit_row_def Edit_draft(3))
  ultimately have rows: "{v \<in> set (cd_versions db'). vr_status v \<noteq> Draft_version} = {v \<in> set (cd_versions db). vr_status v \<noteq> Draft_version}"
    using Edit_draft(3) by auto
  have "force_of x c' = {v \<in> {v \<in> set (cd_versions x). vr_status v \<noteq> Draft_version}. version_in_force v \<and> cv_contract v = c'}" for x
    by (auto simp: force_of_def version_in_force_def)
  moreover have "open_ended x c' \<longleftrightarrow> (\<forall>v \<in> {v \<in> set (cd_versions x). vr_status v \<noteq> Draft_version}. cv_contract v = c' \<longrightarrow>
     vr_status v \<noteq> Canceled_version \<and> (vr_status v = Effective_version \<longrightarrow> cv_ends_at v = None))" for x
    by (auto simp: open_ended_def)
  ultimately show ?thesis using assms(3) rows by (simp only: timeline_ok_def)
next
  case (Activate_draft c cur d)
  note ok = db_okD(1) [OF assms(2)]
  define w where "w = d\<lparr>vr_status := Effective_version\<rparr>"
  have w: "cv_starts_at w = cv_starts_at d" "vr_status w = Effective_version" "cv_contract w = ct_id c" "cv_id w = cv_id d"
    by (simp_all add: w_def Activate_draft(5))
  have rows: "version_rows_ok (close_rows (cv_starts_at d) (Some cur) (cd_versions db))"
    by (rule close_rows_ok(1) [OF ok Activate_draft(3)]) (use Activate_draft(8) in blast)
  have late: "cv_starts_at cur < cv_starts_at d"
    using Activate_draft(8) by (simp add: can_update_def version_allowed_def close_version_def)
  have "d \<noteq> cur" using current_effectiveD(3) [OF Activate_draft(3)] Activate_draft(6) by auto
  then have d: "d \<in> set (close_rows (cv_starts_at d) (Some cur) (cd_versions db))"
    using close_force [OF ok Activate_draft(3)] Activate_draft(4) by blast
  have "vr_status (close_version (cv_starts_at d) cur) \<noteq> vr_status d" by (simp add: close_version_def Activate_draft(6))
  then have "d \<noteq> close_version (cv_starts_at d) cur" by auto
  then have "x \<in> set (cd_versions db') \<longleftrightarrow> x = w \<or> x = close_version (cv_starts_at w) cur \<or> x \<in> set (cd_versions db) \<and> x \<noteq> cur \<and> x \<noteq> d" for x
    unfolding w(1) using put_force [OF rows d w(4), of x] close_force [OF ok Activate_draft(3), of x "cv_starts_at d"]
    by (simp add: Activate_draft(1) w_def [symmetric]) blast
  from timeline_switch [OF ok assms(3) Activate_draft(3) _ this] show ?thesis using late w Activate_draft(6) by simp
next
  case (Cancel_terms v reason)
  have rows: "x \<in> set (cd_versions db') \<longleftrightarrow> x = cancel_row reason v \<or> x \<in> set (cd_versions db) \<and> x \<noteq> v" for x
    using put_force [OF db_okD(1) [OF assms(2)] Cancel_terms(2), of "cancel_row reason v"] by (simp add: Cancel_terms(1) cancel_row_def)
  have new: "vr_status (cancel_row reason v) = Canceled_version" "cv_contract (cancel_row reason v) = cv_contract v" by (simp_all add: cancel_row_def)
  show ?thesis
  proof (cases "cv_contract v = c'")
    case True
    then have "\<not> open_ended db' c'" using new by (auto simp: open_ended_def rows)
    then show ?thesis by (simp add: timeline_ok_def)
  next
    case False
    show ?thesis
      by (rule timeline_same [OF assms(3)]) (use False new in \<open>auto simp: force_of_def rows open_ended_def version_in_force_def\<close>)
  qed
qed (use assms(3) in \<open>simp_all add: timeline_ok_def open_ended_def force_of_def\<close>)

lemma db_changes_timeline: "db_change\<^sup>*\<^sup>* db db' \<Longrightarrow> db_ok db \<Longrightarrow> timeline_ok db c \<Longrightarrow> timeline_ok db' c"
  by (induction rule: rtranclp_induct) (auto intro: db_change_timeline db_changes_ok)

lemma contract_history_timeline: "contract_history zones sys sales db \<Longrightarrow> timeline_ok db c"
proof (induction rule: contract_history.induct)
  case (Next_contracts db db')
  have ok: "db_ok db" by (rule contract_history_ok [OF Next_contracts.hyps(1)])
  show ?case
    by (rule db_changes_timeline [OF contract_step_changes [OF Next_contracts.hyps(2) db_ok_columns [OF ok]] ok Next_contracts.IH])
qed (simp add: timeline_ok_def force_of_def)

text \<open>
  C12: the versions of a contract tile time. In every history, if no version of a contract is canceled and
  none was recorded with an end, then from the start of any version that is or was in force on, exactly one
  version of the contract is in force at each instant, so terms change without gap and without overlap, and
  the lookup of the terms of the subscription at that instant returns exactly it.
\<close>

theorem versions_tile_time:
  assumes "contract_history zones sys sales db"
    and "\<forall>v \<in> set (cd_versions db). cv_contract v = c \<longrightarrow>
      vr_status v \<noteq> Canceled_version \<and> (vr_status v = Effective_version \<longrightarrow> cv_ends_at v = None)"
    and "v0 \<in> set (cd_versions db)" and "version_in_force v0" and "cv_contract v0 = c" and "cv_starts_at v0 \<le> t"
  shows "\<exists>v. effective_version_at db (cv_subscription v0) (Instant t) = Inr (Some v) \<and> v \<in> set (cd_versions db) \<and>
    (\<forall>w \<in> set (cd_versions db). version_in_force w \<and> cv_contract w = c \<longrightarrow> version_covers w t \<longleftrightarrow> w = v)"
proof -
  have ok: "db_ok db" by (rule contract_history_ok [OF assms(1)])
  have "tiled (force_of db c)"
    using contract_history_timeline [OF assms(1)] assms(2) by (simp add: timeline_ok_def open_ended_def)
  from tiled_covers [OF this, of v0 t] obtain v where v: "v \<in> force_of db c" "version_covers v t"
    "\<And>w. w \<in> force_of db c \<Longrightarrow> version_covers w t \<Longrightarrow> w = v"
    using assms(3-6) by (auto simp: force_of_def)
  let ?P = "\<lambda>v. version_in_force v \<and> version_covers v t \<and> (\<exists>x \<in> set (cd_contracts db). ct_id x = cv_contract v \<and> ct_subscription x = cv_subscription v0)"
  have home: "?P w \<longleftrightarrow> version_in_force w \<and> version_covers w t \<and> cv_contract w = c" if "w \<in> set (cd_versions db)" for w
  proof -
    from db_okD(3) [OF ok assms(3)] obtain x where x: "x \<in> set (cd_contracts db)" "ct_id x = c" "ct_subscription x = cv_subscription v0"
      using assms(5) by (auto simp: at_home_def)
    have same: "y = x" if "y \<in> set (cd_contracts db)" "ct_subscription y = cv_subscription v0" for y
      using db_okD(6) [OF ok] that x by (simp add: distinct_map inj_on_def)
    have "(\<exists>y \<in> set (cd_contracts db). ct_id y = cv_contract w \<and> ct_subscription y = cv_subscription v0) \<longleftrightarrow> cv_contract w = c"
    proof
      assume "\<exists>y \<in> set (cd_contracts db). ct_id y = cv_contract w \<and> ct_subscription y = cv_subscription v0"
      then obtain y where "y \<in> set (cd_contracts db)" "ct_id y = cv_contract w" "ct_subscription y = cv_subscription v0" by blast
      then show "cv_contract w = c" using same [of y] x(2) by simp
    next
      assume "cv_contract w = c"
      then show "\<exists>y \<in> set (cd_contracts db). ct_id y = cv_contract w \<and> ct_subscription y = cv_subscription v0"
        using x by (intro bexI [of _ x]) simp_all
    qed
    then show ?thesis by blast
  qed
  have "distinct (cd_versions db)" using rows_okD(1) [OF db_okD(1) [OF ok]] by (simp add: distinct_map)
  then have "filter ?P (cd_versions db) = [v]"
  proof (rule filter_single)
    show in_rows: "v \<in> set (cd_versions db)" using v(1) by (simp add: force_of_def)
    show "?P v" by (rule iffD2 [OF home [OF in_rows]]) (use v(1,2) in \<open>simp add: force_of_def\<close>)
    show "w = v" if "w \<in> set (cd_versions db)" "?P w" for w
      by (rule v(3)) (use iffD1 [OF home [OF that(1)] that(2)] that(1) in \<open>simp_all add: force_of_def\<close>)
  qed
  then have "effective_version_at db (cv_subscription v0) (Instant t) = Inr (Some v)"
    by (simp add: effective_version_at_def greatest_def)
  moreover have "version_covers w t \<longleftrightarrow> w = v" if "w \<in> set (cd_versions db)" "version_in_force w \<and> cv_contract w = c" for w
  proof -
    have "w \<in> force_of db c" using that by (simp add: force_of_def)
    then show ?thesis using v(2,3) by blast
  qed
  ultimately show ?thesis using v(1) by (intro exI [of _ v]) (simp add: force_of_def)
qed

end
