(* ===== verification/Contract_Billing.thy ===== *)
theory Contract_Billing
  imports Contract_History Obligation_Samples
begin

section \<open>Billing recorded contracts\<close>

text \<open>
  The owner of contracts and the owner of obligations together: obligations are scheduled from the tables of
  contracts as they are at that time. What obligations rely on, that a version keeps its cadence and its
  start, is what the histories of contracts guarantee.
\<close>

inductive billing_history ::
    "(rating_provenance \<Rightarrow> string) \<Rightarrow> zone_db \<Rightarrow> zone \<Rightarrow> (string \<times> string) list \<Rightarrow> contract_db \<Rightarrow> obligation list \<Rightarrow> bool"
  for digest zones sys sales where
  Nothing_billed: "contract_history zones sys sales db \<Longrightarrow> billing_history digest zones sys sales db []"
| Contracts_change: "billing_history digest zones sys sales db rows \<Longrightarrow> contract_step zones sys sales db db' \<Longrightarrow>
    billing_history digest zones sys sales db' rows"
| Obligation_scheduled: "billing_history digest zones sys sales db rows \<Longrightarrow>
    schedule digest zones (billing_view taxes db) i authority cmd rows = Inr (res, rows') \<Longrightarrow>
    billing_history digest zones sys sales db rows'"
| Obligation_opened: "billing_history digest zones sys sales db rows \<Longrightarrow> open_obligation i opened_at rows = Inr (s, rows') \<Longrightarrow>
    billing_history digest zones sys sales db rows'"
| Obligation_resolved: "billing_history digest zones sys sales db rows \<Longrightarrow>
    resolve_obligation i kind amount resolved_at rows = Inr (s, rows') \<Longrightarrow> billing_history digest zones sys sales db rows'"

subsection \<open>Contracts keep the terms of obligations\<close>

definition version_of :: "contract_db \<Rightarrow> string \<Rightarrow> version_row option" where
  "version_of db i = List.find (\<lambda>v. cv_id v = i) (cd_versions db)"

definition terms_of :: "contract_db \<Rightarrow> version_terms" where
  "terms_of db i = (case version_of db i of Some v \<Rightarrow> (cv_cadence v, cv_starts_at v) | None \<Rightarrow> (sample_cadence, 0))"

lemma truncate_fields [simp]:
  "cv_id (contract_version.truncate v) = cv_id v" "cv_cadence (contract_version.truncate v) = cv_cadence v"
  "cv_starts_at (contract_version.truncate v) = cv_starts_at v" "cv_ends_at (contract_version.truncate v) = cv_ends_at v"
  "cv_contract (contract_version.truncate v) = cv_contract v"
  by (simp_all add: contract_version.truncate_def)

lemma find_map_id: "(\<And>x. P (f x) = Q x) \<Longrightarrow> List.find P (map f xs) = map_option f (List.find Q xs)"
  by (induction xs) auto

lemma find_version_view: "find_version (billing_view taxes db) i = map_option contract_version.truncate (version_of db i)"
  by (simp add: find_version_def billing_view_def version_of_def find_map_id)

lemma version_of_Some:
  assumes "db_ok db"
  shows "version_of db i = Some v \<longleftrightarrow> v \<in> set (cd_versions db) \<and> cv_id v = i"
proof
  show "version_of db i = Some v \<Longrightarrow> v \<in> set (cd_versions db) \<and> cv_id v = i"
    unfolding version_of_def by (rule find_member)
  assume v: "v \<in> set (cd_versions db) \<and> cv_id v = i"
  then obtain w where w: "version_of db i = Some w"
    by (cases "version_of db i") (auto simp: version_of_def find_none)
  with find_member [OF w [unfolded version_of_def]] rows_okD(5) [OF db_okD(1) [OF assms]] v show "version_of db i = Some v" by auto
qed

lemma contracts_keep_terms:
  assumes "db_ok db" and "db_ok db'" and "db_kept db db'"
  shows "keeps_terms (terms_of db') (billing_view taxes db)"
  unfolding keeps_terms_def
proof (intro allI impI)
  fix i u
  assume "find_version (billing_view taxes db) i = Some u"
  then obtain v where v: "v \<in> set (cd_versions db)" "cv_id v = i" "u = contract_version.truncate v"
    by (auto simp: find_version_view version_of_Some [OF assms(1)])
  from assms(3) v(1) obtain w where w: "w \<in> set (cd_versions db')" "draft_terms w = draft_terms v"
    by (auto simp: db_kept_def version_kept_def)
  note f = draft_terms_fields [OF w(2)]
  have "version_of db' i = Some w" using w(1) f(1) v(2) by (simp add: version_of_Some [OF assms(2)])
  then show "cv_id u = i \<and> terms_of db' i = (cv_cadence u, cv_starts_at u)"
    using f(4,5) v by (simp add: terms_of_def)
qed

lemma billing_history_parts:
  "billing_history digest zones sys sales db rows \<Longrightarrow>
     db_ok db \<and> (\<forall>db'. db_ok db' \<and> db_kept db db' \<longrightarrow> obligation_history digest zones (terms_of db') rows)"
proof (induction rule: billing_history.induct)
  case (Nothing_billed db)
  then show ?case using contract_history_ok Empty_table by blast
next
  case (Contracts_change db rows db')
  then show ?case using contract_step_kept db_kept_trans by blast
next
  case (Obligation_scheduled db rows taxes i authority cmd res rows')
  then show ?case using Next_table Schedule_step contracts_keep_terms by blast
next
  case (Obligation_opened db rows i opened_at s rows')
  then show ?case using Next_table Open_step by blast
next
  case (Obligation_resolved db rows i kind amount resolved_at s rows')
  then show ?case using Next_table Resolve_step by blast
qed

lemma db_kept_refl: "db_kept db db"
  using version_kept_refl by (auto simp: db_kept_def)

text \<open>
  C6: an instant of a recorded version is billed once. In every joint history of the two owners (contracts
  recorded, superseded, canceled, add-ons bought, backfilled and activated, obligations scheduled, opened and
  resolved, in any order and with any tax rates), for a version in a civil zone, two obligations of one line
  of that version whose periods share an instant are the same obligation. Two versions of a contract are
  another matter: one that starts where a period of the other ends shares no instant with it
  (\<open>change_at_boundary_bills_once\<close>), one that starts inside a period can bill its rest again.
\<close>

theorem recorded_contract_billed_once:
  assumes "billing_history digest zones sys sales db rows" and "v \<in> set (cd_versions db)" and "runs_in zones (cv_cadence v) z"
    and "x \<in> set rows" and "y \<in> set rows" and "ob_version x = cv_id v" and "ob_version y = cv_id v" and "ob_line_key x = ob_line_key y"
    and "ob_start x \<le> t \<and> t < ob_end x" and "ob_start y \<le> t \<and> t < ob_end y"
  shows "x = y"
proof -
  from billing_history_parts [OF assms(1)] db_kept_refl
  have ok: "db_ok db" and h: "obligation_history digest zones (terms_of db) rows" by blast+
  have "fst (terms_of db (ob_version x)) = cv_cadence v"
    using version_of_Some [OF ok, of "cv_id v" v] assms(2,6) by (simp add: terms_of_def)
  then show ?thesis
    using no_instant_billed_twice [OF h _ assms(4,5) _ assms(8-10)] assms(3,6,7) by simp
qed

subsection \<open>Terms that change at a period boundary\<close>

lemma anniversary_after_start:
  assumes "runs_in zones c z" and "0 < cad_service_count c" and "cad_alignment c = Contract_anniversary"
    and "service_period zones c (Instant s) k = Inr v"
  shows "s \<le> starts_at v"
proof -
  from period_parts [OF assms(4) [unfolded service_period_def]] obtain a where
    a: "align_instant zones c s = Inr a" "0 \<le> k" "nth_interval zones c a (cad_service_unit c) (cad_service_count c) k = Inr v" .
  have "boundary zones c a (cad_service_unit c) (cad_service_count c) 0 = Inr a" by (simp add: boundary_def)
  from boundary_le [OF assms(1,2) this nth_interval_parts(1) [OF a(3,2)] _ a(2)] a(1) assms(3)
  show ?thesis by (simp add: align_instant_def)
qed

lemma schedule_period:
  assumes "schedule digest zones db i authority cmd rows = Inr (res, rows')" and "find_version db (sc_version cmd) = Some ver"
  shows "make_cadence zones (cv_cadence ver) = Inr (cv_cadence ver)"
    "service_period zones (cv_cadence ver) (Instant (cv_starts_at ver)) (sc_index cmd) = Inr (sr_period res)"
    "cv_ends_at ver = Some e \<Longrightarrow> starts_at (sr_period res) < e"
proof -
  from assms obtain l c v where c: "cadence_of zones ver = Inr c"
    and v: "service_period zones c (Instant (cv_starts_at ver)) (sc_index cmd) = Inr v"
    and late: "\<not> (case cv_ends_at ver of None \<Rightarrow> False | Some e \<Rightarrow> e \<le> starts_at v)"
    and rest: "(case period_rows rows (cv_id ver) (sc_line_key cmd) v of
            [] \<Rightarrow> schedule_new digest zones db i authority cmd ver l v rows
          | [ob] \<Rightarrow> and_then (replayed_result digest cmd v ob) (\<lambda>res. Inr (res, rows))
          | _ \<Rightarrow> Inl Duplicate_obligation) = Inr (res, rows')"
    by (auto simp: schedule_def and_then_Inr from_cadence_Inr split: if_splits)
  have "sr_period res = v"
    using rest by (auto simp: schedule_new_def and_then_Inr replayed_result_def split: list.splits sum.splits if_splits)
  moreover have "c = cv_cadence ver" using c make_cadence_same by (auto simp: cadence_of_def)
  ultimately show "make_cadence zones (cv_cadence ver) = Inr (cv_cadence ver)"
    "service_period zones (cv_cadence ver) (Instant (cv_starts_at ver)) (sc_index cmd) = Inr (sr_period res)"
    "cv_ends_at ver = Some e \<Longrightarrow> starts_at (sr_period res) < e"
    using c v late by (auto simp: cadence_of_def)
qed

text \<open>
  Terms that change at a period boundary bill every instant once. When the successor of a version starts
  where a service period of that version ends (as pending terms do), and runs on the contract anniversary,
  both in civil zones, then whatever is scheduled for the closed version ends by the change and whatever is scheduled for its
  successor starts no earlier, so no instant is billed under both.
\<close>

theorem change_at_boundary_bills_once:
  assumes "contract_history zones sys sales db" and "v \<in> set (cd_versions db)" and "w \<in> set (cd_versions db)"
    and "cv_ends_at v = Some (cv_starts_at w)" and "cad_alignment (cv_cadence w) = Contract_anniversary"
    and "service_period zones (cv_cadence v) (Instant (cv_starts_at v)) k = Inr (Interval s (cv_starts_at w))"
    and "runs_in zones (cv_cadence v) z" and "runs_in zones (cv_cadence w) z'"
    and "schedule digest zones (billing_view taxes db) i authority cmd rows = Inr (res, rows1)" and "sc_version cmd = cv_id v"
    and "schedule digest zones (billing_view taxes' db) i' authority' cmd' rows' = Inr (res', rows2)" and "sc_version cmd' = cv_id w"
  shows "ends_at (sr_period res) \<le> cv_starts_at w \<and> cv_starts_at w \<le> starts_at (sr_period res')"
proof -
  have ok: "db_ok db" by (rule contract_history_ok [OF assms(1)])
  have found: "find_version (billing_view taxes db) (cv_id u) = Some (contract_version.truncate u)" if "u \<in> set (cd_versions db)" for u taxes
    by (simp add: find_version_view version_of_Some [OF ok, of "cv_id u" u, THEN iffD2, OF conjI, OF that refl])
  note old = schedule_period [OF assms(9) found [OF assms(2), folded assms(10)], simplified]
  note new = schedule_period [OF assms(11) found [OF assms(3), folded assms(12)], simplified]
  have "0 < cad_service_count (cv_cadence v)" "0 < cad_service_count (cv_cadence w)"
    using made_counts [OF old(1)] made_counts [OF new(1)] by simp_all
  note order = periods_in_order(1) [where count = cad_service_count, OF assms(7) this(1)]
  have "ends_at (sr_period res) \<le> cv_starts_at w"
  proof (cases "sc_index cmd" k rule: linorder_cases)
    case less
    have "ends_at (sr_period res) \<le> s"
      using order [OF old(2) [unfolded service_period_def] assms(6) [unfolded service_period_def] less] by simp
    moreover have "s < cv_starts_at w"
      using assms(6) by (auto simp: service_period_def period_def and_then_Inr nth_interval_def split: if_splits)
    ultimately show ?thesis by simp
  next
    case equal
    then have "sr_period res = Interval s (cv_starts_at w)" using old(2) assms(6) by simp
    then show ?thesis by simp
  next
    case greater
    have "cv_starts_at w \<le> starts_at (sr_period res)"
      using order [OF assms(6) [unfolded service_period_def] old(2) [unfolded service_period_def] greater] by simp
    then show ?thesis using old(3) [OF assms(4)] by simp
  qed
  moreover have "cv_starts_at w \<le> starts_at (sr_period res')"
    by (rule anniversary_after_start [OF assms(8) \<open>0 < cad_service_count (cv_cadence w)\<close> assms(5) new(2)])
  ultimately show ?thesis by blast
qed

end
