(* ===== verification/Contract_Pending.thy ===== *)
theory Contract_Pending
  imports Contract_Billing
begin

section \<open>Pending terms\<close>

text \<open>
  From the purchase of an add-on to its activation: what a purchase stages, that nothing in force changes
  before the boundary, that the fired timer always activates what was staged, and what it changes.
\<close>

subsection \<open>Staging\<close>

lemma period_containing_sound:
  "period_containing zones sys c (Instant s) (Instant t) n = Inr (k, v) \<Longrightarrow>
     service_period zones c (Instant s) k = Inr v \<and> contains v t"
  using walk_sound
  by (auto simp: period_containing_def require_aware_def align_start_def and_then_Inr split: if_splits)

definition pending_slot :: "string \<Rightarrow> timer_slot" where
  "pending_slot c = (contract_owner, ''billing_contract'', c, pending_purpose)"

lemma staged_timer:
  assumes "stage_pending i c d eff db = Inr (p, db')" and "timers_ok (cd_timers db)"
  obtains r ts where "db' = db\<lparr>cd_timers := ts\<rparr>" "timers_ok ts" "r \<in> set ts" "tm_status r = Timer_scheduled"
    "tm_due_at r = eff" "tm_id r = i" "tm_owner r = contract_owner" "tm_entity_kind r = ''billing_contract''"
    "tm_entity r = ct_id c" "tm_purpose r = pending_purpose" "tm_output r = pending_trigger" "tm_expected_version r = vr_number d"
    "p = \<lparr>pn_contract = ct_id c, pn_draft = cv_id d, pn_number = vr_number d, pn_effective_at = eff, pn_timer = i,
       pn_generation = tm_generation r\<rparr>"
proof -
  define cmd where "cmd = \<lparr>tc_owner = contract_owner, tc_entity_kind = ''billing_contract'', tc_entity = ct_id c,
     tc_purpose = pending_purpose, tc_due_at = Instant eff, tc_output = pending_trigger, tc_expected_version = vr_number d\<rparr>"
  have cmd: "tc_due_at cmd = Instant eff" "py_strip (tc_output cmd) \<noteq> []"
    by (simp add: cmd_def) (simp add: cmd_def, code_simp)
  from assms(1) obtain r ts where s: "schedule_timer True i cmd (cd_timers db) = Inr (r, ts)" "db' = db\<lparr>cd_timers := ts\<rparr>"
    "p = \<lparr>pn_contract = ct_id c, pn_draft = cv_id d, pn_number = vr_number d, pn_effective_at = eff, pn_timer = tm_id r,
       pn_generation = tm_generation r\<rparr>"
    by (auto simp: stage_pending_def cmd_def split: sum.splits)
  obtain rows1 r' g where all: "schedule_timer True i cmd (cd_timers db) = (if i \<in> tm_id ` set (cd_timers db) then Inl Timer_integrity_error else Inr (r', rows1 @ [r']))"
    "i \<notin> tm_id ` set (cd_timers db) \<longrightarrow> timers_ok (rows1 @ [r'])" "r' = new_timer i cmd g eff"
    by (rule schedule_timer_cases [OF assms(2) cmd, where i = i]) (rule that; assumption)
  from s(1) all(1) have new: "i \<notin> tm_id ` set (cd_timers db)" "r' = r" "ts = rows1 @ [r]" by (auto split: if_splits)
  have r: "r = new_timer i cmd g eff" using all(3) new(2) by simp
  show ?thesis
    by (rule that [of ts r]) (use s(2) all(2) new in \<open>simp_all add: s(3) r new_timer_def cmd_def\<close>)
qed

lemma current_in_force:
  assumes "filter version_in_force rows' = filter version_in_force rows"
  shows "current_effective rows' c = current_effective rows c"
proof -
  have "filter (\<lambda>v. cv_contract v = c \<and> vr_status v = Effective_version \<and> cv_ends_at v = None) xs =
      filter (\<lambda>v. cv_contract v = c \<and> vr_status v = Effective_version \<and> cv_ends_at v = None) (filter version_in_force xs)" for xs
    by (auto simp: version_in_force_def intro: filter_cong)
  note step = this
  show ?thesis unfolding current_effective_def by (subst step [of rows'], subst step [of rows]) (simp only: assms)
qed

text \<open>What a purchase leaves behind.\<close>

lemma same_line_key:
  assumes "same_line l' l"
  shows "ln_component l' = ln_component l" "lr_component_key l' = lr_component_key l"
proof -
  have "l' = l\<lparr>ln_version := ln_version l', lr_id := lr_id l'\<rparr>" using assms by (simp add: same_line_def)
  from arg_cong [OF this, of ln_component] arg_cong [OF this, of lr_component_key]
  show "ln_component l' = ln_component l" "lr_component_key l' = lr_component_key l" by simp_all
qed

lemma purchase_staged:
  assumes "db_ok db" and "drafts_ok db" and "consume_addon_purchase zones sys fr term db = Inr (Some p, db')" and "ap_purchased_at term = Instant t"
    and fit: "to_scale 14 4 (ap_quantity term) = Some (ap_quantity term)" "to_scale 14 4 (ap_price term) = Some (ap_price term)"
  obtains c cur d l k v r where
    "c \<in> set (cd_contracts db')" "ct_id c = pn_contract p" "ct_subscription c = ap_subscription term"
    "current_effective (cd_versions db) (pn_contract p) = Inr (Some cur)"
    "current_effective (cd_versions db') (pn_contract p) = Inr (Some cur)"
    "service_period zones (cv_cadence cur) (Instant (cv_starts_at cur)) k = Inr v" "contains v t" "pn_effective_at p = ends_at v"
    "d \<in> set (cd_versions db')" "cv_id d = pn_draft p" "cv_contract d = pn_contract p" "vr_number d = pn_number p"
    "vr_status d = Draft_version" "vr_supersedes d = Some (cv_id cur)" "cv_starts_at d = pn_effective_at p"
    "l \<in> set (lines_of db' (pn_draft p))" "ln_component l = Addon" "lr_component_key l = ap_addon term"
    "ln_quantity l = ap_quantity term" "ln_unit_price l = ap_price term" "ln_currency l = vr_currency cur"
    "recurring_addon l"
    "r \<in> set (cd_timers db')" "tm_status r = Timer_scheduled" "tm_due_at r = pn_effective_at p" "tm_id r = pn_timer p"
    "tm_owner r = contract_owner" "tm_entity_kind r = ''billing_contract''" "tm_entity r = pn_contract p"
    "tm_purpose r = pending_purpose" "tm_output r = pending_trigger" "tm_expected_version r = pn_number p" "tm_generation r = pn_generation p"
    "filter version_in_force (cd_versions db') = filter version_in_force (cd_versions db)"
    "db_ok db'"
  using assms(3)
proof (cases rule: consume_addon_purchase_cases)
  case (pending c cur cad k v t')
  have cad: "cad = cv_cadence cur" using make_cadence_same [OF pending(5)] .
  have period: "service_period zones (cv_cadence cur) (Instant (cv_starts_at cur)) k = Inr v" "contains v t"
    using period_containing_sound [OF pending(7)] pending(6) assms(4) cad by simp_all
  note held = db_ok_columns [OF assms(1)]
  have columns: "columns_held cur" using held(1) current_effectiveD(1) [OF pending(4)] by blast
  have ok': "db_ok db'"
    by (rule db_changes_ok [OF add_purchased_change [OF pending(12,1,4) columns held(2)] assms(1)])
  show ?thesis
  proof (cases rule: add_purchased_cases [OF pending(12,1,4) columns held(2)])
    case (1 d db1 n ls q)
    define d' where "d' = edit_row Plan_change (ct_subscription c) ''Pending live recurring add-on terms'' d"
    let ?rows = "put_row cv_id d' (cd_versions db1)"
    note f = pending_draft_change [OF 1(1) pending(1,4) columns held(2)]
    have ok1: "db_ok db1" by (rule db_changes_ok [OF f(1) assms(1)])
    have d': "cv_id d' = cv_id d" "vr_status d' = Draft_version" "cv_contract d' = ct_id c" "vr_number d' = vr_number d"
      "vr_supersedes d' = Some (cv_id cur)" "cv_starts_at d' = ends_at v"
      using 1(3-5) f(6) by (simp_all add: d'_def edit_row_def)
    have q: "q = p" using 1(10) by simp
    from 1(9) [folded d'_def] q f(7) obtain r ts where
      stage: "db' = db1\<lparr>cd_versions := ?rows, cd_lines := cd_lines db1 @ ls, cd_timers := ts\<rparr>"
      and r: "r \<in> set ts" "tm_status r = Timer_scheduled" "tm_due_at r = ends_at v" "tm_id r = fr_timer fr" "tm_owner r = contract_owner"
      "tm_entity_kind r = ''billing_contract''" "tm_entity r = ct_id c" "tm_purpose r = pending_purpose" "tm_output r = pending_trigger"
      "tm_expected_version r = vr_number d"
      and p: "p = \<lparr>pn_contract = ct_id c, pn_draft = cv_id d, pn_number = vr_number d, pn_effective_at = ends_at v,
        pn_timer = fr_timer fr, pn_generation = tm_generation r\<rparr>"
      using db_okD(2) [OF ok1] by (auto elim!: staged_timer)
    have "\<exists>l \<in> set (lines_of db' (cv_id d)). ln_component l = Addon \<and> lr_component_key l = ap_addon term \<and>
        ln_quantity l = ap_quantity term \<and> ln_unit_price l = ap_price term \<and> ln_currency l = vr_currency cur \<and>
        recurring_addon l"
      using 1(7)
    proof (elim disjE conjE exE)
      fix l assume l: "addon_lines db1 (cv_id d) (ap_addon term) = [l]" "same_terms term (vr_currency cur) (treatment_of cur) l"
      have "l \<in> set (addon_lines db1 (cv_id d) (ap_addon term))" using l(1) by simp
      then have in1: "l \<in> set (lines_of db1 (cv_id d))" "ln_component l = Addon" "lr_component_key l = ap_addon term"
        by (simp_all add: addon_lines_def lines_of_def)
      have "recurring_addon l"
      proof (rule ccontr)
        assume "\<not> recurring_addon l"
        moreover have "draft_follows db1 d" using db_changes_drafts [OF f(1) assms(1,2)] 1(2,3) by (simp add: drafts_ok_def)
        then obtain u where u: "u \<in> set (cd_versions db1)" "cv_id u = cv_id cur"
          "\<forall>l' \<in> set (lines_of db1 (cv_id d)). \<not> recurring_addon l' \<longrightarrow> (\<exists>l \<in> set (lines_of db1 (cv_id u)). same_line l' l)"
          using f(6) by (auto simp: draft_follows_def)
        ultimately obtain l0 where l0: "l0 \<in> set (lines_of db1 (cv_id cur))" "same_line l l0" using in1(1) by auto
        have "db_kept db db1" by (rule db_changes_kept [OF f(1) assms(1)])
        then have "lines_of db1 (cv_id cur) = lines_of db (cv_id cur)"
          using current_effectiveD(1,3) [OF pending(4)] by (auto simp: db_kept_def)
        then have "l0 \<in> set (lines_of db (cv_id cur))" using l0(1) by simp
        then have "l0 \<in> set (addon_lines db (cv_id cur) (ap_addon term))"
          using in1(2,3) same_line_key [OF l0(2)] by (simp add: addon_lines_def lines_of_def)
        then show False by (simp add: pending(11))
      qed
      then show ?thesis using l(2) in1 by (auto simp: same_terms_def stage lines_of_def)
    next
      fix l assume ls: "ls = [l]" and l: "stored_line (addon_line fr n (db1\<lparr>cd_versions := put_row cv_id (edit_row Plan_change
        (ct_subscription c) ''Pending live recurring add-on terms'' d) (cd_versions db1)\<rparr>) (ct_id c) (cv_id d) cur (ap_addon term)
        (ap_description term) (ap_quantity term) (ap_price term) (vr_currency cur)) = Some l"
      from l fit have "ln_version l = cv_id d" "ln_component l = Addon" "lr_component_key l = ap_addon term" "ln_quantity l = ap_quantity term"
        "ln_unit_price l = ap_price term" "ln_currency l = vr_currency cur" "recurring_addon l"
        by (auto simp: stored_line_Some addon_line_def recurring_addon_def)
      then show ?thesis by (auto simp: stage lines_of_def ls)
    qed
    then obtain l where l: "l \<in> set (lines_of db' (pn_draft p))" "ln_component l = Addon" "lr_component_key l = ap_addon term"
      "ln_quantity l = ap_quantity term" "ln_unit_price l = ap_price term" "ln_currency l = vr_currency cur" "recurring_addon l" by (auto simp: p)
    have "filter version_in_force ?rows = filter version_in_force (cd_versions db1)"
      by (rule filter_put_row [OF rows_okD(1) [OF db_okD(1) [OF ok1]] 1(2)]) (use 1(3) d' in \<open>simp_all add: version_in_force_def\<close>)
    then have force: "filter version_in_force (cd_versions db') = filter version_in_force (cd_versions db)" using f(9) by (simp add: stage)
    have in': "d' \<in> set (cd_versions db')" using put_row_new [OF 1(2), of cv_id d'] d'(1) by (simp add: stage)
    show ?thesis
      by (rule that [of c cur k v d' l r])
        (use pending(1,2,4) period d' in' l r f(8) force ok' current_in_force [OF force] in \<open>simp_all add: p stage\<close>)
  qed
qed simp

text \<open>
  A purchase waits for the period boundary. In every history, an accepted purchase of a recurring add-on
  (with amounts its columns hold) takes effect at the end of the service period of the current version that
  contains the purchase: a draft with the terms of the current version starts there and carries the bought
  line, the current timer of the contract is due exactly then and names the draft by its number, and every
  version in force, with its lines, is as it was.
\<close>

theorem purchase_waits_for_boundary:
  assumes "contract_history zones sys sales db" and "consume_addon_purchase zones sys fr term db = Inr (Some p, db')"
    and "ap_purchased_at term = Instant t"
    and "to_scale 14 4 (ap_quantity term) = Some (ap_quantity term)" and "to_scale 14 4 (ap_price term) = Some (ap_price term)"
  shows "(\<exists>cur \<in> set (cd_versions db). \<exists>k v. cv_contract cur = pn_contract p \<and> vr_status cur = Effective_version \<and>
      service_period zones (cv_cadence cur) (Instant (cv_starts_at cur)) k = Inr v \<and> contains v t \<and> pn_effective_at p = ends_at v \<and>
      (\<exists>d \<in> set (cd_versions db'). cv_id d = pn_draft p \<and> vr_number d = pn_number p \<and> vr_status d = Draft_version \<and>
        vr_supersedes d = Some (cv_id cur) \<and> cv_starts_at d = pn_effective_at p \<and> carried_terms d = carried_terms cur)) \<and>
    (\<exists>l \<in> set (lines_of db' (pn_draft p)). ln_component l = Addon \<and> lr_component_key l = ap_addon term \<and>
      ln_quantity l = ap_quantity term \<and> ln_unit_price l = ap_price term) \<and>
    (\<exists>r. current_timer (cd_timers db') (pending_slot (pn_contract p)) = Inr (Some r) \<and> tm_due_at r = pn_effective_at p \<and>
      tm_expected_version r = pn_number p) \<and>
    filter version_in_force (cd_versions db') = filter version_in_force (cd_versions db) \<and>
    (\<forall>x \<in> set (cd_versions db). version_in_force x \<longrightarrow> lines_of db' (cv_id x) = lines_of db (cv_id x))"
proof -
  have ok: "db_ok db" by (rule contract_history_ok [OF assms(1)])
  have after: "contract_history zones sys sales db'"
    by (rule Next_contracts [OF assms(1) Purchase_step [OF assms(2)]])
  have kept: "db_kept db db'" using contract_step_kept [OF Purchase_step [OF assms(2)] ok] by blast
  show ?thesis
  proof (cases rule: purchase_staged [OF ok contract_history_drafts [OF assms(1)] assms(2-5)])
    case (1 c cur d l k v r)
    note cur = current_effectiveD [OF 1(4)]
    have "draft_follows db' d" using contract_history_drafts [OF after] 1(9,13) by (simp add: drafts_ok_def)
    then obtain u where u: "u \<in> set (cd_versions db')" "cv_id u = cv_id cur" "carried_terms d = carried_terms u"
      using 1(14) by (auto simp: draft_follows_def)
    have "u = cur"
      using rows_okD(5) [OF db_okD(1) [OF contract_history_ok [OF after]] u(1) current_effectiveD(1) [OF 1(5)]] u(2) by simp
    moreover have "current_timer (cd_timers db') (pending_slot (pn_contract p)) = Inr (Some r)"
      using current_timer_iff [OF db_okD(2) [OF 1(35)]] 1(23,24,27-30) by (simp add: timer_key_def pending_slot_def)
    moreover have "lines_of db' (cv_id x) = lines_of db (cv_id x)" if "x \<in> set (cd_versions db)" "version_in_force x" for x
      using kept that by (auto simp: db_kept_def version_in_force_def)
    ultimately show ?thesis using 1 cur u(3) by blast
  qed
qed

subsection \<open>Activation\<close>

lemma supersede_draft:
  assumes "db_ok db" and "drafts_ok db" and "current_effective (cd_versions db) c = Inr (Some cur)" and "d \<in> set (cd_versions db)"
    and "vr_status d = Draft_version" and "cv_contract d = c" and "vr_supersedes d = Some (cv_id cur)"
  shows "can_update (cd_versions db) (close_version (cv_starts_at d) cur)"
    "can_update (close_rows (cv_starts_at d) (Some cur) (cd_versions db)) (d\<lparr>vr_status := Effective_version\<rparr>)"
    "carried_terms d = carried_terms cur" "cv_starts_at cur < cv_starts_at d"
    "\<forall>l \<in> set (lines_of db (cv_id cur)). \<not> recurring_addon l \<longrightarrow> (\<exists>l' \<in> set (lines_of db (cv_id d)). same_line l' l)"
    "\<forall>l' \<in> set (lines_of db (cv_id d)). \<not> recurring_addon l' \<longrightarrow> (\<exists>l \<in> set (lines_of db (cv_id cur)). same_line l' l)"
proof -
  note ok = rows_okD [OF db_okD(1) [OF assms(1)]] and cur = current_effectiveD [OF assms(3)]
  from assms(2,4,5,7) obtain u where u: "u \<in> set (cd_versions db)" "cv_id u = cv_id cur" "cv_starts_at u < cv_starts_at d"
    "carried_terms d = carried_terms u"
    "\<forall>l \<in> set (lines_of db (cv_id u)). \<not> recurring_addon l \<longrightarrow> (\<exists>l' \<in> set (lines_of db (cv_id d)). same_line l' l)" "\<forall>l' \<in> set (lines_of db (cv_id d)). \<not> recurring_addon l' \<longrightarrow> (\<exists>l \<in> set (lines_of db (cv_id u)). same_line l' l)"
    by (auto simp: drafts_ok_def draft_follows_def)
  have "u = cur" using ok(5) [OF u(1) cur(1)] u(2) by simp
  with u show later: "cv_starts_at cur < cv_starts_at d" and "carried_terms d = carried_terms cur"
    "\<forall>l \<in> set (lines_of db (cv_id cur)). \<not> recurring_addon l \<longrightarrow> (\<exists>l' \<in> set (lines_of db (cv_id d)). same_line l' l)"
    "\<forall>l' \<in> set (lines_of db (cv_id d)). \<not> recurring_addon l' \<longrightarrow> (\<exists>l \<in> set (lines_of db (cv_id cur)). same_line l' l)" by simp_all
  have number: "x = y" if "x \<in> set (cd_versions db)" "y \<in> set (cd_versions db)" "cv_contract x = cv_contract y" "vr_number x = vr_number y" for x y
    using gapless_distinct [OF ok(2)] that by (auto simp: distinct_map inj_on_def)
  show "can_update (cd_versions db) (close_version (cv_starts_at d) cur)"
    using ok(3) [OF cur(1)] later number [OF _ cur(1)]
    by (auto simp: can_update_def version_allowed_def close_version_def version_collides_def row_good_def)
  have "\<not> version_collides x (d\<lparr>vr_status := Effective_version\<rparr>)" if x: "x \<in> set (close_rows (cv_starts_at d) (Some cur) (cd_versions db))" "cv_id x \<noteq> cv_id d" for x
  proof -
    consider "x = close_version (cv_starts_at d) cur" | "x \<in> set (cd_versions db)" "cv_id x \<noteq> cv_id cur"
      using put_row_set [of x cv_id "close_version (cv_starts_at d) cur" "cd_versions db"] x(1) by (auto simp: close_rows_def close_version_def)
    then show ?thesis
    proof cases
      case 1
      then show ?thesis using number [OF cur(1) assms(4)] cur(3) assms(5) by (auto simp: version_collides_def close_version_def)
    next
      case 2
      have "\<not> clash x cur" using ok(4) [OF 2(1) cur(1)] 2(2) by auto
      moreover have "vr_number x \<noteq> vr_number d \<or> cv_contract x \<noteq> cv_contract d" using number [OF 2(1) assms(4)] x(2) by auto
      ultimately show ?thesis
        using later cur(2-4) assms(6) by (auto simp: clash_def version_collides_def versions_overlap_def before_end_def split: option.splits)
    qed
  qed
  moreover have "version_allowed (d\<lparr>vr_status := Effective_version\<rparr>)"
    using ok(3) [OF assms(4)] by (auto simp: row_good_def version_allowed_def split: option.splits)
  ultimately show "can_update (close_rows (cv_starts_at d) (Some cur) (cd_versions db)) (d\<lparr>vr_status := Effective_version\<rparr>)"
    by (simp add: can_update_def)
qed

text \<open>
  What activation changes. In every history, when due pending terms take effect, the version they
  supersede is closed exactly where they start, the new version is effective from there on without end, with
  the price, currency, cadence, taxes and discount of the superseded one and a copy, under the same line key,
  of each of its lines except recurring add-ons, and every other line it has is a recurring add-on; no other
  version and no line is touched.
\<close>

theorem activation_changes_only_addons:
  assumes "contract_history zones sys sales db" and "consume_pending_due sales act db = Inr ((r, out), db')"
  shows "\<exists>cur d. cur \<in> set (cd_versions db) \<and> d \<in> set (cd_versions db) \<and> vr_status d = Draft_version \<and> cv_id d = vs_version r \<and>
    cv_starts_at cur < cv_starts_at d \<and> cv_ends_at d = None \<and> carried_terms d = carried_terms cur \<and>
    set (cd_versions db') = {d\<lparr>vr_status := Effective_version\<rparr>, close_version (cv_starts_at d) cur} \<union> (set (cd_versions db) - {cur, d}) \<and>
    cd_lines db' = cd_lines db \<and>
    (\<forall>l \<in> set (lines_of db (cv_id cur)). \<not> recurring_addon l \<longrightarrow> (\<exists>l' \<in> set (lines_of db (cv_id d)). same_line l' l)) \<and>
    (\<forall>l' \<in> set (lines_of db (cv_id d)). \<not> recurring_addon l' \<longrightarrow> (\<exists>l \<in> set (lines_of db (cv_id cur)). same_line l' l))"
  using assms(2)
proof (cases rule: consume_pending_due_cases)
  case (1 t c d cur rows)
  have db: "db_ok db" by (rule contract_history_ok [OF assms(1)])
  note ok = rows_okD [OF db_okD(1) [OF db]] and cur = current_effectiveD [OF 1(10)]
  note s = supersede_draft [OF db contract_history_drafts [OF assms(1)] 1(10,6,9,7,11)]
  define w where "w = d\<lparr>vr_status := Effective_version\<rparr>"
  define u where "u = close_version (cv_starts_at d) cur"
  have ids: "cv_id d \<noteq> cv_id cur" using ok(5) [OF 1(6) cur(1)] cur(3) 1(9) by auto
  have rows: "rows = put_row cv_id w (put_row cv_id u (cd_versions db))" by (simp add: 1(15) close_rows_def u_def w_def)
  have keys: "cv_id w = cv_id d" "cv_id u = cv_id cur" by (simp_all add: w_def u_def close_version_def)
  have same: "x = cur" if "x \<in> set (cd_versions db)" "cv_id x = cv_id cur" for x using ok(5) that cur(1) by blast
  have same': "x = d" if "x \<in> set (cd_versions db)" "cv_id x = cv_id d" for x using ok(5) that 1(6) by blast
  have set: "x \<in> set rows \<longleftrightarrow> x = w \<or> x = u \<or> x \<in> set (cd_versions db) \<and> x \<noteq> cur \<and> x \<noteq> d" for x
  proof
    assume "x \<in> set rows"
    then show "x = w \<or> x = u \<or> x \<in> set (cd_versions db) \<and> x \<noteq> cur \<and> x \<noteq> d"
      using put_row_set [of x cv_id w "put_row cv_id u (cd_versions db)"] put_row_set [of x cv_id u "cd_versions db"]
      by (auto simp: rows keys)
  next
    have u: "u \<in> set (put_row cv_id u (cd_versions db))" by (rule put_row_new [OF cur(1)]) (simp add: keys)
    have d: "d \<in> set (put_row cv_id u (cd_versions db))" by (rule put_row_kept [OF 1(6)]) (simp add: keys ids)
    have "w \<in> set rows" unfolding rows by (rule put_row_new [OF d]) (simp add: keys)
    moreover have "u \<in> set rows" unfolding rows by (rule put_row_kept [OF u]) (simp add: keys ids [symmetric])
    moreover have "x \<in> set rows" if "x \<in> set (cd_versions db)" "x \<noteq> cur" "x \<noteq> d" for x
      unfolding rows using that same same' by (intro put_row_kept) (auto simp: keys)
    ultimately show "x = w \<or> x = u \<or> x \<in> set (cd_versions db) \<and> x \<noteq> cur \<and> x \<noteq> d \<Longrightarrow> x \<in> set rows" by blast
  qed
  have "vs_version r = cv_id d"
    using 1(17) by (auto simp: activate_def and_then_Inr Let_def activation_result_def)
  moreover have "cv_ends_at d = None" using ok(3) [OF 1(6)] 1(9) by (simp add: row_good_def status_in_step_def)
  moreover have "set rows = {w, u} \<union> (set (cd_versions db) - {cur, d})" using set by blast
  then have "set (cd_versions db') = {d\<lparr>vr_status := Effective_version\<rparr>, close_version (cv_starts_at d) cur} \<union> (set (cd_versions db) - {cur, d})"
    unfolding w_def u_def by (simp add: 1(16))
  moreover have "cd_lines db' = cd_lines db" by (simp add: 1(16))
  ultimately show ?thesis
    using s(3-6) cur(1) 1(6,9) by - (rule exI [of _ cur], rule exI [of _ d], intro conjI, (assumption | rule sym, assumption)+)
qed

subsection \<open>From the purchase to the bill\<close>

text \<open>A version in force of the contract was opened by a sale whose line is known.\<close>

definition sold :: "(string \<times> string) list \<Rightarrow> version_row list \<Rightarrow> string \<Rightarrow> bool" where
  "sold sales rows c \<longleftrightarrow> (\<exists>v \<in> set rows. version_in_force v \<and> cv_contract v = c \<and> cv_source_kind v = Sales_order_line \<and>
     cv_source_id v \<in> fst ` set sales)"

lemma sold_anchor:
  assumes "v \<in> set rows" and "cv_contract v = c" and "cv_source_kind v = Sales_order_line" and "cv_source_id v \<in> fst ` set sales"
  shows "\<exists>order. sales_order_anchor sales rows c = Inr order"
proof -
  from assms(4) obtain order where "(cv_source_id v, order) \<in> set sales" by auto
  with assms(1-3) have "(v, order) \<in> set (sale_versions sales rows c)" by (auto simp: sale_versions_def)
  then have "greatest (\<lambda>(v, order). - vr_number v) (sale_versions sales rows c) \<noteq> None" by (auto simp: greatest_None)
  then show ?thesis by (auto simp: sales_order_anchor_def)
qed

lemma activate_succeeds:
  assumes "db_ok db" and "drafts_ok db" and "current_effective (cd_versions db) (ct_id c) = Inr (Some cur)" and "d \<in> set (cd_versions db)"
    and "vr_status d = Draft_version" and "cv_contract d = ct_id c" and "vr_supersedes d = Some (cv_id cur)"
    and "sold sales (cd_versions db) (ct_id c)"
  shows "\<exists>r out db'. activate sales c cur d db = Inr ((r, out), db') \<and> vs_version r = cv_id d \<and>
    d\<lparr>vr_status := Effective_version\<rparr> \<in> set (cd_versions db') \<and> cd_lines db' = cd_lines db \<and>
    (\<forall>l \<in> set (lines_of db (cv_id d)). \<not> ln_is_finite l \<longrightarrow> (cv_id d, ln_key l, 0) \<in> set (ro_obligations out))"
proof -
  note s = supersede_draft [OF assms(1-7)]
  let ?w = "d\<lparr>vr_status := Effective_version\<rparr>" and ?u = "close_version (cv_starts_at d) cur"
  define rows where "rows = put_row cv_id ?w (put_row cv_id ?u (cd_versions db))"
  note ok = rows_okD [OF db_okD(1) [OF assms(1)]] and cur = current_effectiveD [OF assms(3)]
  have ids: "cv_id d \<noteq> cv_id cur" using ok(5) [OF assms(4) cur(1)] cur(3) assms(5) by auto
  have d: "d \<in> set (put_row cv_id ?u (cd_versions db))" by (rule put_row_kept [OF assms(4)]) (simp add: close_version_def ids)
  have w: "?w \<in> set rows" unfolding rows_def by (rule put_row_new [OF d]) simp
  from assms(8) obtain v where v: "v \<in> set (cd_versions db)" "version_in_force v" "cv_contract v = ct_id c" "cv_source_kind v = Sales_order_line"
    "cv_source_id v \<in> fst ` set sales" by (auto simp: sold_def)
  have "v \<noteq> d" using v(2) assms(5) by (auto simp: version_in_force_def)
  then have vd: "cv_id v \<noteq> cv_id d" using ok(5) [OF v(1) assms(4)] by auto
  have "\<exists>x \<in> set rows. cv_contract x = ct_id c \<and> cv_source_kind x = Sales_order_line \<and> cv_source_id x \<in> fst ` set sales"
  proof (cases "cv_id v = cv_id cur")
    case True
    then have "v = cur" using ok(5) [OF v(1) cur(1)] by simp
    moreover have "?u \<in> set rows"
      unfolding rows_def by (rule put_row_kept [OF put_row_new [OF cur(1)]]) (simp_all add: close_version_def ids [symmetric])
    ultimately show ?thesis using v(3-5) by (intro bexI [of _ ?u]) (simp_all add: close_version_def)
  next
    case False
    then have "v \<in> set rows" unfolding rows_def using v(1) vd by (intro put_row_kept) (simp_all add: close_version_def)
    then show ?thesis using v(3-5) by blast
  qed
  then obtain order where order: "sales_order_anchor sales rows (ct_id c) = Inr order" using sold_anchor by blast
  have up: "update_version (cd_versions db) ?u = Inr (put_row cv_id ?u (cd_versions db))"
    "update_version (put_row cv_id ?u (cd_versions db)) ?w = Inr rows"
    using s(1,2) by (simp_all add: update_version_Inr rows_def close_rows_def)
  let ?r = "activation_result c d (db\<lparr>cd_versions := rows\<rparr>)"
  have "(cv_id d, ln_key l, 0) \<in> set (obligation_inputs (db\<lparr>cd_versions := rows\<rparr>) ?r)"
    if "l \<in> set (lines_of db (cv_id d))" "\<not> ln_is_finite l" for l
    using that by (auto simp: obligation_inputs_def activation_result_def line_ids_def lines_of_def image_iff)
  then show ?thesis
    using w by (auto simp: activate_def up order Let_def shadow_output_def) (auto simp: activation_result_def)
qed

text \<open>A batch large enough fires every due timer.\<close>

lemma fire_due_all:
  assumes "distinct (map tm_id rows)" and "fire_due event now limit rows = (trs, ts)" and "r \<in> set rows" and "due_by now r"
    and "length (filter (due_by now) rows) \<le> limit"
  shows "trigger_of event r \<in> set trs" "mark_fired event now r \<in> set ts"
proof -
  have "due_timers now limit rows = sort_key tm_due_at (filter (due_by now) rows)" using assms(5) by (simp add: due_timers_def)
  then have "r \<in> set (due_timers now limit rows)" using assms(3,4) by simp
  then show "trigger_of event r \<in> set trs" "mark_fired event now r \<in> set ts"
    using assms(2,3) fire_due_rows [OF assms(1), of event now limit] by (auto simp: fire_due_def Let_def)
qed

text \<open>
  C11: a purchased add-on reaches its bill. In every history, for a contract opened by a known sale, an accepted
  purchase with amounts its columns hold is followed through, if no other command comes in between: a scan at
  or after the boundary that is large enough for the due timers announces the staged timer; the announced
  trigger, delivered to the owner, is accepted; and then the draft is the effective version from the boundary
  on, without end, it holds the add-on at the purchased quantity and price, and the output asks for the
  obligation of exactly that line.
\<close>

theorem purchased_addon_is_billed:
  assumes "contract_history zones sys sales db" and "consume_addon_purchase zones sys fr term db = Inr (Some p, db1)"
    and "ap_purchased_at term = Instant t"
    and "to_scale 14 4 (ap_quantity term) = Some (ap_quantity term)" and "to_scale 14 4 (ap_price term) = Some (ap_price term)"
    and "sold sales (cd_versions db) (pn_contract p)"
    and "fire_due event now limit (cd_timers db1) = (trs, ts)" and "pn_effective_at p \<le> now"
    and "length (filter (due_by now) (cd_timers db1)) \<le> limit"
  shows "\<exists>tr \<in> set trs. \<exists>act r out db2. tr_timer tr = pn_timer p \<and> delivered tr = Some act \<and>
    consume_pending_due sales act (db1\<lparr>cd_timers := ts\<rparr>) = Inr ((r, out), db2) \<and> vs_version r = pn_draft p \<and>
    (\<exists>w \<in> set (cd_versions db2). cv_id w = pn_draft p \<and> vr_status w = Effective_version \<and>
      cv_starts_at w = pn_effective_at p \<and> cv_ends_at w = None) \<and>
    (\<exists>l \<in> set (lines_of db2 (pn_draft p)). ln_component l = Addon \<and> lr_component_key l = ap_addon term \<and>
      ln_quantity l = ap_quantity term \<and> ln_unit_price l = ap_price term \<and> (pn_draft p, ln_key l, 0) \<in> set (ro_obligations out))"
proof -
  have ok: "db_ok db" by (rule contract_history_ok [OF assms(1)])
  have after: "contract_history zones sys sales db1"
    by (rule Next_contracts [OF assms(1) Purchase_step [OF assms(2)]])
  show ?thesis
  proof (cases rule: purchase_staged [OF ok contract_history_drafts [OF assms(1)] assms(2-5)])
    case (1 c cur d l k v r)
    note ok1 = 1(35) and timers = db_okD(2) [OF 1(35)]
    have fired: "trigger_of event r \<in> set trs" "mark_fired event now r \<in> set ts"
      using fire_due_all [OF timers_okD(1) [OF timers] assms(7) 1(23) _ assms(9)] 1(24,25) assms(8) by (simp_all add: due_by_def)
    have "timers_ok ts" using fire_due_ok [OF timers, of event now limit] assms(7) by simp
    define tr where "tr = trigger_of event r"
    define act where "act = \<lparr>ac_contract = pn_contract p, ac_timer = pn_timer p, ac_expected_version = pn_number p, ac_generation = pn_generation p\<rparr>"
    let ?db = "db1\<lparr>cd_timers := ts\<rparr>"
    have tr: "tr_timer tr = pn_timer p" "delivered tr = Some act"
      using 1(26-33) by (simp_all add: tr_def trigger_of_def delivered_def act_def)
    have "db_ok ?db" using ok1 \<open>timers_ok ts\<close> by (simp add: db_ok_def at_home_def)
    moreover have "drafts_ok ?db" using contract_history_drafts [OF after] by (simp add: drafts_ok_def draft_follows_def)
    moreover have "sold sales (cd_versions ?db) (ct_id c)"
    proof -
      have "sold sales (filter version_in_force (cd_versions db)) (ct_id c)" using assms(6) 1(2) by (auto simp: sold_def)
      then show ?thesis unfolding 1(34) [symmetric] by (auto simp: sold_def)
    qed
    ultimately obtain r' out db2 where act': "activate sales c cur d ?db = Inr ((r', out), db2)" "vs_version r' = cv_id d"
      "d\<lparr>vr_status := Effective_version\<rparr> \<in> set (cd_versions db2)" "cd_lines db2 = cd_lines db1"
      "\<forall>l \<in> set (lines_of db1 (cv_id d)). \<not> ln_is_finite l \<longrightarrow> (cv_id d, ln_key l, 0) \<in> set (ro_obligations out)"
      using activate_succeeds [of ?db c cur d sales] 1(2,5,9,11,13,14) by auto
    have rows: "distinct (cd_versions db1)" "\<And>x. x \<in> set (cd_versions db1) \<Longrightarrow> cv_contract x = ct_id c \<Longrightarrow> vr_number x = pn_number p \<Longrightarrow> x = d"
      using rows_okD(1) [OF db_okD(1) [OF ok1]] gapless_distinct [OF rows_okD(2) [OF db_okD(1) [OF ok1]]] 1(2,9,11,12)
      by (auto simp: distinct_map inj_on_def)
    have "consume_pending_due sales act ?db = Inr ((r', out), db2)"
    proof -
      have timer: "List.find (\<lambda>x. tm_id x = ac_timer act) ts = Some (mark_fired event now r)"
        by (rule find_unique [OF timers_okD(1) [OF \<open>timers_ok ts\<close>] fired(2)]) (simp add: act_def 1(26))
      have matches: "timer_matches act (mark_fired event now r)"
        using 1(27-33) by (simp add: timer_matches_def act_def mark_fired_def)
      have contract: "List.find (\<lambda>x. ct_id x = ac_contract act) (cd_contracts db1) = Some c"
        by (rule find_unique [OF db_okD(5) [OF ok1] 1(1)]) (simp add: act_def 1(2))
      have version: "filter (\<lambda>x. cv_contract x = pn_contract p \<and> vr_number x = ac_expected_version act) (cd_versions db1) = [d]"
        by (rule filter_single [OF rows(1) 1(9)]) (use rows(2) 1(2,11,12) in \<open>auto simp: act_def\<close>)
      show ?thesis
        using act'(1) 1(2,5,13-15,25)
        by (simp add: consume_pending_due_def timer matches contract version one_or_none_def)
    qed
    moreover have "cv_ends_at d = None"
      using rows_okD(3) [OF db_okD(1) [OF ok1] 1(9)] 1(13) by (simp add: row_good_def status_in_step_def)
    moreover have "l \<in> set (lines_of db2 (pn_draft p))" "(pn_draft p, ln_key l, 0) \<in> set (ro_obligations out)"
      using act'(4,5) 1(10,16,22) by (simp_all add: lines_of_def recurring_addon_def)
    ultimately show ?thesis
      using fired(1) tr act'(2,3) 1(10,15,17-20) unfolding tr_def [symmetric]
      by (intro bexI [of _ tr] exI [of _ act] exI [of _ r'] exI [of _ out] exI [of _ db2] conjI
          bexI [of _ "d\<lparr>vr_status := Effective_version\<rparr>"] bexI [of _ l]) simp_all
  qed
qed

end
