(* ===== verification/Entitlement.thy ===== *)
theory Entitlement
  imports Contract_History
begin

section \<open>Postpaid entitlement\<close>

text \<open>
  Models \<open>postpaid_entitlement_history_for_period\<close> of \<open>app/services/billing/contracts.py\<close>: the intervals of a
  period in which a subscription is entitled by an authoritative contract, and the gaps. The text of an
  issue is its constructor. The eligible time and the completeness the scorer of service levels starts from
  are these, for a postpaid subscription.
\<close>

datatype entitlement_issue = Missing_contract | Shadow_contract string | Shadow_version string | Contract_gap int

record entitlement_interval =
  en_subscription :: string
  en_contract :: string
  en_version :: string
  en_start :: int
  en_end :: int

record entitlement_history =
  eh_subscription :: string
  eh_start :: int
  eh_end :: int
  eh_intervals :: "entitlement_interval list"
  eh_complete :: bool
  eh_issues :: "entitlement_issue list"

text \<open>\<open>_aware_utc\<close>: a time without zone is read in UTC.\<close>

fun aware_utc :: "moment \<Rightarrow> int" where
  "aware_utc (Naive_time w) = w"
| "aware_utc (Instant t) = t"

text \<open>\<open>dict.fromkeys\<close> keeps the first of equal keys.\<close>

definition dict_keys :: "'a list \<Rightarrow> 'a list" where
  "dict_keys xs = rev (remdups (rev xs))"

definition contract_rows :: "contract_db \<Rightarrow> string \<Rightarrow> int \<Rightarrow> int \<Rightarrow> version_row list" where
  "contract_rows db c s e =
     sort_key cv_starts_at (sort_key vr_number (filter (\<lambda>v. cv_contract v = c \<and> version_in_force v \<and> cv_starts_at v < e \<and>
       before_end s (cv_ends_at v)) (cd_versions db)))"

definition until :: "int option \<Rightarrow> int \<Rightarrow> int" where
  "until end e = (case end of None \<Rightarrow> e | Some x \<Rightarrow> min x e)"

fun entitled_rows :: "string \<Rightarrow> string \<Rightarrow> int \<Rightarrow> int \<Rightarrow> version_row list \<Rightarrow> entitlement_issue list \<times> entitlement_interval list" where
  "entitled_rows sub c s e [] = ([], [])"
| "entitled_rows sub c s e (v # vs) =
     (let (issues, intervals) = entitled_rows sub c s e vs in
      if vr_authority v \<noteq> Authoritative then (Shadow_version (cv_id v) # issues, intervals)
      else if until (cv_ends_at v) e \<le> max (cv_starts_at v) s then (issues, intervals)
      else (issues, \<lparr>en_subscription = sub, en_contract = c, en_version = cv_id v, en_start = max (cv_starts_at v) s,
              en_end = until (cv_ends_at v) e\<rparr> # intervals))"

fun walk_coverage :: "entitlement_interval list \<Rightarrow> int \<Rightarrow> entitlement_issue list \<times> int" where
  "walk_coverage [] cursor = ([], cursor)"
| "walk_coverage (i # rest) cursor =
     (if en_end i \<le> cursor then walk_coverage rest cursor
      else if cursor < en_start i then ([Contract_gap cursor], cursor)
      else walk_coverage rest (max cursor (en_end i)))"

definition authoritative_history :: "contract_db \<Rightarrow> contract \<Rightarrow> string \<Rightarrow> int \<Rightarrow> int \<Rightarrow> entitlement_history" where
  "authoritative_history db c sub s e =
     (let (shadow, intervals) = entitled_rows sub (ct_id c) s e (contract_rows db (ct_id c) s e);
          from = max (ct_opened_at c) s; to = until (ct_closed_at c) e;
          (gaps, cursor) = walk_coverage intervals from;
          issues = shadow @ gaps @ (if from < to \<and> cursor < to then [Contract_gap cursor] else []) in
      \<lparr>eh_subscription = sub, eh_start = s, eh_end = e, eh_intervals = intervals, eh_complete = (issues = []),
       eh_issues = dict_keys issues\<rparr>)"

definition postpaid_entitlement_history :: "contract_db \<Rightarrow> string \<Rightarrow> moment \<Rightarrow> moment \<Rightarrow> billing_contract_error + entitlement_history" where
  "postpaid_entitlement_history db sub period_start period_end =
     (let s = aware_utc period_start; e = aware_utc period_end;
          nothing = (\<lambda>issue. \<lparr>eh_subscription = sub, eh_start = s, eh_end = e, eh_intervals = [], eh_complete = False,
                       eh_issues = [issue]\<rparr>) in
      if e \<le> s then Inl Invalid_entitlement_period
      else and_then (one_or_none Several_rows (filter (\<lambda>c. ct_subscription c = sub) (cd_contracts db))) (\<lambda>found.
        case found of
          None \<Rightarrow> Inr (nothing Missing_contract)
        | Some c \<Rightarrow>
            if ct_authority c \<noteq> Authoritative then Inr (nothing (Shadow_contract (ct_id c)))
            else Inr (authoritative_history db c sub s e)))"

subsection \<open>Coverage\<close>

lemma contract_rows_set:
  "v \<in> set (contract_rows db c s e) \<longleftrightarrow>
     v \<in> set (cd_versions db) \<and> cv_contract v = c \<and> version_in_force v \<and> cv_starts_at v < e \<and> before_end s (cv_ends_at v)"
  by (auto simp: contract_rows_def)

lemma contract_rows_sorted: "sorted (map cv_starts_at (contract_rows db c s e))"
  by (simp add: contract_rows_def)

definition interval_of :: "string \<Rightarrow> string \<Rightarrow> int \<Rightarrow> int \<Rightarrow> version_row \<Rightarrow> entitlement_interval" where
  "interval_of sub c s e v = \<lparr>en_subscription = sub, en_contract = c, en_version = cv_id v, en_start = max (cv_starts_at v) s,
     en_end = until (cv_ends_at v) e\<rparr>"

text \<open>Rows that meet the period give their part of it.\<close>

lemma entitled_rows_parts:
  assumes "\<forall>v \<in> set vs. max (cv_starts_at v) s < until (cv_ends_at v) e"
  shows "entitled_rows sub c s e vs =
    (map (\<lambda>v. Shadow_version (cv_id v)) (filter (\<lambda>v. vr_authority v \<noteq> Authoritative) vs),
     map (interval_of sub c s e) (filter (\<lambda>v. vr_authority v = Authoritative) vs))"
  using assms by (induction vs) (auto simp: interval_of_def Let_def)

text \<open>The walk finds no gap exactly when everything between the cursor and the start of a later interval is covered.\<close>

lemma walk_coverage_gapless:
  assumes "sorted (map en_start is)" and "\<forall>i \<in> set is. en_start i < en_end i"
  shows "(fst (walk_coverage is cursor) = [] \<longleftrightarrow>
      (\<forall>t. cursor \<le> t \<and> (\<exists>i \<in> set is. t < en_start i) \<longrightarrow> (\<exists>i \<in> set is. en_start i \<le> t \<and> t < en_end i))) \<and>
    (fst (walk_coverage is cursor) = [] \<longrightarrow> cursor \<le> snd (walk_coverage is cursor) \<and>
      (\<forall>t. cursor \<le> t \<longrightarrow> t < snd (walk_coverage is cursor) \<longleftrightarrow> (\<exists>i \<in> set is. en_start i \<le> t \<and> t < en_end i)))"
  using assms
proof (induction "is" arbitrary: cursor)
  case (Cons i rest)
  let ?cov = "\<lambda>xs t. \<exists>i \<in> set xs. en_start i \<le> t \<and> t < en_end i" and ?later = "\<lambda>xs t. \<exists>i \<in> set xs. t < en_start i"
  have rest: "sorted (map en_start rest)" "\<forall>i \<in> set rest. en_start i < en_end i" and pos: "en_start i < en_end i"
    and first: "\<And>j. j \<in> set rest \<Longrightarrow> en_start i \<le> en_start j"
    using Cons.prems by auto
  note IH = Cons.IH [OF rest]
  consider "en_end i \<le> cursor" | "cursor < en_start i" | "en_start i \<le> cursor" "cursor < en_end i" by linarith
  then show ?case
  proof cases
    case 1
    have w: "walk_coverage (i # rest) cursor = walk_coverage rest cursor" using 1 by simp
    have same: "?cov (i # rest) t = ?cov rest t" "?later (i # rest) t = ?later rest t" if "cursor \<le> t" for t
      using that 1 pos by auto
    have gaps: "(\<forall>t. cursor \<le> t \<and> ?later (i # rest) t \<longrightarrow> ?cov (i # rest) t) \<longleftrightarrow> (\<forall>t. cursor \<le> t \<and> ?later rest t \<longrightarrow> ?cov rest t)"
      by (intro iff_allI imp_cong conj_cong refl) (simp_all only: same)
    have covered: "(\<forall>t. cursor \<le> t \<longrightarrow> t < n \<longleftrightarrow> ?cov (i # rest) t) \<longleftrightarrow> (\<forall>t. cursor \<le> t \<longrightarrow> t < n \<longleftrightarrow> ?cov rest t)" for n
      by (intro iff_allI imp_cong refl) (simp only: same)
    show ?thesis unfolding w gaps covered by (rule IH)
  next
    case 2
    have "\<not> ?cov (i # rest) cursor" using 2 first by force
    moreover have "?later (i # rest) cursor" using 2 by simp
    moreover have "fst (walk_coverage (i # rest) cursor) \<noteq> []" using 2 pos by simp
    ultimately show ?thesis by blast
  next
    case 3
    have w: "walk_coverage (i # rest) cursor = walk_coverage rest (en_end i)" using 3 by simp
    have same: "?cov (i # rest) t = (t < en_end i \<or> ?cov rest t)" "?later (i # rest) t = ?later rest t" if "cursor \<le> t" for t
      using that 3 by auto
    have "(\<forall>t. cursor \<le> t \<and> ?later (i # rest) t \<longrightarrow> ?cov (i # rest) t) \<longleftrightarrow>
        (\<forall>t. cursor \<le> t \<and> ?later rest t \<longrightarrow> t < en_end i \<or> ?cov rest t)"
      by (intro iff_allI imp_cong conj_cong refl) (simp_all only: same)
    also have "\<dots> \<longleftrightarrow> (\<forall>t. en_end i \<le> t \<and> ?later rest t \<longrightarrow> ?cov rest t)"
      using 3(2) by (meson less_imp_le not_less order_trans)
    finally have gaps: "(\<forall>t. cursor \<le> t \<and> ?later (i # rest) t \<longrightarrow> ?cov (i # rest) t) \<longleftrightarrow> fst (walk_coverage rest (en_end i)) = []"
      using IH [of "en_end i"] by blast
    have "cursor \<le> n \<and> (\<forall>t. cursor \<le> t \<longrightarrow> t < n \<longleftrightarrow> ?cov (i # rest) t)"
      if n: "en_end i \<le> n" "\<forall>t. en_end i \<le> t \<longrightarrow> t < n \<longleftrightarrow> ?cov rest t" for n
    proof (intro conjI allI impI)
      show "cursor \<le> n" using n(1) 3(2) by simp
      fix t assume t: "cursor \<le> t"
      show "t < n \<longleftrightarrow> ?cov (i # rest) t"
        unfolding same(1) [OF t] using n by (cases "t < en_end i") auto
    qed
    then show ?thesis unfolding w gaps using IH [of "en_end i"] by blast
  qed
qed simp

text \<open>
  C13: entitlement is exactly authoritative coverage. For a subscription with an authoritative contract, in
  every history: the entitled intervals of a period hold an instant exactly when it lies in the period and
  an authoritative version of the contract is in force then; and the history is complete exactly when every
  version in force that meets the period is authoritative and each instant from the opening of the contract
  on, up to its closing or to the start of a later such version, is covered by one.
\<close>

theorem entitlement_is_coverage:
  assumes "contract_history zones sys sales db" and "postpaid_entitlement_history db sub ps pe = Inr h"
    and "c \<in> set (cd_contracts db)" and "ct_subscription c = sub" and "ct_authority c = Authoritative"
  defines "s \<equiv> aware_utc ps" and "e \<equiv> aware_utc pe"
    and "meets \<equiv> \<lambda>v. v \<in> set (cd_versions db) \<and> cv_contract v = ct_id c \<and> version_in_force v \<and> cv_starts_at v < aware_utc pe \<and>
      before_end (aware_utc ps) (cv_ends_at v)"
  shows "((\<exists>i \<in> set (eh_intervals h). en_start i \<le> t \<and> t < en_end i) \<longleftrightarrow>
      s \<le> t \<and> t < e \<and> (\<exists>v. meets v \<and> vr_authority v = Authoritative \<and> version_covers v t)) \<and>
    (eh_complete h \<longleftrightarrow> (\<forall>v. meets v \<longrightarrow> vr_authority v = Authoritative) \<and>
      (\<forall>t. max (ct_opened_at c) s \<le> t \<and> (t < until (ct_closed_at c) e \<or> (\<exists>v. meets v \<and> t < cv_starts_at v)) \<longrightarrow>
        (\<exists>v. meets v \<and> version_covers v t)))"
proof -
  have ok: "db_ok db" by (rule contract_history_ok [OF assms(1)])
  have "distinct (cd_contracts db)" using db_okD(5) [OF ok] by (simp add: distinct_map)
  then have "filter (\<lambda>c. ct_subscription c = sub) (cd_contracts db) = [c]"
    by (rule filter_single) (use assms(3,4) db_okD(6) [OF ok] in \<open>auto simp: distinct_map inj_on_def\<close>)
  with assms(2,5) have h: "h = authoritative_history db c sub s e" and period: "s < e"
    by (auto simp: postpaid_entitlement_history_def Let_def one_or_none_def s_def e_def split: if_splits)
  let ?rows = "contract_rows db (ct_id c) s e" and ?good = "\<lambda>v. vr_authority v = Authoritative"
  have rows: "v \<in> set ?rows \<longleftrightarrow> meets v" for v by (auto simp: contract_rows_set meets_def s_def e_def)
  have pos: "max (cv_starts_at v) s < until (cv_ends_at v) e" if "meets v" for v
    using that period rows_okD(3) [OF db_okD(1) [OF ok], of v]
    by (auto simp: meets_def row_good_def version_allowed_def until_def before_end_def s_def e_def split: option.splits)
  define rs where "rs = filter ?good ?rows"
  define ivs where "ivs = map (interval_of sub (ct_id c) s e) rs"
  define lo where "lo = max (ct_opened_at c) s"
  define hi where "hi = until (ct_closed_at c) e"
  define n where "n = snd (walk_coverage ivs lo)"
  have parts: "entitled_rows sub (ct_id c) s e ?rows = (map (\<lambda>v. Shadow_version (cv_id v)) (filter (\<lambda>v. \<not> ?good v) ?rows), ivs)"
    unfolding ivs_def rs_def by (rule entitled_rows_parts) (use pos rows in blast)
  have complete: "eh_complete h \<longleftrightarrow> filter (\<lambda>v. \<not> ?good v) ?rows = [] \<and> fst (walk_coverage ivs lo) = [] \<and> \<not> (lo < hi \<and> n < hi)"
    and intervals: "eh_intervals h = ivs"
    by (simp_all add: h authoritative_history_def parts Let_def split_beta lo_def hi_def n_def)
  have inside: "en_start (interval_of sub (ct_id c) s e v) \<le> t \<and> t < en_end (interval_of sub (ct_id c) s e v) \<longleftrightarrow>
      s \<le> t \<and> t < e \<and> version_covers v t" for v t
    by (auto simp: interval_of_def until_def version_covers_def before_end_def split: option.splits)
  have cover: "(\<exists>i \<in> set ivs. en_start i \<le> t \<and> t < en_end i) \<longleftrightarrow> s \<le> t \<and> t < e \<and> (\<exists>v. meets v \<and> ?good v \<and> version_covers v t)" for t
    by (simp add: ivs_def rs_def inside rows; blast)
  have sorted: "sorted (map en_start ivs)"
  proof -
    have "sorted (map (\<lambda>v. max (cv_starts_at v) s) rs)"
      using sorted_filter [OF contract_rows_sorted [of db "ct_id c" s e], of ?good]
      by (simp add: rs_def sorted_map sorted_wrt_mono_rel [rotated])
    then show ?thesis by (simp add: ivs_def interval_of_def comp_def)
  qed
  have longer: "\<forall>i \<in> set ivs. en_start i < en_end i"
    using pos by (auto simp: ivs_def rs_def rows interval_of_def)
  note walk = walk_coverage_gapless [OF sorted longer, of lo]
  have "eh_complete h \<longleftrightarrow> (\<forall>v. meets v \<longrightarrow> ?good v) \<and>
      (\<forall>t. lo \<le> t \<and> (t < hi \<or> (\<exists>v. meets v \<and> t < cv_starts_at v)) \<longrightarrow> (\<exists>v. meets v \<and> version_covers v t))"
  proof (cases "\<forall>v. meets v \<longrightarrow> ?good v")
    case False
    then have "filter (\<lambda>v. \<not> ?good v) ?rows \<noteq> []" using rows by (auto simp: filter_empty_conv)
    then show ?thesis using False complete by simp
  next
    case True
    have none: "filter (\<lambda>v. \<not> ?good v) ?rows = []" using True rows by (simp add: filter_empty_conv)
    have all: "rs = ?rows" using True rows by (simp add: rs_def filter_id_conv)
    have cov: "(\<exists>i \<in> set ivs. en_start i \<le> t \<and> t < en_end i) \<longleftrightarrow> s \<le> t \<and> t < e \<and> (\<exists>v. meets v \<and> version_covers v t)" for t
      unfolding cover using True by blast
    have later: "(\<exists>i \<in> set ivs. t < en_start i) \<longleftrightarrow> (\<exists>v. meets v \<and> t < cv_starts_at v)" if "lo \<le> t" for t
    proof -
      have "(\<exists>i \<in> set ivs. t < en_start i) \<longleftrightarrow> (\<exists>v. meets v \<and> t < max (cv_starts_at v) s)"
        by (simp add: ivs_def all interval_of_def Bex_def rows)
      then show ?thesis using that by (simp add: less_max_iff_disj lo_def)
    qed
    have bound: "s \<le> t" "t < hi \<Longrightarrow> t < e" "meets v \<Longrightarrow> t < cv_starts_at v \<Longrightarrow> t < e" if "lo \<le> t" for t v
      using that by (auto simp: lo_def hi_def until_def meets_def e_def split: option.splits)
    have "fst (walk_coverage ivs lo) = [] \<longleftrightarrow>
        (\<forall>t. lo \<le> t \<and> (\<exists>v. meets v \<and> t < cv_starts_at v) \<longrightarrow> (\<exists>v. meets v \<and> version_covers v t))"
      unfolding conjunct1 [OF walk] by (intro iff_allI) (use later cov bound in blast)
    moreover have "\<not> (lo < hi \<and> n < hi) \<longleftrightarrow> (\<forall>t. lo \<le> t \<and> t < hi \<longrightarrow> (\<exists>v. meets v \<and> version_covers v t))"
      if "fst (walk_coverage ivs lo) = []"
    proof -
      from walk that have n: "lo \<le> n" "\<And>t. lo \<le> t \<Longrightarrow> t < n \<longleftrightarrow> (\<exists>i \<in> set ivs. en_start i \<le> t \<and> t < en_end i)"
        by (simp_all add: n_def)
      have "\<not> (lo < hi \<and> n < hi) \<longleftrightarrow> (\<forall>t. lo \<le> t \<and> t < hi \<longrightarrow> t < n)" using n(1) by force
      also have "\<dots> \<longleftrightarrow> (\<forall>t. lo \<le> t \<and> t < hi \<longrightarrow> (\<exists>v. meets v \<and> version_covers v t))"
        by (intro iff_allI) (use n(2) cov bound in blast)
      finally show ?thesis .
    qed
    ultimately show ?thesis using complete none True by blast
  qed
  then show ?thesis using cover [of t] intervals by (simp add: lo_def hi_def)
qed

end
