(* ===== verification/Contract_Samples.thy ===== *)
theory Contract_Samples
  imports Contract_Guarantees Contract_Timeline Contract_Pending Entitlement
begin

section \<open>A sample contract\<close>

text \<open>
  A contract of 31000 a month recorded on the first of January, a recurring add-on bought on the fifteenth,
  the draft that waits for February, the timer that fires then and the activation. The theorems on contracts
  are applied to these states.
\<close>

definition jan where "jan = lagos 2026 1 1 0"
definition feb where "feb = lagos 2026 2 1 0"
definition mid where "mid = lagos 2026 1 15 0"

lemma sample_times [simp]: "jan < feb" "jan < mid" "mid < feb" "\<not> feb \<le> jan" "\<not> mid < jan" "\<not> mid \<le> jan" "jan \<le> mid"
  by (simp_all add: jan_def feb_def mid_def lagos_def calendar_eval)

lemma sample_amounts [simp]: "to_scale 14 4 31000 = Some 31000" "to_scale 14 4 5000 = Some 5000" "to_scale 14 4 1 = Some 1"
  by (rule to_scale_exact [where n = "31000 * 10 ^ 4"] to_scale_exact [where n = "5000 * 10 ^ 4"]
      to_scale_exact [where n = "10 ^ 4"]; simp)+

subsection \<open>The contract recorded\<close>

definition opening_ids :: fresh_ids where
  "opening_ids = \<lparr>fr_contract = ''c1'', fr_version = ''v1'', fr_line = (\<lambda>_. ''x1''), fr_line_key = (\<lambda>_. ''l1''), fr_timer = ''t0''\<rparr>"

definition opening_command :: version_command where
  "opening_command = \<lparr>vc_account = ''a1'', vc_subscription = ''s1'', vc_source_kind = Sales_order_line, vc_source_id = ''o1'',
     vc_starts_at = Instant jan, vc_price = 31000, vc_currency = ''NGN'', vc_cadence = prorated_cadence,
     vc_lines = [\<lparr>li_component = Recurring_service, li_description = ''fibre'', li_unit_price = 31000, li_currency = ''NGN'',
       li_treatment = Receivable, li_quantity = 1, li_component_key = ''o1'', li_is_finite = False, li_tax_code = None,
       li_line_key = None\<rparr>],
     vc_source_version = 1, vc_ends_at = None, vc_terms_days = 0, vc_tax_code = None, vc_tax_inclusive = False,
     vc_discount_code = None, vc_discount = None\<rparr>"

definition contract1 :: contract where
  "contract1 = \<lparr>ct_id = ''c1'', ct_account = ''a1'', ct_subscription = ''s1'', ct_authority = Authoritative,
     ct_opened_at = jan, ct_closed_at = None\<rparr>"

definition first_version :: version_row where
  "first_version = new_version ''v1'' ''c1'' 1 Authoritative jan None None ''funded'' ''k1'' opening_command"

definition first_line :: line_row where
  "first_line = new_line ''x1'' ''v1'' ''l1'' (hd (vc_lines opening_command))"

definition opened :: contract_db where
  "opened = \<lparr>cd_contracts = [contract1], cd_versions = [first_version], cd_lines = [first_line], cd_timers = []\<rparr>"

lemma cadence_fields [simp]:
  "cad_rate_quantity prorated_cadence = 1" "cad_service_count prorated_cadence = 1" "cad_invoice_count prorated_cadence = 1"
  "cad_service_unit prorated_cadence = Unit_month" "cad_anchor_day prorated_cadence = None"
  "cad_collection_timing prorated_cadence = Advance" "cad_alignment prorated_cadence = Contract_anniversary"
  "cad_timezone prorated_cadence = ''Africa/Lagos''" "cad_rate_basis prorated_cadence = Fixed_per_service_period"
  "prorated_cadence\<lparr>cad_rate_quantity := 1\<rparr> = prorated_cadence"
  by (simp_all add: prorated_cadence_def sample_cadence_def)

lemma first_fields [simp]:
  "cv_id first_version = ''v1''" "cv_contract first_version = ''c1''" "cv_account first_version = ''a1''"
  "cv_subscription first_version = ''s1''" "cv_starts_at first_version = jan" "cv_ends_at first_version = None"
  "cv_cadence first_version = prorated_cadence" "vr_number first_version = 1" "vr_status first_version = Effective_version"
  "vr_authority first_version = Authoritative" "vr_price first_version = 31000" "vr_currency first_version = ''NGN''"
  "vr_discount first_version = None" "vr_key first_version = ''k1''" "cv_source_kind first_version = Sales_order_line"
  "cv_source_id first_version = ''o1''" "cv_tax_code first_version = None" "cv_source_version first_version = 1"
  by (simp_all add: first_version_def new_version_def opening_command_def)

lemma first_line_fields [simp]:
  "ln_version first_line = ''v1''" "ln_key first_line = ''l1''" "ln_component first_line = Recurring_service"
  "ln_quantity first_line = 1" "ln_unit_price first_line = 31000" "lr_id first_line = ''x1''" "lr_component_key first_line = ''o1''"
  "ln_is_finite first_line = False"
  by (simp_all add: first_line_def new_line_def opening_command_def)

lemma first_stored [simp]: "stored_version first_version = Some first_version" "stored_line first_line = Some first_line"
  by (simp add: stored_version_def first_version_def new_version_def opening_command_def)
    (simp add: stored_line_def first_line_def new_line_def opening_command_def)

lemma sample_opening:
  "record_version Authoritative jan opening_ids ''funded'' (Some ''k1'') opening_command
     \<lparr>cd_contracts = [], cd_versions = [], cd_lines = [], cd_timers = []\<rparr> =
   Inr (\<lparr>vs_contract = ''c1'', vs_version = ''v1'', vs_number = 1, vs_authority = Authoritative, vs_lines = [''x1''],
     vs_replayed = False\<rparr>, opened)"
proof -
  have ids: "fr_contract opening_ids = ''c1''" "fr_version opening_ids = ''v1''" "fr_line opening_ids n = ''x1''"
    "fr_line_key opening_ids n = ''l1''" for n
    by (simp_all add: opening_ids_def)
  have valid: "validate_command opening_command = Inr (jan, None)"
    by (simp add: validate_command_def opening_command_def check_line_def)
  have made: "ensure_contract Authoritative jan ''c1'' (vc_account opening_command) (vc_subscription opening_command) [] =
      Inr (contract1, [contract1])"
    by (simp add: ensure_contract_def one_or_none_def contract1_def opening_command_def Let_def)
  have row: "insert_version [] (new_version ''v1'' ''c1'' 1 Authoritative jan None None ''funded'' ''k1'' opening_command) =
      Inr [first_version]"
    unfolding first_version_def [symmetric] by (simp add: insert_version_def version_allowed_def)
  have line: "fold_err (add_line opening_ids ''c1'' ''v1'') (\<lparr>cd_contracts = [contract1], cd_versions = [first_version],
      cd_lines = [], cd_timers = []\<rparr>, 0) (vc_lines opening_command) = Inr (opened, 1)"
  proof -
    have l: "vc_lines opening_command = [hd (vc_lines opening_command)]" "li_line_key (hd (vc_lines opening_command)) = None"
      by (simp_all add: opening_command_def)
    show ?thesis
      by (subst l(1)) (simp add: add_line_def ids l(2) inherited_line_key_def greatest_def insert_line_def
          first_line_def [symmetric] opened_def)
  qed
  have c: "ct_id contract1 = ''c1''" by (simp add: contract1_def)
  show ?thesis
    by (simp add: record_version_def valid made ids one_or_none_def record_new_def current_effective_def c
        next_number_def latest_version_def greatest_def close_current_def row line)
qed

lemma opened_parts:
  "cd_contracts opened = [contract1]" "cd_versions opened = [first_version]" "cd_lines opened = [first_line]" "cd_timers opened = []"
  by (simp_all add: opened_def)

lemma opened_history: "contract_history zones sys sales opened"
  by (rule Next_contracts [OF No_contracts Record_step [OF sample_opening]])

subsection \<open>An add-on bought\<close>

definition addon_ids :: fresh_ids where
  "addon_ids = \<lparr>fr_contract = ''c2'', fr_version = ''v2'', fr_line = (\<lambda>n. if n = 0 then ''x2'' else ''x3''),
     fr_line_key = (\<lambda>_. ''l2''), fr_timer = ''t1''\<rparr>"

definition static_ip :: addon_purchase where
  "static_ip = \<lparr>ap_account = ''a1'', ap_subscription = ''s1'', ap_addon = ''ip'', ap_description = ''static IP'',
     ap_quantity = 1, ap_price = 5000, ap_currency = ''ngn'', ap_purchased_at = Instant mid, ap_cycle = Some Monthly_cycle\<rparr>"

definition waiting_version :: version_row where
  "waiting_version = (draft_of ''v2'' 2 ''c1'' feb Plan_change ''Pending live recurring add-on terms'' first_version)"

definition copied_line :: line_row where
  "copied_line = first_line\<lparr>ln_version := ''v2'', lr_id := ''x2''\<rparr>"

definition ip_line :: line_row where
  "ip_line = \<lparr>ln_version = ''v2'', ln_key = ''l2'', ln_component = Addon, ln_quantity = 1, ln_unit_price = 5000,
     ln_currency = ''NGN'', ln_treatment = Prepaid_consumption, ln_is_finite = False, ln_tax_code = None, lr_id = ''x3'',
     lr_component_key = ''ip'', lr_description = ''static IP''\<rparr>"

definition due_timer :: timer where
  "due_timer = \<lparr>tm_id = ''t1'', tm_owner = contract_owner, tm_entity_kind = ''billing_contract'', tm_entity = ''c1'',
     tm_purpose = pending_purpose, tm_generation = 1, tm_due_at = feb, tm_expected_version = 2, tm_output = pending_trigger,
     tm_status = Timer_scheduled, tm_fired_at = None, tm_fired_event = None\<rparr>"

definition waiting :: contract_db where
  "waiting = \<lparr>cd_contracts = [contract1], cd_versions = [first_version, waiting_version],
     cd_lines = [first_line, copied_line, ip_line], cd_timers = [due_timer]\<rparr>"

definition staged_terms :: pending_result where
  "staged_terms = \<lparr>pn_contract = ''c1'', pn_draft = ''v2'', pn_number = 2, pn_effective_at = feb, pn_timer = ''t1'', pn_generation = 1\<rparr>"

lemma addon_id_fields [simp]:
  "fr_version addon_ids = ''v2''" "fr_line addon_ids 0 = ''x2''" "fr_line addon_ids (Suc n) = ''x3''"
  "fr_line_key addon_ids n = ''l2''" "fr_timer addon_ids = ''t1''"
  by (simp_all add: addon_ids_def)

lemma static_ip_fields [simp]:
  "ap_account static_ip = ''a1''" "ap_subscription static_ip = ''s1''" "ap_addon static_ip = ''ip''"
  "ap_description static_ip = ''static IP''" "ap_quantity static_ip = 1" "ap_price static_ip = 5000"
  "ap_currency static_ip = ''ngn''" "ap_purchased_at static_ip = Instant mid" "ap_cycle static_ip = Some Monthly_cycle"
  by (simp_all add: static_ip_def)

lemma contract_fields [simp]:
  "ct_id contract1 = ''c1''" "ct_account contract1 = ''a1''" "ct_subscription contract1 = ''s1''"
  "ct_authority contract1 = Authoritative" "ct_opened_at contract1 = jan" "ct_closed_at contract1 = None"
  by (simp_all add: contract1_def)

lemma waiting_fields [simp]:
  "cv_id waiting_version = ''v2''" "cv_contract waiting_version = ''c1''" "cv_account waiting_version = ''a1''"
  "cv_subscription waiting_version = ''s1''" "cv_starts_at waiting_version = feb" "cv_ends_at waiting_version = None"
  "cv_cadence waiting_version = prorated_cadence" "vr_number waiting_version = 2" "vr_status waiting_version = Draft_version"
  "vr_supersedes waiting_version = Some ''v1''" "vr_authority waiting_version = Authoritative" "vr_price waiting_version = 31000"
  "vr_discount waiting_version = None" "cv_source_kind waiting_version = Plan_change" "cv_source_id waiting_version = ''s1''"
  by (simp_all add: waiting_version_def draft_of_def)

lemma ip_fields [simp]:
  "ln_version ip_line = ''v2''" "ln_key ip_line = ''l2''" "ln_component ip_line = Addon" "lr_id ip_line = ''x3''"
  "lr_component_key ip_line = ''ip''" "ln_quantity ip_line = 1" "ln_unit_price ip_line = 5000" "ln_is_finite ip_line = False"
  "stored_line ip_line = Some ip_line"
  by (simp_all add: ip_line_def stored_line_def)

lemma copied_fields [simp]:
  "ln_version copied_line = ''v2''" "ln_key copied_line = ''l1''" "ln_component copied_line = Recurring_service"
  "lr_id copied_line = ''x2''" "lr_component_key copied_line = ''o1''" "ln_quantity copied_line = 1"
  "ln_unit_price copied_line = 31000" "ln_is_finite copied_line = False" "stored_line copied_line = Some copied_line"
  by (simp_all add: copied_line_def stored_line_def)

lemma sample_made_prorated: "make_cadence lagos_zones prorated_cadence = Inr prorated_cadence"
  by (simp add: make_cadence_def prorated_cadence_def sample_cadence_def zone_of_def lagos_zones_def)

lemma sample_boundary: "purchase_boundary lagos_zones sys prorated_cadence first_version (Instant mid) = Inr feb"
proof -
  have "period_containing lagos_zones sys prorated_cadence (Instant jan) (Instant mid) 4096 = Inr (0, Interval jan feb)"
  proof -
    have first: "service_period lagos_zones prorated_cadence (Instant jan) 0 = Inr (Interval jan feb)"
      using sample_january by (simp add: jan_def feb_def january_def)
    have "walk_periods lagos_zones prorated_cadence (Instant jan) mid 4096 0 (Suc n) = Inr (0, Interval jan feb)" for n
      by (simp add: first contains_def)
    from this [of 4095] show ?thesis
      by (simp add: period_containing_def require_aware_def align_start_def align_instant_def)
  qed
  then show ?thesis by (simp add: purchase_boundary_def)
qed

lemma sample_purchase: "consume_addon_purchase lagos_zones sys addon_ids static_ip opened = Inr (Some staged_terms, waiting)"
proof -
  define first where "first = draft_of ''v2'' 2 ''c1'' feb Plan_change ''Pending recurring add-on terms'' first_version"
  have edited: "first\<lparr>cv_source_kind := Plan_change, cv_source_id := ''s1'', vr_reason := ''Pending live recurring add-on terms''\<rparr> = waiting_version"
    by (simp add: first_def waiting_version_def draft_of_def)
  have f: "cv_id first = ''v2''" "cv_contract first = ''c1''" "cv_starts_at first = feb" "cv_ends_at first = None"
    "cv_cadence first = prorated_cadence" "vr_number first = 2" "vr_status first = Draft_version" "vr_price first = 31000"
    "vr_discount first = None"
    by (simp_all add: first_def draft_of_def)
  have stored: "stored_version first = Some first"
    by (simp add: stored_version_def f)
  have upper: "py_upper (py_strip ''ngn'') = ''NGN''" by code_simp
  have drafted: "pending_draft addon_ids contract1 first_version feb Plan_change ''Pending recurring add-on terms'' opened =
      Inr (first, \<lparr>cd_contracts = [contract1], cd_versions = [first_version, first], cd_lines = [first_line, copied_line],
        cd_timers = []\<rparr>, 1)"
    by (simp add: pending_draft_def create_pending_version_def opened_def Let_def next_number_def latest_version_def greatest_def
        first_def [symmetric] insert_version_def stored version_allowed_def f version_collides_def copy_line_def insert_line_def
        copied_line_def [symmetric])
  have put: "update_version [first_version, first] waiting_version = Inr [first_version, waiting_version]"
    by (simp add: update_version_def version_allowed_def version_collides_def f put_row_def)
  have line: "addon_line addon_ids (Suc 0) \<lparr>cd_contracts = [contract1], cd_versions = [first_version, waiting_version],
      cd_lines = [first_line, copied_line], cd_timers = []\<rparr> ''c1'' ''v2'' first_version ''ip'' ''static IP'' 1 5000 ''NGN'' = ip_line"
    by (simp add: addon_line_def ip_line_def inherited_line_key_def greatest_def treatment_of_def)
  have named: "py_strip pending_trigger \<noteq> []" by code_simp
  have timed: "stage_pending ''t1'' contract1 first feb \<lparr>cd_contracts = [contract1], cd_versions = [first_version, waiting_version],
      cd_lines = [first_line, copied_line, ip_line], cd_timers = []\<rparr> = Inr (staged_terms, waiting)"
    by (simp add: stage_pending_def schedule_timer_def latest_timer_def greatest_def supersede_def insert_timer_def
        f new_timer_def staged_terms_def waiting_def due_timer_def Let_def named)
  have added: "add_purchased addon_ids contract1 first_version ''NGN'' static_ip feb opened = Inr (Some staged_terms, waiting)"
    by (simp add: add_purchased_def drafted put edited f addon_lines_def one_or_none_def line insert_line_def timed Let_def)
  show ?thesis
    by (simp add: consume_addon_purchase_def one_or_none_def opened_parts current_effective_def sample_made_prorated
        cadence_result_def upper addon_lines_def sample_boundary added)
qed

lemma waiting_history: "contract_history lagos_zones sys sales waiting"
  by (rule Next_contracts [OF opened_history Purchase_step [OF sample_purchase]])

subsection \<open>The change in February\<close>

definition sold_lines :: "(string \<times> string) list" where
  "sold_lines = [(''o1'', ''so1'')]"

definition event_of :: "string \<Rightarrow> string" where "event_of i = ''e-'' @ i"

definition fired :: contract_db where
  "fired = waiting\<lparr>cd_timers := [mark_fired event_of feb due_timer]\<rparr>"

definition terms_due :: activation where
  "terms_due = \<lparr>ac_contract = ''c1'', ac_timer = ''t1'', ac_expected_version = 2, ac_generation = 1\<rparr>"

definition second_version :: version_row where
  "second_version = waiting_version\<lparr>vr_status := Effective_version\<rparr>"

definition changed :: contract_db where
  "changed = fired\<lparr>cd_versions := [close_version feb first_version, second_version]\<rparr>"

definition activated :: version_result where
  "activated = \<lparr>vs_contract = ''c1'', vs_version = ''v2'', vs_number = 2, vs_authority = Authoritative,
     vs_lines = [''x2'', ''x3''], vs_replayed = False\<rparr>"

definition to_schedule :: recorded_output where
  "to_schedule = \<lparr>ro_sales_order = ''so1'', ro_change_kind = ''recurring_addon_purchase'', ro_source_kind = ''subscription'',
     ro_source_id = ''s1'', ro_subscription = Some ''s1'', ro_contracts = [(''c1'', ''v2'', Authoritative)],
     ro_obligations = [(''v2'', ''l1'', 0), (''v2'', ''l2'', 0)]\<rparr>"

lemma sample_fire:
  "fire_due event_of feb 10 (cd_timers waiting) =
     ([trigger_of event_of due_timer], [mark_fired event_of feb due_timer])"
  by (simp add: fire_due_def due_timers_def due_by_def waiting_def due_timer_def put_row_def mark_fired_def)

lemma fired_history: "contract_history lagos_zones sys sales fired"
proof -
  have "timer_step (cd_timers waiting) [mark_fired event_of feb due_timer]"
    by (rule Fire_timers [where now = "Instant feb" and limit = 10 and event = event_of]) (simp add: fire_due_timers_def sample_fire)
  then show ?thesis unfolding fired_def by (rule Next_contracts [OF waiting_history Timers_step])
qed

lemma fired_parts:
  "cd_contracts fired = [contract1]" "cd_versions fired = [first_version, waiting_version]"
  "cd_lines fired = [first_line, copied_line, ip_line]" "cd_timers fired = [mark_fired event_of feb due_timer]"
  by (simp_all add: fired_def waiting_def)

lemma sample_activation: "consume_pending_due sold_lines terms_due fired = Inr ((activated, to_schedule), changed)"
proof -
  have rows: "update_version [first_version, waiting_version] (close_version feb first_version) =
      Inr [close_version feb first_version, waiting_version]"
    "update_version [close_version feb first_version, waiting_version] second_version =
      Inr [close_version feb first_version, second_version]"
    by (simp_all add: update_version_def version_allowed_def version_collides_def close_version_def put_row_def second_version_def)
  have order: "sales_order_anchor sold_lines [close_version feb first_version, second_version] ''c1'' = Inr ''so1''"
    by (simp add: sales_order_anchor_def sale_versions_def sold_lines_def close_version_def second_version_def greatest_def)
  have result: "activation_result contract1 waiting_version changed = activated"
    by (simp add: activation_result_def line_ids_def activated_def changed_def fired_def waiting_def)
  have out: "shadow_output changed ''so1'' ''recurring_addon_purchase'' ''subscription'' (Some ''s1'') (Some ''s1'') [activated] = to_schedule"
    by (simp add: shadow_output_def obligation_inputs_def activated_def to_schedule_def changed_def fired_def waiting_def)
  have db: "fired\<lparr>cd_versions := [close_version feb first_version, second_version]\<rparr> = changed" by (simp add: changed_def)
  have act: "activate sold_lines contract1 first_version waiting_version fired = Inr ((activated, to_schedule), changed)"
    by (simp add: activate_def fired_parts rows order second_version_def [symmetric] Let_def db result out)
  show ?thesis
    by (simp add: consume_pending_due_def fired_parts terms_due_def timer_matches_def mark_fired_def due_timer_def
        one_or_none_def current_effective_def act)
qed

lemma changed_history: "contract_history lagos_zones sys sold_lines changed"
  by (rule Next_contracts [OF fired_history Due_step [OF sample_activation]])

subsection \<open>A whole period scheduled\<close>

definition whole_period :: "string \<Rightarrow> string \<Rightarrow> schedule_command" where
  "whole_period i key = \<lparr>sc_version = i, sc_line_key = key, sc_index = 0, sc_covered = None, sc_due_at = None, sc_key = Some ''k''\<rparr>"

lemma whole_period_scheduled:
  assumes found: "find_version db i = Some ver" "cv_id ver = i" "find_line db i key = Inr l"
    and terms: "cv_cadence ver = prorated_cadence" "cv_tax_code ver = None" "cv_tax_inclusive ver = False" "ln_tax_code l = None"
      "ln_quantity l = 1" "ln_unit_price l = of_int n" "0 \<le> n" "n < 10 ^ 10"
    and period: "service_period lagos_zones prorated_cadence (Instant (cv_starts_at ver)) 0 = Inr v" "starts_at v < ends_at v"
      "\<forall>e. cv_ends_at ver = Some e \<longrightarrow> starts_at v < e"
  shows "\<exists>res rows. schedule digest lagos_zones db b Shadow (whole_period i key) [] = Inr (res, rows) \<and> sr_period res = v"
proof -
  define p where "p = with_fingerprint digest (line_provenance ver l prorated_cadence key v None 1 1 None None 0)"
  define r where "r = \<lparr>rt_version = i, rt_line_key = key, rt_period = v, rt_currency = ln_currency l, rt_net = of_int n,
    rt_tax = 0, rt_gross = of_int n, rt_provenance = p\<rparr>"
  have cmd: "sc_version (whole_period i key) = i" "sc_line_key (whole_period i key) = key" "sc_index (whole_period i key) = 0"
    "sc_covered (whole_period i key) = None" "truthy_str (sc_key (whole_period i key))"
    by (simp_all add: whole_period_def)
  have made: "cadence_of lagos_zones ver = Inr prorated_cadence" by (simp add: cadence_of_def terms sample_made_prorated)
  have n: "to_context (of_int n) = of_int n" by (rule to_context_ratio [where n = n and k = 0]) (use terms(7,8) in simp_all)
  have h: "half_up (of_int n * 100) = n * 100" "half_up 0 = 0"
    using half_up_of_int [of "n * 100"] half_up_of_int [of 0] by simp_all
  have cents: "money (of_int n) = Inr (of_int n)" "money 0 = Inr 0"
    using terms(7,8) by (simp_all add: money_def quantize_cents_def h Let_def)
  have fields: "pv_policy p = rating_policy_version" "pv_covered p = v" "pv_period p = v" "pv_unit_price p = of_int n"
    "pv_quantity p = 1" "pv_rate_quantity p = 1" "pv_rate_units p = 1" "pv_proration p = 1" "pv_tax_percent p = 0"
    "pv_tax_code p = None" "pv_tax_rate_id p = None" "pv_tax_inclusive p = False" "pv_version p = i" "pv_line_key p = key"
    "pv_currency p = ln_currency l"
    by (simp_all add: p_def with_fingerprint_def line_provenance_def terms found(2))
  have valid: "rating_input_fingerprint digest p = pv_fingerprint p" by (simp add: p_def with_fingerprint_valid)
  have "rate_v1 p = Inr r"
    by (simp add: rate_v1_def Let_def dec_mul_def dec_div_def fields n cents r_def)
  then have rated: "rate_from_provenance digest p = Inr r"
    using terms(7) valid by (simp add: rate_from_provenance_def fields)
  have units: "units_for_period lagos_zones prorated_cadence v None = Inr (1, 1)" by (simp add: units_for_period_def)
  have tax: "effective_tax_rate db ver l = Inr (None, None, 0)" by (simp add: effective_tax_rate_def terms)
  have line: "rate_line_period digest lagos_zones db i key v None = Inr r"
    by (simp add: rate_line_period_def found made lift_cadence_def units tax rated [unfolded p_def])
  have columns: "to_scale 14 4 (of_int n) = Some (of_int n)" "to_scale 38 28 1 = Some 1" "to_scale 6 4 0 = Some 0" "to_scale 14 4 0 = Some 0"
    by (rule to_scale_exact [where n = "n * 10 ^ 4"] to_scale_exact [where n = "10 ^ 28"] to_scale_exact [where n = 0];
        use terms(7,8) in simp)+
  define ob where "ob = new_obligation b Shadow (whole_period i key) ver l v r"
  have "stored_inputs p = Some p" by (simp add: stored_inputs_def fields columns)
  then have stored: "stored_row ob = Some ob"
    by (simp add: stored_row_def ob_def new_obligation_def r_def columns)
  have "row_allowed ob" using terms(7) period(2)
    by (simp add: row_allowed_def inputs_allowed_def ob_def new_obligation_def r_def fields)
  then have "insert_row [] ob = Inr [ob]" by (simp add: insert_row_def stored)
  then show ?thesis using period(3)
    by (auto simp: schedule_def cmd found find_command_line_def from_cadence_def made terms(1) period(1) period_rows_def schedule_new_def
        line ob_def [symmetric] split: option.splits)
qed

subsection \<open>The theorems on the sample\<close>

lemma sample_civil: "runs_in lagos_zones prorated_cadence (fixed_zone hour_us)"
  by (rule sample_runs) simp

lemma changed_parts:
  "cd_contracts changed = [contract1]" "cd_versions changed = [close_version feb first_version, second_version]"
  "cd_lines changed = [first_line, copied_line, ip_line]"
  by (simp_all add: changed_def fired_parts)

lemma second_fields [simp]:
  "cv_id second_version = ''v2''" "cv_contract second_version = ''c1''" "cv_subscription second_version = ''s1''"
  "cv_starts_at second_version = feb" "cv_ends_at second_version = None" "cv_cadence second_version = prorated_cadence"
  "vr_number second_version = 2" "vr_status second_version = Effective_version" "vr_authority second_version = Authoritative"
  by (simp_all add: second_version_def)

lemma closed_fields [simp]:
  "cv_id (close_version t v) = cv_id v" "cv_contract (close_version t v) = cv_contract v"
  "cv_subscription (close_version t v) = cv_subscription v" "cv_starts_at (close_version t v) = cv_starts_at v"
  "cv_ends_at (close_version t v) = Some t" "cv_cadence (close_version t v) = cv_cadence v"
  "vr_number (close_version t v) = vr_number v" "vr_status (close_version t v) = Superseded_version"
  "vr_authority (close_version t v) = vr_authority v" "vr_price (close_version t v) = vr_price v"
  by (simp_all add: close_version_def)

theorem contract_versions_in_order_witness:
  "\<exists>!w. w \<in> set (cd_versions changed) \<and> cv_contract w = ''c1'' \<and> vr_number w = 1"
  using contract_versions_in_order [OF changed_history [where sys = "fixed_zone 0"], of second_version 1]
  by (simp add: changed_parts)

theorem recorded_terms_are_permanent_witness:
  "\<exists>w \<in> set (cd_versions changed). contracted_terms w = contracted_terms first_version \<and>
     lines_of changed ''v1'' = lines_of opened ''v1''"
proof -
  have "contract_step lagos_zones (fixed_zone 0) sold_lines opened waiting" by (rule Purchase_step [OF sample_purchase])
  moreover have "contract_step lagos_zones (fixed_zone 0) sold_lines waiting fired"
  proof -
    have "timer_step (cd_timers waiting) [mark_fired event_of feb due_timer]"
      by (rule Fire_timers [where now = "Instant feb" and limit = 10 and event = event_of]) (simp add: fire_due_timers_def sample_fire)
    then show ?thesis unfolding fired_def by (rule Timers_step)
  qed
  moreover have "contract_step lagos_zones (fixed_zone 0) sold_lines fired changed" by (rule Due_step [OF sample_activation])
  ultimately have "(contract_step lagos_zones (fixed_zone 0) sold_lines)\<^sup>*\<^sup>* opened changed"
    by (rule rtranclp_trans [OF r_into_rtranclp rtranclp_trans [OF r_into_rtranclp r_into_rtranclp]])
  from recorded_terms_are_permanent [OF opened_history this, of first_version] obtain w where
    w: "w \<in> set (cd_versions changed)" "contracted_terms w = contracted_terms first_version"
      "lines_of changed (cv_id first_version) = lines_of opened (cv_id first_version)"
    by (simp add: opened_parts) blast
  show ?thesis using w(3) by (intro bexI [OF _ w(1)]) (simp add: w(2))
qed

theorem versions_tile_time_witness:
  "\<exists>v. effective_version_at changed ''s1'' (Instant (feb + 1)) = Inr (Some v) \<and> v \<in> set (cd_versions changed) \<and>
    (\<forall>w \<in> set (cd_versions changed). version_in_force w \<and> cv_contract w = ''c1'' \<longrightarrow> version_covers w (feb + 1) \<longleftrightarrow> w = v)"
proof -
  have "jan \<le> feb + 1" using sample_times(1) by linarith
  with versions_tile_time [OF changed_history [where sys = "fixed_zone 0"], of "''c1''" "close_version feb first_version" "feb + 1"]
  show ?thesis by (simp add: changed_parts version_in_force_def)
qed

theorem purchase_waits_for_boundary_witness:
  "\<exists>d \<in> set (cd_versions waiting). cv_id d = ''v2'' \<and> vr_status d = Draft_version \<and> cv_starts_at d = feb"
proof -
  have "pn_draft staged_terms = ''v2''" "pn_effective_at staged_terms = feb" by (simp_all add: staged_terms_def)
  moreover note purchase_waits_for_boundary [OF opened_history sample_purchase, where t = mid]
  ultimately show ?thesis by fastforce
qed

theorem activation_changes_only_addons_witness:
  "\<exists>cur d. cur \<in> set (cd_versions fired) \<and> d \<in> set (cd_versions fired) \<and> carried_terms d = carried_terms cur \<and>
     set (cd_versions changed) =
       {d\<lparr>vr_status := Effective_version\<rparr>, close_version (cv_starts_at d) cur} \<union> (set (cd_versions fired) - {cur, d})"
  using activation_changes_only_addons [OF fired_history [where sys = "fixed_zone 0"] sample_activation] by blast

theorem purchased_addon_is_billed_witness:
  "\<exists>act r out db2. consume_pending_due sold_lines act fired = Inr ((r, out), db2) \<and> vs_version r = ''v2'' \<and>
     (\<exists>l \<in> set (lines_of db2 ''v2''). lr_component_key l = ''ip'' \<and> (''v2'', ln_key l, 0) \<in> set (ro_obligations out))"
proof -
  have "sold sold_lines (cd_versions opened) (pn_contract staged_terms)"
    by (simp add: sold_def opened_parts version_in_force_def sold_lines_def staged_terms_def)
  moreover have "length (filter (due_by feb) (cd_timers waiting)) \<le> 10" by (simp add: waiting_def)
  moreover have "pn_effective_at staged_terms \<le> feb" "pn_draft staged_terms = ''v2''" by (simp_all add: staged_terms_def)
  ultimately show ?thesis
    using purchased_addon_is_billed [OF opened_history sample_purchase _ _ _ _ sample_fire, where t = mid and sales = sold_lines]
    unfolding fired_def by fastforce
qed

theorem entitlement_is_coverage_witness:
  "\<exists>h. postpaid_entitlement_history changed ''s1'' (Instant jan) (Instant (feb + 1)) = Inr h \<and>
     (\<exists>i \<in> set (eh_intervals h). en_start i \<le> feb \<and> feb < en_end i)"
proof -
  have "jan < feb + 1" using sample_times(1) by linarith
  then have "postpaid_entitlement_history changed ''s1'' (Instant jan) (Instant (feb + 1)) =
      Inr (authoritative_history changed contract1 ''s1'' jan (feb + 1))"
    by (simp add: postpaid_entitlement_history_def changed_parts one_or_none_def)
  moreover have "\<exists>v. (v \<in> set (cd_versions changed) \<and> cv_contract v = ''c1'' \<and> version_in_force v \<and> cv_starts_at v < feb + 1 \<and>
      before_end jan (cv_ends_at v)) \<and> vr_authority v = Authoritative \<and> version_covers v feb"
    by (rule exI [of _ second_version]) (simp add: changed_parts version_in_force_def before_end_def version_covers_def)
  ultimately show ?thesis
    using conjunct1 [OF entitlement_is_coverage [OF changed_history [where sys = "fixed_zone 0"], of "''s1''" "Instant jan"
        "Instant (feb + 1)" "authoritative_history changed contract1 ''s1'' jan (feb + 1)" contract1 feb]] less_imp_le [OF sample_times(1)]
    by (simp add: changed_parts)
qed

theorem recorded_contract_billed_once_witness:
  "\<exists>!x. x \<in> set [billed_row (\<lambda>_. ''a'')] \<and> ob_version x = ''v1'' \<and> ob_line_key x = ''l1'' \<and> ob_start x \<le> jan \<and> jan < ob_end x"
proof -
  have "billing_view [] opened = sample_billing"
    by (simp add: billing_view_def opened_parts sample_billing_def first_version_def new_version_def opening_command_def
        sample_version_def first_line_def new_line_def sample_line_def contract_version.truncate_def contract_line.truncate_def jan_def)
  with sample_schedule have "schedule (\<lambda>_. ''a'') lagos_zones (billing_view [] opened) ''b1'' Shadow billed_command [] =
      Inr (sample_result (\<lambda>_. ''a''), [billed_row (\<lambda>_. ''a'')])" by simp
  from Obligation_scheduled [OF Nothing_billed [OF opened_history] this]
  have h: "billing_history (\<lambda>_. ''a'') lagos_zones (fixed_zone 0) sold_lines opened [billed_row (\<lambda>_. ''a'')]" .
  have civil: "runs_in lagos_zones (cv_cadence first_version) (fixed_zone hour_us)" by (simp add: sample_civil)
  have v: "first_version \<in> set (cd_versions opened)" by (simp add: opened_parts)
  show ?thesis
  proof (rule ex_ex1I)
    show "\<exists>x. x \<in> set [billed_row (\<lambda>_. ''a'')] \<and> ob_version x = ''v1'' \<and> ob_line_key x = ''l1'' \<and> ob_start x \<le> jan \<and> jan < ob_end x"
      using sample_times(1) by (simp add: sample_row_fields jan_def feb_def)
    show "x = y" if "x \<in> set [billed_row (\<lambda>_. ''a'')] \<and> ob_version x = ''v1'' \<and> ob_line_key x = ''l1'' \<and> ob_start x \<le> jan \<and> jan < ob_end x"
        "y \<in> set [billed_row (\<lambda>_. ''a'')] \<and> ob_version y = ''v1'' \<and> ob_line_key y = ''l1'' \<and> ob_start y \<le> jan \<and> jan < ob_end y" for x y
      by (rule recorded_contract_billed_once [OF h v civil, where t = jan]) (use that in \<open>simp_all only: first_fields\<close>)
  qed
qed

theorem change_at_boundary_bills_once_witness:
  "\<exists>old new. (\<exists>rows. schedule digest lagos_zones (billing_view [] changed) ''b1'' Shadow (whole_period ''v1'' ''l1'') [] = Inr (old, rows)) \<and>
     (\<exists>rows. schedule digest lagos_zones (billing_view [] changed) ''b2'' Shadow (whole_period ''v2'' ''l2'') [] = Inr (new, rows)) \<and>
     ends_at (sr_period old) \<le> feb \<and> feb \<le> starts_at (sr_period new)"
proof -
  have whole: "service_period lagos_zones prorated_cadence (Instant jan) 0 = Inr january"
    "service_period lagos_zones prorated_cadence (Instant feb) 0 = Inr (Interval feb (lagos 2026 3 1 0))"
    using sample_january by (simp_all add: jan_def feb_def)
      (simp add: cadence_eval prorated_cadence_def sample_cadence_def)
  have bounds: "starts_at january = jan" "ends_at january = feb" "feb < lagos 2026 3 1 0"
    by (simp_all add: january_def jan_def feb_def) (simp add: lagos_def calendar_eval)
  let ?db = "billing_view [] changed" and ?v1 = "contract_version.truncate (close_version feb first_version)"
    and ?v2 = "contract_version.truncate second_version"
  have found: "find_version ?db ''v1'' = Some ?v1" "find_version ?db ''v2'' = Some ?v2"
    by (simp_all add: find_version_view version_of_def changed_parts)
  have lines: "find_line ?db ''v1'' ''l1'' = Inr (contract_line.truncate first_line)"
    "find_line ?db ''v2'' ''l2'' = Inr (contract_line.truncate ip_line)"
    by (simp_all add: find_line_def billing_view_def changed_parts contract_line.truncate_def)
  have taxes: "cv_tax_code ?v1 = None" "\<not> cv_tax_inclusive ?v1" "cv_tax_code ?v2 = None" "\<not> cv_tax_inclusive ?v2"
    by (simp_all add: contract_version.truncate_def close_version_def second_version_def waiting_version_def draft_of_def
        first_version_def new_version_def opening_command_def)
  have old: "\<exists>res rows. schedule digest lagos_zones ?db ''b1'' Shadow (whole_period ''v1'' ''l1'') [] = Inr (res, rows) \<and> sr_period res = january"
    by (rule whole_period_scheduled [OF found(1) _ lines(1), where n = 31000])
      (simp_all add: taxes whole bounds, simp_all add: contract_line.truncate_def first_line_def new_line_def opening_command_def)
  have new: "\<exists>res rows. schedule digest lagos_zones ?db ''b2'' Shadow (whole_period ''v2'' ''l2'') [] = Inr (res, rows) \<and>
      sr_period res = Interval feb (lagos 2026 3 1 0)"
    by (rule whole_period_scheduled [OF found(2) _ lines(2), where n = 5000])
      (simp_all add: taxes whole bounds, simp_all add: contract_line.truncate_def ip_line_def)
  from old new obtain res rows res' rows' where
    s: "schedule digest lagos_zones ?db ''b1'' Shadow (whole_period ''v1'' ''l1'') [] = Inr (res, rows)"
      "schedule digest lagos_zones ?db ''b2'' Shadow (whole_period ''v2'' ''l2'') [] = Inr (res', rows')" by blast
  have "ends_at (sr_period res) \<le> cv_starts_at second_version \<and> cv_starts_at second_version \<le> starts_at (sr_period res')"
  proof (rule change_at_boundary_bills_once [OF changed_history _ _ _ _ _ _ _ s(1) _ s(2), where z = "fixed_zone hour_us" and z' = "fixed_zone hour_us"])
    show "service_period lagos_zones (cv_cadence (close_version feb first_version))
        (Instant (cv_starts_at (close_version feb first_version))) 0 = Inr (Interval jan (cv_starts_at second_version))"
      using whole(1) by (simp add: january_def jan_def feb_def)
  qed (simp_all add: changed_parts sample_civil whole_period_def)
  then show ?thesis using s by (intro exI [of _ res] exI [of _ res']) simp
qed

subsection \<open>Changes that move what is billed\<close>

text \<open>
  Terms recorded in the middle of a period start their own periods at once, while the obligation of the running
  period stays as it is: the same subscription is asked to pay the rest of January under both versions.
\<close>

definition replacing_ids :: fresh_ids where
  "replacing_ids = \<lparr>fr_contract = ''c2'', fr_version = ''v3'', fr_line = (\<lambda>_. ''x4''), fr_line_key = (\<lambda>_. ''l3''), fr_timer = ''t2''\<rparr>"

definition replacing_command :: version_command where
  "replacing_command = opening_command\<lparr>vc_starts_at := Instant mid\<rparr>"

definition third_version :: version_row where
  "third_version = new_version ''v3'' ''c1'' 2 Authoritative mid None (Some ''v1'') ''upgrade'' ''k2'' replacing_command"

definition third_line :: line_row where
  "third_line = first_line\<lparr>ln_version := ''v3'', lr_id := ''x4''\<rparr>"

definition replaced :: contract_db where
  "replaced = \<lparr>cd_contracts = [contract1], cd_versions = [close_version mid first_version, third_version],
     cd_lines = [first_line, third_line], cd_timers = []\<rparr>"

lemma third_fields [simp]:
  "cv_id third_version = ''v3''" "cv_contract third_version = ''c1''" "cv_subscription third_version = ''s1''"
  "cv_starts_at third_version = mid" "cv_ends_at third_version = None" "cv_cadence third_version = prorated_cadence"
  "vr_number third_version = 2" "vr_status third_version = Effective_version" "vr_price third_version = 31000"
  "vr_discount third_version = None" "stored_version third_version = Some third_version"
  by (simp_all add: third_version_def new_version_def replacing_command_def opening_command_def stored_version_def)

lemma third_line_fields [simp]:
  "ln_version third_line = ''v3''" "ln_key third_line = ''l1''" "ln_component third_line = Recurring_service" "lr_id third_line = ''x4''"
  "lr_component_key third_line = ''o1''" "ln_quantity third_line = 1" "ln_unit_price third_line = 31000" "ln_is_finite third_line = False"
  "stored_line third_line = Some third_line"
  by (simp_all add: third_line_def stored_line_def)

lemma sample_replacement:
  "record_version Authoritative now replacing_ids ''upgrade'' (Some ''k2'') replacing_command opened =
   Inr (\<lparr>vs_contract = ''c1'', vs_version = ''v3'', vs_number = 2, vs_authority = Authoritative, vs_lines = [''x4''],
     vs_replayed = False\<rparr>, replaced)"
proof -
  have ids: "fr_version replacing_ids = ''v3''" "fr_line replacing_ids n = ''x4''" "fr_line_key replacing_ids n = ''l3''" for n
    by (simp_all add: replacing_ids_def)
  have valid: "validate_command replacing_command = Inr (mid, None)"
    by (simp add: validate_command_def replacing_command_def opening_command_def check_line_def)
  have made: "ensure_contract Authoritative now i (vc_account replacing_command) (vc_subscription replacing_command) [contract1] =
      Inr (contract1, [contract1])" for i
    by (simp add: ensure_contract_def one_or_none_def replacing_command_def opening_command_def)
  have closed: "update_version [first_version] (close_version mid first_version) = Inr [close_version mid first_version]"
    by (simp add: update_version_def version_allowed_def put_row_def)
  have row: "insert_version [close_version mid first_version] (new_version ''v3'' ''c1'' 2 Authoritative mid None (Some ''v1'')
      ''upgrade'' ''k2'' replacing_command) = Inr [close_version mid first_version, third_version]"
    unfolding third_version_def [symmetric]
    by (simp add: insert_version_def version_allowed_def version_collides_def)
  have l: "vc_lines replacing_command = [hd (vc_lines replacing_command)]" "li_line_key (hd (vc_lines replacing_command)) = None"
    "li_component (hd (vc_lines replacing_command)) = Recurring_service" "li_component_key (hd (vc_lines replacing_command)) = ''o1''"
    by (simp_all add: replacing_command_def opening_command_def)
  have new: "new_line ''x4'' ''v3'' ''l1'' (hd (vc_lines replacing_command)) = third_line"
    by (simp add: new_line_def third_line_def first_line_def replacing_command_def opening_command_def)
  have line: "fold_err (add_line replacing_ids ''c1'' ''v3'') (\<lparr>cd_contracts = [contract1],
      cd_versions = [close_version mid first_version, third_version], cd_lines = [first_line], cd_timers = []\<rparr>, 0)
      (vc_lines replacing_command) = Inr (replaced, 1)"
    by (subst l(1)) (simp add: add_line_def ids l(2-4) inherited_line_key_def greatest_def insert_line_def new replaced_def)
  show ?thesis
    by (simp add: record_version_def valid opened_def made ids one_or_none_def record_new_def current_effective_def
        next_number_def latest_version_def greatest_def close_current_def closed row line Let_def)
qed

lemma replaced_parts:
  "cd_versions replaced = [close_version mid first_version, third_version]" "cd_lines replaced = [first_line, third_line]"
  by (simp_all add: replaced_def)

theorem mid_period_change_bills_twice:
  "record_version Authoritative now replacing_ids ''upgrade'' (Some ''k2'') replacing_command opened =
     Inr (\<lparr>vs_contract = ''c1'', vs_version = ''v3'', vs_number = 2, vs_authority = Authoritative, vs_lines = [''x4''],
       vs_replayed = False\<rparr>, replaced)"
  "\<exists>old rows. schedule digest lagos_zones (billing_view [] replaced) ''b1'' Shadow (whole_period ''v1'' ''l1'') [] = Inr (old, rows) \<and>
     sr_period old = Interval jan feb"
  "\<exists>new rows. schedule digest lagos_zones (billing_view [] replaced) ''b2'' Shadow (whole_period ''v3'' ''l1'') [] = Inr (new, rows) \<and>
     sr_period new = Interval mid (lagos 2026 2 15 0)"
proof -
  show "record_version Authoritative now replacing_ids ''upgrade'' (Some ''k2'') replacing_command opened =
     Inr (\<lparr>vs_contract = ''c1'', vs_version = ''v3'', vs_number = 2, vs_authority = Authoritative, vs_lines = [''x4''],
       vs_replayed = False\<rparr>, replaced)"
    by (rule sample_replacement)
  have whole: "service_period lagos_zones prorated_cadence (Instant jan) 0 = Inr (Interval jan feb)"
    "service_period lagos_zones prorated_cadence (Instant mid) 0 = Inr (Interval mid (lagos 2026 2 15 0))"
    using sample_january by (simp_all add: jan_def feb_def mid_def january_def)
      (simp add: cadence_eval prorated_cadence_def sample_cadence_def)
  have later: "mid < lagos 2026 2 15 0" by (simp add: mid_def lagos_def calendar_eval)
  let ?db = "billing_view [] replaced" and ?v1 = "contract_version.truncate (close_version mid first_version)"
    and ?v3 = "contract_version.truncate third_version"
  have found: "find_version ?db ''v1'' = Some ?v1" "find_version ?db ''v3'' = Some ?v3"
    by (simp_all add: find_version_view version_of_def replaced_parts)
  have lines: "find_line ?db ''v1'' ''l1'' = Inr (contract_line.truncate first_line)"
    "find_line ?db ''v3'' ''l1'' = Inr (contract_line.truncate third_line)"
    by (simp_all add: find_line_def billing_view_def replaced_parts contract_line.truncate_def)
  have taxes: "cv_tax_code ?v1 = None" "\<not> cv_tax_inclusive ?v1" "cv_tax_code ?v3 = None" "\<not> cv_tax_inclusive ?v3"
    by (simp_all add: contract_version.truncate_def close_version_def third_version_def first_version_def new_version_def
        opening_command_def replacing_command_def)
  show "\<exists>old rows. schedule digest lagos_zones ?db ''b1'' Shadow (whole_period ''v1'' ''l1'') [] = Inr (old, rows) \<and>
      sr_period old = Interval jan feb"
    by (rule whole_period_scheduled [OF found(1) _ lines(1), where n = 31000])
      (simp_all add: taxes whole, simp_all add: contract_line.truncate_def first_line_def new_line_def opening_command_def)
  show "\<exists>new rows. schedule digest lagos_zones ?db ''b2'' Shadow (whole_period ''v3'' ''l1'') [] = Inr (new, rows) \<and>
      sr_period new = Interval mid (lagos 2026 2 15 0)"
    by (rule whole_period_scheduled [OF found(2) _ lines(2), where n = 31000])
      (simp_all add: taxes whole later, simp_all add: contract_line.truncate_def third_line_def first_line_def new_line_def opening_command_def)
qed

text \<open>
  An add-on bought on a contract of 31 January makes a version that starts on 28 February, where the first
  period ends; its periods are counted from the 28th, while those of the version it supersedes return to the 31st.
\<close>

theorem activation_moves_anchor:
  "service_period lagos_zones sample_cadence (Instant (lagos 2026 1 31 9)) 0 = Inr (Interval (lagos 2026 1 31 9) (lagos 2026 2 28 9))"
  "service_period lagos_zones sample_cadence (Instant (lagos 2026 1 31 9)) 1 = Inr (Interval (lagos 2026 2 28 9) (lagos 2026 3 31 9))"
  "service_period lagos_zones sample_cadence (Instant (lagos 2026 2 28 9)) 0 = Inr (Interval (lagos 2026 2 28 9) (lagos 2026 3 28 9))"
  by (simp_all add: cadence_eval sample_cadence_def)

end
