(* ===== verification/Control_Plane.thy ===== *)
theory Control_Plane
  imports Prelude
begin

section \<open>The control-plane intent contract\<close>

text \<open>
  Models \<open>app/services/control_plane_intent.py\<close>: the phases of an intent and the transitions
  between them, the revision head check, the target identity, the projections of the vendors'
  native states on the shared phases, and the admissibility rule for substituted desired values.
  A raised \<open>ControlPlaneContractError\<close> (or one of its two subclasses) is the \<open>Inl\<close> of the result.
\<close>

subsection \<open>Phases, errors and desired scalars\<close>

datatype phase =
  Desired | Planned | Queued | Applying | Readback_pending | Verified | Drifted | Failed

fun phase_value :: "phase \<Rightarrow> string" where
  "phase_value Desired = ''desired''"
| "phase_value Planned = ''planned''"
| "phase_value Queued = ''queued''"
| "phase_value Applying = ''applying''"
| "phase_value Readback_pending = ''readback_pending''"
| "phase_value Verified = ''verified''"
| "phase_value Drifted = ''drifted''"
| "phase_value Failed = ''failed''"

datatype contract_error =
  Contract_Error string
| Transition_Error string
| Head_Conflict string

text \<open>\<open>DesiredScalar = str | int | bool | None\<close>.\<close>

datatype scalar = SNone | SBool bool | SInt int | SStr string

fun is_bool :: "scalar \<Rightarrow> bool" where
  "is_bool (SBool b) = True"
| "is_bool v = False"

text \<open>
  Python's \<open>==\<close> on those scalars: \<open>True == 1\<close> and \<open>False == 0\<close>, every other pair of different
  types is unequal.
\<close>

fun scalar_eq :: "scalar \<Rightarrow> scalar \<Rightarrow> bool" where
  "scalar_eq (SBool b) (SInt n) = (n = (if b then 1 else 0))"
| "scalar_eq (SInt n) (SBool b) = (n = (if b then 1 else 0))"
| "scalar_eq a b = (a = b)"

subsection \<open>Authority over substituted defaults\<close>

datatype authority = Declared_default | Inadmissible | Delegated | Undeclared

datatype adjudication = Approved | Undecided | Refused

datatype provenance = Prov_explicit | Prov_declared_default | Prov_unknown

fun authority_value :: "authority \<Rightarrow> string" where
  "authority_value Declared_default = ''declared_default''"
| "authority_value Inadmissible = ''inadmissible''"
| "authority_value Delegated = ''delegated''"
| "authority_value Undeclared = ''undeclared''"

fun adjudication_value :: "adjudication \<Rightarrow> string" where
  "adjudication_value Approved = ''approved''"
| "adjudication_value Undecided = ''undecided''"
| "adjudication_value Refused = ''refused''"

definition has_executable_desired_provenance :: "provenance \<Rightarrow> bool" where
  "has_executable_desired_provenance p \<longleftrightarrow> p \<in> {Prov_explicit, Prov_declared_default}"

record desired_value_declaration =
  decl_field :: string
  decl_sentinel :: scalar
  decl_authority :: authority
  decl_adjudication :: adjudication
  decl_declared_by :: "string option"

text \<open>
  \<open>DesiredValueDeclaration(...)\<close>: the constructor runs \<open>__post_init__\<close>, which rejects a claim
  with no owner, an owner with no claim, and an executable default that was not approved.
\<close>

definition make_declaration ::
  "string \<Rightarrow> scalar \<Rightarrow> authority \<Rightarrow> adjudication \<Rightarrow> string option \<Rightarrow> contract_error + desired_value_declaration" where
  "make_declaration f s a j own =
     (let named = a \<in> {Declared_default, Delegated} in
      if named \<and> py_strip (str_or own []) = [] then
        Inl (Contract_Error (py_repr f @ '' claims '' @ authority_value a @
          '' without naming an owner''))
      else if \<not> named \<and> truthy_str own then
        Inl (Contract_Error (py_repr f @ '' names an owner but claims no delegated authority''))
      else if a = Declared_default \<and> j \<noteq> Approved then
        Inl (Contract_Error (py_repr f @ '' is executable but its review is '' @
          adjudication_value j @ ''; only an approved default executes''))
      else if j = Refused \<and> a = Declared_default then
        Inl (Contract_Error (py_repr f @
          '' was refused and cannot also be a declared default''))
      else Inr \<lparr>decl_field = f, decl_sentinel = s, decl_authority = a,
        decl_adjudication = j, decl_declared_by = own\<rparr>)"

definition is_executable_desired_value :: "scalar \<Rightarrow> desired_value_declaration \<Rightarrow> bool" where
  "is_executable_desired_value v d =
     (if is_bool v \<noteq> is_bool (decl_sentinel d) then True
      else if \<not> scalar_eq v (decl_sentinel d) then True
      else if decl_authority d = Declared_default then True
      else if decl_authority d = Delegated then True
      else if decl_authority d = Undeclared then True
      else False)"

text \<open>
  The type test before the comparison is what makes Python's \<open>==\<close> agree with equality of values
  and types.
\<close>

lemma scalar_eq_same_kind: "is_bool v = is_bool s \<Longrightarrow> scalar_eq v s \<longleftrightarrow> v = s"
  by (cases "(v, s)" rule: scalar_eq.cases) auto

lemma executable_iff:
  "is_executable_desired_value v d \<longleftrightarrow> v \<noteq> decl_sentinel d \<or> decl_authority d \<noteq> Inadmissible"
  by (cases "decl_authority d") (auto simp: is_executable_desired_value_def scalar_eq_same_kind)

lemma make_declaration_Inr:
  assumes "make_declaration f s a j own = Inr d"
  shows "decl_field d = f" and "decl_sentinel d = s" and "decl_authority d = a"
    and "decl_adjudication d = j" and "decl_declared_by d = own"
    and "a = Declared_default \<Longrightarrow> j = Approved"
    and "a \<in> {Declared_default, Delegated} \<longleftrightarrow> truthy_str own"
  using assms
  by (auto simp: make_declaration_def Let_def split: if_splits dest: py_strip_str_or)

text \<open>
  In every declaration the constructor accepts, a default executes only with an authority
  behind it. A value that is not the substituted sentinel (in value and type) always executes;
  the sentinel itself executes exactly when the authority is not \<open>inadmissible\<close>; and a declared
  default, the one authority that grants execution, has an approved review and a named owner.
\<close>

theorem declared_value_admission:
  assumes "make_declaration f s a j own = Inr d"
  shows "(is_executable_desired_value v d \<longleftrightarrow> v \<noteq> s \<or> a \<noteq> Inadmissible) \<and>
    (a = Declared_default \<longrightarrow> j = Approved \<and> truthy_str own)"
  using make_declaration_Inr [OF assms] by (auto simp: executable_iff)

theorem declared_value_admission_witness:
  "is_executable_desired_value (SInt 0) \<lparr>decl_field = ''wan_vlan'', decl_sentinel = SInt 0,
     decl_authority = Inadmissible, decl_adjudication = Refused, decl_declared_by = None\<rparr> = False"
proof -
  have "make_declaration ''wan_vlan'' (SInt 0) Inadmissible Refused None =
      Inr \<lparr>decl_field = ''wan_vlan'', decl_sentinel = SInt 0, decl_authority = Inadmissible,
        decl_adjudication = Refused, decl_declared_by = None\<rparr>"
    by (simp add: make_declaration_def)
  from declared_value_admission [OF this, of "SInt 0"] show ?thesis by simp
qed

subsection \<open>The target of one desired-state revision\<close>

record control_plane_target =
  tgt_provider :: string
  tgt_target_type :: string
  tgt_target_id :: string
  tgt_desired_revision :: int

text \<open>
  \<open>ControlPlaneTarget(...)\<close>: the three names are stripped in order and must not be empty, the first
  two are lower-cased, and the revision must be positive.
\<close>

definition make_target ::
  "string \<Rightarrow> string \<Rightarrow> string \<Rightarrow> int \<Rightarrow> contract_error + control_plane_target" where
  "make_target provider target_type target_id revision =
     (if py_strip provider = [] then Inl (Contract_Error ''provider is required'')
      else if py_strip target_type = [] then Inl (Contract_Error ''target_type is required'')
      else if py_strip target_id = [] then Inl (Contract_Error ''target_id is required'')
      else if revision < 1 then Inl (Contract_Error ''desired_revision must be positive'')
      else Inr \<lparr>tgt_provider = py_lower (py_strip provider),
                tgt_target_type = py_lower (py_strip target_type),
                tgt_target_id = py_strip target_id,
                tgt_desired_revision = revision\<rparr>)"

definition correlation_key :: "control_plane_target \<Rightarrow> string" where
  "correlation_key t = tgt_provider t @ '':'' @ tgt_target_type t @ '':'' @ tgt_target_id t @ '':'' @
     ''revision:'' @ show_int (tgt_desired_revision t)"

lemma append_colon_eq:
  assumes "CHR '':'' \<notin> set a" and "CHR '':'' \<notin> set b"
    and "a @ CHR '':'' # x = b @ CHR '':'' # y"
  shows "a = b \<and> x = y"
  using assms
proof (induction a arbitrary: b)
  case Nil
  then show ?case by (cases b) auto
next
  case (Cons c a)
  then show ?case by (cases b) auto
qed

lemma show_int_no_colon: "CHR '':'' \<notin> set (show_int i)"
proof -
  have d: "CHR '':'' \<notin> set (show_nat n)" for n
    using show_nat_digits [of "CHR '':''" n] by (auto simp: is_digit_def)
  then show ?thesis by (simp add: show_int_def)
qed

lemma show_int_inj: "0 < i \<Longrightarrow> 0 < j \<Longrightarrow> show_int i = show_int j \<Longrightarrow> i = j"
  by (metis less_le_not_le nat_of_digits_show_nat nat_eq_iff2 order_less_imp_le show_int_nonneg)

subsection \<open>Phase transitions and revision heads\<close>

fun allowed_transitions :: "phase \<Rightarrow> phase set" where
  "allowed_transitions Desired = {Planned, Queued, Applying, Failed}"
| "allowed_transitions Planned = {Queued, Failed}"
| "allowed_transitions Queued = {Applying, Readback_pending, Verified, Drifted, Failed}"
| "allowed_transitions Applying = {Readback_pending, Verified, Drifted, Failed}"
| "allowed_transitions Readback_pending = {Applying, Verified, Drifted, Failed}"
| "allowed_transitions Verified = {Desired, Drifted}"
| "allowed_transitions Drifted =
     {Desired, Planned, Queued, Applying, Readback_pending, Verified, Failed}"
| "allowed_transitions Failed = {Desired, Planned, Queued, Applying, Readback_pending}"

definition assert_phase_transition :: "phase \<Rightarrow> phase \<Rightarrow> contract_error + unit" where
  "assert_phase_transition current destination =
     (if current = destination then Inr ()
      else if destination \<notin> allowed_transitions current then
        Inl (Transition_Error (''Cannot transition control-plane intent from '' @
          CHR 0x27 # phase_value current @ CHR 0x27 # '' to '' @
          CHR 0x27 # phase_value destination @ [CHR 0x27]))
      else Inr ())"

definition assert_intent_head :: "int \<Rightarrow> int \<Rightarrow> contract_error + unit" where
  "assert_intent_head expected current =
     (if expected < 1 then Inl (Contract_Error ''expected_revision must be positive'')
      else if expected \<noteq> current then
        Inl (Head_Conflict (''Intent revision '' @ show_int expected @
          '' is stale; current revision is '' @ show_int current))
      else Inr ())"

lemma assert_phase_transition_Inr:
  "assert_phase_transition p q = Inr () \<longleftrightarrow> p = q \<or> q \<in> allowed_transitions p"
  by (simp add: assert_phase_transition_def)

text \<open>The lifecycle as a step relation: one step is a transition the contract accepts.\<close>

inductive phase_step :: "phase \<Rightarrow> phase \<Rightarrow> bool" where
  stepI: "p \<noteq> q \<Longrightarrow> assert_phase_transition p q = Inr () \<Longrightarrow> phase_step p q"

inductive_cases phase_stepE: "phase_step p q"
inductive_simps phase_step_iff: "phase_step p q"

lemma phase_step_allowed: "phase_step p q \<longleftrightarrow> p \<noteq> q \<and> q \<in> allowed_transitions p"
  by (auto simp: phase_step_iff assert_phase_transition_Inr)

subsection \<open>Native states projected on the phases\<close>

text \<open>\<open>_project\<close>: look the native status up, an unknown one raises.\<close>

definition project_status ::
  "string \<Rightarrow> (string \<times> phase) list \<Rightarrow> string \<Rightarrow> contract_error + phase" where
  "project_status source table status =
     (let value = py_lower (py_strip status) in
      case map_of table value of
        Some p \<Rightarrow> Inr p
      | None \<Rightarrow> Inl (Contract_Error (''Unknown '' @ source @ '' status '' @
          CHR 0x27 # value @ [CHR 0x27])))"

definition network_operation_table :: "(string \<times> phase) list" where
  "network_operation_table =
     [(''pending'', Queued), (''running'', Applying), (''waiting'', Readback_pending),
      (''succeeded'', Verified), (''warning'', Drifted), (''failed'', Failed),
      (''canceled'', Failed)]"

definition phase_for_network_operation :: "string \<Rightarrow> contract_error + phase" where
  "phase_for_network_operation = project_status ''NetworkOperation'' network_operation_table"

definition uisp_intent_table :: "(string \<times> phase) list" where
  "uisp_intent_table =
     [(''staged'', Desired), (''applying'', Applying), (''pending_readback'', Readback_pending),
      (''pending_observation'', Readback_pending), (''verified'', Verified),
      (''drifted'', Drifted), (''manual_required'', Drifted), (''failed'', Failed),
      (''decommissioned'', Verified)]"

definition phase_for_uisp_intent :: "string \<Rightarrow> contract_error + phase" where
  "phase_for_uisp_intent = project_status ''UISP intent'' uisp_intent_table"

definition huawei_sync_table :: "(string \<times> phase) list" where
  "huawei_sync_table =
     [(''synced'', Verified), (''reconciling'', Applying), (''out_of_sync'', Drifted)]"

definition phase_for_huawei_sync :: "string \<Rightarrow> contract_error + phase" where
  "phase_for_huawei_sync = project_status ''Huawei reconcile'' huawei_sync_table"

definition router_push_table :: "(string \<times> phase) list" where
  "router_push_table =
     [(''pending'', Queued), (''running'', Applying), (''pending_readback'', Readback_pending),
      (''completed'', Verified), (''partial_failure'', Drifted), (''failed'', Failed),
      (''rolled_back'', Failed)]"

definition phase_for_router_push :: "string \<Rightarrow> contract_error + phase" where
  "phase_for_router_push = project_status ''RouterOS push'' router_push_table"

definition router_push_result_table :: "(string \<times> phase) list" where
  "router_push_result_table =
     [(''pending'', Queued), (''running'', Applying), (''pending_readback'', Readback_pending),
      (''success'', Verified), (''failed'', Failed), (''skipped'', Failed)]"

definition phase_for_router_push_result :: "string \<Rightarrow> contract_error + phase" where
  "phase_for_router_push_result = project_status ''RouterOS push result'' router_push_result_table"

definition provisioning_run_table :: "(string \<times> phase) list" where
  "provisioning_run_table =
     [(''pending'', Queued), (''running'', Applying), (''success'', Verified),
      (''failed'', Failed)]"

definition phase_for_provisioning_run :: "string \<Rightarrow> contract_error + phase" where
  "phase_for_provisioning_run = project_status ''ProvisioningRun'' provisioning_run_table"

subsection \<open>Properties of targets and transitions\<close>

lemma make_target_Inr:
  assumes "make_target pr ty i r = Inr t"
  shows "tgt_provider t = py_lower (py_strip pr)" and "tgt_target_type t = py_lower (py_strip ty)"
    and "tgt_target_id t = py_strip i" and "tgt_desired_revision t = r" and "0 < r"
  using assms by (auto simp: make_target_def split: if_splits)

text \<open>
  The correlation key names one target revision. Two valid targets whose provider and target
  type contain no colon have the same key only if they are equal, whatever their target ids hold.
\<close>

theorem correlation_key_unique:
  assumes t: "make_target p1 ty1 i1 r1 = Inr t" and u: "make_target p2 ty2 i2 r2 = Inr u"
    and key: "correlation_key t = correlation_key u"
    and pt: "CHR '':'' \<notin> set (tgt_provider t)" and pu: "CHR '':'' \<notin> set (tgt_provider u)"
    and tt: "CHR '':'' \<notin> set (tgt_target_type t)" and tu: "CHR '':'' \<notin> set (tgt_target_type u)"
  shows "t = u"
proof -
  let ?tail = "\<lambda>x. tgt_target_id x @ '':'' @ ''revision:'' @ show_int (tgt_desired_revision x)"
  from key append_colon_eq [OF pt pu, of "tgt_target_type t @ '':'' @ ?tail t"
      "tgt_target_type u @ '':'' @ ?tail u"]
  have pr: "tgt_provider t = tgt_provider u"
    and rest: "tgt_target_type t @ CHR '':'' # ?tail t = tgt_target_type u @ CHR '':'' # ?tail u"
    by (simp_all add: correlation_key_def)
  from append_colon_eq [OF tt tu rest]
  have ty: "tgt_target_type t = tgt_target_type u" and tail: "?tail t = ?tail u" by simp_all
  let ?x = "rev (show_int (tgt_desired_revision t))" and ?y = "rev (show_int (tgt_desired_revision u))"
  from tail have "rev (?tail t) = rev (?tail u)" by (rule arg_cong)
  then have "?x @ CHR '':'' # rev (tgt_target_id t @ '':'' @ ''revision'') =
      ?y @ CHR '':'' # rev (tgt_target_id u @ '':'' @ ''revision'')" by simp
  from append_colon_eq [OF _ _ this] show_int_no_colon
  have "?x = ?y" and i: "tgt_target_id t = tgt_target_id u" by simp_all
  then have "tgt_desired_revision t = tgt_desired_revision u"
    using make_target_Inr(4,5) [OF t] make_target_Inr(4,5) [OF u] show_int_inj
    by (metis rev_rev_ident)
  with pr ty i show ?thesis by (simp add: control_plane_target.equality)
qed

theorem correlation_key_unique_witness:
  "make_target '' UISP '' ''Device'' ''ap:7'' 3 =
     Inr \<lparr>tgt_provider = ''uisp'', tgt_target_type = ''device'', tgt_target_id = ''ap:7'',
       tgt_desired_revision = 3\<rparr> \<and>
   make_target ''uisp'' ''DEVICE'' '' ap:7'' 3 =
     make_target '' UISP '' ''Device'' ''ap:7'' 3"
proof -
  let ?t = "\<lparr>tgt_provider = ''uisp'', tgt_target_type = ''device'', tgt_target_id = ''ap:7'',
       tgt_desired_revision = 3\<rparr>"
  have a: "make_target '' UISP '' ''Device'' ''ap:7'' 3 = Inr ?t" by code_simp
  have b: "make_target ''uisp'' ''DEVICE'' '' ap:7'' 3 = Inr ?t" by code_simp
  have "?t = ?t" by (rule correlation_key_unique [OF a b]) simp_all
  with a b show ?thesis by simp
qed

text \<open>A walk through the lifecycle: each phase is a step from the one before.\<close>

fun phase_walk :: "phase \<Rightarrow> phase list \<Rightarrow> bool" where
  "phase_walk p [] = True"
| "phase_walk p (q # qs) = (isl (assert_phase_transition p q) = False \<and> phase_walk q qs)"

lemma phase_walk_Cons: "phase_walk p (q # qs) \<longleftrightarrow> (p = q \<or> q \<in> allowed_transitions p) \<and> phase_walk q qs"
  by (simp add: assert_phase_transition_def)

declare phase_walk.simps(2) [simp del]
declare phase_walk_Cons [simp]

lemma undelivered_step:
  assumes "p \<in> {Desired, Planned, Failed}" and "p = q \<or> q \<in> allowed_transitions p"
  shows "q \<in> {Desired, Planned, Failed} \<or> q \<in> {Queued, Applying, Readback_pending}"
  using assms by (cases p) auto

text \<open>
  No intent is verified without having been delivered. A lifecycle walk the contract accepts
  that starts desired, planned or failed and ends verified passes through a phase in which the
  change was queued, applied or awaiting readback.
\<close>

theorem verified_only_after_delivery:
  assumes "phase_walk p qs" and "p \<in> {Desired, Planned, Failed}" and "Verified \<in> set qs"
  shows "\<exists>q \<in> set qs. q \<in> {Queued, Applying, Readback_pending}"
  using assms
proof (induction qs arbitrary: p)
  case Nil
  then show ?case by simp
next
  case (Cons q qs)
  from Cons.prems(1) have st: "p = q \<or> q \<in> allowed_transitions p" and w: "phase_walk q qs" by simp_all
  from undelivered_step [OF Cons.prems(2) st] consider
    (under) "q \<in> {Desired, Planned, Failed}" | (delivered) "q \<in> {Queued, Applying, Readback_pending}"
    by blast
  then show ?case
  proof cases
    case under
    then have "Verified \<in> set qs" using Cons.prems(3) by auto
    from Cons.IH [OF w under this] show ?thesis by auto
  qed auto
qed

theorem verified_only_after_delivery_witness:
  "\<exists>q \<in> set [Failed, Planned, Queued, Verified]. q \<in> {Queued, Applying, Readback_pending}"
  by (rule verified_only_after_delivery [of Failed]) simp_all

text \<open>
  The lifecycle has no dead end. From every phase there is a walk of accepted transitions that
  ends verified.
\<close>

theorem verified_always_reachable: "\<exists>qs. phase_walk p qs \<and> last (p # qs) = Verified"
proof (cases p)
  case Desired then show ?thesis by (intro exI [of _ "[Queued, Verified]"]) simp
next
  case Planned then show ?thesis by (intro exI [of _ "[Queued, Verified]"]) simp
next
  case Queued then show ?thesis by (intro exI [of _ "[Verified]"]) simp
next
  case Applying then show ?thesis by (intro exI [of _ "[Verified]"]) simp
next
  case Readback_pending then show ?thesis by (intro exI [of _ "[Verified]"]) simp
next
  case Verified then show ?thesis by (intro exI [of _ "[]"]) simp
next
  case Drifted then show ?thesis by (intro exI [of _ "[Verified]"]) simp
next
  case Failed then show ?thesis by (intro exI [of _ "[Queued, Verified]"]) simp
qed

end
