(* ===== verification/Sentinels.thy ===== *)
theory Sentinels
  imports Control_Plane
begin

section \<open>Which desired values mean unset\<close>

text \<open>
  Models \<open>app/services/network/reconcile/sentinels.py\<close>: the provider's declaration table, the
  look-up \<open>is_deliverable\<close> that planner and applier share, and the detector's \<open>fires_for\<close>. The two
  documentation strings of a rule (\<open>writes\<close>, \<open>impact\<close>), which no code branches on, are left out.
\<close>

subsection \<open>The declaration table\<close>

datatype layer = Composer | Adapter | Planner

datatype trigger = Falsy | Absent

record sentinel_rule =
  rule_field :: string
  rule_layer :: layer
  rule_sentinel :: scalar
  rule_trigger :: trigger
  rule_authority :: authority
  rule_adjudication :: adjudication
  rule_declared_by :: "string option"
  rule_config_path :: "string option"
  rule_source_key :: "string option"

definition mk_rule :: "string \<Rightarrow> layer \<Rightarrow> scalar \<Rightarrow> trigger \<Rightarrow> authority \<Rightarrow> adjudication \<Rightarrow>
    string option \<Rightarrow> string option \<Rightarrow> string option \<Rightarrow> sentinel_rule" where
  "mk_rule f l s t a j own path key = \<lparr>rule_field = f, rule_layer = l, rule_sentinel = s,
     rule_trigger = t, rule_authority = a, rule_adjudication = j, rule_declared_by = own,
     rule_config_path = path, rule_source_key = key\<rparr>"

lemma mk_rule_fields [simp]:
  "rule_field (mk_rule f l s t a j own path key) = f"
  "rule_layer (mk_rule f l s t a j own path key) = l"
  "rule_sentinel (mk_rule f l s t a j own path key) = s"
  "rule_trigger (mk_rule f l s t a j own path key) = t"
  "rule_authority (mk_rule f l s t a j own path key) = a"
  "rule_adjudication (mk_rule f l s t a j own path key) = j"
  "rule_declared_by (mk_rule f l s t a j own path key) = own"
  "rule_config_path (mk_rule f l s t a j own path key) = path"
  "rule_source_key (mk_rule f l s t a j own path key) = key"
  by (simp_all add: mk_rule_def)

text \<open>The entries refused in planner and applier.\<close>

definition rules_refused :: "sentinel_rule list" where
  "rules_refused =
    [mk_rule ''wifi_ssid'' Adapter (SStr []) Falsy Inadmissible Refused None None
       (Some ''wifi_ssid''),
     mk_rule ''wifi_password_ref'' Adapter (SStr []) Falsy Inadmissible Refused None None
       (Some ''wifi_password''),
     mk_rule ''line_profile_id'' Adapter (SInt 0) Falsy Inadmissible Refused None None
       (Some ''authorization_line_profile_id''),
     mk_rule ''service_profile_id'' Adapter (SInt 0) Falsy Inadmissible Refused None None
       (Some ''authorization_service_profile_id'')]"

text \<open>The entries another owner refuses, and the one declared default.\<close>

definition rules_owned :: "sentinel_rule list" where
  "rules_owned =
    [mk_rule ''wan_pppoe_username'' Planner (SStr []) Falsy Delegated Refused
       (Some ''network.ppp_delivery_authorization'') None (Some ''pppoe_username''),
     mk_rule ''wan_pppoe_password_ref'' Planner (SStr []) Falsy Delegated Refused
       (Some ''network.ppp_delivery_authorization'') None (Some ''pppoe_password''),
     mk_rule ''wan_pppoe_instance_index'' Composer (SInt 1) Absent Declared_default Approved
       (Some ''network.ont_provisioning_defaults'') (Some ''wan.instance_index'')
       (Some ''wan_instance_index'')]"

text \<open>The defaults of the LAN block, and the layout and credential values refused since.\<close>

definition rules_adapter :: "sentinel_rule list" where
  "rules_adapter =
    [mk_rule ''dhcp_enabled'' Adapter (SBool True) Absent Undeclared Undecided None None
       (Some ''lan_dhcp_enabled''),
     mk_rule ''dhcp_pool_min'' Adapter (SStr ''192.168.100.2'') Falsy Undeclared Undecided None None
       (Some ''lan_dhcp_start''),
     mk_rule ''dhcp_pool_max'' Adapter (SStr ''192.168.100.254'') Falsy Undeclared Undecided None
       None (Some ''lan_dhcp_end''),
     mk_rule ''tr069_profile_id'' Adapter (SInt 0) Falsy Inadmissible Refused None None
       (Some ''tr069_olt_profile_id''),
     mk_rule ''wan_pppoe_wcd_index'' Adapter SNone Absent Inadmissible Refused None None
       (Some ''pppoe_wcd_index''),
     mk_rule ''cr_username'' Adapter (SStr []) Falsy Inadmissible Refused None None
       (Some ''cr_username''),
     mk_rule ''cr_password_ref'' Adapter (SStr []) Falsy Inadmissible Refused None None
       (Some ''cr_password''),
     mk_rule ''wan_vlan'' Adapter (SInt 0) Falsy Inadmissible Refused None None
       (Some ''wan_vlan'')]"

text \<open>The remaining entries: substituted by the planner, or not measurable from stored config.\<close>

definition rules_undeclared :: "sentinel_rule list" where
  "rules_undeclared =
    [mk_rule ''wan_gem_index'' Planner (SInt 1) Falsy Undeclared Undecided None None
       (Some ''wan_gem_index''),
     mk_rule ''mgmt_subnet_mask'' Planner (SStr ''255.255.255.0'') Falsy Undeclared Undecided None
       None (Some ''mgmt_subnet''),
     mk_rule ''mgmt_gateway'' Planner (SStr []) Falsy Undeclared Undecided None None
       (Some ''mgmt_gateway''),
     mk_rule ''acs_username'' Planner (SStr []) Falsy Undeclared Undecided None None None,
     mk_rule ''tr069_data_model_root'' Planner (SStr ''InternetGatewayDevice'') Falsy Undeclared
       Undecided None None None,
     mk_rule ''acs_device_id'' Planner (SStr []) Falsy Undeclared Undecided None None None,
     mk_rule ''periodic_inform_interval_sec'' Adapter (SInt 300) Falsy Undeclared Undecided None
       None None]"

definition RULES :: "sentinel_rule list" where
  "RULES = rules_refused @ rules_owned @ rules_adapter @ rules_undeclared"

lemmas RULES_defs = RULES_def rules_refused_def rules_owned_def rules_adapter_def
  rules_undeclared_def

subsection \<open>Looking a field up\<close>

text \<open>\<open>{rule.field: rule for rule in RULES}\<close>: a later entry would replace an earlier one.\<close>

definition by_field :: "string \<Rightarrow> sentinel_rule option" where
  "by_field = map_of (rev (map (\<lambda>r. (rule_field r, r)) RULES))"

definition rule_declaration :: "sentinel_rule \<Rightarrow> contract_error + desired_value_declaration" where
  "rule_declaration r = make_declaration (rule_field r) (rule_sentinel r) (rule_authority r)
     (rule_adjudication r) (rule_declared_by r)"

definition rule_measurable :: "sentinel_rule \<Rightarrow> bool" where
  "rule_measurable r \<longleftrightarrow> rule_config_path r \<noteq> None \<or> rule_source_key r \<noteq> None"

fun falsy :: "scalar \<Rightarrow> bool" where
  "falsy SNone = True"
| "falsy (SBool b) = (\<not> b)"
| "falsy (SInt n) = (n = 0)"
| "falsy (SStr s) = (s = [])"

datatype fires_error = Not_measurable string | No_input string

definition fires_for ::
  "sentinel_rule \<Rightarrow> (string \<Rightarrow> scalar option) \<Rightarrow> string set \<Rightarrow> fires_error + bool" where
  "fires_for r values config_keys =
     (if \<not> rule_measurable r then Inl (Not_measurable (rule_field r))
      else case rule_config_path r of
        Some path \<Rightarrow> Inr (path \<notin> config_keys)
      | None \<Rightarrow> (case rule_source_key r of
          None \<Rightarrow> Inl (No_input (rule_field r))
        | Some key \<Rightarrow>
            (let value = (case values key of None \<Rightarrow> SNone | Some v \<Rightarrow> v)
             in Inr (if rule_trigger r = Absent then value = SNone else falsy value))))"

definition rules_by_authority :: "authority \<Rightarrow> sentinel_rule list" where
  "rules_by_authority a = filter (\<lambda>r. rule_authority r = a) RULES"

definition rules_by_layer :: "layer \<Rightarrow> sentinel_rule list" where
  "rules_by_layer l = filter (\<lambda>r. rule_layer r = l) RULES"

text \<open>
  \<open>is_deliverable\<close>. Building the rule's declaration can raise; every entry of the table builds
  (\<open>rule_declarations_valid\<close> below), so the \<open>Inl\<close> branch is never taken.
\<close>

definition is_deliverable :: "string \<Rightarrow> scalar \<Rightarrow> bool" where
  "is_deliverable field value =
     (case by_field field of
        None \<Rightarrow> True
      | Some rule \<Rightarrow> (case rule_declaration rule of
          Inl e \<Rightarrow> False
        | Inr d \<Rightarrow> is_executable_desired_value value d))"

definition is_unset :: "string \<Rightarrow> scalar \<Rightarrow> bool" where
  "is_unset field value \<longleftrightarrow> \<not> is_deliverable field value"

text \<open>The checked-in list \<open>desired_value_authority_debt.txt\<close>, comments removed.\<close>

definition authority_debt_baseline :: "string set" where
  "authority_debt_baseline = {''acs_device_id'', ''acs_username'', ''dhcp_enabled'',
     ''dhcp_pool_max'', ''dhcp_pool_min'', ''mgmt_gateway'', ''mgmt_subnet_mask'',
     ''periodic_inform_interval_sec'', ''tr069_data_model_root'', ''wan_gem_index''}"

subsection \<open>The table is well formed\<close>

lemma rule_declarations_valid: "\<forall>r \<in> set RULES. \<exists>d. rule_declaration r = Inr d"
  by (simp add: RULES_defs rule_declaration_def make_declaration_def py_strip_def py_isspace_def)

lemma rule_fields_distinct: "distinct (map rule_field RULES)"
  by (simp add: RULES_defs)

lemma by_field_mem: "by_field f = Some r \<Longrightarrow> r \<in> set RULES \<and> rule_field r = f"
  unfolding by_field_def by (drule map_of_SomeD) auto

lemma by_field_rule: "r \<in> set RULES \<Longrightarrow> by_field (rule_field r) = Some r"
proof -
  assume r: "r \<in> set RULES"
  have "distinct (map fst (rev (map (\<lambda>r. (rule_field r, r)) RULES)))"
    using rule_fields_distinct by (simp add: rev_map [symmetric] o_def)
  with r show ?thesis unfolding by_field_def by (intro map_of_is_SomeI) auto
qed

lemma is_deliverable_rule:
  "r \<in> set RULES \<Longrightarrow> is_deliverable (rule_field r) v \<longleftrightarrow>
     v \<noteq> rule_sentinel r \<or> rule_authority r \<noteq> Inadmissible"
proof -
  assume r: "r \<in> set RULES"
  obtain d where d: "rule_declaration r = Inr d" using rule_declarations_valid r by blast
  note * = make_declaration_Inr [OF d [unfolded rule_declaration_def]]
  show ?thesis using d * by (simp add: is_deliverable_def by_field_rule [OF r] executable_iff)
qed

lemma is_deliverable_no_rule: "f \<notin> set (map rule_field RULES) \<Longrightarrow> is_deliverable f v"
  by (auto simp: is_deliverable_def split: option.splits dest: by_field_mem)

subsection \<open>The gate the writers see\<close>

text \<open>
  The interface between this table and the code that writes to devices: a gate on named values and
  the one placeholder it refuses per field. The planner and the applier rely on these laws only.
\<close>

locale delivery_gate =
  fixes gate :: "string \<Rightarrow> scalar \<Rightarrow> bool"
    and placeholder :: "string \<Rightarrow> scalar option"
  assumes gate_iff: "gate f v \<longleftrightarrow> placeholder f \<noteq> Some v"
begin

definition passes :: "(string \<times> scalar) list \<Rightarrow> bool" where
  "passes fvs \<longleftrightarrow> list_all (\<lambda>(f, v). gate f v) fvs"

lemma unguarded: "placeholder f = None \<Longrightarrow> gate f v"
  by (simp add: gate_iff)

lemma at_most_one_refused: "\<not> gate f v \<Longrightarrow> \<not> gate f w \<Longrightarrow> v = w"
  by (simp add: gate_iff)

lemma refused_names_empty_iff: "filter (\<lambda>(f, v). \<not> gate f v) fvs = [] \<longleftrightarrow> passes fvs"
  by (induction fvs) (auto simp: passes_def)

lemma passes_append: "passes (xs @ ys) \<longleftrightarrow> passes xs \<and> passes ys"
  by (simp add: passes_def)

end

definition unset_placeholder :: "string \<Rightarrow> scalar option" where
  "unset_placeholder f =
     (case by_field f of
        None \<Rightarrow> None
      | Some r \<Rightarrow> if rule_authority r = Inadmissible then Some (rule_sentinel r) else None)"

interpretation value_gate: delivery_gate is_deliverable unset_placeholder
proof
  fix f v
  show "is_deliverable f v \<longleftrightarrow> unset_placeholder f \<noteq> Some v"
  proof (cases "by_field f")
    case None
    then show ?thesis by (simp add: is_deliverable_def unset_placeholder_def)
  next
    case (Some r)
    with by_field_mem [OF Some] is_deliverable_rule [of r v] show ?thesis
      by (auto simp: unset_placeholder_def)
  qed
qed

subsection \<open>What is refused\<close>

lemma deliverable_refused:
  "is_deliverable f v \<longleftrightarrow> (f, v) \<notin>
     {(''wifi_ssid'', SStr []), (''wifi_password_ref'', SStr []), (''line_profile_id'', SInt 0),
      (''service_profile_id'', SInt 0), (''tr069_profile_id'', SInt 0),
      (''wan_pppoe_wcd_index'', SNone), (''cr_username'', SStr []),
      (''cr_password_ref'', SStr []), (''wan_vlan'', SInt 0)}"
proof (cases "f \<in> set (map rule_field RULES)")
  case True
  then obtain r where r: "r \<in> set RULES" and f: "f = rule_field r" by auto
  from is_deliverable_rule [OF r, of v] r f show ?thesis
    by (simp add: RULES_defs) (elim disjE; simp)
next
  case False
  then show ?thesis using is_deliverable_no_rule [OF False] by (auto simp: RULES_defs)
qed

text \<open>The same for each field the planner and the applier ask about.\<close>

lemma deliverable_simps [simp]:
  "is_deliverable ''wifi_ssid'' v \<longleftrightarrow> v \<noteq> SStr []"
  "is_deliverable ''wifi_password_ref'' v \<longleftrightarrow> v \<noteq> SStr []"
  "is_deliverable ''line_profile_id'' v \<longleftrightarrow> v \<noteq> SInt 0"
  "is_deliverable ''service_profile_id'' v \<longleftrightarrow> v \<noteq> SInt 0"
  "is_deliverable ''tr069_profile_id'' v \<longleftrightarrow> v \<noteq> SInt 0"
  "is_deliverable ''wan_pppoe_wcd_index'' v \<longleftrightarrow> v \<noteq> SNone"
  "is_deliverable ''cr_username'' v \<longleftrightarrow> v \<noteq> SStr []"
  "is_deliverable ''cr_password_ref'' v \<longleftrightarrow> v \<noteq> SStr []"
  "is_deliverable ''wan_vlan'' v \<longleftrightarrow> v \<noteq> SInt 0"
  "is_deliverable ''wifi_enabled'' v"
  "is_deliverable ''wifi_channel'' v"
  "is_deliverable ''wifi_security_mode'' v"
  by (simp_all add: deliverable_refused)

text \<open>
  The provider refuses exactly nine values. A value is not deliverable precisely when the field
  is one of the nine guarded ones and the value is that field's unset placeholder; every other
  value of those fields, and every value of every other field, may be written.
\<close>

theorem refused_values:
  "\<not> is_deliverable field v \<longleftrightarrow> (field, v) \<in>
     {(''wifi_ssid'', SStr []), (''wifi_password_ref'', SStr []), (''line_profile_id'', SInt 0),
      (''service_profile_id'', SInt 0), (''tr069_profile_id'', SInt 0),
      (''wan_pppoe_wcd_index'', SNone), (''cr_username'', SStr []),
      (''cr_password_ref'', SStr []), (''wan_vlan'', SInt 0)}"
  by (simp add: deliverable_refused)

text \<open>
  The undeclared defaults are exactly the checked-in debt list. No default executes without a
  declaration unless it is on the list, and the list holds no entry that has been settled.
\<close>

theorem undeclared_is_debt_baseline:
  "set (map rule_field (rules_by_authority Undeclared)) = authority_debt_baseline"
  by (simp add: rules_by_authority_def RULES_defs authority_debt_baseline_def) auto

end
