(* ===== verification/Ont_State.thy ===== *)
theory Ont_State
  imports Complex_Main Sentinels
begin

section \<open>Desired state, observed state and results of the ONT reconciler\<close>

text \<open>
  Models \<open>app/services/network/reconcile/state.py\<close>: one record per dataclass, with the source's
  field names (fields whose names are common variables carry a prefix), the string-literal types
  as datatypes, and the failure reasons. A service port, a \<open>dict\<close> in the source, is the record of
  the keys its reader fills; a key the code looks up with \<open>get\<close> is an option.
\<close>

subsection \<open>String-literal types\<close>

datatype sync_status = Synced | Reconciling | Out_of_sync

datatype wan_mode = Pppoe | Dhcp | Static | Bridge

datatype provisioning_method = Omci | Tr069 | Auto

datatype surface = Olt | Acs

datatype reconcile_mode = Sync | Sweep | Bootstrap

fun wan_mode_value :: "wan_mode \<Rightarrow> string" where
  "wan_mode_value Pppoe = ''pppoe''"
| "wan_mode_value Dhcp = ''dhcp''"
| "wan_mode_value Static = ''static''"
| "wan_mode_value Bridge = ''bridge''"

fun surface_value :: "surface \<Rightarrow> string" where
  "surface_value Olt = ''olt''"
| "surface_value Acs = ''acs''"

subsection \<open>Parameter paths\<close>

record tr181_wan_paths_t =
  t181_ip_enable :: string
  t181_dhcp_enable :: string
  t181_ip_address :: string
  t181_subnet_mask :: string
  t181_gateway :: string
  t181_dns_primary :: string
  t181_dns_secondary :: string
  t181_nat_enable :: string
  t181_vlan_enable :: string
  t181_vlan_id :: string

record wifi_paths_t =
  wp_enabled :: string
  wp_ssid :: string
  wp_psk_path :: string
  wp_channel :: string
  wp_security_mode :: string

record remote_access_paths_t =
  ra_ssh_enabled :: string
  ra_ssh_port :: string
  ra_telnet_enabled :: string
  ra_telnet_port :: string

subsection \<open>Desired state\<close>

record ont_desired =
  ont_unit_id :: string
  serial_number :: string
  olt_id :: string
  fsp :: string
  olt_ont_id :: int
  line_profile_id :: int
  service_profile_id :: int
  description :: string
  mgmt_vlan :: "int option"
  mgmt_ip :: "string option"
  mgmt_subnet_mask :: "string option"
  mgmt_gateway :: "string option"
  mgmt_dns_primary :: "string option"
  mgmt_dns_secondary :: "string option"
  mgmt_iphost_priority :: int
  tr069_profile_id :: int
  acs_server_id :: "string option"
  cr_username :: "string option"
  cr_password_ref :: "string option"
  periodic_inform_interval_sec :: int
  wan_mode :: wan_mode
  wan_vlan :: "int option"
  wan_gem_index :: "int option"
  wan_pppoe_username :: "string option"
  wan_pppoe_password_ref :: "string option"
  wan_pppoe_provisioning_method :: provisioning_method
  wan_pppoe_wcd_index :: "int option"
  wan_pppoe_instance_index :: int
  wan_config_profile_id :: "int option"
  wan_internet_config_ip_index :: "int option"
  nat_enabled :: bool
  ipv6_enabled :: bool
  dhcp_enabled :: bool
  dhcp_pool_min :: string
  dhcp_pool_max :: string
  dhcp_subnet_mask :: string
  wifi_ssid :: string
  wifi_password_ref :: string
  wifi_password_pushed_at :: "datetime option"
  mgmt_service_port_index :: "int option"
  wan_service_port_index :: "int option"
  subscriber_external_id :: "string option"
  wan_uprate_kbps :: "int option"
  wan_downrate_kbps :: "int option"
  tr069_data_model_root :: "string option"
  wan_static_ip :: "string option"
  wan_static_subnet :: "string option"
  wan_static_gateway :: "string option"
  wan_static_dns :: "string option"
  wan_static_ip_is_public :: "bool option"
  tr181_wan_paths :: "tr181_wan_paths_t option"
  acs_url :: "string option"
  acs_username :: "string option"
  acs_password_ref :: "string option"
  wifi_enabled :: "bool option"
  wifi_channel :: "int option"
  wifi_security_mode :: "string option"
  wifi_paths :: "wifi_paths_t option"
  wan_remote_access_enabled :: bool
  wan_remote_access_expires_at :: "datetime option"
  wan_remote_access_source_cidrs :: "string list"
  wan_remote_access_ssh_port :: int
  remote_access_paths :: "remote_access_paths_t option"
  lan_gateway_ip :: "string option"
  ipv6_enabled_provenance :: provenance
  acs_device_id :: "string option"

subsection \<open>Observed state\<close>

record service_port_entry =
  sp_index :: "int option"
  sp_vlan_id :: "int option"
  sp_ont_id :: int
  sp_gem_index :: int
  sp_flow_type :: string
  sp_flow_para :: string
  sp_state :: string
  sp_fsp :: string
  sp_tag_transform :: string

record olt_observed =
  olt_present :: bool
  olt_match_state :: "string option"
  olt_run_state :: "string option"
  olt_distance_m :: "int option"
  olt_rx_dbm :: "rat option"
  olt_tx_dbm :: "rat option"
  olt_temperature_c :: "int option"
  olt_description :: "string option"
  olt_mgmt_ip :: "string option"
  olt_mgmt_vlan :: "int option"
  olt_line_profile_id :: "int option"
  olt_service_profile_id :: "int option"
  olt_service_ports :: "service_port_entry list"
  olt_tr069_profile_id :: "int option"

record acs_observed =
  acs_present :: bool
  acs_last_inform_at :: "datetime option"
  acs_last_boot_at :: "datetime option"
  acs_last_bootstrap_at :: "datetime option"
  acs_observed_software_version :: "string option"
  acs_observed_pppoe_username :: "string option"
  acs_observed_pppoe_enable :: "bool option"
  acs_observed_wan_vlan :: "int option"
  acs_observed_wan_external_ip :: "string option"
  acs_observed_wan_connection_status :: "string option"
  acs_observed_nat_enabled :: "bool option"
  acs_observed_dhcp_enabled :: "bool option"
  acs_observed_ssid :: "string option"
  acs_observed_periodic_inform_interval_sec :: "int option"
  acs_observed_cr_username :: "string option"
  acs_observed_cr_username_set :: "bool option"
  acs_observed_cr_password_set :: "bool option"
  acs_observed_wan_wcd_index :: "int option"
  acs_observed_wan_instance_index :: "int option"
  acs_observed_wan_ppp_locations :: "(int \<times> int) list"
  acs_data_model_root :: "string option"
  acs_observed_ipv6_enabled :: "bool option"
  acs_observed_wan_ip_enable :: "bool option"
  acs_observed_wan_addressing_type :: "string option"
  acs_observed_wan_ip_address :: "string option"
  acs_observed_wan_subnet_mask :: "string option"
  acs_observed_wan_gateway :: "string option"
  acs_observed_wan_dns_servers :: "string option"
  acs_observed_dhcpv6_enabled :: "bool option"
  acs_observed_dhcpv6_request_prefixes :: "bool option"
  acs_observed_ra_enabled :: "bool option"
  acs_observed_url :: "string option"
  acs_observed_username :: "string option"
  acs_observed_password_set :: "bool option"
  acs_observed_wifi_enabled :: "bool option"
  acs_observed_wifi_channel :: "int option"
  acs_observed_wifi_security_mode :: "string option"
  acs_observed_wifi_instance_index :: "int option"
  acs_observed_remote_ssh_enabled :: "bool option"
  acs_observed_remote_ssh_port :: "int option"
  acs_observed_remote_telnet_enabled :: "bool option"
  acs_observed_remote_telnet_port :: "int option"
  acs_observed_device_id :: "string option"
  acs_observed_device_match_count :: int

record ont_observed =
  last_reconciled_at :: datetime
  last_reconcile_duration_ms :: int
  mgmt_ip_pingable :: bool
  consecutive_sweep_unreachable :: int
  obs_olt :: olt_observed
  obs_acs :: acs_observed

subsection \<open>Drift, applied actions, failures and results\<close>

datatype pyval = Scal scalar | Port service_port_entry

abbreviation Str :: "string \<Rightarrow> pyval" where "Str s \<equiv> Scal (SStr s)"
abbreviation Num :: "int \<Rightarrow> pyval" where "Num n \<equiv> Scal (SInt n)"
abbreviation Flag :: "bool \<Rightarrow> pyval" where "Flag b \<equiv> Scal (SBool b)"
abbreviation PyNone :: pyval where "PyNone \<equiv> Scal SNone"

fun ostr :: "string option \<Rightarrow> scalar" where
  "ostr None = SNone"
| "ostr (Some s) = SStr s"

fun oint :: "int option \<Rightarrow> scalar" where
  "oint None = SNone"
| "oint (Some n) = SInt n"

fun obool :: "bool option \<Rightarrow> scalar" where
  "obool None = SNone"
| "obool (Some b) = SBool b"

record drift =
  drift_field :: string
  drift_surface :: surface
  drift_desired :: pyval
  drift_observed :: pyval
  drift_repairable :: bool

datatype evidence_value =
  Ev_bool bool | Ev_str string | Ev_list "string list" | Ev_pairs "(string \<times> string) list"

type_synonym evidence = "(string \<times> evidence_value) list"

record applied_action =
  aa_field :: string
  aa_surface :: surface
  aa_old_value :: pyval
  aa_new_value :: pyval
  aa_duration_ms :: int
  aa_evidence :: "evidence option"

datatype failure_reason =
  OLT_UNREACHABLE | ACS_UNREACHABLE | ONT_OFFLINE | ONT_NOT_INFORMING | ACS_IDENTITY_UNRESOLVED
| BLOCKED_OUT_OF_SYNC | INVALID_CHANGE | OLT_WRITE_REJECTED | ACS_WRITE_FAULTED | ACS_CR_FAILED
| VERIFICATION_MISMATCH | TIMEOUT

fun failure_reason_value :: "failure_reason \<Rightarrow> string" where
  "failure_reason_value OLT_UNREACHABLE = ''olt_unreachable''"
| "failure_reason_value ACS_UNREACHABLE = ''acs_unreachable''"
| "failure_reason_value ONT_OFFLINE = ''ont_offline''"
| "failure_reason_value ONT_NOT_INFORMING = ''ont_not_informing''"
| "failure_reason_value ACS_IDENTITY_UNRESOLVED = ''acs_identity_unresolved''"
| "failure_reason_value BLOCKED_OUT_OF_SYNC = ''blocked_out_of_sync''"
| "failure_reason_value INVALID_CHANGE = ''invalid_change''"
| "failure_reason_value OLT_WRITE_REJECTED = ''olt_write_rejected''"
| "failure_reason_value ACS_WRITE_FAULTED = ''acs_write_faulted''"
| "failure_reason_value ACS_CR_FAILED = ''acs_cr_failed''"
| "failure_reason_value VERIFICATION_MISMATCH = ''verification_mismatch''"
| "failure_reason_value TIMEOUT = ''timeout''"

record reconcile_failure =
  rf_reason :: failure_reason
  rf_message :: string
  rf_evidence :: "evidence option"

record reconcile_result =
  rr_success :: bool
  rr_sync_status :: sync_status
  rr_actions_applied :: "applied_action list"
  rr_drift_before :: "drift list"
  rr_drift_after :: "drift list"
  rr_observed_after :: "ont_observed option"
  rr_failure :: "reconcile_failure option"
  rr_duration_ms :: int
  rr_reconciled_at :: datetime

end
