(* ===== verification/Actions.thy ===== *)
theory Actions
  imports Ont_State "HOL-Library.AList"
begin

section \<open>The writes the reconciler can emit\<close>

text \<open>
  Models \<open>app/services/network/reconcile/actions.py\<close>: one constructor per action class, its
  arguments the dataclass's fields in the source's order (named in the comment beside it), and the
  two class variables \<open>surface\<close> and \<open>requires_reset\<close>.
\<close>

text \<open>A parameter \<open>dict\<close>: assignment replaces a key in place or appends it, as Python does.\<close>

type_synonym params = "(string \<times> scalar) list"

definition dict_of :: "(string \<times> scalar) list \<Rightarrow> params" where
  "dict_of ps = fold (\<lambda>(k, v) d. AList.update k v d) ps []"

definition dict_update :: "params \<Rightarrow> (string \<times> scalar) list \<Rightarrow> params" where
  "dict_update d ps = fold (\<lambda>(k, v) e. AList.update k v e) ps d"

datatype olt_action =
  OltAuthorize string int int int string string
    \<comment> \<open>fsp, ont_id, line_profile_id, service_profile_id, serial_number, description\<close>
| OltModifyDescription string int string
    \<comment> \<open>fsp, ont_id, description\<close>
| OltModifyLineProfile string int int
    \<comment> \<open>fsp, ont_id, line_profile_id\<close>
| OltModifyServiceProfile string int int
    \<comment> \<open>fsp, ont_id, service_profile_id\<close>
| OltClearIphost string int int
    \<comment> \<open>fsp, ont_id, ip_index\<close>
| OltIpconfig string int int string string string int int "string option" "string option"
    \<comment> \<open>fsp, ont_id, ip_index, ip_address, subnet_mask, gateway, vlan, priority, dns_primary,
       dns_secondary\<close>
| OltTr069ServerConfig string int int
    \<comment> \<open>fsp, ont_id, profile_id\<close>
| OltCreateServicePort string int int int int string
    \<comment> \<open>fsp, ont_id, service_port_index, vlan, gem_index, slot\<close>
| OltDeleteServicePort int string
    \<comment> \<open>service_port_index, slot\<close>
| OltOmciPppoe string int int int string string
    \<comment> \<open>fsp, ont_id, ip_index, vlan, username, password_ref\<close>
| OltOmciInternetConfig string int int
    \<comment> \<open>fsp, ont_id, ip_index\<close>
| OltOmciWanConfig string int int int
    \<comment> \<open>fsp, ont_id, ip_index, profile_id\<close>
| OltReset string int
    \<comment> \<open>fsp, ont_id\<close>

datatype acs_action =
  AcsAddObject string string "int option"
    \<comment> \<open>device_id, object_path, wcd_index\<close>
| AcsArmDiagnostic string params string
    \<comment> \<open>device_id, params, label\<close>
| AcsDeleteObject string string
    \<comment> \<open>device_id, object_path\<close>
| AcsSetPppoe string int int string string int
    \<comment> \<open>device_id, wcd_index, instance_index, username, password_ref, vlan\<close>
| AcsSetWifiSsid string string
    \<comment> \<open>device_id, ssid\<close>
| AcsSetWifiPassword string string
    \<comment> \<open>device_id, password_ref\<close>
| AcsSetWifiConfig string wifi_paths_t "bool option" "string option" "string option" "int option"
    "string option"
    \<comment> \<open>device_id, paths, enabled, ssid, password_ref, channel, security_mode\<close>
| AcsSetRemoteAccess string remote_access_paths_t "bool option" "int option" "bool option"
    \<comment> \<open>device_id, paths, ssh_enabled, ssh_port, telnet_enabled\<close>
| AcsSetNatEnabled string int int bool
    \<comment> \<open>device_id, wcd_index, instance_index, enabled\<close>
| AcsSetIpv6 string int bool bool provenance
    \<comment> \<open>device_id, interface_index, enabled, request_prefixes, provenance\<close>
| AcsSetWanIp string string int int string int bool "string option" "string option" "string option"
    "string option" "tr181_wan_paths_t option"
    \<comment> \<open>device_id, data_model_root, wcd_index, instance_index, mode, vlan, nat_enabled, ip_address,
       subnet_mask, gateway, dns_servers, tr181_paths\<close>
| AcsSetDhcpServer string bool string string string "string option"
    \<comment> \<open>device_id, enabled, pool_min, pool_max, subnet_mask, gateway_ip\<close>
| AcsSetManagementServer string string string int string "string option" "string option"
    "string option"
    \<comment> \<open>device_id, cr_username, cr_password_ref, inform_interval_sec, data_model_root, acs_url,
       acs_username, acs_password_ref\<close>

datatype action = OltA olt_action | AcsA acs_action

fun action_surface :: "action \<Rightarrow> surface" where
  "action_surface (OltA a) = Olt"
| "action_surface (AcsA a) = Acs"

fun olt_requires_reset :: "olt_action \<Rightarrow> bool" where
  "olt_requires_reset (OltAuthorize _ _ _ _ _ _) = True"
| "olt_requires_reset (OltModifyLineProfile _ _ _) = True"
| "olt_requires_reset (OltModifyServiceProfile _ _ _) = True"
| "olt_requires_reset (OltTr069ServerConfig _ _ _) = True"
| "olt_requires_reset _ = False"

fun requires_reset :: "action \<Rightarrow> bool" where
  "requires_reset (OltA a) = olt_requires_reset a"
| "requires_reset (AcsA a) = False"

text \<open>\<open>type(action).__name__\<close>.\<close>

fun olt_action_name :: "olt_action \<Rightarrow> string" where
  "olt_action_name (OltAuthorize _ _ _ _ _ _) = ''OltAuthorize''"
| "olt_action_name (OltModifyDescription _ _ _) = ''OltModifyDescription''"
| "olt_action_name (OltModifyLineProfile _ _ _) = ''OltModifyLineProfile''"
| "olt_action_name (OltModifyServiceProfile _ _ _) = ''OltModifyServiceProfile''"
| "olt_action_name (OltClearIphost _ _ _) = ''OltClearIphost''"
| "olt_action_name (OltIpconfig _ _ _ _ _ _ _ _ _ _) = ''OltIpconfig''"
| "olt_action_name (OltTr069ServerConfig _ _ _) = ''OltTr069ServerConfig''"
| "olt_action_name (OltCreateServicePort _ _ _ _ _ _) = ''OltCreateServicePort''"
| "olt_action_name (OltDeleteServicePort _ _) = ''OltDeleteServicePort''"
| "olt_action_name (OltOmciPppoe _ _ _ _ _ _) = ''OltOmciPppoe''"
| "olt_action_name (OltOmciInternetConfig _ _ _) = ''OltOmciInternetConfig''"
| "olt_action_name (OltOmciWanConfig _ _ _ _) = ''OltOmciWanConfig''"
| "olt_action_name (OltReset _ _) = ''OltReset''"

fun acs_action_name :: "acs_action \<Rightarrow> string" where
  "acs_action_name (AcsAddObject _ _ _) = ''AcsAddObject''"
| "acs_action_name (AcsArmDiagnostic _ _ _) = ''AcsArmDiagnostic''"
| "acs_action_name (AcsDeleteObject _ _) = ''AcsDeleteObject''"
| "acs_action_name (AcsSetPppoe _ _ _ _ _ _) = ''AcsSetPppoe''"
| "acs_action_name (AcsSetWifiSsid _ _) = ''AcsSetWifiSsid''"
| "acs_action_name (AcsSetWifiPassword _ _) = ''AcsSetWifiPassword''"
| "acs_action_name (AcsSetWifiConfig _ _ _ _ _ _ _) = ''AcsSetWifiConfig''"
| "acs_action_name (AcsSetRemoteAccess _ _ _ _ _) = ''AcsSetRemoteAccess''"
| "acs_action_name (AcsSetNatEnabled _ _ _ _) = ''AcsSetNatEnabled''"
| "acs_action_name (AcsSetIpv6 _ _ _ _ _) = ''AcsSetIpv6''"
| "acs_action_name (AcsSetWanIp _ _ _ _ _ _ _ _ _ _ _ _) = ''AcsSetWanIp''"
| "acs_action_name (AcsSetDhcpServer _ _ _ _ _ _) = ''AcsSetDhcpServer''"
| "acs_action_name (AcsSetManagementServer _ _ _ _ _ _ _ _) = ''AcsSetManagementServer''"

fun action_name :: "action \<Rightarrow> string" where
  "action_name (OltA a) = olt_action_name a"
| "action_name (AcsA a) = acs_action_name a"

text \<open>The \<open>device_id\<close> field every ACS action carries.\<close>

fun acs_device :: "acs_action \<Rightarrow> string" where
  "acs_device (AcsAddObject d _ _) = d"
| "acs_device (AcsArmDiagnostic d _ _) = d"
| "acs_device (AcsDeleteObject d _) = d"
| "acs_device (AcsSetPppoe d _ _ _ _ _) = d"
| "acs_device (AcsSetWifiSsid d _) = d"
| "acs_device (AcsSetWifiPassword d _) = d"
| "acs_device (AcsSetWifiConfig d _ _ _ _ _ _) = d"
| "acs_device (AcsSetRemoteAccess d _ _ _ _) = d"
| "acs_device (AcsSetNatEnabled d _ _ _) = d"
| "acs_device (AcsSetIpv6 d _ _ _ _) = d"
| "acs_device (AcsSetWanIp d _ _ _ _ _ _ _ _ _ _ _) = d"
| "acs_device (AcsSetDhcpServer d _ _ _ _ _) = d"
| "acs_device (AcsSetManagementServer d _ _ _ _ _ _ _) = d"

fun is_olt :: "action \<Rightarrow> bool" where
  "is_olt (OltA a) = True"
| "is_olt (AcsA a) = False"

lemma is_olt_surface: "is_olt a \<longleftrightarrow> action_surface a = Olt"
  by (cases a) auto

lemma requires_reset_olt: "requires_reset a \<Longrightarrow> is_olt a"
  by (cases a) auto

text \<open>A dictionary built by assignments has each key once, with its last value.\<close>

lemma distinct_dict_update: "distinct (map fst d) \<Longrightarrow> distinct (map fst (dict_update d ps))"
  unfolding dict_update_def
  by (induction ps arbitrary: d) (auto simp: distinct_update)

lemma distinct_dict_of: "distinct (map fst (dict_of ps))"
  using distinct_dict_update [of "[]" ps] by (simp add: dict_update_def dict_of_def)

lemma map_of_dict_update: "map_of (dict_update d ps) = map_of d ++ map_of (rev ps)"
proof (induction ps arbitrary: d)
  case Nil
  then show ?case by (simp add: dict_update_def)
next
  case (Cons p ps)
  obtain k v where p: "p = (k, v)" by (cases p)
  have "map_of (dict_update d (p # ps)) = map_of (dict_update (AList.update k v d) ps)"
    by (simp add: dict_update_def p)
  also have "\<dots> = (map_of d)(k \<mapsto> v) ++ map_of (rev ps)"
    by (simp add: Cons update_conv' fun_upd_def)
  also have "\<dots> = map_of d ++ map_of (rev (p # ps))" 
    by (auto simp: p map_add_def fun_eq_iff split: option.splits)
  finally show ?case .
qed

end
