(* ===== verification/Wifi_Paths.thy ===== *)
theory Wifi_Paths
  imports Ont_State
begin

section \<open>WiFi parameter paths of one WLAN instance\<close>

text \<open>
  Models \<open>app/services/network/reconcile/wifi_paths.py\<close>. The regular expressions have the form
  \<open>(marker)\d+(\.)\<close> with \<open>count=1\<close>: the leftmost position where the marker is followed by a
  non-empty run of digits and a dot; the run is replaced by the instance number.
\<close>

text \<open>The text after the digits (starting with the dot) when the pattern matches here.\<close>

definition match_indexed :: "string \<Rightarrow> string \<Rightarrow> string option" where
  "match_indexed marker s =
     (case strip_prefix marker s of
        None \<Rightarrow> None
      | Some t \<Rightarrow>
          (let rest = dropWhile is_digit t in
           if takeWhile is_digit t \<noteq> [] \<and> rest \<noteq> [] \<and> hd rest = CHR ''.'' then Some rest else None))"

fun sub_index :: "string \<Rightarrow> string \<Rightarrow> string \<Rightarrow> string" where
  "sub_index marker new [] = []"
| "sub_index marker new (c # cs) =
     (case match_indexed marker (c # cs) of
        Some rest \<Rightarrow> marker @ new @ rest
      | None \<Rightarrow> c # sub_index marker new cs)"

definition wifi_marker :: "string \<Rightarrow> string" where
  "wifi_marker object_name = ''.WiFi.'' @ object_name @ ''.''"

definition retarget_path :: "string option \<Rightarrow> int \<Rightarrow> string \<Rightarrow> string" where
  "retarget_path rt i path =
     (if rt = Some ''Device''
      then fold (\<lambda>object_name p. sub_index (wifi_marker object_name) (show_int i) p)
             [''SSID'', ''Radio'', ''AccessPoint''] path
      else sub_index ''.WLANConfiguration.'' (show_int i) path)"

definition wifi_paths_for_instance :: "wifi_paths_t \<Rightarrow> string option \<Rightarrow> int \<Rightarrow> wifi_paths_t" where
  "wifi_paths_for_instance paths rt i =
     (if i < 1 then paths
      else paths\<lparr>wp_enabled := retarget_path rt i (wp_enabled paths),
                 wp_ssid := retarget_path rt i (wp_ssid paths),
                 wp_psk_path := retarget_path rt i (wp_psk_path paths),
                 wp_channel := retarget_path rt i (wp_channel paths),
                 wp_security_mode := retarget_path rt i (wp_security_mode paths)\<rparr>)"

subsection \<open>Retargeting twice\<close>

text \<open>
  A marker has no border but its dot: no inner suffix of it starts another occurrence. Then a
  substitution creates no earlier match, so a second one finds the same place.
\<close>

definition sound_marker :: "string \<Rightarrow> bool" where
  "sound_marker m \<longleftrightarrow> 2 \<le> length m \<and> \<not> is_digit (m ! 1) \<and> m ! 1 \<noteq> CHR ''.'' \<and>
     (\<forall>k \<in> {1..<length m - 1}. strip_prefix (drop k m) m = None)"

end
