(* ===== verification/Sample_Ont.thy ===== *)
theory Sample_Ont
  imports Ont_State
begin

section \<open>A sample ONT\<close>

text \<open>
  One desired state and one matching observation, on which the theorems about the ONT reconciler
  are evaluated: a PPPoE ONT whose WAN connection lives in WAN connection device 2.
\<close>

definition sample_desired :: ont_desired where
  "sample_desired =
    \<lparr>ont_unit_id = ''ont-1'', serial_number = ''HWTC0001'', olt_id = ''olt-1'', fsp = ''0/1/2'',
     olt_ont_id = 7, line_profile_id = 40, service_profile_id = 41, description = ''acct 1001'',
     mgmt_vlan = Some 201, mgmt_ip = Some ''10.9.0.7'', mgmt_subnet_mask = Some ''255.255.255.0'',
     mgmt_gateway = Some ''10.9.0.1'', mgmt_dns_primary = None, mgmt_dns_secondary = None,
     mgmt_iphost_priority = 2, tr069_profile_id = 5, acs_server_id = Some ''acs-1'',
     cr_username = Some ''cr'', cr_password_ref = Some ''bao://cr'',
     periodic_inform_interval_sec = 300, wan_mode = Pppoe, wan_vlan = Some 203,
     wan_gem_index = None, wan_pppoe_username = Some ''u1001'',
     wan_pppoe_password_ref = Some ''bao://ppp'', wan_pppoe_provisioning_method = Tr069,
     wan_pppoe_wcd_index = Some 2, wan_pppoe_instance_index = 1, wan_config_profile_id = None,
     wan_internet_config_ip_index = None, nat_enabled = True, ipv6_enabled = False,
     dhcp_enabled = True, dhcp_pool_min = ''192.168.100.2'', dhcp_pool_max = ''192.168.100.254'',
     dhcp_subnet_mask = ''255.255.255.0'', wifi_ssid = ''home'', wifi_password_ref = ''bao://psk'',
     wifi_password_pushed_at = None, mgmt_service_port_index = Some 500,
     wan_service_port_index = Some 501, subscriber_external_id = None, wan_uprate_kbps = None,
     wan_downrate_kbps = None, tr069_data_model_root = None, wan_static_ip = None,
     wan_static_subnet = None, wan_static_gateway = None, wan_static_dns = None,
     wan_static_ip_is_public = None, tr181_wan_paths = None, acs_url = None, acs_username = None,
     acs_password_ref = None, wifi_enabled = None, wifi_channel = None, wifi_security_mode = None,
     wifi_paths = None, wan_remote_access_enabled = False, wan_remote_access_expires_at = None,
     wan_remote_access_source_cidrs = [], wan_remote_access_ssh_port = 22,
     remote_access_paths = None, lan_gateway_ip = None, ipv6_enabled_provenance = Prov_unknown,
     acs_device_id = Some ''00259E-HG8546M-HWTC0001''\<rparr>"

definition sample_port :: "int \<Rightarrow> int \<Rightarrow> service_port_entry" where
  "sample_port i v = \<lparr>sp_index = Some i, sp_vlan_id = Some v, sp_ont_id = 7, sp_gem_index = 2,
     sp_flow_type = ''vlan'', sp_flow_para = ''0'', sp_state = ''up'', sp_fsp = ''0/1/2'',
     sp_tag_transform = ''translate''\<rparr>"

definition sample_olt :: olt_observed where
  "sample_olt =
    \<lparr>olt_present = True, olt_match_state = Some ''match'', olt_run_state = Some ''online'',
     olt_distance_m = None, olt_rx_dbm = None, olt_tx_dbm = None, olt_temperature_c = None,
     olt_description = Some ''acct 1001'', olt_mgmt_ip = Some ''10.9.0.7'',
     olt_mgmt_vlan = Some 201, olt_line_profile_id = Some 40, olt_service_profile_id = Some 41,
     olt_service_ports = [sample_port 500 201, sample_port 501 203],
     olt_tr069_profile_id = Some 5\<rparr>"

definition sample_acs :: acs_observed where
  "sample_acs =
    \<lparr>acs_present = True, acs_last_inform_at = Some 100, acs_last_boot_at = None,
     acs_last_bootstrap_at = None, acs_observed_software_version = None,
     acs_observed_pppoe_username = Some ''u1001'', acs_observed_pppoe_enable = Some True,
     acs_observed_wan_vlan = Some 203, acs_observed_wan_external_ip = None,
     acs_observed_wan_connection_status = Some ''Connected'', acs_observed_nat_enabled = Some True,
     acs_observed_dhcp_enabled = Some True, acs_observed_ssid = Some ''home'',
     acs_observed_periodic_inform_interval_sec = Some 300, acs_observed_cr_username = Some ''cr'',
     acs_observed_cr_username_set = Some True, acs_observed_cr_password_set = Some True,
     acs_observed_wan_wcd_index = Some 2, acs_observed_wan_instance_index = Some 1,
     acs_observed_wan_ppp_locations = [(2, 1)],
     acs_data_model_root = Some ''InternetGatewayDevice'', acs_observed_ipv6_enabled = None,
     acs_observed_wan_ip_enable = None, acs_observed_wan_addressing_type = None,
     acs_observed_wan_ip_address = None, acs_observed_wan_subnet_mask = None,
     acs_observed_wan_gateway = None, acs_observed_wan_dns_servers = None,
     acs_observed_dhcpv6_enabled = None, acs_observed_dhcpv6_request_prefixes = None,
     acs_observed_ra_enabled = None, acs_observed_url = None, acs_observed_username = None,
     acs_observed_password_set = None, acs_observed_wifi_enabled = None,
     acs_observed_wifi_channel = None, acs_observed_wifi_security_mode = None,
     acs_observed_wifi_instance_index = None, acs_observed_remote_ssh_enabled = None,
     acs_observed_remote_ssh_port = None, acs_observed_remote_telnet_enabled = None,
     acs_observed_remote_telnet_port = None,
     acs_observed_device_id = Some ''00259E-HG8546M-HWTC0001'',
     acs_observed_device_match_count = 1\<rparr>"

definition sample_observed :: ont_observed where
  "sample_observed =
    \<lparr>last_reconciled_at = 100, last_reconcile_duration_ms = 10, mgmt_ip_pingable = True,
     consecutive_sweep_unreachable = 0, obs_olt = sample_olt, obs_acs = sample_acs\<rparr>"

end
