(* ===== verification/Plan_Helpers.thy ===== *)
theory Plan_Helpers
  imports Actions Wifi_Paths Sample_Ont
begin

section \<open>What the planner compares\<close>

text \<open>
  The diff helpers of \<open>app/services/network/reconcile/planner.py\<close> (from \<open>_observed_differs\<close> to the
  end of the file): which observed values count as drift, the WAN PPP objects the ACS reported, the
  normalisation of two text values, and the resolution of the device's ACS identity.
\<close>

subsection \<open>Drift of one value\<close>

text \<open>\<open>None\<close> observed means the field was not read, and never counts as drift.\<close>

definition observed_differs :: "'a option \<Rightarrow> 'a option \<Rightarrow> bool" where
  "observed_differs ov d = (if ov = None then False else ov \<noteq> d)"

text \<open>The same on the untyped values of the WiFi loop, with Python's \<open>!=\<close>.\<close>

definition scalar_differs :: "scalar \<Rightarrow> scalar \<Rightarrow> bool" where
  "scalar_differs ov d = (if ov = SNone then False else \<not> scalar_eq ov d)"

lemma observed_differs_simps [simp]:
  "\<not> observed_differs None d" "observed_differs (Some v) d \<longleftrightarrow> d \<noteq> Some v"
  by (auto simp: observed_differs_def)

lemma observed_differs_iff: "observed_differs ov d \<longleftrightarrow> ov \<noteq> None \<and> ov \<noteq> d"
  by (simp add: observed_differs_def)

definition data_model_root :: "ont_desired \<Rightarrow> ont_observed \<Rightarrow> string option" where
  "data_model_root d ob = opt_or (acs_data_model_root (obs_acs ob)) (tr069_data_model_root d)"

subsection \<open>Normalised text\<close>

definition wifi_security_aliases :: "(string \<times> string) list" where
  "wifi_security_aliases =
     [(''none'', ''None''), (''open'', ''None''), (''wep'', ''Basic''), (''basic'', ''Basic''),
      (''wpa'', ''WPA''), (''wpa-personal'', ''WPA''), (''wpapsk'', ''WPA''), (''wpa-psk'', ''WPA''),
      (''wpa2'', ''11i''), (''wpa2-personal'', ''11i''), (''wpa2psk'', ''11i''),
      (''wpa2-psk'', ''11i''), (''11i'', ''11i''), (''wpa-wpa2'', ''WPAand11i''),
      (''wpa-wpa2-personal'', ''WPAand11i''), (''wpa/wpa2'', ''WPAand11i''),
      (''wpa2/wpa'', ''WPAand11i''), (''wpaand11i'', ''WPAand11i''), (''mixed'', ''WPAand11i'')]"

definition normalise_wifi_security_mode :: "string option \<Rightarrow> string option \<Rightarrow> string option" where
  "normalise_wifi_security_mode v rt =
     (case v of
        None \<Rightarrow> None
      | Some s \<Rightarrow>
          (let txt = py_strip s in
           if txt = [] then None
           else if rt \<noteq> Some ''InternetGatewayDevice'' then Some txt
           else (case map_of wifi_security_aliases (py_lower txt) of
               Some a \<Rightarrow> Some a
             | None \<Rightarrow> Some txt)))"

definition normalise_dns_servers :: "string option \<Rightarrow> string option" where
  "normalise_dns_servers v =
     (case v of
        None \<Rightarrow> None
      | Some s \<Rightarrow>
          (let joined = join_with '','' (split_fields dns_separator s)
           in if joined = [] then None else Some joined))"

subsection \<open>Standard parameter paths\<close>

definition standard_wifi_paths :: "string option \<Rightarrow> wifi_paths_t" where
  "standard_wifi_paths rt =
     (if rt = Some ''Device'' then
        \<lparr>wp_enabled = ''Device.WiFi.SSID.1.Enable'',
         wp_ssid = ''Device.WiFi.SSID.1.SSID'',
         wp_psk_path = ''Device.WiFi.AccessPoint.1.Security.KeyPassphrase'',
         wp_channel = ''Device.WiFi.Radio.1.Channel'',
         wp_security_mode = ''Device.WiFi.AccessPoint.1.Security.ModeEnabled''\<rparr>
      else
        \<lparr>wp_enabled = ''InternetGatewayDevice.LANDevice.1.WLANConfiguration.1.Enable'',
         wp_ssid = ''InternetGatewayDevice.LANDevice.1.WLANConfiguration.1.SSID'',
         wp_psk_path = ''InternetGatewayDevice.LANDevice.1.WLANConfiguration.1.'' @
           ''PreSharedKey.1.PreSharedKey'',
         wp_channel = ''InternetGatewayDevice.LANDevice.1.WLANConfiguration.1.Channel'',
         wp_security_mode = ''InternetGatewayDevice.LANDevice.1.WLANConfiguration.1.BeaconType''\<rparr>)"

definition standard_remote_access_paths :: "string option \<Rightarrow> remote_access_paths_t" where
  "standard_remote_access_paths rt =
     (let prefix = (if rt = Some ''Device'' then ''Device'' else ''InternetGatewayDevice'');
          base = prefix @ ''.X_HW_UserInterface''
      in \<lparr>ra_ssh_enabled = base @ ''.SSHEnable'', ra_ssh_port = base @ ''.SSHPort'',
          ra_telnet_enabled = base @ ''.TelnetEnable'', ra_telnet_port = base @ ''.TelnetPort''\<rparr>)"

subsection \<open>Diffs of the OLT and the routed WAN\<close>

definition iphost_differs :: "ont_desired \<Rightarrow> ont_observed \<Rightarrow> bool" where
  "iphost_differs d ob =
     (let olt = obs_olt ob in
      if olt_mgmt_ip olt \<noteq> None \<and> olt_mgmt_ip olt \<noteq> mgmt_ip d then True
      else if olt_mgmt_vlan olt \<noteq> None \<and> olt_mgmt_vlan olt \<noteq> mgmt_vlan d then True
      else if \<not> olt_present olt then True
      else False)"

definition wan_ppp_differs :: "ont_desired \<Rightarrow> ont_observed \<Rightarrow> bool" where
  "wan_ppp_differs d ob =
     (let acs = obs_acs ob in
      if observed_differs (acs_observed_pppoe_username acs) (wan_pppoe_username d) then True
      else if observed_differs (acs_observed_wan_vlan acs) (wan_vlan d) then True
      else if acs_observed_pppoe_enable acs = Some False then True
      else False)"

text \<open>The local \<open>differs\<close>: under \<open>strict\<close> an unread value differs too.\<close>

definition differs_if :: "bool \<Rightarrow> 'a option \<Rightarrow> 'a option \<Rightarrow> bool" where
  "differs_if strict ov d = (if strict then ov \<noteq> d else observed_differs ov d)"

definition wan_ip_differs :: "ont_desired \<Rightarrow> ont_observed \<Rightarrow> bool" where
  "wan_ip_differs d ob =
     (let acs = obs_acs ob;
          expected_type = (if wan_mode d = Dhcp then ''DHCP'' else ''Static'');
          strict = (tr181_wan_paths d \<noteq> None \<and> data_model_root d ob = Some ''Device'')
      in
      if differs_if strict (acs_observed_wan_ip_enable acs) (Some True) then True
      else if differs_if strict (acs_observed_wan_addressing_type acs) (Some expected_type) then True
      else if differs_if strict (acs_observed_wan_vlan acs) (wan_vlan d) then True
      else if differs_if strict (acs_observed_nat_enabled acs) (Some (nat_enabled d)) then True
      else if wan_mode d = Static then
        differs_if strict (acs_observed_wan_ip_address acs) (wan_static_ip d) \<or>
        differs_if strict (acs_observed_wan_subnet_mask acs) (wan_static_subnet d) \<or>
        differs_if strict (acs_observed_wan_gateway acs) (wan_static_gateway d) \<or>
        differs_if strict (normalise_dns_servers (acs_observed_wan_dns_servers acs))
          (normalise_dns_servers (wan_static_dns d))
      else False)"

definition ipv6_differs :: "ont_desired \<Rightarrow> ont_observed \<Rightarrow> bool" where
  "ipv6_differs d ob =
     (let acs = obs_acs ob;
          values = [acs_observed_ipv6_enabled acs] @
            (if tr069_data_model_root d = Some ''Device'' \<or> acs_data_model_root acs = Some ''Device''
             then [acs_observed_dhcpv6_enabled acs, acs_observed_dhcpv6_request_prefixes acs,
                   acs_observed_ra_enabled acs]
             else [])
      in list_ex (\<lambda>v. observed_differs v (Some (ipv6_enabled d))) values)"

subsection \<open>WAN PPP objects\<close>

type_synonym ppp_location = "int \<times> int"  \<comment> \<open>WANConnectionDevice and WANPPPConnection index\<close>

definition primary_observed_wan_ppp_location :: "ont_observed \<Rightarrow> ppp_location option" where
  "primary_observed_wan_ppp_location ob =
     (case (acs_observed_wan_wcd_index (obs_acs ob), acs_observed_wan_instance_index (obs_acs ob)) of
        (Some w, Some i) \<Rightarrow> Some (w, i)
      | _ \<Rightarrow> None)"

definition observed_wan_ppp_locations :: "ont_observed \<Rightarrow> ppp_location list" where
  "observed_wan_ppp_locations ob =
     (if acs_observed_wan_ppp_locations (obs_acs ob) \<noteq> [] then acs_observed_wan_ppp_locations (obs_acs ob)
      else (case (acs_observed_wan_wcd_index (obs_acs ob), acs_observed_wan_instance_index (obs_acs ob)) of
          (Some w, Some i) \<Rightarrow> [(w, i)]
        | _ \<Rightarrow> []))"

text \<open>\<open>min(instances)\<close> of a non-empty list.\<close>

fun min_list_int :: "int list \<Rightarrow> int option" where
  "min_list_int [] = None"
| "min_list_int (x # xs) = (case min_list_int xs of None \<Rightarrow> Some x | Some m \<Rightarrow> Some (min x m))"

definition desired_wan_ppp_instance :: "ont_desired \<Rightarrow> ont_observed \<Rightarrow> int option" where
  "desired_wan_ppp_instance d ob =
     (let scan = min_list_int (map snd (filter (\<lambda>(wcd, inst). Some wcd = wan_pppoe_wcd_index d)
            (observed_wan_ppp_locations ob)))
      in case primary_observed_wan_ppp_location ob of
           Some (w, i) \<Rightarrow> if Some w = wan_pppoe_wcd_index d then Some i else scan
         | None \<Rightarrow> scan)"

definition target_wan_ppp_location :: "ont_desired \<Rightarrow> ont_observed \<Rightarrow> ppp_location option" where
  "target_wan_ppp_location d ob =
     (case wan_pppoe_wcd_index d of
        None \<Rightarrow> None
      | Some w \<Rightarrow> (case desired_wan_ppp_instance d ob of
          None \<Rightarrow> None
        | Some i \<Rightarrow> Some (w, i)))"

definition stale_wan_ppp_locations :: "ont_desired \<Rightarrow> ont_observed \<Rightarrow> ppp_location list" where
  "stale_wan_ppp_locations d ob =
     (let target = target_wan_ppp_location d ob in
      if target = None \<or> primary_observed_wan_ppp_location ob \<noteq> target then []
      else filter (\<lambda>pair. Some pair \<noteq> target) (observed_wan_ppp_locations ob))"

definition wan_ppp_needs_heal :: "ont_desired \<Rightarrow> ont_observed \<Rightarrow> bool" where
  "wan_ppp_needs_heal d ob =
     (if observed_wan_ppp_locations ob = [] then False
      else if desired_wan_ppp_instance d ob = None then True
      else stale_wan_ppp_locations d ob \<noteq> [])"

subsection \<open>LAN and management server\<close>

definition dhcp_differs :: "ont_desired \<Rightarrow> ont_observed \<Rightarrow> bool" where
  "dhcp_differs d ob =
     (if observed_differs (acs_observed_dhcp_enabled (obs_acs ob)) (Some (dhcp_enabled d)) then True
      else \<not> olt_present (obs_olt ob))"

text \<open>\<open>not acs.acs_observed_password_set\<close> holds for \<open>None\<close> as for \<open>False\<close>.\<close>

definition management_server_differs :: "ont_desired \<Rightarrow> ont_observed \<Rightarrow> bool" where
  "management_server_differs d ob =
     (let acs = obs_acs ob in
      if truthy_str (acs_url d) \<and> acs_observed_url acs \<noteq> acs_url d then True
      else if truthy_str (acs_url d) \<and> acs_observed_username acs \<noteq> Some (str_or (acs_username d) [])
      then True
      else if truthy_str (acs_password_ref d) \<and> acs_observed_password_set acs \<noteq> Some True then True
      else if acs_observed_periodic_inform_interval_sec acs \<noteq> Some (periodic_inform_interval_sec d)
      then True
      else if acs_observed_cr_username acs \<noteq> cr_username d then True
      else if acs_observed_cr_password_set acs \<noteq> Some True then True
      else False)"

subsection \<open>The ACS identity\<close>

record acs_identity =
  ai_device_id :: "string option"
  ai_wait_reason :: "failure_reason option"
  ai_detail :: string

definition acs_wait :: "failure_reason \<Rightarrow> string \<Rightarrow> acs_identity" where
  "acs_wait r detail = \<lparr>ai_device_id = None, ai_wait_reason = Some r, ai_detail = detail\<rparr>"

text \<open>\<open>(value or "").strip() or None\<close>.\<close>

definition clean_id :: "string option \<Rightarrow> string option" where
  "clean_id v = (let s = py_strip (str_or v []) in if s = [] then None else Some s)"

definition resolve_acs_device_id :: "ont_desired \<Rightarrow> ont_observed \<Rightarrow> acs_identity" where
  "resolve_acs_device_id d ob =
     (let persisted = clean_id (acs_device_id d);
          acs = obs_acs ob;
          seen = clean_id (acs_observed_device_id acs)
      in
      if \<not> acs_present acs then
        acs_wait ONT_NOT_INFORMING (''ONT '' @ serial_number d @ '' has no ACS device document; '' @
          ''ACS configuration waits for the next Inform.'')
      else if acs_observed_device_match_count acs > 1 then
        acs_wait ACS_IDENTITY_UNRESOLVED (show_int (acs_observed_device_match_count acs) @
          '' ACS devices match serial '' @ serial_number d @ ''; refusing to guess which one to write.'')
      else if persisted \<noteq> None \<and> seen \<noteq> None \<and> persisted \<noteq> seen then
        acs_wait ACS_IDENTITY_UNRESOLVED
          (''Recorded ACS device id disagrees with the id the ACS reports '' @ ''for serial '' @
           serial_number d @ ''; refusing to write to '' @ ''either until the CPE record is repaired.'')
      else case (if persisted \<noteq> None then persisted else seen) of
          None \<Rightarrow> acs_wait ACS_IDENTITY_UNRESOLVED
            (''No recorded GenieACS device id for serial '' @ serial_number d @
             '' and the ACS read returned none.'')
        | Some dev \<Rightarrow> \<lparr>ai_device_id = Some dev, ai_wait_reason = None, ai_detail = []\<rparr>)"

subsection \<open>Facts about the helpers\<close>

lemma clean_id_Some:
  "clean_id v = Some s \<longleftrightarrow> s \<noteq> [] \<and> (\<exists>u. v = Some u \<and> py_strip u = s)"
  by (cases v) (auto simp: clean_id_def Let_def)

lemma resolve_Some:
  "ai_device_id (resolve_acs_device_id d ob) = Some dev \<longleftrightarrow>
     acs_present (obs_acs ob) \<and> acs_observed_device_match_count (obs_acs ob) \<le> 1 \<and>
     (let p = clean_id (acs_device_id d); s = clean_id (acs_observed_device_id (obs_acs ob))
      in (p = Some dev \<and> s \<in> {None, Some dev}) \<or> (p = None \<and> s = Some dev))"
  by (auto simp: resolve_acs_device_id_def acs_wait_def Let_def not_less split: option.splits)

lemma resolve_exclusive:
  "(ai_device_id (resolve_acs_device_id d ob) = None) \<longleftrightarrow>
   (ai_wait_reason (resolve_acs_device_id d ob) \<noteq> None)"
  by (simp add: resolve_acs_device_id_def acs_wait_def Let_def split: option.split)

text \<open>
  An ACS device id is never invented. The planner resolves an id exactly when the ACS has a
  document for the device, at most one document matched, and the recorded and the reported ids,
  white space removed, do not contradict each other; the id is then one of those two. Otherwise it
  waits, with a reason: not informing when there is no document, unresolved identity else.
\<close>

theorem acs_identity_sound:
  "(ai_device_id (resolve_acs_device_id d ob) = Some dev \<longleftrightarrow>
      acs_present (obs_acs ob) \<and> acs_observed_device_match_count (obs_acs ob) \<le> 1 \<and> dev \<noteq> [] \<and>
      (let p = clean_id (acs_device_id d); s = clean_id (acs_observed_device_id (obs_acs ob))
       in dev \<in> set_option p \<union> set_option s \<and> set_option p \<union> set_option s \<subseteq> {dev})) \<and>
   (ai_device_id (resolve_acs_device_id d ob) = None \<longleftrightarrow>
      ai_wait_reason (resolve_acs_device_id d ob) =
        Some (if acs_present (obs_acs ob) then ACS_IDENTITY_UNRESOLVED else ONT_NOT_INFORMING))"
proof
  let ?p = "clean_id (acs_device_id d)" and ?s = "clean_id (acs_observed_device_id (obs_acs ob))"
  have "?p = Some dev \<Longrightarrow> dev \<noteq> []" and "?s = Some dev \<Longrightarrow> dev \<noteq> []"
    by (simp_all add: clean_id_Some)
  then show "ai_device_id (resolve_acs_device_id d ob) = Some dev \<longleftrightarrow>
      acs_present (obs_acs ob) \<and> acs_observed_device_match_count (obs_acs ob) \<le> 1 \<and> dev \<noteq> [] \<and>
      (let p = ?p; s = ?s
       in dev \<in> set_option p \<union> set_option s \<and> set_option p \<union> set_option s \<subseteq> {dev})"
    unfolding resolve_Some Let_def by (cases ?p; cases ?s) auto
  show "ai_device_id (resolve_acs_device_id d ob) = None \<longleftrightarrow>
      ai_wait_reason (resolve_acs_device_id d ob) =
        Some (if acs_present (obs_acs ob) then ACS_IDENTITY_UNRESOLVED else ONT_NOT_INFORMING)"
    by (simp add: resolve_acs_device_id_def acs_wait_def Let_def split: option.split)
qed

subsection \<open>Normal forms\<close>

text \<open>A canonical name is a fixed point of the alias table.\<close>

lemma alias_fixed:
  "map_of wifi_security_aliases x = Some a \<Longrightarrow>
     py_strip a = a \<and> a \<noteq> [] \<and> map_of wifi_security_aliases (py_lower a) = Some a"
proof -
  have all: "\<forall>a \<in> set (map snd wifi_security_aliases).
      py_strip a = a \<and> a \<noteq> [] \<and> map_of wifi_security_aliases (py_lower a) = Some a"
    by code_simp
  assume "map_of wifi_security_aliases x = Some a"
  then have "a \<in> set (map snd wifi_security_aliases)" by (force dest: map_of_SomeD)
  with all show ?thesis by blast
qed

text \<open>
  Normalising a WiFi security mode is idempotent, for every value and data model. A desired
  mode and its own normal form therefore never differ, so an alias cannot cause endless drift.
\<close>

theorem security_mode_normal_form:
  "normalise_wifi_security_mode (normalise_wifi_security_mode v rt) rt =
     normalise_wifi_security_mode v rt"
  by (cases v) (auto simp: normalise_wifi_security_mode_def Let_def alias_fixed split: option.split)

lemma takeWhile_append_sep:
  "(\<forall>c \<in> set x. \<not> sep c) \<Longrightarrow> sep d \<Longrightarrow> takeWhile (\<lambda>c. \<not> sep c) (x @ d # r) = x"
  "(\<forall>c \<in> set x. \<not> sep c) \<Longrightarrow> sep d \<Longrightarrow> dropWhile (\<lambda>c. \<not> sep c) (x @ d # r) = d # r"
  by (simp_all add: takeWhile_tail dropWhile_append3)

lemma split_fields_one:
  assumes "x \<noteq> []" and "\<forall>c \<in> set x. \<not> sep c"
  shows "split_fields sep x = [x]"
proof -
  have "dropWhile sep x = x" using assms by (intro dropWhile_head) auto
  moreover have "takeWhile (\<lambda>c. \<not> sep c) x = x" and "dropWhile (\<lambda>c. \<not> sep c) x = []"
    using assms(2) by (simp_all add: takeWhile_eq_all_conv dropWhile_eq_Nil_conv)
  ultimately show ?thesis using assms(1) by (subst split_fields.simps) (simp only: Let_def split_fields_Nil if_False)
qed

lemma split_fields_sep: "sep d \<Longrightarrow> split_fields sep (d # r) = split_fields sep r"
  by (subst (1 2) split_fields.simps) simp

lemma split_fields_more:
  assumes "x \<noteq> []" and "\<forall>c \<in> set x. \<not> sep c" and "sep d"
  shows "split_fields sep (x @ d # r) = x # split_fields sep r"
proof -
  have "dropWhile sep (x @ d # r) = x @ d # r" using assms by (intro dropWhile_head) auto
  then show ?thesis
    using assms split_fields_sep [of sep d r]
    by (subst split_fields.simps) (simp add: Let_def takeWhile_append_sep)
qed

lemma split_join_fields:
  assumes "sep d" and "\<forall>x \<in> set xs. x \<noteq> [] \<and> (\<forall>c \<in> set x. \<not> sep c)"
  shows "split_fields sep (join_with [d] xs) = xs"
  using assms(2)
proof (induction xs rule: induct_list012)
  case (3 x y zs)
  then show ?case using split_fields_more [where sep = sep and d = d and x = x] assms(1) by simp
qed (simp_all add: split_fields_one)

definition dns_fields :: "string option \<Rightarrow> string list" where
  "dns_fields v = (case v of None \<Rightarrow> [] | Some s \<Rightarrow> split_fields dns_separator s)"

lemma dns_fields_normalise: "dns_fields (normalise_dns_servers v) = dns_fields v"
proof (cases v)
  case None
  then show ?thesis by (simp add: normalise_dns_servers_def dns_fields_def)
next
  case (Some s)
  have c: "dns_separator (CHR '','')" by (simp add: dns_separator_def)
  note r = split_join_fields [where sep = dns_separator and d = "CHR '',''" and
      xs = "split_fields dns_separator s", OF c]
  have "split_fields dns_separator (join_with '','' (split_fields dns_separator s)) =
      split_fields dns_separator s"
    using r split_fields_sound by blast
  moreover from this have "join_with '','' (split_fields dns_separator s) = [] \<Longrightarrow>
      split_fields dns_separator s = []" by simp
  ultimately show ?thesis using Some by (auto simp: normalise_dns_servers_def dns_fields_def Let_def)
qed

text \<open>
  DNS server texts are compared by their server lists. Two values have the same normal form
  exactly when they name the same servers in the same order, whatever white space or commas
  separate them; and the normal form lists the same servers.
\<close>

theorem dns_servers_normal_form:
  "(normalise_dns_servers v = normalise_dns_servers w \<longleftrightarrow> dns_fields v = dns_fields w) \<and>
   dns_fields (normalise_dns_servers v) = dns_fields v"
proof -
  have "normalise_dns_servers v =
      (let j = join_with '','' (dns_fields v) in if j = [] then None else Some j)" for v
    by (cases v) (simp_all add: normalise_dns_servers_def dns_fields_def)
  then have "dns_fields v = dns_fields w \<Longrightarrow> normalise_dns_servers v = normalise_dns_servers w"
    by simp
  then show ?thesis using dns_fields_normalise by metis
qed

subsection \<open>Which WAN PPP object is the target, and which are stale\<close>

lemma min_list_int_mem: "min_list_int xs = Some m \<longleftrightarrow> xs \<noteq> [] \<and> m \<in> set xs \<and> (\<forall>x \<in> set xs. m \<le> x)"
proof (induction xs arbitrary: m)
  case (Cons x xs)
  show ?case
  proof (cases "min_list_int xs")
    case None
    then have "xs = []" by (cases xs) (auto split: option.splits)
    then show ?thesis by auto
  next
    case (Some k)
    with Cons.IH [of k] show ?thesis by (auto simp: min_def intro: order_antisym)
  qed
qed simp

lemma primary_observed:
  "primary_observed_wan_ppp_location ob = Some p \<Longrightarrow>
     acs_observed_wan_ppp_locations (obs_acs ob) = [] \<Longrightarrow> observed_wan_ppp_locations ob = [p]"
  by (auto simp: primary_observed_wan_ppp_location_def observed_wan_ppp_locations_def
      split: option.splits)

text \<open>
  Only duplicates beside the live session are stale. Every stale location was observed and is
  not the target; and there are stale locations only if the target is the very object the reader
  took its values from (the primary location), so the active session is never one of them.
\<close>

theorem stale_locations_safe:
  assumes "p \<in> set (stale_wan_ppp_locations d ob)"
  shows "p \<in> set (observed_wan_ppp_locations ob) \<and> target_wan_ppp_location d ob \<noteq> Some p \<and>
    primary_observed_wan_ppp_location ob \<noteq> Some p \<and>
    (\<exists>w i. target_wan_ppp_location d ob = Some (w, i) \<and> wan_pppoe_wcd_index d = Some w \<and>
       primary_observed_wan_ppp_location ob = Some (w, i))"
  using assms
  by (auto simp: stale_wan_ppp_locations_def target_wan_ppp_location_def Let_def
      split: if_splits option.splits)

theorem stale_locations_safe_witness:
  "primary_observed_wan_ppp_location
     (sample_observed\<lparr>obs_acs := sample_acs\<lparr>acs_observed_wan_ppp_locations := [(2, 1), (1, 1)]\<rparr>\<rparr>)
     \<noteq> Some (1, 1)"
proof -
  have "(1, 1) \<in> set (stale_wan_ppp_locations sample_desired
     (sample_observed\<lparr>obs_acs := sample_acs\<lparr>acs_observed_wan_ppp_locations := [(2, 1), (1, 1)]\<rparr>\<rparr>))"
    by code_simp
  from stale_locations_safe [OF this] show ?thesis by blast
qed

end
