(* ===== verification/Planner.thy ===== *)
theory Planner
  imports Plan_Helpers
begin

section \<open>The planner\<close>

text \<open>
  Models \<open>compute_plan\<close> of \<open>app/services/network/reconcile/planner.py\<close> and the planning functions
  below it. The source passes two lists that every function only appends to; here a function
  returns the actions and drifts it appends, and the callers concatenate them in call order.
  \<open>_append_reset_if_needed\<close>, the one function that reads the list, is given it. The observed and
  desired argument are \<open>ob\<close> and \<open>d\<close>, the operator's proposed fields \<open>pf\<close> and the flag
  \<open>force_proposed_writes\<close> is \<open>fp\<close>.
\<close>

subsection \<open>Plans\<close>

record plan =
  plan_actions :: "action list"
  plan_drifts :: "drift list"
  plan_required_surfaces :: "surface set"
  plan_acs_wait_reason :: "failure_reason option"
  plan_acs_wait_detail :: string

definition plan_is_empty :: "plan \<Rightarrow> bool" where
  "plan_is_empty p \<longleftrightarrow> plan_actions p = []"

definition plan_waiting_for_acs :: "plan \<Rightarrow> bool" where
  "plan_waiting_for_acs p \<longleftrightarrow> plan_acs_wait_reason p \<noteq> None"

type_synonym part = "action list \<times> drift list"

definition parts :: "part list \<Rightarrow> part" where
  "parts ps = (concat (map fst ps), concat (map snd ps))"

text \<open>The statements under an \<open>if\<close> with no \<open>else\<close>.\<close>

definition only_if :: "bool \<Rightarrow> part \<Rightarrow> part" where
  "only_if b p = (if b then p else ([], []))"

definition mk_drift :: "string \<Rightarrow> surface \<Rightarrow> pyval \<Rightarrow> pyval \<Rightarrow> bool \<Rightarrow> drift" where
  "mk_drift f s des obs rep = \<lparr>drift_field = f, drift_surface = s, drift_desired = des,
     drift_observed = obs, drift_repairable = rep\<rparr>"

lemma parts_simps [simp]:
  "fst (parts []) = []" "snd (parts []) = []"
  "fst (parts (p # ps)) = fst p @ fst (parts ps)" "snd (parts (p # ps)) = snd p @ snd (parts ps)"
  by (simp_all add: parts_def)

lemma fst_only_if [simp]: "fst (only_if b p) = (if b then fst p else [])"
  by (simp add: only_if_def)

lemma snd_only_if [simp]: "snd (only_if b p) = (if b then snd p else [])"
  by (simp add: only_if_def)

subsection \<open>The scope of a change\<close>

definition WIFI_ONLY_FIELDS :: "string set" where
  "WIFI_ONLY_FIELDS = {''wifi_ssid'', ''wifi_password_ref'', ''wifi_enabled'', ''wifi_channel'',
     ''wifi_security_mode''}"

definition REMOTE_ACCESS_ONLY_FIELDS :: "string set" where
  "REMOTE_ACCESS_ONLY_FIELDS = {''wan_remote_access_enabled'', ''wan_remote_access_expires_at'',
     ''wan_remote_access_source_cidrs'', ''wan_remote_access_ssh_port''}"

definition WAN_ONLY_FIELDS :: "string set" where
  "WAN_ONLY_FIELDS = {''wan_mode'', ''wan_pppoe_username'', ''wan_pppoe_password_ref'',
     ''wan_pppoe_wcd_index'', ''wan_static_ip'', ''wan_static_subnet'', ''wan_static_gateway'',
     ''wan_static_dns'', ''wan_static_ip_is_public'', ''ipv6_enabled''}"

definition ACS_ENDPOINT_FIELDS :: "string set" where
  "ACS_ENDPOINT_FIELDS = {''acs_url'', ''acs_username'', ''acs_password_ref''}"

definition TR069_PROFILE_ONLY_FIELDS :: "string set" where
  "TR069_PROFILE_ONLY_FIELDS = {''tr069_profile_id''}"

definition is_wifi_only_change :: "reconcile_mode \<Rightarrow> string set \<Rightarrow> bool" where
  "is_wifi_only_change md pf \<longleftrightarrow> md \<in> {Sync, Sweep, Bootstrap} \<and> pf \<noteq> {} \<and> pf \<subseteq> WIFI_ONLY_FIELDS"

definition is_remote_access_only_change :: "reconcile_mode \<Rightarrow> string set \<Rightarrow> bool" where
  "is_remote_access_only_change md pf \<longleftrightarrow> md = Sync \<and> pf \<noteq> {} \<and> pf \<subseteq> REMOTE_ACCESS_ONLY_FIELDS"

definition is_wan_only_change :: "reconcile_mode \<Rightarrow> string set \<Rightarrow> bool" where
  "is_wan_only_change md pf \<longleftrightarrow> md = Sync \<and> pf \<noteq> {} \<and> pf \<subseteq> WAN_ONLY_FIELDS"

definition is_tr069_profile_only_change :: "reconcile_mode \<Rightarrow> string set \<Rightarrow> bool" where
  "is_tr069_profile_only_change md pf \<longleftrightarrow> md = Sync \<and> pf \<noteq> {} \<and> pf \<subseteq> TR069_PROFILE_ONLY_FIELDS"

subsection \<open>OLT side\<close>

definition plan_tr069_profile_only :: "ont_desired \<Rightarrow> ont_observed \<Rightarrow> part" where
  "plan_tr069_profile_only d ob =
     (if \<not> is_deliverable ''tr069_profile_id'' (SInt (tr069_profile_id d)) then ([], [])
      else if olt_tr069_profile_id (obs_olt ob) = Some (tr069_profile_id d) then ([], [])
      else ([OltA (OltTr069ServerConfig (fsp d) (olt_ont_id d) (tr069_profile_id d))],
            [mk_drift ''olt_tr069_profile_id'' Olt (Num (tr069_profile_id d))
               (Scal (oint (olt_tr069_profile_id (obs_olt ob)))) True]))"

text \<open>Step 1 of \<open>_plan_olt_side\<close>: authorise an absent ONT, or diff the fields of a present one.\<close>

definition plan_authorize :: "ont_desired \<Rightarrow> ont_observed \<Rightarrow> part" where
  "plan_authorize d ob =
     (let olt = obs_olt ob in
      if \<not> olt_present olt then
        (let authorizable = is_deliverable ''line_profile_id'' (SInt (line_profile_id d)) \<and>
               is_deliverable ''service_profile_id'' (SInt (service_profile_id d))
         in (if authorizable
             then [OltA (OltAuthorize (fsp d) (olt_ont_id d) (line_profile_id d)
                     (service_profile_id d) (serial_number d) (description d))]
             else [],
             [mk_drift ''olt_present'' Olt (Flag True) (Flag False) authorizable]))
      else parts
        [only_if (is_deliverable ''line_profile_id'' (SInt (line_profile_id d)) \<and>
             observed_differs (olt_line_profile_id olt) (Some (line_profile_id d)))
           ([OltA (OltModifyLineProfile (fsp d) (olt_ont_id d) (line_profile_id d))],
            [mk_drift ''olt_line_profile_id'' Olt (Num (line_profile_id d))
               (Scal (oint (olt_line_profile_id olt))) True]),
         only_if (is_deliverable ''service_profile_id'' (SInt (service_profile_id d)) \<and>
             observed_differs (olt_service_profile_id olt) (Some (service_profile_id d)))
           ([OltA (OltModifyServiceProfile (fsp d) (olt_ont_id d) (service_profile_id d))],
            [mk_drift ''olt_service_profile_id'' Olt (Num (service_profile_id d))
               (Scal (oint (olt_service_profile_id olt))) True]),
         only_if (observed_differs (olt_description olt) (Some (description d)))
           ([OltA (OltModifyDescription (fsp d) (olt_ont_id d) (description d))],
            [mk_drift ''olt_description'' Olt (Str (description d))
               (Scal (ostr (olt_description olt))) True]),
         only_if (is_deliverable ''tr069_profile_id'' (SInt (tr069_profile_id d)) \<and>
             observed_differs (olt_tr069_profile_id olt) (Some (tr069_profile_id d)))
           ([OltA (OltTr069ServerConfig (fsp d) (olt_ont_id d) (tr069_profile_id d))],
            [mk_drift ''olt_tr069_profile_id'' Olt (Num (tr069_profile_id d))
               (Scal (oint (olt_tr069_profile_id olt))) True])])"

definition desired_port_indices :: "ont_desired \<Rightarrow> int set" where
  "desired_port_indices d =
     set_option (mgmt_service_port_index d) \<union> set_option (wan_service_port_index d)"

definition observed_port_indices :: "ont_observed \<Rightarrow> int option set" where
  "observed_port_indices ob = set (map sp_index (olt_service_ports (obs_olt ob)))"

text \<open>The slot of a stale port, recovered from its VLAN.\<close>

definition stale_port_slot :: "ont_desired \<Rightarrow> service_port_entry \<Rightarrow> string" where
  "stale_port_slot d sp =
     (case sp_vlan_id sp of
        None \<Rightarrow> ''unknown''
      | Some v \<Rightarrow>
          if mgmt_vlan d \<noteq> None \<and> mgmt_vlan d = Some v then ''mgmt''
          else if wan_vlan d \<noteq> None \<and> wan_vlan d = Some v then ''wan''
          else ''unknown'')"

definition plan_stale_port :: "ont_desired \<Rightarrow> service_port_entry \<Rightarrow> part" where
  "plan_stale_port d sp =
     (case sp_index sp of
        None \<Rightarrow> ([], [])
      | Some idx \<Rightarrow>
          if idx \<in> desired_port_indices d then ([], [])
          else ([OltA (OltDeleteServicePort idx (stale_port_slot d sp))],
                [mk_drift (''olt_service_ports['' @ show_int idx @ '']'') Olt PyNone (Port sp) True]))"

definition plan_wan_service_port :: "ont_desired \<Rightarrow> ont_observed \<Rightarrow> part" where
  "plan_wan_service_port d ob =
     (case (wan_service_port_index d, wan_vlan d) of
        (Some idx, Some v) \<Rightarrow>
          only_if (Some idx \<notin> observed_port_indices ob \<and> is_deliverable ''wan_vlan'' (SInt v) \<and>
              wan_mode d = Pppoe)
            ([OltA (OltCreateServicePort (fsp d) (olt_ont_id d) idx v (int_or (wan_gem_index d) 1)
                ''wan'')], [])
      | _ \<Rightarrow> ([], []))"

text \<open>The management port; GEM 2 is its slot in the line profile.\<close>

definition plan_mgmt_service_port :: "ont_desired \<Rightarrow> ont_observed \<Rightarrow> part" where
  "plan_mgmt_service_port d ob =
     (case (mgmt_service_port_index d, mgmt_vlan d) of
        (Some idx, Some v) \<Rightarrow>
          only_if (Some idx \<notin> observed_port_indices ob)
            ([OltA (OltCreateServicePort (fsp d) (olt_ont_id d) idx v 2 ''mgmt'')], [])
      | _ \<Rightarrow> ([], []))"

definition plan_service_ports :: "ont_desired \<Rightarrow> ont_observed \<Rightarrow> part" where
  "plan_service_ports d ob = parts
     (map (plan_stale_port d) (olt_service_ports (obs_olt ob)) @
      [plan_mgmt_service_port d ob,
       plan_wan_service_port d ob])"

text \<open>Step 3 of \<open>_plan_olt_side\<close>: the management IP host.\<close>

definition plan_iphost :: "ont_desired \<Rightarrow> ont_observed \<Rightarrow> part" where
  "plan_iphost d ob =
     (case (mgmt_vlan d, mgmt_ip d) of
        (Some v, Some ip) \<Rightarrow>
          only_if (iphost_differs d ob)
            (map (\<lambda>i. OltA (OltClearIphost (fsp d) (olt_ont_id d) i)) [0, 1] @
             [OltA (OltIpconfig (fsp d) (olt_ont_id d) 0 ip
                (str_or (mgmt_subnet_mask d) ''255.255.255.0'') (str_or (mgmt_gateway d) []) v
                (mgmt_iphost_priority d) (mgmt_dns_primary d) (mgmt_dns_secondary d))],
             [mk_drift ''olt_mgmt_ip'' Olt (Str ip) (Scal (ostr (olt_mgmt_ip (obs_olt ob)))) True])
      | _ \<Rightarrow> ([], []))"

definition plan_olt_side :: "ont_desired \<Rightarrow> ont_observed \<Rightarrow> part" where
  "plan_olt_side d ob = parts
     [plan_authorize d ob,
      plan_service_ports d ob,
      plan_iphost d ob,
      only_if (\<not> olt_present (obs_olt ob) \<and>
          is_deliverable ''tr069_profile_id'' (SInt (tr069_profile_id d)))
        ([OltA (OltTr069ServerConfig (fsp d) (olt_ont_id d) (tr069_profile_id d))], [])]"

text \<open>The OMCI sequence; the flag tells whether OMCI owns the WAN.\<close>

definition plan_olt_omci_wan :: "ont_desired \<Rightarrow> bool \<times> part" where
  "plan_olt_omci_wan d =
     (case (wan_config_profile_id d, wan_internet_config_ip_index d, wan_vlan d) of
        (Some profile, Some ip_index, Some v) \<Rightarrow>
          if wan_mode d \<noteq> Pppoe \<or> wan_pppoe_provisioning_method d = Tr069 \<or> profile \<le> 0 \<or>
             \<not> is_deliverable ''wan_vlan'' (SInt v)
          then (False, [], [])
          else (True,
            [OltA (OltOmciPppoe (fsp d) (olt_ont_id d) ip_index v (str_or (wan_pppoe_username d) [])
               (str_or (wan_pppoe_password_ref d) [])),
             OltA (OltOmciInternetConfig (fsp d) (olt_ont_id d) ip_index),
             OltA (OltOmciWanConfig (fsp d) (olt_ont_id d) ip_index profile)], [])
      | _ \<Rightarrow> (False, [], []))"

definition reset_if_needed :: "ont_desired \<Rightarrow> action list \<Rightarrow> action list" where
  "reset_if_needed d acts =
     (if list_ex requires_reset acts then [OltA (OltReset (fsp d) (olt_ont_id d))] else [])"

subsection \<open>ACS side: WAN\<close>

definition wcd_path :: "int \<Rightarrow> string" where
  "wcd_path w = ''InternetGatewayDevice.WANDevice.1.'' @ ''WANConnectionDevice.'' @ show_int w @ ''.''"

definition plan_acs_wan_ppp ::
  "ont_desired \<Rightarrow> ont_observed \<Rightarrow> string \<Rightarrow> string set \<Rightarrow> bool \<Rightarrow> part" where
  "plan_acs_wan_ppp d ob dev pf fp =
     (case (wan_pppoe_wcd_index d, wan_vlan d) of
        (Some w, Some v) \<Rightarrow>
          if \<not> is_deliverable ''wan_pppoe_wcd_index'' (SInt w) \<or> \<not> is_deliverable ''wan_vlan'' (SInt v)
          then ([], [])
          else
            (let found = desired_wan_ppp_instance d ob;
                 created = (found = None);
                 inst = (case found of None \<Rightarrow> wan_pppoe_instance_index d | Some i \<Rightarrow> i);
                 force_write = fp \<and> pf \<inter> {''wan_mode'', ''wan_pppoe_username'',
                   ''wan_pppoe_password_ref'', ''wan_pppoe_wcd_index''} \<noteq> {}
             in parts
               [only_if created
                  ([AcsA (AcsAddObject dev (wcd_path w @ ''WANPPPConnection'') (Some w))],
                   [mk_drift ''acs_wan_ppp_instance'' Acs (Num (wan_pppoe_instance_index d)) PyNone True]),
                only_if (created \<or> force_write \<or> wan_ppp_needs_heal d ob \<or> wan_ppp_differs d ob)
                  ([AcsA (AcsSetPppoe dev w inst (str_or (wan_pppoe_username d) [])
                      (str_or (wan_pppoe_password_ref d) []) v)],
                   [mk_drift ''wan_pppoe_username'' Acs (Scal (ostr (wan_pppoe_username d)))
                      (Scal (ostr (acs_observed_pppoe_username (obs_acs ob)))) True])])
      | _ \<Rightarrow> ([], []))"

definition plan_acs_wan_ip ::
  "ont_desired \<Rightarrow> ont_observed \<Rightarrow> string \<Rightarrow> string set \<Rightarrow> bool \<Rightarrow> part" where
  "plan_acs_wan_ip d ob dev pf fp =
     (case (wan_pppoe_wcd_index d, wan_vlan d) of
        (Some w, Some v) \<Rightarrow>
          only_if (wan_mode d \<in> {Dhcp, Static} \<and>
              is_deliverable ''wan_pppoe_wcd_index'' (SInt w) \<and> is_deliverable ''wan_vlan'' (SInt v) \<and>
              ((fp \<and> pf \<inter> {''wan_mode'', ''wan_pppoe_wcd_index'', ''wan_static_ip'',
                  ''wan_static_subnet'', ''wan_static_gateway'', ''wan_static_dns''} \<noteq> {}) \<or>
               \<not> olt_present (obs_olt ob) \<or> wan_ip_differs d ob))
            ([AcsA (AcsSetWanIp dev (str_or (data_model_root d ob) ''InternetGatewayDevice'') w
                (wan_pppoe_instance_index d) (wan_mode_value (wan_mode d)) v (nat_enabled d)
                (wan_static_ip d) (wan_static_subnet d) (wan_static_gateway d) (wan_static_dns d)
                (tr181_wan_paths d))],
             [mk_drift ''wan_ip_mode'' Acs (Str (wan_mode_value (wan_mode d)))
                (Scal (ostr (acs_observed_wan_addressing_type (obs_acs ob)))) True])
      | _ \<Rightarrow> ([], []))"

text \<open>The NAT push, and the deletion of duplicate connections.\<close>

definition delete_wan_ppp :: "string \<Rightarrow> ppp_location \<Rightarrow> action" where
  "delete_wan_ppp dev loc = AcsA (AcsDeleteObject dev
     (wcd_path (fst loc) @ ''WANPPPConnection.'' @ show_int (snd loc) @ ''.''))"

definition plan_acs_nat :: "ont_desired \<Rightarrow> ont_observed \<Rightarrow> string \<Rightarrow> bool \<Rightarrow> part" where
  "plan_acs_nat d ob dev omci =
     (case wan_pppoe_wcd_index d of
        None \<Rightarrow> ([], [])
      | Some w \<Rightarrow>
          only_if (wan_mode d = Pppoe \<and> \<not> omci \<and> is_deliverable ''wan_pppoe_wcd_index'' (SInt w))
            (parts
              [only_if (wan_ppp_needs_heal d ob \<or>
                   observed_differs (acs_observed_nat_enabled (obs_acs ob)) (Some (nat_enabled d)))
                 ([AcsA (AcsSetNatEnabled dev w
                     (int_or (desired_wan_ppp_instance d ob) (wan_pppoe_instance_index d))
                     (nat_enabled d))],
                  [mk_drift ''nat_enabled'' Acs (Flag (nat_enabled d))
                     (Scal (obool (acs_observed_nat_enabled (obs_acs ob)))) True]),
               (map (delete_wan_ppp dev) (stale_wan_ppp_locations d ob), [])]))"

subsection \<open>ACS side: WiFi and remote access\<close>

record wifi_changes =
  wc_enabled :: "bool option"
  wc_ssid :: "string option"
  wc_channel :: "int option"
  wc_security_mode :: "string option"
  wc_drifts :: "(string \<times> scalar \<times> scalar) list"

definition no_wifi_changes :: wifi_changes where
  "no_wifi_changes = \<lparr>wc_enabled = None, wc_ssid = None, wc_channel = None,
     wc_security_mode = None, wc_drifts = []\<rparr>"

definition wc_has_values :: "wifi_changes \<Rightarrow> bool" where
  "wc_has_values c \<longleftrightarrow> wc_enabled c \<noteq> None \<or> wc_ssid c \<noteq> None \<or> wc_channel c \<noteq> None \<or>
     wc_security_mode c \<noteq> None"

text \<open>The candidates: field, action key, desired and observed value.\<close>

definition wifi_candidates ::
  "ont_desired \<Rightarrow> ont_observed \<Rightarrow> (string \<times> string \<times> scalar \<times> scalar) list" where
  "wifi_candidates d ob =
     (let acs = obs_acs ob; rt = data_model_root d ob in
      [(''wifi_ssid'', ''ssid'', SStr (wifi_ssid d), ostr (acs_observed_ssid acs)),
       (''wifi_enabled'', ''enabled'', obool (wifi_enabled d), obool (acs_observed_wifi_enabled acs)),
       (''wifi_channel'', ''channel'', oint (wifi_channel d), oint (acs_observed_wifi_channel acs)),
       (''wifi_security_mode'', ''security_mode'',
          ostr (normalise_wifi_security_mode (wifi_security_mode d) rt),
          ostr (normalise_wifi_security_mode (acs_observed_wifi_security_mode acs) rt))])"

definition wifi_candidate_written ::
  "ont_observed \<Rightarrow> string set \<Rightarrow> bool \<Rightarrow> string \<times> string \<times> scalar \<times> scalar \<Rightarrow> bool" where
  "wifi_candidate_written ob pf fp = (\<lambda>(field, key, des, obs).
     (if des = SNone then False
      else if \<not> is_deliverable field des then False
      else (fp \<and> field \<in> pf) \<or> scalar_differs obs des \<or> \<not> olt_present (obs_olt ob)))"

definition plan_wifi_changes ::
  "ont_desired \<Rightarrow> ont_observed \<Rightarrow> string set \<Rightarrow> bool \<Rightarrow> wifi_changes" where
  "plan_wifi_changes d ob pf fp =
     (let written = filter (wifi_candidate_written ob pf fp) (wifi_candidates d ob);
          values = map_of (map (\<lambda>(field, key, des, obs). (key, des)) written)
      in \<lparr>wc_enabled = (case values ''enabled'' of Some (SBool b) \<Rightarrow> Some b | _ \<Rightarrow> None),
          wc_ssid = (case values ''ssid'' of Some (SStr s) \<Rightarrow> Some s | _ \<Rightarrow> None),
          wc_channel = (case values ''channel'' of Some (SInt n) \<Rightarrow> Some n | _ \<Rightarrow> None),
          wc_security_mode = (case values ''security_mode'' of Some (SStr s) \<Rightarrow> Some s | _ \<Rightarrow> None),
          wc_drifts = map (\<lambda>(field, key, des, obs). (field, des, obs)) written\<rparr>)"

definition should_push_wifi_password ::
  "ont_desired \<Rightarrow> reconcile_mode \<Rightarrow> ont_observed \<Rightarrow> string set \<Rightarrow> bool \<Rightarrow> bool" where
  "should_push_wifi_password d md ob pf fp =
     (if \<not> is_deliverable ''wifi_password_ref'' (SStr (wifi_password_ref d)) then False
      else if md = Bootstrap then True
      else if fp \<and> md \<in> {Sync, Sweep} \<and> ''wifi_password_ref'' \<in> pf then True
      else if md = Sync \<and> \<not> olt_present (obs_olt ob) then True
      else False)"

text \<open>
  \<open>desired.wifi_paths or _standard_wifi_paths(...)\<close> is never \<open>None\<close>, so the tests
  \<open>wifi_paths is not None\<close> of the source hold and its drifts are repairable.
\<close>

definition active_wifi_paths :: "ont_desired \<Rightarrow> ont_observed \<Rightarrow> wifi_paths_t" where
  "active_wifi_paths d ob =
     (let base = (case wifi_paths d of
            Some p \<Rightarrow> p
          | None \<Rightarrow> standard_wifi_paths (data_model_root d ob))
      in case acs_observed_wifi_instance_index (obs_acs ob) of
           None \<Rightarrow> base
         | Some i \<Rightarrow> wifi_paths_for_instance base (data_model_root d ob) i)"

definition plan_acs_wifi ::
  "ont_desired \<Rightarrow> ont_observed \<Rightarrow> reconcile_mode \<Rightarrow> string \<Rightarrow> string set \<Rightarrow> bool \<Rightarrow> part" where
  "plan_acs_wifi d ob md dev pf fp =
     (let skipped = is_remote_access_only_change md pf \<or> is_wan_only_change md pf;
          push_password = (if skipped then False else should_push_wifi_password d md ob pf fp);
          ch = (if skipped then no_wifi_changes else plan_wifi_changes d ob pf fp)
      in (if wc_has_values ch \<or> push_password
          then [AcsA (AcsSetWifiConfig dev (active_wifi_paths d ob) (wc_enabled ch) (wc_ssid ch)
                  (if push_password then Some (wifi_password_ref d) else None) (wc_channel ch)
                  (wc_security_mode ch))]
          else [],
          map (\<lambda>(field, des, obs). mk_drift field Acs (Scal des) (Scal obs) True) (wc_drifts ch)))"

definition plan_remote_access ::
  "ont_desired \<Rightarrow> ont_observed \<Rightarrow> string \<Rightarrow> string set \<Rightarrow> bool \<Rightarrow> part" where
  "plan_remote_access d ob dev pf fp =
     (let acs = obs_acs ob;
          en = wan_remote_access_enabled d;
          explicit_toggle = (''wan_remote_access_enabled'' \<in> pf);
          strict_readback = (en \<or> explicit_toggle);
          force_toggle = (fp \<and> explicit_toggle);
          ssh_differs = (if strict_readback then acs_observed_remote_ssh_enabled acs \<noteq> Some en
            else observed_differs (acs_observed_remote_ssh_enabled acs) (Some en));
          port_differs = (en \<and> acs_observed_remote_ssh_port acs \<noteq> Some (wan_remote_access_ssh_port d));
          telnet_differs = (if strict_readback then acs_observed_remote_telnet_enabled acs \<noteq> Some False
            else acs_observed_remote_telnet_enabled acs = Some True);
          paths = (case remote_access_paths d of
              Some p \<Rightarrow> p
            | None \<Rightarrow> standard_remote_access_paths (data_model_root d ob));
          changes =
            (if force_toggle \<or> ssh_differs then [mk_drift ''wan_remote_access_enabled'' Acs (Flag en)
                (Scal (obool (acs_observed_remote_ssh_enabled acs))) True] else []) @
            (if port_differs then [mk_drift ''wan_remote_access_ssh_port'' Acs
                (Num (wan_remote_access_ssh_port d)) (Scal (oint (acs_observed_remote_ssh_port acs))) True]
             else []) @
            (if telnet_differs then [mk_drift ''wan_remote_telnet_disabled'' Acs (Flag False)
                (Scal (obool (acs_observed_remote_telnet_enabled acs))) True] else [])
      in (if changes = [] then []
          else [AcsA (AcsSetRemoteAccess dev paths
                  (if force_toggle \<or> ssh_differs then Some en else None)
                  (if port_differs then Some (wan_remote_access_ssh_port d) else None)
                  (if telnet_differs \<or> en then Some False else None))],
          changes))"

subsection \<open>ACS side: IPv6, LAN and management server\<close>

definition plan_acs_ipv6 ::
  "ont_desired \<Rightarrow> ont_observed \<Rightarrow> string \<Rightarrow> string set \<Rightarrow> part" where
  "plan_acs_ipv6 d ob dev pf =
     (let prov = (if ''ipv6_enabled'' \<in> pf then Prov_explicit else ipv6_enabled_provenance d);
          repairable = (data_model_root d ob = Some ''Device'')
      in only_if (has_executable_desired_provenance prov \<and>
             (\<not> olt_present (obs_olt ob) \<or> ipv6_differs d ob))
           (if repairable
            then [AcsA (AcsSetIpv6 dev (wan_pppoe_instance_index d) (ipv6_enabled d) (ipv6_enabled d)
                    prov)]
            else [],
            [mk_drift ''ipv6_enabled'' Acs (Flag (ipv6_enabled d))
               (Scal (obool (acs_observed_ipv6_enabled (obs_acs ob)))) repairable]))"

definition plan_acs_dhcp ::
  "ont_desired \<Rightarrow> ont_observed \<Rightarrow> string \<Rightarrow> string set \<Rightarrow> bool \<Rightarrow> part" where
  "plan_acs_dhcp d ob dev pf fp =
     only_if ((fp \<and> pf \<inter> {''dhcp_enabled'', ''dhcp_pool_min'', ''dhcp_pool_max'', ''dhcp_subnet_mask'',
           ''lan_gateway_ip''} \<noteq> {}) \<or> dhcp_differs d ob)
       ([AcsA (AcsSetDhcpServer dev (dhcp_enabled d) (dhcp_pool_min d) (dhcp_pool_max d)
           (dhcp_subnet_mask d) (lan_gateway_ip d))],
        [mk_drift ''dhcp_enabled'' Acs (Flag (dhcp_enabled d))
           (Scal (obool (acs_observed_dhcp_enabled (obs_acs ob)))) True])"

definition plan_acs_management_server ::
  "ont_desired \<Rightarrow> ont_observed \<Rightarrow> string \<Rightarrow> string set \<Rightarrow> bool \<Rightarrow> part" where
  "plan_acs_management_server d ob dev pf fp =
     (case (cr_username d, cr_password_ref d) of
        (Some u, Some p) \<Rightarrow>
          only_if (is_deliverable ''cr_username'' (SStr u) \<and> is_deliverable ''cr_password_ref'' (SStr p) \<and>
              ((pf \<inter> ACS_ENDPOINT_FIELDS \<noteq> {} \<and> fp) \<or> management_server_differs d ob))
            ([AcsA (AcsSetManagementServer dev u p (periodic_inform_interval_sec d)
                (str_or (data_model_root d ob) ''InternetGatewayDevice'') (acs_url d) (acs_username d)
                (acs_password_ref d))],
             [mk_drift ''acs_management_server'' Acs (Str ''configured'') (Str ''diverged'') True])
      | _ \<Rightarrow> ([], []))"

definition plan_acs_side ::
  "ont_desired \<Rightarrow> ont_observed \<Rightarrow> reconcile_mode \<Rightarrow> bool \<Rightarrow> string set \<Rightarrow> bool \<Rightarrow> acs_identity \<times> part" where
  "plan_acs_side d ob md omci pf fp =
     (if \<not> truthy_str (acs_server_id d) then
        (\<lparr>ai_device_id = None, ai_wait_reason = None, ai_detail = []\<rparr>, [], [])
      else
        (let identity = resolve_acs_device_id d ob in
         case ai_device_id identity of
           None \<Rightarrow> (identity, [], [])
         | Some dev \<Rightarrow>
             (let wifi_only = is_wifi_only_change md pf;
                  remote_only = is_remote_access_only_change md pf;
                  wan_only = is_wan_only_change md pf;
                  narrow = (wifi_only \<or> remote_only)
              in (identity, parts
                [only_if (\<not> narrow \<and> wan_mode d = Pppoe \<and> \<not> omci) (plan_acs_wan_ppp d ob dev pf fp),
                 only_if (\<not> narrow) (plan_acs_wan_ip d ob dev pf fp),
                 plan_acs_wifi d ob md dev pf fp,
                 only_if (\<not> (wifi_only \<or> wan_only)) (plan_remote_access d ob dev pf fp),
                 only_if (\<not> narrow) (plan_acs_nat d ob dev omci),
                 only_if (\<not> narrow \<and> \<not> wifi_only) (plan_acs_ipv6 d ob dev pf),
                 only_if (\<not> narrow \<and> \<not> wan_only) (plan_acs_dhcp d ob dev pf fp),
                 only_if (\<not> narrow \<and> \<not> wan_only) (plan_acs_management_server d ob dev pf fp)]))))"

subsection \<open>\<open>compute_plan\<close>\<close>

text \<open>The OLT half: whether OMCI owns the WAN, and the actions and drifts, the reset included.\<close>

definition plan_olt_half ::
  "ont_desired \<Rightarrow> ont_observed \<Rightarrow> reconcile_mode \<Rightarrow> string set \<Rightarrow> bool \<times> part" where
  "plan_olt_half d ob md pf =
     (if is_tr069_profile_only_change md pf then (False, plan_tr069_profile_only d ob)
      else if is_wifi_only_change md pf \<or> is_remote_access_only_change md pf then (False, [], [])
      else
        (let (omci, wan) = plan_olt_omci_wan d;
             base = parts [if is_wan_only_change md pf then plan_wan_service_port d ob
                           else plan_olt_side d ob, wan]
         in (omci, parts [base, (reset_if_needed d (fst base), [])])))"

definition compute_plan ::
  "ont_desired \<Rightarrow> ont_observed \<Rightarrow> reconcile_mode \<Rightarrow> string set option \<Rightarrow> bool \<Rightarrow> plan" where
  "compute_plan d ob md proposed fp =
     (let pf = (case proposed of None \<Rightarrow> {} | Some f \<Rightarrow> f);
          (omci, olt_part) = plan_olt_half d ob md pf;
          (identity, acs_part) =
            (if is_tr069_profile_only_change md pf
             then (\<lparr>ai_device_id = None, ai_wait_reason = None, ai_detail = []\<rparr>, [], [])
             else plan_acs_side d ob md omci pf fp);
          acts = fst (parts [olt_part, acs_part])
      in \<lparr>plan_actions = acts,
          plan_drifts = snd (parts [olt_part, acs_part]),
          plan_required_surfaces = action_surface ` set acts,
          plan_acs_wait_reason = ai_wait_reason identity,
          plan_acs_wait_detail = ai_detail identity\<rparr>)"

end
