(* ===== verification/Plan_Shape.thy ===== *)
theory Plan_Shape
  imports Planner
begin

section \<open>The shape of a plan\<close>

text \<open>
  What holds of every plan \<open>compute_plan\<close> returns: which surface and which device its actions
  address, in which order they come, and what a change confined to one feature may touch.
\<close>

subsection \<open>Surfaces and targets\<close>

definition olt_only :: "action list \<Rightarrow> bool" where
  "olt_only acts \<longleftrightarrow> (\<forall>a \<in> set acts. is_olt a)"

definition acs_only :: "string \<Rightarrow> action list \<Rightarrow> bool" where
  "acs_only dev acts \<longleftrightarrow> (\<forall>a \<in> set acts. \<exists>x. a = AcsA x \<and> acs_device x = dev)"

lemma olt_only_simps [simp]:
  "olt_only []" "olt_only (a # acts) \<longleftrightarrow> is_olt a \<and> olt_only acts"
  "olt_only (as @ bs) \<longleftrightarrow> olt_only as \<and> olt_only bs"
  by (auto simp: olt_only_def)

lemma acs_only_simps [simp]:
  "acs_only dev []" "acs_only dev (AcsA x # acts) \<longleftrightarrow> acs_device x = dev \<and> acs_only dev acts"
  "acs_only dev (as @ bs) \<longleftrightarrow> acs_only dev as \<and> acs_only dev bs"
  by (auto simp: acs_only_def)

lemma fst_parts_map: "fst (parts (map f xs @ ps)) = concat (map (\<lambda>x. fst (f x)) xs) @ fst (parts ps)"
  by (simp add: parts_def o_def)

lemma snd_parts_map: "snd (parts (map f xs @ ps)) = concat (map (\<lambda>x. snd (f x)) xs) @ snd (parts ps)"
  by (simp add: parts_def o_def)

lemma olt_only_concat: "(\<forall>x \<in> set xs. olt_only (f x)) \<Longrightarrow> olt_only (concat (map f xs))"
  by (auto simp: olt_only_def)

lemma olt_only_authorize: "olt_only (fst (plan_authorize d ob))"
  by (simp add: plan_authorize_def Let_def)

lemma olt_only_wan_port: "olt_only (fst (plan_wan_service_port d ob))"
  by (simp add: plan_wan_service_port_def split: option.split)

lemma olt_only_service_ports: "olt_only (fst (plan_service_ports d ob))"
  unfolding plan_service_ports_def fst_parts_map
  by (auto simp: plan_stale_port_def plan_mgmt_service_port_def olt_only_wan_port split: option.split
      intro!: olt_only_concat)

lemma olt_only_side: "olt_only (fst (plan_olt_side d ob))"
  by (simp add: plan_olt_side_def olt_only_authorize olt_only_service_ports plan_iphost_def
      split: option.split)

lemma olt_only_omci: "olt_only (fst (snd (plan_olt_omci_wan d)))"
  by (simp add: plan_olt_omci_wan_def split: option.split)

lemma olt_half_actions:
  "fst (snd (plan_olt_half d ob md pf)) =
     (if is_tr069_profile_only_change md pf then fst (plan_tr069_profile_only d ob)
      else if is_wifi_only_change md pf \<or> is_remote_access_only_change md pf then []
      else let base = (if is_wan_only_change md pf then fst (plan_wan_service_port d ob)
                       else fst (plan_olt_side d ob)) @ fst (snd (plan_olt_omci_wan d))
        in base @ reset_if_needed d base)"
  by (cases "plan_olt_omci_wan d") (simp add: plan_olt_half_def Let_def)

lemma olt_half_drifts:
  "snd (snd (plan_olt_half d ob md pf)) =
     (if is_tr069_profile_only_change md pf then snd (plan_tr069_profile_only d ob)
      else if is_wifi_only_change md pf \<or> is_remote_access_only_change md pf then []
      else (if is_wan_only_change md pf then snd (plan_wan_service_port d ob)
            else snd (plan_olt_side d ob)) @ snd (snd (plan_olt_omci_wan d)))"
  by (cases "plan_olt_omci_wan d") (simp add: plan_olt_half_def Let_def)

lemma olt_only_reset: "olt_only (reset_if_needed d acts)"
  by (simp add: reset_if_needed_def)

lemma olt_only_profile: "olt_only (fst (plan_tr069_profile_only d ob))"
  by (simp add: plan_tr069_profile_only_def)

lemma olt_only_half: "olt_only (fst (snd (plan_olt_half d ob md pf)))"
  by (simp add: olt_half_actions Let_def olt_only_reset olt_only_profile olt_only_wan_port
      olt_only_side olt_only_omci del: if_split split: if_split_asm)

lemma acs_only_wan_ppp: "acs_only dev (fst (plan_acs_wan_ppp d ob dev pf fp))"
  by (simp add: plan_acs_wan_ppp_def Let_def split: option.split)

lemma acs_only_wan_ip: "acs_only dev (fst (plan_acs_wan_ip d ob dev pf fp))"
  by (simp add: plan_acs_wan_ip_def split: option.split)

lemma acs_only_wifi: "acs_only dev (fst (plan_acs_wifi d ob md dev pf fp))"
  by (simp add: plan_acs_wifi_def Let_def)

lemma acs_only_remote: "acs_only dev (fst (plan_remote_access d ob dev pf fp))"
  by (simp add: plan_remote_access_def Let_def)

lemma acs_only_nat: "acs_only dev (fst (plan_acs_nat d ob dev omci))"
  by (auto simp: plan_acs_nat_def acs_only_def delete_wan_ppp_def split: option.split if_splits)

lemma acs_only_ipv6: "acs_only dev (fst (plan_acs_ipv6 d ob dev pf))"
  by (simp add: plan_acs_ipv6_def Let_def)

lemma acs_only_dhcp: "acs_only dev (fst (plan_acs_dhcp d ob dev pf fp))"
  by (simp add: plan_acs_dhcp_def)

lemma acs_only_management: "acs_only dev (fst (plan_acs_management_server d ob dev pf fp))"
  by (simp add: plan_acs_management_server_def split: option.split)

lemmas acs_only_parts = acs_only_wan_ppp acs_only_wan_ip acs_only_wifi acs_only_remote acs_only_nat
  acs_only_ipv6 acs_only_dhcp acs_only_management

text \<open>Without a resolved identity there is no ACS action; with one, every action carries it.\<close>

lemma acs_side_device:
  "plan_acs_side d ob md omci pf fp = (i, p) \<Longrightarrow>
     (fst p = [] \<and> snd p = []) \<or> (\<exists>dev. ai_device_id (resolve_acs_device_id d ob) = Some dev \<and>
       acs_only dev (fst p) \<and> truthy_str (acs_server_id d))"
  by (auto simp: plan_acs_side_def Let_def acs_only_parts split: if_split_asm option.splits)

lemma compute_plan_split:
  obtains olt acs where "plan_actions (compute_plan d ob md proposed fp) = olt @ acs"
    and "olt = fst (snd (plan_olt_half d ob md (case proposed of None \<Rightarrow> {} | Some f \<Rightarrow> f)))"
    and "olt_only olt"
    and "acs = [] \<or> (\<exists>dev. ai_device_id (resolve_acs_device_id d ob) = Some dev \<and> acs_only dev acs)"
proof -
  let ?pf = "case proposed of None \<Rightarrow> {} | Some f \<Rightarrow> f"
  obtain omci op where h: "plan_olt_half d ob md ?pf = (omci, op)" by (rule prod.exhaust)
  obtain i ap where a: "(if is_tr069_profile_only_change md ?pf
       then (\<lparr>ai_device_id = None, ai_wait_reason = None, ai_detail = []\<rparr>, [], [])
       else plan_acs_side d ob md omci ?pf fp) = (i, ap)" by (rule prod.exhaust)
  have acts: "plan_actions (compute_plan d ob md proposed fp) = fst op @ fst ap"
    by (simp add: compute_plan_def Let_def h a)
  have "fst ap = [] \<or> (\<exists>dev. ai_device_id (resolve_acs_device_id d ob) = Some dev \<and>
      acs_only dev (fst ap))"
    using a acs_side_device by (metis fst_conv snd_conv)
  moreover have "olt_only (fst op)" using olt_only_half [of d ob md ?pf] h by simp
  ultimately show thesis using that [OF acts] h by simp
qed

lemma acs_only_not_olt: "acs_only dev acts \<Longrightarrow> a \<in> set acts \<Longrightarrow> \<not> is_olt a"
  by (auto simp: acs_only_def)

text \<open>
  Every ACS write names the one resolved device. An ACS action in a plan carries exactly the
  id \<open>resolve_acs_device_id\<close> returned; when no id was resolved the plan has OLT actions only, and
  the surfaces the plan declares are exactly those its actions write.
\<close>

theorem acs_actions_target_resolved_device:
  "(AcsA x \<in> set (plan_actions (compute_plan d ob md proposed fp)) \<longrightarrow>
      ai_device_id (resolve_acs_device_id d ob) = Some (acs_device x)) \<and>
   (Acs \<in> plan_required_surfaces (compute_plan d ob md proposed fp) \<longleftrightarrow>
      (\<exists>x. AcsA x \<in> set (plan_actions (compute_plan d ob md proposed fp))))"
proof
  obtain olt acs where e: "plan_actions (compute_plan d ob md proposed fp) = olt @ acs"
    and o: "olt_only olt"
    and a: "acs = [] \<or> (\<exists>dev. ai_device_id (resolve_acs_device_id d ob) = Some dev \<and> acs_only dev acs)"
    by (rule compute_plan_split)
  show "AcsA x \<in> set (plan_actions (compute_plan d ob md proposed fp)) \<longrightarrow>
      ai_device_id (resolve_acs_device_id d ob) = Some (acs_device x)"
    using o a by (auto simp: e olt_only_def acs_only_def)
  have "plan_required_surfaces (compute_plan d ob md proposed fp) =
      action_surface ` set (plan_actions (compute_plan d ob md proposed fp))"
    by (simp add: compute_plan_def Let_def split: prod.split)
  then show "Acs \<in> plan_required_surfaces (compute_plan d ob md proposed fp) \<longleftrightarrow>
      (\<exists>x. AcsA x \<in> set (plan_actions (compute_plan d ob md proposed fp)))"
    by (force elim: action_surface.elims)
qed

theorem acs_actions_target_resolved_device_witness:
  "ai_device_id (resolve_acs_device_id sample_desired
      (sample_observed\<lparr>obs_acs := sample_acs\<lparr>acs_observed_nat_enabled := Some False\<rparr>\<rparr>)) =
     Some ''00259E-HG8546M-HWTC0001''"
proof -
  let ?ob = "sample_observed\<lparr>obs_acs := sample_acs\<lparr>acs_observed_nat_enabled := Some False\<rparr>\<rparr>"
  have "AcsA (AcsSetNatEnabled ''00259E-HG8546M-HWTC0001'' 2 1 True) \<in>
      set (plan_actions (compute_plan sample_desired ?ob Sync None True))"
    by code_simp
  with acs_actions_target_resolved_device [of "AcsSetNatEnabled ''00259E-HG8546M-HWTC0001'' 2 1 True"
      sample_desired ?ob Sync None True] show ?thesis by simp
qed

end
