(* ===== verification/Plan_Order.thy ===== *)
theory Plan_Order
  imports Plan_Shape
begin

section \<open>The order of a plan\<close>

text \<open>
  The ordering rules of the planner's documentation as one rank per action: a plan's actions have
  non-decreasing ranks. Also what a change confined to one feature may touch.
\<close>

subsection \<open>Ranks\<close>

text \<open>
  The rank of an OLT action. The TR-069 binding of a present ONT is a field diff and comes with the
  others; that of an ONT being authorised comes after its management IP host.
\<close>

fun olt_stage :: "bool \<Rightarrow> olt_action \<Rightarrow> nat" where
  "olt_stage present (OltAuthorize _ _ _ _ _ _) = 0"
| "olt_stage present (OltModifyLineProfile _ _ _) = 1"
| "olt_stage present (OltModifyServiceProfile _ _ _) = 2"
| "olt_stage present (OltModifyDescription _ _ _) = 3"
| "olt_stage present (OltTr069ServerConfig _ _ _) = (if present then 4 else 9)"
| "olt_stage present (OltDeleteServicePort _ _) = 5"
| "olt_stage present (OltCreateServicePort _ _ _ _ _ _) = 6"
| "olt_stage present (OltClearIphost _ _ _) = 7"
| "olt_stage present (OltIpconfig _ _ _ _ _ _ _ _ _ _) = 8"
| "olt_stage present (OltOmciPppoe _ _ _ _ _ _) = 10"
| "olt_stage present (OltOmciInternetConfig _ _ _) = 11"
| "olt_stage present (OltOmciWanConfig _ _ _ _) = 12"
| "olt_stage present (OltReset _ _) = 13"

fun acs_stage :: "acs_action \<Rightarrow> nat" where
  "acs_stage (AcsAddObject _ _ _) = 14"
| "acs_stage (AcsSetPppoe _ _ _ _ _ _) = 15"
| "acs_stage (AcsSetWanIp _ _ _ _ _ _ _ _ _ _ _ _) = 16"
| "acs_stage (AcsSetWifiConfig _ _ _ _ _ _ _) = 17"
| "acs_stage (AcsSetRemoteAccess _ _ _ _ _) = 18"
| "acs_stage (AcsSetNatEnabled _ _ _ _) = 19"
| "acs_stage (AcsDeleteObject _ _) = 20"
| "acs_stage (AcsSetIpv6 _ _ _ _ _) = 21"
| "acs_stage (AcsSetDhcpServer _ _ _ _ _ _) = 22"
| "acs_stage (AcsSetManagementServer _ _ _ _ _ _ _ _) = 23"
| "acs_stage (AcsArmDiagnostic _ _ _) = 24"
| "acs_stage (AcsSetWifiSsid _ _) = 25"
| "acs_stage (AcsSetWifiPassword _ _) = 26"

fun stage :: "bool \<Rightarrow> action \<Rightarrow> nat" where
  "stage present (OltA a) = olt_stage present a"
| "stage present (AcsA a) = acs_stage a"

text \<open>A segment of a plan: sorted, with its ranks in an interval.\<close>

definition staged :: "bool \<Rightarrow> nat \<Rightarrow> nat \<Rightarrow> action list \<Rightarrow> bool" where
  "staged b lo hi acts \<longleftrightarrow> sorted (map (stage b) acts) \<and>
     (\<forall>a \<in> set acts. lo \<le> stage b a \<and> stage b a \<le> hi)"

lemma staged_Nil [simp]: "staged b lo hi []"
  by (simp add: staged_def)

lemma staged_one: "staged b lo hi [a] \<longleftrightarrow> lo \<le> stage b a \<and> stage b a \<le> hi"
  by (simp add: staged_def)

lemma staged_append:
  "staged b lo m as \<Longrightarrow> staged b m' hi bs \<Longrightarrow> m \<le> m' \<Longrightarrow> lo \<le> m' \<Longrightarrow> m \<le> hi \<Longrightarrow>
     staged b lo hi (as @ bs)"
  by (fastforce simp: staged_def sorted_append)

lemma staged_weaken: "staged b lo hi as \<Longrightarrow> lo' \<le> lo \<Longrightarrow> hi \<le> hi' \<Longrightarrow> staged b lo' hi' as"
  by (fastforce simp: staged_def)

lemma staged_const: "\<forall>a \<in> set acts. stage b a = n \<Longrightarrow> staged b n n acts"
proof -
  assume "\<forall>a \<in> set acts. stage b a = n"
  moreover from this have "sorted (map (stage b) acts)" by (induction acts) auto
  ultimately show ?thesis by (simp add: staged_def)
qed

lemma staged_if: "(c \<Longrightarrow> staged b lo hi as) \<Longrightarrow> staged b lo hi (if c then as else [])"
  by simp

subsection \<open>The segments\<close>

abbreviation present :: "ont_observed \<Rightarrow> bool" where
  "present ob \<equiv> olt_present (obs_olt ob)"

lemma staged_authorize: "staged (present ob) 0 4 (fst (plan_authorize d ob))"
  by (simp add: plan_authorize_def Let_def staged_def)

lemma staged_wan_port: "staged b 6 6 (fst (plan_wan_service_port d ob))"
  by (simp add: plan_wan_service_port_def staged_def split: option.split)

lemma staged_service_ports: "staged b 5 6 (fst (plan_service_ports d ob))"
proof -
  let ?stale = "concat (map (\<lambda>sp. fst (plan_stale_port d sp)) (olt_service_ports (obs_olt ob)))"
  let ?mg = "fst (plan_mgmt_service_port d ob)"
  have s: "staged b 5 5 ?stale"
    by (rule staged_const) (auto simp: plan_stale_port_def split: option.splits if_splits)
  have m: "staged b 6 6 ?mg"
    by (simp add: plan_mgmt_service_port_def staged_def split: option.split)
  have "staged b 6 6 (?mg @ fst (plan_wan_service_port d ob))"
    by (rule staged_append [OF m staged_wan_port]) simp_all
  from staged_append [OF s this]
  have "staged b 5 6 (?stale @ ?mg @ fst (plan_wan_service_port d ob))" by simp
  then show ?thesis unfolding plan_service_ports_def fst_parts_map by simp
qed

lemma staged_iphost: "staged b 7 8 (fst (plan_iphost d ob))"
  by (simp add: plan_iphost_def staged_def split: option.split)

lemma staged_olt_side: "staged (present ob) 0 9 (fst (plan_olt_side d ob))"
proof -
  let ?b = "present ob"
  let ?t = "fst (only_if (\<not> ?b \<and> is_deliverable ''tr069_profile_id'' (SInt (tr069_profile_id d)))
        ([OltA (OltTr069ServerConfig (fsp d) (olt_ont_id d) (tr069_profile_id d))], []))"
  have t: "staged ?b 9 9 ?t" by (simp add: staged_def)
  have "staged ?b 7 9 (fst (plan_iphost d ob) @ ?t)"
    by (rule staged_append [OF staged_iphost t]) simp_all
  from staged_append [OF staged_service_ports this]
  have "staged ?b 5 9 (fst (plan_service_ports d ob) @ fst (plan_iphost d ob) @ ?t)" by simp
  from staged_append [OF staged_authorize this] show ?thesis by (simp add: plan_olt_side_def)
qed

lemma staged_omci: "staged b 10 12 (fst (snd (plan_olt_omci_wan d)))"
  by (simp add: plan_olt_omci_wan_def staged_def split: option.split)

lemma staged_reset: "staged b 13 13 (reset_if_needed d acts)"
  by (simp add: reset_if_needed_def staged_def)

lemma staged_olt_half: "staged (present ob) 0 13 (fst (snd (plan_olt_half d ob md pf)))"
proof -
  let ?b = "present ob"
  have c: "staged ?b 0 13 ((x @ fst (snd (plan_olt_omci_wan d))) @ reset_if_needed d y)"
    if "staged ?b 0 9 x" for x y
  proof -
    have "staged ?b 0 12 (x @ fst (snd (plan_olt_omci_wan d)))"
      by (rule staged_append [OF that staged_omci]) simp_all
    from staged_append [OF this staged_reset] show ?thesis by simp
  qed
  have w: "staged ?b 0 9 (fst (plan_wan_service_port d ob))"
    by (rule staged_weaken [OF staged_wan_port]) simp_all
  have p: "staged ?b 0 13 (fst (plan_tr069_profile_only d ob))"
    by (simp add: plan_tr069_profile_only_def staged_def)
  show ?thesis
    unfolding olt_half_actions Let_def using p c [OF w] c [OF staged_olt_side] by simp
qed

lemma staged_wan_ppp: "staged b 14 15 (fst (plan_acs_wan_ppp d ob dev pf fp))"
  by (simp add: plan_acs_wan_ppp_def Let_def staged_def split: option.split)

lemma staged_wan_ip: "staged b 16 16 (fst (plan_acs_wan_ip d ob dev pf fp))"
  by (simp add: plan_acs_wan_ip_def staged_def split: option.split)

lemma staged_wifi: "staged b 17 17 (fst (plan_acs_wifi d ob md dev pf fp))"
  by (simp add: plan_acs_wifi_def Let_def staged_def)

lemma staged_remote: "staged b 18 18 (fst (plan_remote_access d ob dev pf fp))"
  by (simp add: plan_remote_access_def Let_def staged_def)

lemma staged_nat: "staged b 19 20 (fst (plan_acs_nat d ob dev omci))"
proof -
  have x: "staged b 20 20 (map (delete_wan_ppp dev) xs)" for xs
    by (rule staged_const) (auto simp: delete_wan_ppp_def)
  have "staged b 19 20 (AcsA (AcsSetNatEnabled dev w i e) # map (delete_wan_ppp dev) xs)" for w i e xs
    using staged_append [where as = "[AcsA (AcsSetNatEnabled dev w i e)]" and lo = 19 and m = 19, OF _ x]
    by (simp add: staged_one)
  moreover have "staged b 19 20 (map (delete_wan_ppp dev) xs)" for xs
    by (rule staged_weaken [OF x]) simp_all
  ultimately show ?thesis by (simp add: plan_acs_nat_def split: option.split)
qed

lemma staged_ipv6: "staged b 21 21 (fst (plan_acs_ipv6 d ob dev pf))"
  by (simp add: plan_acs_ipv6_def Let_def staged_def)

lemma staged_dhcp: "staged b 22 22 (fst (plan_acs_dhcp d ob dev pf fp))"
  by (simp add: plan_acs_dhcp_def staged_def)

lemma staged_management: "staged b 23 23 (fst (plan_acs_management_server d ob dev pf fp))"
  by (simp add: plan_acs_management_server_def staged_def split: option.split)

lemma staged_step:
  "staged b lo m p \<Longrightarrow> staged b m' hi q \<Longrightarrow> m < m' \<Longrightarrow> lo \<le> m \<Longrightarrow> m' \<le> hi \<Longrightarrow>
     staged b lo hi ((if c then p else []) @ q)"
  by (auto intro!: staged_append elim: staged_weaken)

lemma staged_acs_side: "staged b 14 23 (fst (snd (plan_acs_side d ob md omci pf fp)))"
proof -
  have last: "staged b 23 23 (if c then fst (plan_acs_management_server d ob dev pf fp) else [])"
    for c dev by (simp add: staged_management)
  note s7 = staged_step [OF staged_dhcp last, simplified]
  note s6 = staged_step [OF staged_ipv6 s7, simplified]
  note s5 = staged_step [OF staged_nat s6, simplified]
  note s4 = staged_step [OF staged_remote s5, simplified]
  note s3 = staged_step [where c = True, OF staged_wifi s4, simplified]
  note s2 = staged_step [OF staged_wan_ip s3, simplified]
  note s1 = staged_step [OF staged_wan_ppp s2, simplified]
  show ?thesis by (simp add: plan_acs_side_def Let_def s1 split: option.split)
qed

lemma staged_plan: "staged (present ob) 0 23 (plan_actions (compute_plan d ob md proposed fp))"
proof -
  let ?pf = "case proposed of None \<Rightarrow> {} | Some f \<Rightarrow> f"
  obtain omci op where h: "plan_olt_half d ob md ?pf = (omci, op)" by (rule prod.exhaust)
  obtain i ap where a: "plan_acs_side d ob md omci ?pf fp = (i, ap)" by (rule prod.exhaust)
  have o: "staged (present ob) 0 13 (fst op)" using staged_olt_half [of ob d md ?pf] h by simp
  have "staged (present ob) 14 23 (fst ap)" using staged_acs_side [of _ d ob md omci ?pf fp] a by simp
  from staged_append [OF o this] staged_append [OF o staged_Nil [of _ 14 23]] show ?thesis
    by (simp add: compute_plan_def Let_def h a)
qed

text \<open>
  C38: the planner's ordering rules, all at once. The actions of every plan have non-decreasing
  ranks: authorisation first, stale service ports removed before missing ones are created, service
  ports before the IP host, the OMCI sequence after it, the reset last of the OLT actions, every OLT
  action before every ACS action, addObject before the PPPoE parameters, and the management server
  last of all. A TR-069 binding of a newly authorised ONT comes after its IP host; that of an ONT already
  present is one of its field differences and comes before, although the module states the rule without
  that case (\<open>binding_before_iphost\<close>).
\<close>

theorem plan_actions_ordered:
  "sorted (map (stage (olt_present (obs_olt ob))) (plan_actions (compute_plan d ob md proposed fp)))"
  using staged_plan by (simp add: staged_def)

text \<open>
  The module documents \<open>TR-069 binding after IPHOST\<close>. For a present ONT that differs in both, the binding is
  planned first.
\<close>

theorem binding_before_iphost:
  "map action_name (plan_actions (compute_plan sample_desired
     (sample_observed\<lparr>obs_olt := sample_olt\<lparr>olt_tr069_profile_id := Some 9, olt_mgmt_ip := Some ''10.9.0.8''\<rparr>\<rparr>) Sync None False)) =
   [''OltTr069ServerConfig'', ''OltClearIphost'', ''OltClearIphost'', ''OltIpconfig'', ''OltReset'']"
  by code_simp

subsection \<open>The reset\<close>

lemma no_reset_base:
  "OltA (OltReset f n) \<notin> set (fst (plan_olt_side d ob))"
  "OltA (OltReset f n) \<notin> set (fst (plan_wan_service_port d ob))"
  "OltA (OltReset f n) \<notin> set (fst (snd (plan_olt_omci_wan d)))"
  "OltA (OltReset f n) \<notin> set (fst (plan_tr069_profile_only d ob))"
  using staged_olt_side [of ob d] staged_wan_port [of "present ob" d ob] staged_omci [of "present ob" d]
  by (auto simp: staged_def plan_tr069_profile_only_def dest!: bspec)

lemma no_reset_acs: "OltA x \<notin> set (fst (snd (plan_acs_side d ob md omci pf fp)))"
  using acs_side_device [of d ob md omci pf fp] acs_only_not_olt
  by (metis empty_iff is_olt.simps(1) list.set(1) prod.collapse)

text \<open>
  The ONT is reset exactly when a write needs it. Unless the change is a bare TR-069 profile
  edit (which never resets), a plan contains a reset of this ONT if and only if some other action of
  the plan requires one, and then exactly once.
\<close>

theorem reset_iff_required:
  assumes "\<not> is_tr069_profile_only_change md (case proposed of None \<Rightarrow> {} | Some f \<Rightarrow> f)"
  shows "count_list (plan_actions (compute_plan d ob md proposed fp))
      (OltA (OltReset (fsp d) (olt_ont_id d))) =
    (if \<exists>a \<in> set (plan_actions (compute_plan d ob md proposed fp)). requires_reset a then 1 else 0)"
proof -
  let ?pf = "case proposed of None \<Rightarrow> {} | Some f \<Rightarrow> f"
  let ?R = "OltA (OltReset (fsp d) (olt_ont_id d))"
  obtain omci op where h: "plan_olt_half d ob md ?pf = (omci, op)" by (rule prod.exhaust)
  obtain i ap where a: "plan_acs_side d ob md omci ?pf fp = (i, ap)" by (rule prod.exhaust)
  have acts: "plan_actions (compute_plan d ob md proposed fp) = fst op @ fst ap"
    using assms by (simp add: compute_plan_def Let_def h a)
  have nr: "\<not> requires_reset x \<and> x \<noteq> ?R" if "x \<in> set (fst ap)" for x
    using that no_reset_acs [of _ d ob md omci ?pf fp] a requires_reset_olt
    by (metis fst_conv is_olt.elims(2) snd_conv)
  have c0: "count_list (fst ap) ?R = 0" using nr by (auto simp: count_list_0_iff)
  obtain base where b: "fst op = base @ reset_if_needed d base \<and> ?R \<notin> set base"
  proof (cases "is_wifi_only_change md ?pf \<or> is_remote_access_only_change md ?pf")
    case True
    then have "fst op = [] @ reset_if_needed d []"
      using olt_half_actions [of d ob md ?pf] h assms by (simp add: reset_if_needed_def)
    then show thesis by (intro that) auto
  next
    case False
    let ?base = "(if is_wan_only_change md ?pf then fst (plan_wan_service_port d ob)
        else fst (plan_olt_side d ob)) @ fst (snd (plan_olt_omci_wan d))"
    have "fst op = ?base @ reset_if_needed d ?base"
      using False olt_half_actions [of d ob md ?pf] h assms by (simp add: Let_def)
    moreover have "?R \<notin> set ?base" using no_reset_base by auto
    ultimately show thesis using that by blast
  qed
  then have cb: "count_list base ?R = 0" by (simp add: count_list_0_iff)
  show ?thesis
    using b c0 cb nr
    by (auto simp: acts count_list_append reset_if_needed_def list_ex_iff)
qed

theorem reset_iff_required_witness:
  "count_list (plan_actions (compute_plan sample_desired
     (sample_observed\<lparr>obs_olt := sample_olt\<lparr>olt_line_profile_id := Some 39\<rparr>\<rparr>) Sync None True))
     (OltA (OltReset ''0/1/2'' 7)) = 1"
proof -
  let ?ob = "sample_observed\<lparr>obs_olt := sample_olt\<lparr>olt_line_profile_id := Some 39\<rparr>\<rparr>"
  have "OltA (OltModifyLineProfile ''0/1/2'' 7 40) \<in>
      set (plan_actions (compute_plan sample_desired ?ob Sync None True))" by code_simp
  then have ex: "\<exists>a \<in> set (plan_actions (compute_plan sample_desired ?ob Sync None True)). requires_reset a"
    by (rule bexI [rotated]) simp
  have n: "\<not> is_tr069_profile_only_change Sync (case None of None \<Rightarrow> {} | Some f \<Rightarrow> f)"
    by (simp add: is_tr069_profile_only_change_def)
  show ?thesis using reset_iff_required [OF n, of sample_desired ?ob True] ex
    by (simp add: sample_desired_def)
qed

subsection \<open>The scope of a narrow change\<close>

definition kinds :: "action list \<Rightarrow> string set" where
  "kinds acts = action_name ` set acts"

lemma kinds_simps [simp]:
  "kinds [] = {}" "kinds (a # acts) = insert (action_name a) (kinds acts)"
  "kinds (as @ bs) = kinds as \<union> kinds bs"
  by (auto simp: kinds_def)

lemma kinds_if [simp]: "kinds (if c then as else bs) = (if c then kinds as else kinds bs)"
  by simp

lemma kinds_wan_port: "kinds (fst (plan_wan_service_port d ob)) \<subseteq> {''OltCreateServicePort''}"
  by (simp add: plan_wan_service_port_def split: option.split)

lemma kinds_omci: "kinds (fst (snd (plan_olt_omci_wan d))) \<subseteq>
    {''OltOmciPppoe'', ''OltOmciInternetConfig'', ''OltOmciWanConfig''}"
  by (simp add: plan_olt_omci_wan_def split: option.split)

lemma kinds_wan_ppp: "kinds (fst (plan_acs_wan_ppp d ob dev pf fp)) \<subseteq> {''AcsAddObject'', ''AcsSetPppoe''}"
  by (simp add: plan_acs_wan_ppp_def Let_def split: option.split)

lemma kinds_wan_ip: "kinds (fst (plan_acs_wan_ip d ob dev pf fp)) \<subseteq> {''AcsSetWanIp''}"
  by (simp add: plan_acs_wan_ip_def split: option.split)

lemma kinds_wifi: "kinds (fst (plan_acs_wifi d ob md dev pf fp)) \<subseteq> {''AcsSetWifiConfig''}"
  by (simp add: plan_acs_wifi_def Let_def)

lemma kinds_remote: "kinds (fst (plan_remote_access d ob dev pf fp)) \<subseteq> {''AcsSetRemoteAccess''}"
  by (simp add: plan_remote_access_def Let_def)

lemma kinds_nat: "kinds (fst (plan_acs_nat d ob dev omci)) \<subseteq> {''AcsSetNatEnabled'', ''AcsDeleteObject''}"
  by (auto simp: plan_acs_nat_def kinds_def delete_wan_ppp_def split: option.split)

lemma kinds_ipv6: "kinds (fst (plan_acs_ipv6 d ob dev pf)) \<subseteq> {''AcsSetIpv6''}"
  by (simp add: plan_acs_ipv6_def Let_def)

lemma reset_action_names:
  "requires_reset a \<Longrightarrow> action_name a \<in> {''OltAuthorize'', ''OltModifyLineProfile'',
     ''OltModifyServiceProfile'', ''OltTr069ServerConfig''}"
proof -
  assume r: "requires_reset a"
  then obtain x where a: "a = OltA x" by (cases a) auto
  from r show ?thesis unfolding a by (cases x) auto
qed

lemma no_reset_kinds:
  assumes "kinds acts \<inter> {''OltAuthorize'', ''OltModifyLineProfile'', ''OltModifyServiceProfile'',
     ''OltTr069ServerConfig''} = {}"
  shows "reset_if_needed d acts = []"
proof (rule ccontr)
  assume "reset_if_needed d acts \<noteq> []"
  then obtain a where "a \<in> set acts" "requires_reset a"
    by (auto simp: reset_if_needed_def list_ex_iff split: if_splits)
  then have "action_name a \<in> kinds acts" by (auto simp: kinds_def)
  with reset_action_names [OF \<open>requires_reset a\<close>] assms show False by auto
qed


lemma kinds_acs_side:
  assumes "is_wifi_only_change md pf \<or> is_remote_access_only_change md pf \<or> is_wan_only_change md pf"
  shows "kinds (fst (snd (plan_acs_side d ob md omci pf fp))) \<subseteq>
    (if is_wifi_only_change md pf then {''AcsSetWifiConfig''}
     else if is_remote_access_only_change md pf then {''AcsSetWifiConfig'', ''AcsSetRemoteAccess''}
     else {''AcsAddObject'', ''AcsSetPppoe'', ''AcsSetWanIp'', ''AcsSetWifiConfig'', ''AcsSetNatEnabled'',
       ''AcsDeleteObject'', ''AcsSetIpv6''})"
  using assms kinds_wan_ppp kinds_wan_ip kinds_wifi kinds_remote kinds_nat kinds_ipv6
  by (simp add: plan_acs_side_def Let_def split: option.split) fast

text \<open>WiFi is left alone by a remote-access or WAN change.\<close>

lemma wifi_skipped:
  "is_remote_access_only_change md pf \<or> is_wan_only_change md pf \<Longrightarrow>
     plan_acs_wifi d ob md dev pf fp = ([], [])"
  by (auto simp: plan_acs_wifi_def no_wifi_changes_def wc_has_values_def)


lemma narrow_scopes_disjoint:
  "is_wifi_only_change md pf \<Longrightarrow> \<not> is_remote_access_only_change md' pf"
  "is_wifi_only_change md pf \<Longrightarrow> \<not> is_wan_only_change md' pf"
  "is_wifi_only_change md pf \<Longrightarrow> \<not> is_tr069_profile_only_change md' pf"
  "is_remote_access_only_change md pf \<Longrightarrow> \<not> is_wan_only_change md' pf"
  "is_remote_access_only_change md pf \<Longrightarrow> \<not> is_tr069_profile_only_change md' pf"
  "is_wan_only_change md pf \<Longrightarrow> \<not> is_tr069_profile_only_change md' pf"
  by (auto simp: is_wifi_only_change_def is_remote_access_only_change_def is_wan_only_change_def
      is_tr069_profile_only_change_def WIFI_ONLY_FIELDS_def REMOTE_ACCESS_ONLY_FIELDS_def
      WAN_ONLY_FIELDS_def TR069_PROFILE_ONLY_FIELDS_def)

lemma compute_plan_actions:
  "plan_actions (compute_plan d ob md proposed fp) =
     (let pf = (case proposed of None \<Rightarrow> {} | Some f \<Rightarrow> f) in
      fst (snd (plan_olt_half d ob md pf)) @
      (if is_tr069_profile_only_change md pf then []
       else fst (snd (plan_acs_side d ob md (fst (plan_olt_half d ob md pf)) pf fp))))"
  by (simp add: compute_plan_def Let_def split: prod.split)

lemma compute_plan_drifts:
  "plan_drifts (compute_plan d ob md proposed fp) =
     (let pf = (case proposed of None \<Rightarrow> {} | Some f \<Rightarrow> f) in
      snd (snd (plan_olt_half d ob md pf)) @
      (if is_tr069_profile_only_change md pf then []
       else snd (snd (plan_acs_side d ob md (fst (plan_olt_half d ob md pf)) pf fp))))"
  by (simp add: compute_plan_def Let_def split: prod.split)

lemma acs_side_wifi_only:
  "is_wifi_only_change md pf \<Longrightarrow> fst (snd (plan_acs_side d ob md omci pf fp)) =
     (case ai_device_id (resolve_acs_device_id d ob) of
        None \<Rightarrow> []
      | Some dev \<Rightarrow> if truthy_str (acs_server_id d) then fst (plan_acs_wifi d ob md dev pf fp) else [])"
  using narrow_scopes_disjoint [of md pf]
  by (simp add: plan_acs_side_def Let_def split: option.split)

lemma acs_side_remote_only:
  "is_remote_access_only_change md pf \<Longrightarrow> fst (snd (plan_acs_side d ob md omci pf fp)) =
     (case ai_device_id (resolve_acs_device_id d ob) of
        None \<Rightarrow> []
      | Some dev \<Rightarrow> if truthy_str (acs_server_id d) then fst (plan_remote_access d ob dev pf fp) else [])"
  using narrow_scopes_disjoint [of md pf]
  by (auto simp: plan_acs_side_def Let_def wifi_skipped split: option.split)

lemma acs_side_wan_only:
  "is_wan_only_change md pf \<Longrightarrow> kinds (fst (snd (plan_acs_side d ob md omci pf fp))) \<subseteq>
     {''AcsAddObject'', ''AcsSetPppoe'', ''AcsSetWanIp'', ''AcsSetNatEnabled'', ''AcsDeleteObject'',
      ''AcsSetIpv6''}"
  using narrow_scopes_disjoint [of md pf] kinds_wan_ppp kinds_wan_ip kinds_nat kinds_ipv6
  by (simp add: plan_acs_side_def Let_def wifi_skipped split: option.split) fast

lemma wan_only_olt:
  assumes "is_wan_only_change md pf"
  shows "kinds (fst (snd (plan_olt_half d ob md pf))) \<subseteq>
    {''OltCreateServicePort'', ''OltOmciPppoe'', ''OltOmciInternetConfig'', ''OltOmciWanConfig''}"
proof -
  let ?base = "fst (plan_wan_service_port d ob) @ fst (snd (plan_olt_omci_wan d))"
  have k: "kinds ?base \<subseteq>
      {''OltCreateServicePort'', ''OltOmciPppoe'', ''OltOmciInternetConfig'', ''OltOmciWanConfig''}"
    using kinds_wan_port [of d ob] kinds_omci [of d] by auto
  then have "reset_if_needed d ?base = []" by (intro no_reset_kinds) auto
  then show ?thesis using k assms narrow_scopes_disjoint [of md pf]
    by (auto simp: olt_half_actions Let_def)
qed

text \<open>
  C39: a change confined to one feature writes only that feature. A WiFi edit yields at most one
  WiFi write and nothing else, a remote-access edit at most one remote-access write, a TR-069
  profile edit only the profile binding; a WAN edit never deletes a service port, never rebinds or
  resets the ONT and leaves WiFi, LAN and management alone.
\<close>

theorem narrow_change_scope:
  "kinds (plan_actions (compute_plan d ob md (Some pf) fp)) \<subseteq>
     (if is_wifi_only_change md pf then {''AcsSetWifiConfig''}
      else if is_remote_access_only_change md pf then {''AcsSetRemoteAccess''}
      else if is_tr069_profile_only_change md pf then {''OltTr069ServerConfig''}
      else if is_wan_only_change md pf then
        {''OltCreateServicePort'', ''OltOmciPppoe'', ''OltOmciInternetConfig'', ''OltOmciWanConfig'',
         ''AcsAddObject'', ''AcsSetPppoe'', ''AcsSetWanIp'', ''AcsSetNatEnabled'', ''AcsDeleteObject'',
         ''AcsSetIpv6''}
      else UNIV) \<and>
   (if is_wifi_only_change md pf \<or> is_remote_access_only_change md pf \<or> is_tr069_profile_only_change md pf
    then length (plan_actions (compute_plan d ob md (Some pf) fp)) \<le> 1 else True)"
proof -
  consider (wifi) "is_wifi_only_change md pf" | (remote) "is_remote_access_only_change md pf"
    | (profile) "is_tr069_profile_only_change md pf" | (wan) "is_wan_only_change md pf"
    | (other) "\<not> is_wifi_only_change md pf" "\<not> is_remote_access_only_change md pf"
        "\<not> is_tr069_profile_only_change md pf" "\<not> is_wan_only_change md pf"
    by blast
  then show ?thesis
  proof cases
    case wifi
    have "length (fst (plan_acs_wifi d ob md dev pf fp)) \<le> 1" for dev
      by (simp add: plan_acs_wifi_def Let_def)
    with wifi kinds_wifi narrow_scopes_disjoint [of md pf] show ?thesis
      by (simp add: compute_plan_actions olt_half_actions acs_side_wifi_only split: option.split)
  next
    case remote
    have "length (fst (plan_remote_access d ob dev pf fp)) \<le> 1" for dev
      by (simp add: plan_remote_access_def Let_def)
    with remote kinds_remote narrow_scopes_disjoint [of md pf] show ?thesis
      by (auto simp: compute_plan_actions olt_half_actions acs_side_remote_only split: option.split)
  next
    case profile
    with narrow_scopes_disjoint [of md pf] show ?thesis
      by (auto simp: compute_plan_actions olt_half_actions plan_tr069_profile_only_def)
  next
    case wan
    with narrow_scopes_disjoint [of md pf] wan_only_olt [OF wan, of d ob]
      acs_side_wan_only [OF wan, of d ob "fst (plan_olt_half d ob md pf)" fp]
    show ?thesis by (auto simp: compute_plan_actions)
  qed simp
qed

subsection \<open>The WiFi password\<close>

lemma written_ssid:
  "wc_ssid (plan_wifi_changes d ob pf fp) = Some s \<Longrightarrow> s = wifi_ssid d \<and> s \<noteq> []"
proof -
  let ?w = "filter (wifi_candidate_written ob pf fp) (wifi_candidates d ob)"
  assume "wc_ssid (plan_wifi_changes d ob pf fp) = Some s"
  then have "map_of (map (\<lambda>(field, key, des, obs). (key, des)) ?w) ''ssid'' = Some (SStr s)"
    by (simp add: plan_wifi_changes_def Let_def split: option.splits scalar.splits)
  then obtain field ov where m: "(field, ''ssid'', SStr s, ov) \<in> set (wifi_candidates d ob)"
    and w: "wifi_candidate_written ob pf fp (field, ''ssid'', SStr s, ov)"
    by (force dest!: map_of_SomeD)
  from m have f: "field = ''wifi_ssid'' \<and> s = wifi_ssid d"
    by (simp add: wifi_candidates_def Let_def)
  with w show ?thesis by (simp add: wifi_candidate_written_def split: if_split_asm)
qed

lemma psk_push_iff:
  "should_push_wifi_password d md ob pf fp \<longleftrightarrow> wifi_password_ref d \<noteq> [] \<and>
     (md = Bootstrap \<or> (fp \<and> ''wifi_password_ref'' \<in> pf) \<or> (md = Sync \<and> \<not> olt_present (obs_olt ob)))"
  by (cases md) (auto simp: should_push_wifi_password_def)

lemma wifi_action_source:
  assumes "AcsA (AcsSetWifiConfig dev paths en ssid psk ch sec) \<in>
      set (fst (snd (plan_acs_side d ob md omci pf fp)))"
  shows "AcsA (AcsSetWifiConfig dev paths en ssid psk ch sec) \<in> set (fst (plan_acs_wifi d ob md dev pf fp))"
proof -
  let ?a = "AcsA (AcsSetWifiConfig dev paths en ssid psk ch sec)"
  have n: "?a \<notin> set acts" if "''AcsSetWifiConfig'' \<notin> kinds acts" for acts
    using that by (force simp: kinds_def)
  have no: "?a \<notin> set (fst (plan_acs_wan_ppp d ob e pf fp))" "?a \<notin> set (fst (plan_acs_wan_ip d ob e pf fp))"
    "?a \<notin> set (fst (plan_remote_access d ob e pf fp))" "?a \<notin> set (fst (plan_acs_nat d ob e omci))"
    "?a \<notin> set (fst (plan_acs_ipv6 d ob e pf))" "?a \<notin> set (fst (plan_acs_dhcp d ob e pf fp))"
    "?a \<notin> set (fst (plan_acs_management_server d ob e pf fp))" for e
    using kinds_wan_ppp [of d ob e pf fp] kinds_wan_ip [of d ob e pf fp] kinds_remote [of d ob e pf fp]
      kinds_nat [of d ob e omci] kinds_ipv6 [of d ob e pf]
    by (auto intro!: n simp: plan_acs_dhcp_def plan_acs_management_server_def split: option.split)
  from assms obtain e where e: "?a \<in> set (fst (plan_acs_wifi d ob md e pf fp))"
    by (auto simp: plan_acs_side_def Let_def no split: if_split_asm option.splits)
  moreover from e acs_only_wifi [of e d ob md pf fp] have "e = dev" by (auto simp: acs_only_def)
  ultimately show ?thesis by simp
qed

text \<open>
  A WiFi write never opens or renames the customer's network by accident. A planned WiFi
  configuration never carries an empty SSID; it carries a password only if the desired one is set,
  carries that one, and only on bootstrap, on a forced operator edit of the password, or on a sync
  of an ONT that is being authorised. A sweep on its own never pushes a password.
\<close>

theorem wifi_write_safe:
  assumes "AcsA (AcsSetWifiConfig dev paths en ssid psk ch sec) \<in>
      set (plan_actions (compute_plan d ob md proposed fp))"
  shows "ssid \<noteq> Some [] \<and>
    (\<forall>p. psk = Some p \<longrightarrow> p = wifi_password_ref d \<and> p \<noteq> [] \<and>
       (md = Bootstrap \<or> (fp \<and> (\<exists>f. proposed = Some f \<and> ''wifi_password_ref'' \<in> f)) \<or>
        (md = Sync \<and> \<not> olt_present (obs_olt ob))))"
proof -
  let ?pf = "case proposed of None \<Rightarrow> {} | Some f \<Rightarrow> f"
  from assms have "AcsA (AcsSetWifiConfig dev paths en ssid psk ch sec) \<in>
      set (fst (snd (plan_acs_side d ob md (fst (plan_olt_half d ob md ?pf)) ?pf fp)))"
    using olt_only_half [of d ob md ?pf]
    by (auto simp: compute_plan_actions Let_def olt_only_def split: if_split_asm)
  from wifi_action_source [OF this] show ?thesis
    by (auto simp: plan_acs_wifi_def Let_def psk_push_iff no_wifi_changes_def dest: written_ssid
        split: if_split_asm option.splits)
qed

theorem wifi_write_safe_witness:
  "wifi_password_ref sample_desired = ''bao://psk''"
proof -
  have "AcsA (AcsSetWifiConfig ''00259E-HG8546M-HWTC0001'' (standard_wifi_paths None) None
      (Some ''home'') (Some ''bao://psk'') None None) \<in>
      set (plan_actions (compute_plan sample_desired sample_observed Bootstrap
        (Some {''wifi_password_ref'', ''wifi_ssid''}) True))"
    by code_simp
  from wifi_write_safe [OF this] show ?thesis by simp
qed

end
