(* ===== verification/Plan_Convergence.thy ===== *)
theory Plan_Convergence
  imports Plan_Order
begin

section \<open>What a plan achieves\<close>

text \<open>
  The OLT is a parameter: what it does with an action is a function of which only the documented effect
  of the action class (\<open>app/services/network/reconcile/actions.py\<close>) is assumed, and only on what the
  planner reads. Over every such OLT the planned actions leave the planner's first three steps nothing
  to do. Then the relation of the drifts a plan reports to the actions it carries.
\<close>

subsection \<open>The documented effect of an OLT action\<close>




subsection \<open>Service ports\<close>













subsection \<open>Frames: what a group of actions leaves alone\<close>






text \<open>An observed value that was not read, or is the desired one.\<close>

definition agrees :: "'a option \<Rightarrow> 'a \<Rightarrow> bool" where
  "agrees ov v \<longleftrightarrow> ov = None \<or> ov = Some v"


lemma agrees_simps [simp]: "agrees None v" "agrees (Some u) v \<longleftrightarrow> u = v"
  by (auto simp: agrees_def)

subsection \<open>The OLT plan converges\<close>




















subsection \<open>Drifts and actions\<close>

text \<open>A part whose drifts are all accounted for: no drift means only these kinds of action remain.\<close>

definition quiet :: "string set \<Rightarrow> part \<Rightarrow> bool" where
  "quiet K p \<longleftrightarrow> (snd p = [] \<longrightarrow> kinds (fst p) \<subseteq> K)"

lemma quiet_parts: "\<forall>p \<in> set ps. quiet K p \<Longrightarrow> quiet K (parts ps)"
  by (induction ps) (auto simp: quiet_def)

lemma quiet_only_if [simp]: "quiet K p \<Longrightarrow> quiet K (only_if b p)"
  by (auto simp: quiet_def)

lemma quiet_drift [simp]: "ds \<noteq> [] \<Longrightarrow> quiet K (acts, ds)" "quiet K ([], ds)"
  by (simp_all add: quiet_def)

lemma quiet_authorize: "quiet K (plan_authorize d ob)"
  by (simp add: plan_authorize_def Let_def quiet_parts)

lemma quiet_service_ports: "quiet {''OltCreateServicePort''} (plan_service_ports d ob)"
proof -
  have "quiet {''OltCreateServicePort''} (plan_mgmt_service_port d ob)"
    by (simp add: quiet_def plan_mgmt_service_port_def split: option.split)
  moreover have "quiet {''OltCreateServicePort''} (plan_wan_service_port d ob)"
    using kinds_wan_port by (auto simp: quiet_def)
  moreover have "quiet {''OltCreateServicePort''} (plan_stale_port d sp)" for sp
    by (simp add: plan_stale_port_def split: option.split)
  ultimately show ?thesis unfolding plan_service_ports_def by (intro quiet_parts) auto
qed

lemma quiet_iphost: "quiet K (plan_iphost d ob)"
  by (simp add: plan_iphost_def split: option.split)

lemma quiet_omci:
  "quiet {''OltOmciPppoe'', ''OltOmciInternetConfig'', ''OltOmciWanConfig''} (snd (plan_olt_omci_wan d))"
  using kinds_omci by (auto simp: quiet_def)

lemma quiet_wan_ppp: "quiet K (plan_acs_wan_ppp d ob dev pf fp)"
  by (simp add: plan_acs_wan_ppp_def Let_def quiet_parts split: option.split)

lemma quiet_wan_ip: "quiet K (plan_acs_wan_ip d ob dev pf fp)"
  by (simp add: plan_acs_wan_ip_def split: option.split)

lemma quiet_wifi: "quiet {''AcsSetWifiConfig''} (plan_acs_wifi d ob md dev pf fp)"
  using kinds_wifi by (auto simp: quiet_def)

lemma quiet_remote: "quiet K (plan_remote_access d ob dev pf fp)"
  by (simp add: plan_remote_access_def Let_def quiet_def)

lemma quiet_nat: "quiet {''AcsDeleteObject''} (plan_acs_nat d ob dev omci)"
proof -
  have "quiet {''AcsDeleteObject''} (map (delete_wan_ppp dev) xs, [])" for xs
    by (auto simp: quiet_def kinds_def delete_wan_ppp_def)
  then show ?thesis by (simp add: plan_acs_nat_def quiet_parts split: option.split)
qed

lemma quiet_ipv6: "quiet K (plan_acs_ipv6 d ob dev pf)"
  by (simp add: plan_acs_ipv6_def Let_def)

lemma quiet_dhcp: "quiet K (plan_acs_dhcp d ob dev pf fp)"
  by (simp add: plan_acs_dhcp_def)

lemma quiet_management: "quiet K (plan_acs_management_server d ob dev pf fp)"
  by (simp add: plan_acs_management_server_def split: option.split)

lemma quiet_mono: "quiet K p \<Longrightarrow> K \<subseteq> K' \<Longrightarrow> quiet K' p"
  by (auto simp: quiet_def)

definition unreported_kinds :: "string set" where
  "unreported_kinds = {''OltCreateServicePort'', ''OltOmciPppoe'', ''OltOmciInternetConfig'',
     ''OltOmciWanConfig'', ''AcsSetWifiConfig'', ''AcsDeleteObject''}"

lemma quiet_unreported:
  "quiet unreported_kinds (plan_service_ports d ob)"
  "quiet unreported_kinds (snd (plan_olt_omci_wan d))"
  "quiet unreported_kinds (plan_acs_wifi d ob md dev pf fp)"
  "quiet unreported_kinds (plan_acs_nat d ob dev omci)"
  by (rule quiet_mono [OF quiet_service_ports] quiet_mono [OF quiet_omci] quiet_mono [OF quiet_wifi]
      quiet_mono [OF quiet_nat]; simp add: unreported_kinds_def)+

lemma full_scope: "\<not> is_tr069_profile_only_change md {}" "\<not> is_wifi_only_change md {}"
  "\<not> is_remote_access_only_change md {}" "\<not> is_wan_only_change md {}"
  by (simp_all add: is_tr069_profile_only_change_def is_wifi_only_change_def
      is_remote_access_only_change_def is_wan_only_change_def)

lemma quiet_acs_side: "quiet unreported_kinds (snd (plan_acs_side d ob md omci pf fp))"
  by (auto simp: plan_acs_side_def Let_def quiet_wan_ppp quiet_wan_ip quiet_remote quiet_ipv6
      quiet_dhcp quiet_management quiet_unreported intro!: quiet_parts split: option.split)

lemma quiet_olt_side: "snd (plan_olt_side d ob) = [] \<Longrightarrow> kinds (fst (plan_olt_side d ob)) \<subseteq> unreported_kinds"
proof -
  assume n: "snd (plan_olt_side d ob) = []"
  then have "olt_present (obs_olt ob)"
    by (simp add: plan_olt_side_def plan_authorize_def Let_def split: if_split_asm)
  moreover from n have "snd (plan_authorize d ob) = []" "snd (plan_service_ports d ob) = []"
    "snd (plan_iphost d ob) = []"
    by (simp_all add: plan_olt_side_def)
  ultimately show ?thesis
    using quiet_authorize [of unreported_kinds d ob] quiet_unreported(1) [of d ob]
      quiet_iphost [of unreported_kinds d ob]
    by (auto simp: plan_olt_side_def quiet_def)
qed

lemma quiet_wan_port: "quiet unreported_kinds (plan_wan_service_port d ob)"
  using kinds_wan_port by (auto simp: quiet_def unreported_kinds_def)

lemma quiet_profile_only: "quiet K (plan_tr069_profile_only d ob)"
  by (simp add: plan_tr069_profile_only_def)

text \<open>Without a drift no part that needs a reset was planned, so neither was the reset.\<close>

lemma quiet_olt_half: "quiet unreported_kinds (snd (plan_olt_half d ob md pf))"
proof -
  let ?first = "if is_wan_only_change md pf then plan_wan_service_port d ob else plan_olt_side d ob"
  let ?base = "fst ?first @ fst (snd (plan_olt_omci_wan d))"
  have base: "kinds ?base \<subseteq> unreported_kinds" if "snd ?first = []" "snd (snd (plan_olt_omci_wan d)) = []"
    using quiet_olt_side [of d ob] quiet_wan_port [of d ob] quiet_unreported(2) [of d] that
    by (auto simp: quiet_def split: if_splits)
  then have "reset_if_needed d ?base = []" if "snd ?first = []" "snd (snd (plan_olt_omci_wan d)) = []"
    using that by (intro no_reset_kinds) (auto simp: unreported_kinds_def)
  with base show ?thesis
    unfolding quiet_def olt_half_actions olt_half_drifts Let_def
    using quiet_profile_only [of unreported_kinds d ob] by (simp add: quiet_def if_distrib [of fst] if_distrib [of snd] split: if_splits)
qed

text \<open>
  What a pass without drift can still write. If a plan of any scope reports no drift, its actions are
  only of the six kinds that carry none: creating a service port, the OMCI sequence, a WiFi write
  (the password, or values without drift) and the deletion of a duplicate WAN connection. In
  particular it neither authorises, rebinds nor resets the ONT.
\<close>

theorem drift_free_remainder:
  assumes "plan_drifts (compute_plan d ob md proposed fp) = []"
  shows "kinds (plan_actions (compute_plan d ob md proposed fp)) \<subseteq> unreported_kinds"
  using assms quiet_olt_half [of d ob md] quiet_acs_side [of d ob md]
  by (auto simp: compute_plan_drifts compute_plan_actions Let_def quiet_def split: if_splits)

theorem drift_free_remainder_witness:
  "kinds (plan_actions (compute_plan sample_desired
     (sample_observed\<lparr>obs_olt := sample_olt\<lparr>olt_service_ports := [sample_port 500 201]\<rparr>\<rparr>) Sync None True))
   \<subseteq> unreported_kinds"
  by (rule drift_free_remainder) code_simp

text \<open>
  The OMCI sequence is planned on every full pass. When the desired state provisions PPPoE by
  OMCI, the three commands are in the plan whatever was observed, so such a plan is never empty.
\<close>

theorem omci_plan_never_empty:
  assumes "wan_mode d = Pppoe" and "wan_pppoe_provisioning_method d \<noteq> Tr069"
    and "wan_config_profile_id d = Some prof" and "0 < prof"
    and "wan_internet_config_ip_index d = Some i" and "wan_vlan d = Some v" and "v \<noteq> 0"
  shows "OltA (OltOmciWanConfig (fsp d) (olt_ont_id d) i prof) \<in>
      set (plan_actions (compute_plan d ob md None fp)) \<and>
    \<not> plan_is_empty (compute_plan d ob md None fp)"
proof -
  have "OltA (OltOmciWanConfig (fsp d) (olt_ont_id d) i prof) \<in> set (fst (snd (plan_olt_omci_wan d)))"
    using assms by (simp add: plan_olt_omci_wan_def)
  then have "OltA (OltOmciWanConfig (fsp d) (olt_ont_id d) i prof) \<in>
      set (plan_actions (compute_plan d ob md None fp))"
    by (simp add: compute_plan_actions olt_half_actions full_scope Let_def)
  then show ?thesis by (auto simp: plan_is_empty_def)
qed

theorem omci_plan_never_empty_witness:
  "\<not> plan_is_empty (compute_plan (sample_desired\<lparr>wan_pppoe_provisioning_method := Omci,
     wan_config_profile_id := Some 3, wan_internet_config_ip_index := Some 0\<rparr>) sample_observed Sync None False)"
  using omci_plan_never_empty [of "sample_desired\<lparr>wan_pppoe_provisioning_method := Omci,
     wan_config_profile_id := Some 3, wan_internet_config_ip_index := Some 0\<rparr>" 3 0 203]
  by (simp add: sample_desired_def)

end
