(* ===== verification/Ppp_Authorization.thy ===== *)
theory Ppp_Authorization
  imports Actions "HOL-Library.Char_ord" "HOL-Library.List_Lexorder" "HOL-Library.Multiset"
begin

section \<open>Authorisation of PPP delivery\<close>

text \<open>
  Models \<open>app/services/network/ppp_delivery_authorization.py\<close> and what it asks of
  \<open>ont_wan_service_intent.active_primary_internet_intent\<close> and
  \<open>cpe_dialer_credential_reconcile.authoritative_dialer_fingerprint\<close>. The database is the record of
  the three tables' rows the queries read. Identifiers are the texts of their UUIDs. The
  cryptographic primitives are parameters: decryption of a stored secret (\<open>None\<close> when it raises
  \<open>ValueError\<close>), the keyed digest of a credential, and SHA-256 in hexadecimal.
\<close>

subsection \<open>Refusals, rulings and scopes\<close>

datatype ppp_refusal =
  No_active_service_intent | Bridged_service_intent | No_active_assignment | Ambiguous_assignment
| Unresolvable_ont | Scope_mismatch | No_authoritative_credential
| Ambiguous_authoritative_credential | Unreadable_authoritative_credential
| Credential_key_unavailable | Missing_projection_fingerprint | Credential_fingerprint_mismatch

datatype ppp_purpose = Not_ppp | Ppp_bearing | Indeterminate

record ppp_scope =
  sc_ont_id :: string
  sc_subscription_id :: string
  sc_instance_id :: string
  sc_instance_revision :: int
  sc_plan_fingerprint :: string
  sc_credential_fingerprint :: string

record ppp_ruling =
  ru_authorized :: bool
  ru_refusal :: "ppp_refusal option"
  ru_ont_id :: string
  ru_subscription_id :: string
  ru_instance_id :: string
  ru_instance_revision :: int
  ru_plan_fingerprint :: string
  ru_credential_fingerprint :: string

definition authorizes :: "ppp_ruling \<Rightarrow> ppp_scope option \<Rightarrow> bool" where
  "authorizes r sc =
     (case sc of
        None \<Rightarrow> False
      | Some s \<Rightarrow>
          if \<not> ru_authorized r then False
          else ru_ont_id r = sc_ont_id s \<and> ru_subscription_id r = sc_subscription_id s \<and>
            ru_instance_id r = sc_instance_id s \<and> ru_instance_revision r = sc_instance_revision s \<and>
            ru_plan_fingerprint r = sc_plan_fingerprint s \<and>
            ru_credential_fingerprint r = sc_credential_fingerprint s)"

definition ppp_refused :: "ppp_refusal \<Rightarrow> string \<Rightarrow> string \<Rightarrow> ppp_ruling" where
  "ppp_refused r ont sub = \<lparr>ru_authorized = False, ru_refusal = Some r, ru_ont_id = ont,
     ru_subscription_id = sub, ru_instance_id = [], ru_instance_revision = 0,
     ru_plan_fingerprint = [], ru_credential_fingerprint = []\<rparr>"

definition PPP_ATTRIBUTABLE_DRIFT_FIELDS :: "string set" where
  "PPP_ATTRIBUTABLE_DRIFT_FIELDS = {''wan_pppoe_username'', ''acs_wan_ppp_instance'', ''nat_enabled''}"

definition is_ppp_attributable_drift :: "drift \<Rightarrow> bool" where
  "is_ppp_attributable_drift dr \<longleftrightarrow> drift_field dr \<in> PPP_ATTRIBUTABLE_DRIFT_FIELDS"

subsection \<open>Classification\<close>

definition enum_value :: "string option \<Rightarrow> string" where
  "enum_value v = py_lower (py_strip (str_or v []))"

definition ppp_object_path :: "string \<Rightarrow> bool" where
  "ppp_object_path path = contains_str ''wanpppconnection'' (py_lower (py_strip path))"

definition classify_slot :: "string \<Rightarrow> ppp_purpose" where
  "classify_slot s =
     (let slot = py_lower (py_strip s) in
      if slot = ''mgmt'' then Not_ppp else if slot = ''wan'' then Ppp_bearing else Indeterminate)"

fun classify_action :: "action \<Rightarrow> ppp_purpose" where
  "classify_action (AcsA (AcsSetPppoe _ _ _ _ _ _)) = Ppp_bearing"
| "classify_action (OltA (OltOmciPppoe _ _ _ _ _ _)) = Ppp_bearing"
| "classify_action (OltA (OltOmciInternetConfig _ _ _)) = Ppp_bearing"
| "classify_action (OltA (OltOmciWanConfig _ _ _ _)) = Ppp_bearing"
| "classify_action (AcsA (AcsSetNatEnabled _ _ _ _)) = Ppp_bearing"
| "classify_action (AcsA (AcsAddObject _ path _)) =
     (if ppp_object_path path then Ppp_bearing else Not_ppp)"
| "classify_action (AcsA (AcsDeleteObject _ path)) =
     (if ppp_object_path path then Ppp_bearing else Not_ppp)"
| "classify_action (OltA (OltCreateServicePort _ _ _ _ _ slot)) = classify_slot slot"
| "classify_action (OltA (OltDeleteServicePort _ slot)) = classify_slot slot"
| "classify_action _ = Not_ppp"

definition is_ppp_bundle_action :: "action \<Rightarrow> bool" where
  "is_ppp_bundle_action a \<longleftrightarrow> classify_action a \<noteq> Not_ppp"

definition partition_actions ::
  "action list \<Rightarrow> ppp_ruling option \<Rightarrow> ppp_scope option \<Rightarrow> action list \<times> action list" where
  "partition_actions acts ruling sc =
     (let allowed = (case ruling of None \<Rightarrow> False | Some r \<Rightarrow> authorizes r sc) in
      if allowed then (acts, [])
      else (filter (\<lambda>a. \<not> is_ppp_bundle_action a) acts, filter is_ppp_bundle_action acts))"

subsection \<open>The plan fingerprint\<close>

text \<open>\<open>json.dumps\<close> of a text (ASCII only) and of a dictionary of texts.\<close>

definition json_char :: "char \<Rightarrow> string" where
  "json_char c = (let n = (of_char c :: nat) in
     if n = 34 \<or> n = 92 then [CHR 0x5C, c]
     else if n = 10 then [CHR 0x5C, CHR ''n'']
     else if n = 13 then [CHR 0x5C, CHR ''r'']
     else if n = 9 then [CHR 0x5C, CHR ''t'']
     else if n = 12 then [CHR 0x5C, CHR ''f'']
     else if n = 8 then [CHR 0x5C, CHR ''b'']
     else if n < 32 \<or> 126 < n
       then [CHR 0x5C, CHR ''u'', CHR ''0'', CHR ''0'', hex_digit (n div 16), hex_digit (n mod 16)]
     else [c])"

definition json_string :: "string \<Rightarrow> string" where
  "json_string s = CHR 0x22 # concat (map json_char s) @ [CHR 0x22]"

definition json_dict :: "(string \<times> string) list \<Rightarrow> string" where
  "json_dict kvs = ''{'' @ join_with '','' (map (\<lambda>(k, v). json_string k @ '':'' @ json_string v)
     (sort_key fst kvs)) @ ''}''"

fun show_opt_int :: "int option \<Rightarrow> string" where
  "show_opt_int None = ''None''"
| "show_opt_int (Some i) = show_int i"

definition show_bool :: "bool \<Rightarrow> string" where
  "show_bool b = (if b then ''True'' else ''False'')"

text \<open>
  The fingerprint fields a PPP action has, as texts. Only the classes \<open>classify_action\<close> can call PPP
  work reach this; password references are not among the fields.
\<close>

fun fingerprint_fields :: "action \<Rightarrow> (string \<times> string) list" where
  "fingerprint_fields (AcsA (AcsSetPppoe dev w i u pw v)) =
     [(''device_id'', dev), (''username'', u), (''vlan'', show_int v), (''wcd_index'', show_int w),
      (''instance_index'', show_int i)]"
| "fingerprint_fields (OltA (OltOmciPppoe f n ip v u pw)) =
     [(''username'', u), (''vlan'', show_int v), (''ip_index'', show_int ip), (''fsp'', f),
      (''ont_id'', show_int n)]"
| "fingerprint_fields (OltA (OltOmciInternetConfig f n ip)) =
     [(''ip_index'', show_int ip), (''fsp'', f), (''ont_id'', show_int n)]"
| "fingerprint_fields (OltA (OltOmciWanConfig f n ip p)) =
     [(''ip_index'', show_int ip), (''profile_id'', show_int p), (''fsp'', f), (''ont_id'', show_int n)]"
| "fingerprint_fields (AcsA (AcsSetNatEnabled dev w i en)) =
     [(''device_id'', dev), (''wcd_index'', show_int w), (''instance_index'', show_int i),
      (''enabled'', show_bool en)]"
| "fingerprint_fields (AcsA (AcsAddObject dev path w)) =
     [(''device_id'', dev), (''object_path'', path), (''wcd_index'', show_opt_int w)]"
| "fingerprint_fields (AcsA (AcsDeleteObject dev path)) =
     [(''device_id'', dev), (''object_path'', path)]"
| "fingerprint_fields (OltA (OltCreateServicePort f n idx v gem slot)) =
     [(''vlan'', show_int v), (''fsp'', f), (''ont_id'', show_int n),
      (''service_port_index'', show_int idx), (''gem_index'', show_int gem), (''slot'', slot)]"
| "fingerprint_fields (OltA (OltDeleteServicePort idx slot)) =
     [(''service_port_index'', show_int idx), (''slot'', slot)]"
| "fingerprint_fields _ = []"

definition fingerprint_part :: "action \<Rightarrow> string" where
  "fingerprint_part a = json_dict (fingerprint_fields a @ [(''__action__'', action_name a)])"

definition fingerprint_text :: "action list \<Rightarrow> string" where
  "fingerprint_text acts =
     join_with [CHR 0x0A] (sort (map fingerprint_part (filter is_ppp_bundle_action acts)))"

definition plan_ppp_fingerprint :: "(string \<Rightarrow> string) \<Rightarrow> action list \<Rightarrow> string" where
  "plan_ppp_fingerprint sha256_hex acts =
     (if filter is_ppp_bundle_action acts = [] then ''no-ppp-content''
      else ''ppp-plan:'' @ take 32 (sha256_hex (fingerprint_text acts)))"

subsection \<open>The rows the gate reads\<close>

record assignment_row =
  as_ont :: string
  as_subscription :: "string option"
  as_active :: bool

record intent_row =
  in_id :: string
  in_ont :: string
  in_subscription :: string
  in_primary :: bool
  in_lifecycle_active :: bool
  in_service_type :: "string option"
  in_connection_type :: "string option"
  in_revision :: "int option"

record credential_row =
  cd_subscription :: string
  cd_username :: "string option"
  cd_secret_hash :: "string option"
  cd_active :: bool

record ppp_db =
  db_assignments :: "assignment_row list"
  db_intents :: "intent_row list"
  db_credentials :: "credential_row list"

text \<open>The ONT row: its id and the fingerprint recorded on its staged projection.\<close>

record ppp_ont =
  po_id :: "string option"
  po_dialer_fingerprint :: "string option"

record ppp_crypto =
  cy_key :: "string option"
  cy_decrypt :: "string \<Rightarrow> string option"
  cy_digest :: "string \<Rightarrow> string \<Rightarrow> string \<Rightarrow> string"
  cy_sha256_hex :: "string \<Rightarrow> string"

definition resolve_exact_assignment_subscription ::
  "ppp_db \<Rightarrow> string \<Rightarrow> ppp_refusal + string" where
  "resolve_exact_assignment_subscription db ont =
     (let rows = List.map_filter as_subscription
            (filter (\<lambda>a. as_ont a = ont \<and> as_active a) (db_assignments db));
          distinct_rows = remdups rows
      in if distinct_rows = [] then Inl No_active_assignment
         else if length distinct_rows > 1 then Inl Ambiguous_assignment
         else Inr (hd rows))"

definition active_primary_internet_intent :: "ppp_db \<Rightarrow> string \<Rightarrow> string \<Rightarrow> intent_row option" where
  "active_primary_internet_intent db ont sub =
     (let rows = filter (\<lambda>r. enum_value (in_service_type r) = ''internet'')
            (filter (\<lambda>r. in_ont r = ont \<and> in_subscription r = sub \<and> in_primary r \<and> in_lifecycle_active r)
              (db_intents db))
      in if length rows = 1 then Some (hd rows) else None)"

subsection \<open>Credential authority\<close>

datatype dialer_refusal = Dialer_missing | Dialer_ambiguous | Dialer_unreadable | Dialer_key_unavailable

definition safe_decrypt :: "ppp_crypto \<Rightarrow> string option \<Rightarrow> string option" where
  "safe_decrypt cy v = (case v of None \<Rightarrow> None | Some s \<Rightarrow> if s = [] then None else cy_decrypt cy s)"

text \<open>\<open>dialer_fingerprint\<close>: the left result is the raised \<open>DialerFingerprintUnavailable\<close>.\<close>

definition dialer_fingerprint ::
  "ppp_crypto \<Rightarrow> string option \<Rightarrow> string option \<Rightarrow> unit + string option" where
  "dialer_fingerprint cy username secret =
     (if \<not> truthy_str username \<or> \<not> truthy_str secret then Inr None
      else case cy_key cy of
          None \<Rightarrow> Inl ()
        | Some k \<Rightarrow> Inr (Some (cy_digest cy k (str_or username []) (str_or secret []))))"

text \<open>The one active credential of a subscription: none, exactly one, or ambiguous.\<close>

definition authoritative_credential :: "ppp_db \<Rightarrow> string \<Rightarrow> dialer_refusal + credential_row" where
  "authoritative_credential db sub =
     (case filter cd_active (filter (\<lambda>c. cd_subscription c = sub) (db_credentials db)) of
        [] \<Rightarrow> Inl Dialer_missing
      | [c] \<Rightarrow> Inr c
      | _ \<Rightarrow> Inl Dialer_ambiguous)"

definition authoritative_dialer_fingerprint ::
  "ppp_crypto \<Rightarrow> ppp_db \<Rightarrow> string \<Rightarrow> dialer_refusal + string" where
  "authoritative_dialer_fingerprint cy db sub =
     (case authoritative_credential db sub of
        Inl r \<Rightarrow> Inl r
      | Inr c \<Rightarrow>
          (let u = py_strip (str_or (cd_username c) []);
               username = (if u = [] then None else Some u)
           in case safe_decrypt cy (cd_secret_hash c) of
                None \<Rightarrow> Inl Dialer_unreadable
              | Some secret \<Rightarrow> (case dialer_fingerprint cy username (Some secret) of
                  Inl _ \<Rightarrow> Inl Dialer_key_unavailable
                | Inr None \<Rightarrow> Inl Dialer_unreadable
                | Inr (Some fp) \<Rightarrow> Inr fp)))"

definition projected_dialer_fingerprint :: "ppp_ont \<Rightarrow> string option" where
  "projected_dialer_fingerprint ont =
     (let t = py_strip (str_or (po_dialer_fingerprint ont) []) in if t = [] then None else Some t)"

fun credential_refusal :: "dialer_refusal \<Rightarrow> ppp_refusal" where
  "credential_refusal Dialer_missing = No_authoritative_credential"
| "credential_refusal Dialer_ambiguous = Ambiguous_authoritative_credential"
| "credential_refusal Dialer_unreadable = Unreadable_authoritative_credential"
| "credential_refusal Dialer_key_unavailable = Credential_key_unavailable"

text \<open>
  \<open>_resolve_credential_authority\<close>: the right result is a fingerprint; a check is \<open>ok\<close> only with a
  non-empty one, which the callers test.
\<close>

definition resolve_credential_authority ::
  "ppp_crypto \<Rightarrow> ppp_db \<Rightarrow> ppp_ont \<Rightarrow> string \<Rightarrow> ppp_refusal + string" where
  "resolve_credential_authority cy db ont sub =
     (case authoritative_dialer_fingerprint cy db sub of
        Inl r \<Rightarrow> Inl (credential_refusal r)
      | Inr fp \<Rightarrow> (case projected_dialer_fingerprint ont of
          None \<Rightarrow> Inl Missing_projection_fingerprint
        | Some p \<Rightarrow> if p \<noteq> fp then Inl Credential_fingerprint_mismatch else Inr fp))"

subsection \<open>Ruling and scope\<close>

definition derive_delivery_scope ::
  "ppp_crypto \<Rightarrow> ppp_db \<Rightarrow> ppp_ont \<Rightarrow> action list \<Rightarrow> ppp_scope option" where
  "derive_delivery_scope cy db ont acts =
     (case po_id ont of
        None \<Rightarrow> None
      | Some oid \<Rightarrow> (case resolve_exact_assignment_subscription db oid of
          Inl _ \<Rightarrow> None
        | Inr sub \<Rightarrow> (case active_primary_internet_intent db oid sub of
            None \<Rightarrow> None
          | Some inst \<Rightarrow> (case resolve_credential_authority cy db ont sub of
              Inl _ \<Rightarrow> None
            | Inr fp \<Rightarrow>
                if fp = [] then None
                else Some \<lparr>sc_ont_id = oid, sc_subscription_id = sub, sc_instance_id = in_id inst,
                  sc_instance_revision = int_or (in_revision inst) 0,
                  sc_plan_fingerprint = plan_ppp_fingerprint (cy_sha256_hex cy) acts,
                  sc_credential_fingerprint = fp\<rparr>))))"

definition authorize_ppp_termination_intent :: "ppp_db \<Rightarrow> ppp_ont \<Rightarrow> ppp_ruling" where
  "authorize_ppp_termination_intent db ont =
     (case po_id ont of
        None \<Rightarrow> ppp_refused Unresolvable_ont [] []
      | Some oid \<Rightarrow> (case resolve_exact_assignment_subscription db oid of
          Inl r \<Rightarrow> ppp_refused r oid []
        | Inr sub \<Rightarrow> (case active_primary_internet_intent db oid sub of
            None \<Rightarrow> ppp_refused No_active_service_intent oid sub
          | Some inst \<Rightarrow>
              (let connection = enum_value (in_connection_type inst) in
               if connection = ''bridged'' then ppp_refused Bridged_service_intent oid sub
               else if connection \<noteq> ''pppoe'' then ppp_refused No_active_service_intent oid sub
               else \<lparr>ru_authorized = True, ru_refusal = None, ru_ont_id = oid,
                 ru_subscription_id = sub, ru_instance_id = in_id inst,
                 ru_instance_revision = int_or (in_revision inst) 0,
                 ru_plan_fingerprint = [], ru_credential_fingerprint = []\<rparr>))))"

definition authorize_ppp_delivery ::
  "ppp_crypto \<Rightarrow> ppp_db \<Rightarrow> ppp_ont \<Rightarrow> action list \<Rightarrow> ppp_ruling" where
  "authorize_ppp_delivery cy db ont acts =
     (let intent = authorize_ppp_termination_intent db ont in
      if \<not> ru_authorized intent then intent
      else case resolve_exact_assignment_subscription db (ru_ont_id intent) of
          Inl _ \<Rightarrow> ppp_refused No_active_assignment (ru_ont_id intent) []
        | Inr sub \<Rightarrow> (case resolve_credential_authority cy db ont sub of
            Inl r \<Rightarrow> ppp_refused r (ru_ont_id intent) (ru_subscription_id intent)
          | Inr fp \<Rightarrow>
              if fp = [] then ppp_refused No_authoritative_credential (ru_ont_id intent)
                (ru_subscription_id intent)
              else intent\<lparr>ru_plan_fingerprint := plan_ppp_fingerprint (cy_sha256_hex cy) acts,
                ru_credential_fingerprint := fp\<rparr>))"

subsection \<open>What an authorised ruling rests on\<close>

definition active_subscriptions :: "ppp_db \<Rightarrow> string \<Rightarrow> string set" where
  "active_subscriptions db oid =
     {s. \<exists>a \<in> set (db_assignments db). as_ont a = oid \<and> as_active a \<and> as_subscription a = Some s}"

definition primary_internet_intents :: "ppp_db \<Rightarrow> string \<Rightarrow> string \<Rightarrow> intent_row list" where
  "primary_internet_intents db oid sub = filter (\<lambda>r. in_ont r = oid \<and> in_subscription r = sub \<and>
     in_primary r \<and> in_lifecycle_active r \<and> enum_value (in_service_type r) = ''internet'') (db_intents db)"

definition active_credentials :: "ppp_db \<Rightarrow> string \<Rightarrow> credential_row list" where
  "active_credentials db sub = filter (\<lambda>c. cd_subscription c = sub \<and> cd_active c) (db_credentials db)"

lemma set_map_filter_subscription:
  "set (List.map_filter as_subscription (filter P xs)) = {s. \<exists>a \<in> set xs. P a \<and> as_subscription a = Some s}"
  by (induction xs) (auto simp: List.map_filter_simps split: option.split)

lemma singleton_remdups:
  "rows \<noteq> [] \<Longrightarrow> \<not> length (remdups rows) > 1 \<Longrightarrow> set rows = {hd rows}"
proof -
  assume n: "rows \<noteq> []" and l: "\<not> length (remdups rows) > 1"
  then have "card (set rows) = 1"
    using length_remdups_card_conv [of rows] by (cases "remdups rows") auto
  then obtain x where "set rows = {x}" using card_1_singletonE by blast
  with n show ?thesis by (metis hd_in_set singletonD)
qed

lemma set_singleton_list:
  assumes "set rows = {x}"
  shows "rows \<noteq> []" and "hd rows = x" and "length (remdups rows) = 1"
proof -
  show n: "rows \<noteq> []" using assms by auto
  show "hd rows = x" using hd_in_set [OF n] assms by simp
  show "length (remdups rows) = 1" using length_remdups_card_conv [of rows] assms by simp
qed

lemma assignment_Inr:
  "resolve_exact_assignment_subscription db oid = Inr sub \<longleftrightarrow> active_subscriptions db oid = {sub}"
proof -
  let ?rows = "List.map_filter as_subscription (filter (\<lambda>a. as_ont a = oid \<and> as_active a) (db_assignments db))"
  have s: "set ?rows = active_subscriptions db oid"
    unfolding set_map_filter_subscription active_subscriptions_def by blast
  show ?thesis
  proof
    assume "resolve_exact_assignment_subscription db oid = Inr sub"
    then have "?rows \<noteq> []" "\<not> length (remdups ?rows) > 1" "sub = hd ?rows"
      by (simp_all add: resolve_exact_assignment_subscription_def Let_def split: if_split_asm)
    then show "active_subscriptions db oid = {sub}" using singleton_remdups s by blast
  next
    assume a: "active_subscriptions db oid = {sub}"
    then have "set ?rows = {sub}" using s by simp
    from set_singleton_list [OF this] show "resolve_exact_assignment_subscription db oid = Inr sub"
      by (simp add: resolve_exact_assignment_subscription_def Let_def)
  qed
qed

lemma intent_Some:
  "active_primary_internet_intent db oid sub = Some i \<longleftrightarrow> primary_internet_intents db oid sub = [i]"
proof -
  have "filter (\<lambda>r. enum_value (in_service_type r) = ''internet'')
      (filter (\<lambda>r. in_ont r = oid \<and> in_subscription r = sub \<and> in_primary r \<and> in_lifecycle_active r)
        (db_intents db)) = primary_internet_intents db oid sub"
    by (simp add: primary_internet_intents_def conj_assoc)
  then show ?thesis
    by (cases "primary_internet_intents db oid sub")
      (auto simp: active_primary_internet_intent_def Let_def)
qed

lemma credential_Inr:
  "authoritative_credential db sub = Inr c \<longleftrightarrow> active_credentials db sub = [c]"
proof -
  have "filter cd_active (filter (\<lambda>c. cd_subscription c = sub) (db_credentials db)) = active_credentials db sub"
    by (simp add: active_credentials_def conj_commute)
  then show ?thesis by (auto simp: authoritative_credential_def split: list.split)
qed

text \<open>The keyed digest of a credential row that can be read.\<close>

definition credential_digest :: "ppp_crypto \<Rightarrow> credential_row \<Rightarrow> string option" where
  "credential_digest cy c =
     (case (cy_key cy, safe_decrypt cy (cd_secret_hash c)) of
        (Some k, Some s) \<Rightarrow>
          (let u = py_strip (str_or (cd_username c) []) in
           if u = [] \<or> s = [] then None else Some (cy_digest cy k u s))
      | _ \<Rightarrow> None)"

lemma authoritative_Inr:
  "authoritative_dialer_fingerprint cy db sub = Inr fp \<longleftrightarrow>
     (\<exists>c. active_credentials db sub = [c] \<and> credential_digest cy c = Some fp)"
  by (auto simp: authoritative_dialer_fingerprint_def credential_Inr [symmetric] credential_digest_def
      dialer_fingerprint_def Let_def split: sum.splits option.splits if_splits)

lemma credential_authority_Inr:
  "resolve_credential_authority cy db ont sub = Inr fp \<longleftrightarrow>
     projected_dialer_fingerprint ont = Some fp \<and>
     (\<exists>c. active_credentials db sub = [c] \<and> credential_digest cy c = Some fp)"
  by (auto simp: resolve_credential_authority_def authoritative_Inr [symmetric]
      split: sum.splits option.splits if_splits)

lemma projected_not_Nil: "projected_dialer_fingerprint ont = Some fp \<Longrightarrow> fp \<noteq> []"
  by (auto simp: projected_dialer_fingerprint_def Let_def split: if_splits)

lemma intent_authorized:
  "ru_authorized (authorize_ppp_termination_intent db ont) \<longleftrightarrow>
     (\<exists>oid sub i. po_id ont = Some oid \<and> active_subscriptions db oid = {sub} \<and>
        primary_internet_intents db oid sub = [i] \<and> enum_value (in_connection_type i) = ''pppoe'')"
  by (auto simp: authorize_ppp_termination_intent_def ppp_refused_def Let_def
      assignment_Inr [symmetric] intent_Some [symmetric] split: option.split sum.split)

lemma intent_fields:
  assumes "po_id ont = Some oid" and "active_subscriptions db oid = {sub}"
    and "primary_internet_intents db oid sub = [i]" and "enum_value (in_connection_type i) = ''pppoe''"
  shows "authorize_ppp_termination_intent db ont = \<lparr>ru_authorized = True, ru_refusal = None,
    ru_ont_id = oid, ru_subscription_id = sub, ru_instance_id = in_id i,
    ru_instance_revision = int_or (in_revision i) 0, ru_plan_fingerprint = [],
    ru_credential_fingerprint = []\<rparr>"
  using assms by (simp add: authorize_ppp_termination_intent_def assignment_Inr [symmetric]
      intent_Some [symmetric])

text \<open>
  C36: PPP is delivered only on proven authority. Delivery is authorised exactly when the ONT has one
  distinct actively assigned service, that service has exactly one active primary Internet intent
  on this ONT and it terminates PPPoE there, the service has exactly one active credential, it can be
  read and keyed, and the fingerprint staged on the ONT is the digest of that very credential.
\<close>

theorem delivery_authorized_iff:
  "ru_authorized (authorize_ppp_delivery cy db ont acts) \<longleftrightarrow>
     (\<exists>oid sub i c fp. po_id ont = Some oid \<and> active_subscriptions db oid = {sub} \<and>
        primary_internet_intents db oid sub = [i] \<and> enum_value (in_connection_type i) = ''pppoe'' \<and>
        active_credentials db sub = [c] \<and> credential_digest cy c = Some fp \<and>
        projected_dialer_fingerprint ont = Some fp)"
proof (cases "ru_authorized (authorize_ppp_termination_intent db ont)")
  case False
  then show ?thesis using intent_authorized [of db ont]
    by (auto simp: authorize_ppp_delivery_def Let_def)
next
  case True
  then obtain oid sub i where i: "po_id ont = Some oid" "active_subscriptions db oid = {sub}"
    "primary_internet_intents db oid sub = [i]" "enum_value (in_connection_type i) = ''pppoe''"
    unfolding intent_authorized by blast
  have "ru_authorized (authorize_ppp_delivery cy db ont acts) \<longleftrightarrow>
      (\<exists>fp. resolve_credential_authority cy db ont sub = Inr fp \<and> fp \<noteq> [])"
    using i(2) [folded assignment_Inr]
    by (auto simp: authorize_ppp_delivery_def intent_fields [OF i] ppp_refused_def Let_def
        split: sum.split)
  with i show ?thesis by (auto simp: credential_authority_Inr dest: projected_not_Nil)
qed

lemma delivery_fields:
  assumes "ru_authorized (authorize_ppp_delivery cy db ont acts)"
  shows "derive_delivery_scope cy db ont acts =
    (let r = authorize_ppp_delivery cy db ont acts in
     Some \<lparr>sc_ont_id = ru_ont_id r, sc_subscription_id = ru_subscription_id r,
       sc_instance_id = ru_instance_id r, sc_instance_revision = ru_instance_revision r,
       sc_plan_fingerprint = ru_plan_fingerprint r,
       sc_credential_fingerprint = ru_credential_fingerprint r\<rparr>)"
    and "ru_plan_fingerprint (authorize_ppp_delivery cy db ont acts) =
      plan_ppp_fingerprint (cy_sha256_hex cy) acts"
proof -
  have ia: "ru_authorized (authorize_ppp_termination_intent db ont)"
    using assms by (auto simp: authorize_ppp_delivery_def Let_def split: if_split_asm)
  then obtain oid sub i where i: "po_id ont = Some oid" "active_subscriptions db oid = {sub}"
    "primary_internet_intents db oid sub = [i]" "enum_value (in_connection_type i) = ''pppoe''"
    unfolding intent_authorized by blast
  note ids = i(2) [folded assignment_Inr] i(3) [folded intent_Some]
  obtain fp where fp: "resolve_credential_authority cy db ont sub = Inr fp" "fp \<noteq> []"
    using assms ids
    by (auto simp: authorize_ppp_delivery_def intent_fields [OF i] ppp_refused_def Let_def
        split: sum.splits if_splits)
  show "ru_plan_fingerprint (authorize_ppp_delivery cy db ont acts) =
      plan_ppp_fingerprint (cy_sha256_hex cy) acts"
    using ids fp by (simp add: authorize_ppp_delivery_def intent_fields [OF i])
  show "derive_delivery_scope cy db ont acts = (let r = authorize_ppp_delivery cy db ont acts in
     Some \<lparr>sc_ont_id = ru_ont_id r, sc_subscription_id = ru_subscription_id r,
       sc_instance_id = ru_instance_id r, sc_instance_revision = ru_instance_revision r,
       sc_plan_fingerprint = ru_plan_fingerprint r,
       sc_credential_fingerprint = ru_credential_fingerprint r\<rparr>)"
    using ids fp i(1)
    by (simp add: authorize_ppp_delivery_def intent_fields [OF i] derive_delivery_scope_def)
qed

text \<open>
  C37: a ruling covers exactly the delivery it was issued for. An authorised ruling covers the scope
  derived from the same state and plan; and if it covers a scope derived later, from another state
  or another plan, then the ONT, its service, the intent's revision, the credential fingerprint and
  the plan fingerprint are all still the same.
\<close>

theorem ruling_not_transferable:
  assumes "ru_authorized (authorize_ppp_delivery cy db ont acts)"
  shows "authorizes (authorize_ppp_delivery cy db ont acts) (derive_delivery_scope cy db ont acts) \<and>
    (authorizes (authorize_ppp_delivery cy db ont acts) (derive_delivery_scope cy db' ont' acts') \<longrightarrow>
       derive_delivery_scope cy db' ont' acts' = derive_delivery_scope cy db ont acts \<and>
       plan_ppp_fingerprint (cy_sha256_hex cy) acts' = plan_ppp_fingerprint (cy_sha256_hex cy) acts)"
proof -
  note s = delivery_fields [OF assms]
  have "authorizes (authorize_ppp_delivery cy db ont acts) (derive_delivery_scope cy db ont acts)"
    by (simp add: s(1) Let_def authorizes_def assms)
  moreover have "derive_delivery_scope cy db' ont' acts' = derive_delivery_scope cy db ont acts"
    if "authorizes (authorize_ppp_delivery cy db ont acts) (derive_delivery_scope cy db' ont' acts')"
    using that by (auto simp: authorizes_def s(1) Let_def intro!: ppp_scope.equality
        split: option.splits if_split_asm)
  moreover have "sc_plan_fingerprint sc = plan_ppp_fingerprint (cy_sha256_hex cy) acts'"
    if "derive_delivery_scope cy db' ont' acts' = Some sc" for sc
    using that by (auto simp: derive_delivery_scope_def split: option.splits sum.splits if_splits)
  ultimately show ?thesis using s by (metis option.inject ppp_scope.select_convs(5))
qed


text \<open>Rows under which delivery is authorised; the primitives are toy functions.\<close>

definition sample_crypto :: ppp_crypto where
  "sample_crypto = \<lparr>cy_key = Some ''k'', cy_decrypt = (\<lambda>s. Some s), cy_digest = (\<lambda>k u s. k @ u @ s),
     cy_sha256_hex = (\<lambda>s. s)\<rparr>"

definition sample_ppp_db :: ppp_db where
  "sample_ppp_db =
     \<lparr>db_assignments = [\<lparr>as_ont = ''ont-1'', as_subscription = Some ''sub-1'', as_active = True\<rparr>],
      db_intents = [\<lparr>in_id = ''i-1'', in_ont = ''ont-1'', in_subscription = ''sub-1'', in_primary = True,
        in_lifecycle_active = True, in_service_type = Some ''internet'',
        in_connection_type = Some ''pppoe'', in_revision = Some 3\<rparr>],
      db_credentials = [\<lparr>cd_subscription = ''sub-1'', cd_username = Some ''u1001'',
        cd_secret_hash = Some ''s'', cd_active = True\<rparr>]\<rparr>"

definition sample_ppp_ont :: ppp_ont where
  "sample_ppp_ont = \<lparr>po_id = Some ''ont-1'', po_dialer_fingerprint = Some ''ku1001s''\<rparr>"

lemma sample_authorized:
  "ru_authorized (authorize_ppp_delivery sample_crypto sample_ppp_db sample_ppp_ont [])"
  by code_simp

theorem ruling_not_transferable_witness:
  "authorizes (authorize_ppp_delivery sample_crypto sample_ppp_db sample_ppp_ont [])
     (derive_delivery_scope sample_crypto sample_ppp_db sample_ppp_ont [])"
  using ruling_not_transferable [OF sample_authorized] by blast

subsection \<open>The fingerprint depends on the PPP content only\<close>

lemma join_with_Cons: "xs \<noteq> [] \<Longrightarrow> join_with sep (x # xs) = x @ sep @ join_with sep xs"
  by (cases xs) simp_all

lemma split_join_char:
  "xs \<noteq> [] \<Longrightarrow> \<forall>x \<in> set xs. d \<notin> set x \<Longrightarrow> split_char d (join_with [d] xs) = xs"
proof (induction xs)
  case (Cons x xs)
  show ?case
  proof (cases "xs = []")
    case True
    with Cons.prems show ?thesis by (simp add: split_char_no_sep)
  next
    case False
    with Cons show ?thesis by (simp add: join_with_Cons split_char_append)
  qed
qed simp

lemma hex_digit_printable: "n < 16 \<Longrightarrow> 32 < (of_char (hex_digit n) :: nat)"
  by (simp add: hex_digit_def)

lemma json_char_printable: "x \<in> set (json_char c) \<Longrightarrow> 31 < (of_char x :: nat)"
proof -
  assume x: "x \<in> set (json_char c)"
  have h: "31 < (of_char (hex_digit (of_char c div 16)) :: nat)"
    "31 < (of_char (hex_digit (of_char c mod 16)) :: nat)"
    using hex_digit_printable [of "of_char c div 16"] hex_digit_printable [of "of_char c mod 16"]
      nat_of_char_less_256 [of c] by (simp_all add: less_mult_imp_div_less)
  from x show ?thesis
    by (auto simp: json_char_def Let_def h split: if_split_asm)
qed

lemma join_with_printable:
  "x \<in> set (join_with sep xs) \<Longrightarrow> x \<in> set sep \<or> (\<exists>y \<in> set xs. x \<in> set y)"
  by (induction sep xs rule: join_with.induct) auto

lemma json_string_printable: "x \<in> set (json_string s) \<Longrightarrow> 31 < (of_char x :: nat)"
  by (auto simp: json_string_def dest: json_char_printable)

lemma json_dict_printable: "x \<in> set (json_dict kvs) \<Longrightarrow> 31 < (of_char x :: nat)"
proof -
  assume "x \<in> set (json_dict kvs)"
  then consider "x \<in> set ''{:,}''" | k where "x \<in> set (json_string k)"
    by (auto simp: json_dict_def dest!: join_with_printable)
  then show ?thesis by cases (auto dest: json_string_printable)
qed

lemma no_newline: "CHR 0x0A \<notin> set (fingerprint_part a)"
  using json_dict_printable by (force simp: fingerprint_part_def)

lemma fingerprint_text_inj:
  assumes "filter is_ppp_bundle_action as \<noteq> []" and "filter is_ppp_bundle_action bs \<noteq> []"
    and "fingerprint_text as = fingerprint_text bs"
  shows "mset (map fingerprint_part (filter is_ppp_bundle_action as)) =
    mset (map fingerprint_part (filter is_ppp_bundle_action bs))"
proof -
  let ?s = "\<lambda>xs. sort (map fingerprint_part (filter is_ppp_bundle_action xs))"
  have n: "?s xs \<noteq> []" if "filter is_ppp_bundle_action xs \<noteq> []" for xs
  proof -
    have "length (?s xs) = length (filter is_ppp_bundle_action xs)" by simp
    then show ?thesis using that by (metis length_0_conv)
  qed
  have "split_char (CHR 0x0A) (fingerprint_text xs) = ?s xs" if "filter is_ppp_bundle_action xs \<noteq> []" for xs
    unfolding fingerprint_text_def by (rule split_join_char [OF n [OF that]]) (auto simp: no_newline)
  then have "?s as = ?s bs" using assms by metis
  then have "mset (?s as) = mset (?s bs)" by simp
  then show ?thesis by simp
qed

text \<open>
  The plan fingerprint is order-independent and content-sensitive. Plans with the same PPP
  actions, in any order and among any other actions, have the same fingerprint; and plans with the
  same fingerprint have the same PPP payloads, unless the truncated digests of two different
  payload texts collide.
\<close>

theorem plan_fingerprint_content:
  "(mset (filter is_ppp_bundle_action as) = mset (filter is_ppp_bundle_action bs) \<longrightarrow>
      plan_ppp_fingerprint sha as = plan_ppp_fingerprint sha bs) \<and>
   (plan_ppp_fingerprint sha as = plan_ppp_fingerprint sha bs \<longrightarrow>
      mset (map fingerprint_part (filter is_ppp_bundle_action as)) =
        mset (map fingerprint_part (filter is_ppp_bundle_action bs)) \<or>
      (fingerprint_text as \<noteq> fingerprint_text bs \<and>
       take 32 (sha (fingerprint_text as)) = take 32 (sha (fingerprint_text bs))))"
proof
  let ?f = "filter is_ppp_bundle_action"
  show "mset (?f as) = mset (?f bs) \<longrightarrow> plan_ppp_fingerprint sha as = plan_ppp_fingerprint sha bs"
  proof
    assume m: "mset (?f as) = mset (?f bs)"
    then have "mset (map fingerprint_part (?f as)) = mset (map fingerprint_part (?f bs))"
      by (simp only: mset_map)
    then have "sort (map fingerprint_part (?f as)) = sort (map fingerprint_part (?f bs))"
      by (metis mset_sort properties_for_sort sorted_sort)
    moreover have "?f as = [] \<longleftrightarrow> ?f bs = []" using m by (metis mset_zero_iff)
    ultimately show "plan_ppp_fingerprint sha as = plan_ppp_fingerprint sha bs"
      by (simp add: plan_ppp_fingerprint_def fingerprint_text_def)
  qed
  show "plan_ppp_fingerprint sha as = plan_ppp_fingerprint sha bs \<longrightarrow>
      mset (map fingerprint_part (?f as)) = mset (map fingerprint_part (?f bs)) \<or>
      (fingerprint_text as \<noteq> fingerprint_text bs \<and>
       take 32 (sha (fingerprint_text as)) = take 32 (sha (fingerprint_text bs)))"
  proof
    assume e: "plan_ppp_fingerprint sha as = plan_ppp_fingerprint sha bs"
    then have z: "?f as = [] \<longleftrightarrow> ?f bs = []"
      by (auto simp: plan_ppp_fingerprint_def split: if_splits)
    show "mset (map fingerprint_part (?f as)) = mset (map fingerprint_part (?f bs)) \<or>
      (fingerprint_text as \<noteq> fingerprint_text bs \<and>
       take 32 (sha (fingerprint_text as)) = take 32 (sha (fingerprint_text bs)))"
    proof (cases "?f as = []")
      case True
      with z show ?thesis by simp
    next
      case False
      with z e have "take 32 (sha (fingerprint_text as)) = take 32 (sha (fingerprint_text bs))"
        by (simp add: plan_ppp_fingerprint_def)
      with False z fingerprint_text_inj [of as bs] show ?thesis by blast
    qed
  qed
qed

theorem plan_fingerprint_content_witness:
  "plan_ppp_fingerprint (cy_sha256_hex sample_crypto) [OltA (OltDeleteServicePort 9 ''wan''), AcsA (AcsSetNatEnabled ''dev'' 2 1 True)] =
   plan_ppp_fingerprint (cy_sha256_hex sample_crypto) [AcsA (AcsSetNatEnabled ''dev'' 2 1 True), OltA (OltReset ''0/1/2'' 7),
     OltA (OltDeleteServicePort 9 ''wan'')]"
  using plan_fingerprint_content [of "[OltA (OltDeleteServicePort 9 ''wan''), AcsA (AcsSetNatEnabled ''dev'' 2 1 True)]"
    "[AcsA (AcsSetNatEnabled ''dev'' 2 1 True), OltA (OltReset ''0/1/2'' 7), OltA (OltDeleteServicePort 9 ''wan'')]" "cy_sha256_hex sample_crypto"]
  by (simp add: is_ppp_bundle_action_def classify_slot_def py_lower_def py_strip_def py_isspace_def
      py_lower_char_def Let_def add_mset_commute)

subsection \<open>What a refused plan still delivers\<close>

text \<open>
  An unauthorised ruling withholds exactly the PPP work. The deliverable and refused actions
  interleave to the plan, none is lost or duplicated; without an authorising ruling every deliverable
  action is classified not PPP and every refused one is not; and management service-port work is
  deliverable in every case.
\<close>

theorem partition_withholds_ppp:
  "mset (fst (partition_actions acts r sc)) + mset (snd (partition_actions acts r sc)) = mset acts \<and>
   (if (\<exists>u. r = Some u \<and> authorizes u sc) then snd (partition_actions acts r sc) = []
    else fst (partition_actions acts r sc) = filter (\<lambda>a. classify_action a = Not_ppp) acts \<and>
      snd (partition_actions acts r sc) = filter (\<lambda>a. classify_action a \<noteq> Not_ppp) acts) \<and>
   OltA (OltCreateServicePort f n idx v g ''mgmt'') \<notin> set (snd (partition_actions acts r sc)) \<and>
   OltA (OltDeleteServicePort idx ''mgmt'') \<notin> set (snd (partition_actions acts r sc))"
proof -
  have m: "classify_slot ''mgmt'' = Not_ppp" by code_simp
  have ppp: "is_ppp_bundle_action = (\<lambda>a. classify_action a \<noteq> Not_ppp)"
    by (simp add: fun_eq_iff is_ppp_bundle_action_def)
  have e: "partition_actions acts r sc = (if (\<exists>u. r = Some u \<and> authorizes u sc) then (acts, [])
      else (filter (\<lambda>a. classify_action a = Not_ppp) acts, filter (\<lambda>a. classify_action a \<noteq> Not_ppp) acts))"
    by (auto simp: partition_actions_def ppp split: option.split)
  show ?thesis
    by (simp add: e m del: mset_filter) (metis (mono_tags, lifting) filter_cong multiset_partition mset_filter union_commute)
qed

end
