(* ===== verification/Applier.thy ===== *)
theory Applier
  imports Planner Ppp_Authorization
begin

section \<open>The applier\<close>

text \<open>
  Models \<open>app/services/network/reconcile/applier.py\<close>. The outside world (OLT adapter, ACS client,
  secret store, clocks) is a record of functions over an abstract state \<open>'w\<close>; what the code
  relies on is only their types. An action's execution returns a value, stops with the
  \<open>ApplyError\<close> the loop catches (\<open>Halt\<close>), or raises an exception nothing here catches
  (\<open>Raised\<close>), and threads the world and the context's map of discovered WAN PPP instances.
\<close>

subsection \<open>The outside world\<close>

datatype olt_call =
  Call_authorize_ont string string int int string
    \<comment> \<open>fsp, serial_number, line_profile_id, service_profile_id, description\<close>
| Call_set_ont_description string int string
| Call_update_ont_profiles string int "int option" "int option"
    \<comment> \<open>fsp, ont_id, line_profile_id, service_profile_id\<close>
| Call_clear_iphost_config string int int
| Call_configure_iphost string int int string int int string string string
    \<comment> \<open>fsp, ont_id, ip_index, mode, vlan, priority, ip_address, subnet_mask, gateway\<close>
| Call_bind_tr069_profile string int int
| Call_create_service_port string int int int int int
    \<comment> \<open>fsp, ont_id, gem_index, vlan_id, user_vlan, port_index\<close>
| Call_delete_service_port int
| Call_configure_pppoe string int int int string string
    \<comment> \<open>fsp, ont_id, ip_index, vlan_id, username, password\<close>
| Call_configure_internet_config string int int
| Call_configure_wan_config string int int int
| Call_reboot_ont string int

text \<open>What the code reads of an \<open>OltOperationResult\<close>.\<close>

record olt_result =
  or_success :: bool
  or_message :: string
  or_error_code :: "string option"
  or_huawei_response :: "(string \<times> string) list option"

text \<open>What it reads of the NBI task: the two entries, when the task is a \<open>dict\<close>.\<close>

record acs_fault =
  af_code :: string
  af_message :: "string option"
  af_detail :: "string option"

record acs_task =
  at_connection_request_error :: "string option"
  at_fault :: "acs_fault option"

text \<open>A GenieACS device document: nested \<open>dict\<close>s and other values.\<close>

datatype doc = Doc_dict "(string \<times> doc) list" | Doc_other

record 'w env =
  env_olt :: "olt_call \<Rightarrow> 'w \<Rightarrow> (string + olt_result) \<times> 'w"
  env_set :: "string \<Rightarrow> params \<Rightarrow> 'w \<Rightarrow> (string + acs_task) \<times> 'w"
  env_add_object :: "string \<Rightarrow> string \<Rightarrow> 'w \<Rightarrow> (string + unit) \<times> 'w"
  env_delete_object :: "string \<Rightarrow> string \<Rightarrow> 'w \<Rightarrow> (string + unit) \<times> 'w"
  env_can_probe :: bool
  env_refresh :: "string \<Rightarrow> string \<Rightarrow> 'w \<Rightarrow> (string + unit) \<times> 'w"
  env_list :: "string \<Rightarrow> string \<Rightarrow> 'w \<Rightarrow> (string + doc list) \<times> 'w"
  env_secret :: "string \<Rightarrow> 'w \<Rightarrow> (string + string option) \<times> 'w"
  env_mono :: "'w \<Rightarrow> rat \<times> 'w"
  env_utc :: "'w \<Rightarrow> datetime \<times> 'w"

subsection \<open>Execution state and outcomes\<close>

datatype apply_error = Apply_error failure_reason string "evidence option"

datatype 'a outcome = Ret 'a | Halt apply_error | Raised string

type_synonym instances = "int \<rightharpoonup> int"

type_synonym ('w, 'a) exec = "'w \<times> instances \<Rightarrow> 'a outcome \<times> 'w \<times> instances"

definition ret :: "'a \<Rightarrow> ('w, 'a) exec" where
  "ret a s = (Ret a, s)"

definition halt :: "failure_reason \<Rightarrow> string \<Rightarrow> ('w, 'a) exec" where
  "halt r msg s = (Halt (Apply_error r msg None), s)"

definition and_then :: "('w, 'a) exec \<Rightarrow> ('a \<Rightarrow> ('w, 'b) exec) \<Rightarrow> ('w, 'b) exec" where
  "and_then m f s =
     (case m s of
        (Ret a, s') \<Rightarrow> f a s'
      | (Halt e, s') \<Rightarrow> (Halt e, s')
      | (Raised e, s') \<Rightarrow> (Raised e, s'))"

definition in_world :: "('w \<Rightarrow> 'a \<times> 'w) \<Rightarrow> ('w, 'a) exec" where
  "in_world f s = (let (a, w) = f (fst s) in (Ret a, w, snd s))"

text \<open>A call wrapped in \<open>try ... except Exception\<close>, which turns the exception into an \<open>ApplyError\<close>.\<close>

definition guarded_call :: "string \<Rightarrow> ('w \<Rightarrow> (string + 'a) \<times> 'w) \<Rightarrow> ('w, 'a) exec" where
  "guarded_call prefix f s =
     (case f (fst s) of
        (Inl e, w) \<Rightarrow> (Halt (Apply_error ACS_WRITE_FAULTED (prefix @ e) None), w, snd s)
      | (Inr a, w) \<Rightarrow> (Ret a, w, snd s))"

text \<open>A call with no handler: the exception leaves \<open>apply_plan\<close>.\<close>

definition bare_call :: "('w \<Rightarrow> (string + 'a) \<times> 'w) \<Rightarrow> ('w, 'a) exec" where
  "bare_call f s =
     (case f (fst s) of
        (Inl e, w) \<Rightarrow> (Raised e, w, snd s)
      | (Inr a, w) \<Rightarrow> (Ret a, w, snd s))"

subsection \<open>Refusals before device contact\<close>

definition refuse_unset :: "(string \<times> scalar) list \<Rightarrow> ('w, unit) exec" where
  "refuse_unset fvs =
     (let unset = map fst (filter (\<lambda>(name, v). \<not> is_deliverable name v) fvs) in
      if unset = [] then ret ()
      else halt INVALID_CHANGE (''refusing to write unset '' @ join_with '', '' unset))"

definition refuse_unknown_provenance :: "string \<Rightarrow> provenance \<Rightarrow> ('w, unit) exec" where
  "refuse_unknown_provenance field prov =
     (if has_executable_desired_provenance prov then ret ()
      else halt INVALID_CHANGE (''refusing to write provenance-unknown '' @ field))"

text \<open>
  \<open>_WAN_PPP_OBJECT_PATH_RE.search\<close>: the path ends (a final newline aside) in the WAN PPP object of a
  WAN connection device; the digits are the whole run before it.
\<close>

definition wan_ppp_wcd_from_object_path :: "string \<Rightarrow> int option" where
  "wan_ppp_wcd_from_object_path path =
     (let s = (if path \<noteq> [] \<and> last path = CHR 0x0A then butlast path else path) in
      case strip_suffix ''.WANPPPConnection'' s of
        None \<Rightarrow> None
      | Some r \<Rightarrow>
          (let digits = rev (takeWhile is_digit (rev r)); before = rev (dropWhile is_digit (rev r)) in
           if digits \<noteq> [] \<and> strip_suffix ''WANDevice.1.WANConnectionDevice.'' before \<noteq> None
           then Some (int (nat_of_digits digits)) else None))"

definition require_add_object_layout :: "string \<Rightarrow> int option \<Rightarrow> ('w, int option) exec" where
  "require_add_object_layout path wcd =
     (case wan_ppp_wcd_from_object_path path of
        None \<Rightarrow> ret None
      | Some rendered \<Rightarrow>
          and_then (refuse_unset [(''wan_pppoe_wcd_index'', oint wcd)]) (\<lambda>_.
            if wcd \<noteq> Some rendered
            then halt INVALID_CHANGE ''WAN PPP addObject path does not match its typed WCD index''
            else ret (Some rendered)))"

subsection \<open>Secrets, adapter results and ACS writes\<close>

definition resolve_or_fail :: "'w env \<Rightarrow> string \<Rightarrow> ('w, string) exec" where
  "resolve_or_fail env ref =
     (if ref = [] then ret []
      else and_then (guarded_call ''secret resolution failed: '' (env_secret env ref)) (\<lambda>v.
        case v of
          None \<Rightarrow> halt ACS_WRITE_FAULTED ''secret resolver returned None''
        | Some value \<Rightarrow> ret value))"

definition project_huawei_result_evidence :: "olt_result \<Rightarrow> evidence option" where
  "project_huawei_result_evidence r =
     (let ev = (if truthy_str (or_error_code r) then [(''error_code'', Ev_str (str_or (or_error_code r) []))]
                else []) @
               (case or_huawei_response r of
                  None \<Rightarrow> []
                | Some d \<Rightarrow> [(''huawei_cli_response'', Ev_pairs d)])
      in if ev = [] then None else Some ev)"

definition olt_check :: "olt_result \<Rightarrow> ('w, evidence option) exec" where
  "olt_check r s =
     (let ev = project_huawei_result_evidence r in
      if \<not> or_success r then (Halt (Apply_error OLT_WRITE_REJECTED (or_message r) ev), s)
      else (Ret ev, s))"

text \<open>The adapter call and the check of its result.\<close>

definition olt_write :: "'w env \<Rightarrow> olt_call \<Rightarrow> ('w, evidence option) exec" where
  "olt_write env c = and_then (bare_call (env_olt env c)) olt_check"

definition acs_set :: "'w env \<Rightarrow> string \<Rightarrow> params \<Rightarrow> ('w, unit) exec" where
  "acs_set env dev ps =
     and_then (guarded_call ''setParameterValues failed: '' (env_set env dev ps)) (\<lambda>task.
       if truthy_str (at_connection_request_error task) then
         halt ACS_CR_FAILED (''setParameterValues queued but Connection Request failed: '' @
           str_or (at_connection_request_error task) [] @ ''. Force OLT `ont reset` to drain.'')
       else case at_fault task of
           None \<Rightarrow> ret ()
         | Some f \<Rightarrow> halt ACS_WRITE_FAULTED (''CWMP fault '' @ af_code f @ '': '' @
             str_or (opt_or (af_message f) (af_detail f)) ''CWMP fault''))"

definition trunc_ms :: "rat \<Rightarrow> int" where
  "trunc_ms x = (if x < 0 then \<lceil>x * 1000\<rceil> else \<lfloor>x * 1000\<rfloor>)"

definition ok_action :: "'w env \<Rightarrow> surface \<Rightarrow> rat \<Rightarrow> string \<Rightarrow> pyval \<Rightarrow> pyval \<Rightarrow> evidence option \<Rightarrow>
    ('w, applied_action) exec" where
  "ok_action env srf started field old new ev =
     and_then (in_world (env_mono env)) (\<lambda>now.
       ret \<lparr>aa_field = field, aa_surface = srf, aa_old_value = old, aa_new_value = new,
            aa_duration_ms = trunc_ms (now - started), aa_evidence = ev\<rparr>)"

subsection \<open>Discovering the created instance\<close>

fun node_at_path :: "doc \<Rightarrow> string list \<Rightarrow> doc option" where
  "node_at_path node [] = Some node"
| "node_at_path (Doc_dict kvs) (seg # segs) =
     (case map_of kvs seg of None \<Rightarrow> None | Some n \<Rightarrow> node_at_path n segs)"
| "node_at_path Doc_other (seg # segs) = None"

text \<open>\<open>str.isdigit\<close> also holds of the superscripts 1, 2 and 3, on which \<open>int\<close> then raises.\<close>

definition py_isdigit :: "string \<Rightarrow> bool" where
  "py_isdigit s \<longleftrightarrow> s \<noteq> [] \<and> list_all (\<lambda>c. is_digit c \<or> of_char c \<in> {178, 179, 185 :: nat}) s"

fun max_list_int :: "int list \<Rightarrow> int option" where
  "max_list_int [] = None"
| "max_list_int (x # xs) = (case max_list_int xs of None \<Rightarrow> Some x | Some m \<Rightarrow> Some (max x m))"

definition newest_instance :: "doc list \<Rightarrow> string \<Rightarrow> ('w, int option) exec" where
  "newest_instance devices path =
     (case devices of
        [] \<Rightarrow> ret None
      | device # _ \<Rightarrow> (case node_at_path device (split_char (CHR ''.'') path) of
          Some (Doc_dict kvs) \<Rightarrow>
            (let keys = filter py_isdigit (map fst kvs) in
             if \<not> list_all (list_all is_digit) keys then (\<lambda>s. (Raised ''ValueError'', s))
             else ret (max_list_int (map (\<lambda>k. int (nat_of_digits k)) keys)))
        | _ \<Rightarrow> ret None))"

definition discover_wan_ppp_instance_index ::
  "'w env \<Rightarrow> string \<Rightarrow> string \<Rightarrow> ('w, int option) exec" where
  "discover_wan_ppp_instance_index env dev path =
     (if \<not> env_can_probe env then ret None
      else and_then (in_world (env_refresh env dev path)) (\<lambda>r. case r of
          Inl _ \<Rightarrow> ret None
        | Inr _ \<Rightarrow> and_then (in_world (env_list env dev path)) (\<lambda>l. case l of
            Inl _ \<Rightarrow> ret None
          | Inr devices \<Rightarrow> newest_instance devices path)))"

definition remember_instance :: "int option \<Rightarrow> int option \<Rightarrow> ('w, unit) exec" where
  "remember_instance wcd found s =
     (case (wcd, found) of
        (Some w, Some i) \<Rightarrow> (Ret (), fst s, (snd s)(w \<mapsto> i))
      | _ \<Rightarrow> (Ret (), s))"

definition instance_for :: "int \<Rightarrow> int \<Rightarrow> ('w, int) exec" where
  "instance_for w dflt s = (Ret (case snd s w of None \<Rightarrow> dflt | Some i \<Rightarrow> i), s)"

subsection \<open>Parameter sets\<close>

definition ppp_base :: "int \<Rightarrow> int \<Rightarrow> string" where
  "ppp_base w i = ''InternetGatewayDevice.WANDevice.1.WANConnectionDevice.'' @ show_int w @
     ''.WANPPPConnection.'' @ show_int i @ ''.''"

definition pppoe_params :: "int \<Rightarrow> int \<Rightarrow> string \<Rightarrow> string \<Rightarrow> int \<Rightarrow> params" where
  "pppoe_params w i u pw v = dict_of
     [(ppp_base w i @ ''Username'', SStr u), (ppp_base w i @ ''Password'', SStr pw),
      (ppp_base w i @ ''Enable'', SBool True), (ppp_base w i @ ''ConnectionType'', SStr ''IP_Routed''),
      (ppp_base w i @ ''X_HW_VLAN'', SInt v), (ppp_base w i @ ''X_HW_SERVICELIST'', SStr ''INTERNET'')]"

definition ipv6_params :: "int \<Rightarrow> bool \<Rightarrow> bool \<Rightarrow> params" where
  "ipv6_params i en req = dict_of
     [(''Device.IP.Interface.'' @ show_int i @ ''.IPv6Enable'', SBool en),
      (''Device.DHCPv6.Client.'' @ show_int i @ ''.Enable'', SBool en),
      (''Device.DHCPv6.Client.'' @ show_int i @ ''.RequestPrefixes'', SBool (en \<and> req)),
      (''Device.RouterAdvertisement.InterfaceSettings.'' @ show_int i @ ''.Enable'', SBool en)]"

definition split_dns_servers :: "string option \<Rightarrow> string option \<times> string option" where
  "split_dns_servers v =
     (let servers = split_fields dns_separator (str_or v []) in
      (if servers \<noteq> [] then Some (hd servers) else None,
       if length servers > 1 then Some (servers ! 1) else None))"

definition wan_ip_device_params :: "tr181_wan_paths_t \<Rightarrow> string \<Rightarrow> int \<Rightarrow> bool \<Rightarrow> string option \<Rightarrow>
    string option \<Rightarrow> string option \<Rightarrow> string option \<Rightarrow> params" where
  "wan_ip_device_params ps md v nt ip msk gw dns =
     (let base = dict_of
            [(t181_ip_enable ps, SBool True), (t181_dhcp_enable ps, SBool (md = ''dhcp'')),
             (t181_vlan_enable ps, SBool True), (t181_vlan_id ps, SInt v), (t181_nat_enable ps, SBool nt)];
          (dns1, dns2) = split_dns_servers dns
      in if md = ''static'' then
           dict_update base
             ([(t181_ip_address ps, ostr ip), (t181_subnet_mask ps, ostr msk), (t181_gateway ps, ostr gw)] @
              (if truthy_str dns1 then [(t181_dns_primary ps, ostr dns1)] else []) @
              (if truthy_str dns2 then [(t181_dns_secondary ps, ostr dns2)] else []))
         else base)"

definition wan_ip_igd_params :: "int \<Rightarrow> int \<Rightarrow> string \<Rightarrow> int \<Rightarrow> bool \<Rightarrow> string option \<Rightarrow>
    string option \<Rightarrow> string option \<Rightarrow> string option \<Rightarrow> params" where
  "wan_ip_igd_params w i md v nt ip msk gw dns =
     (let b = ''InternetGatewayDevice.WANDevice.1.'' @ ''WANConnectionDevice.'' @ show_int w @ ''.'' @
            ''WANIPConnection.'' @ show_int i;
          base = dict_of
            [(b @ ''.Enable'', SBool True), (b @ ''.NATEnabled'', SBool nt),
             (b @ ''.ConnectionType'', SStr ''IP_Routed''),
             (b @ ''.AddressingType'', SStr (if md = ''dhcp'' then ''DHCP'' else ''Static'')),
             (b @ ''.X_HW_VLAN'', SInt v), (b @ ''.X_HW_SERVICELIST'', SStr ''INTERNET'')]
      in if md = ''static'' then
           dict_update base
             ([(b @ ''.ExternalIPAddress'', ostr ip), (b @ ''.SubnetMask'', ostr msk),
               (b @ ''.DefaultGateway'', ostr gw)] @
              (if truthy_str dns then [(b @ ''.DNSServers'', ostr dns)] else []))
         else base)"

definition dhcp_params :: "bool \<Rightarrow> string \<Rightarrow> string \<Rightarrow> string \<Rightarrow> string option \<Rightarrow> params" where
  "dhcp_params en lo hi msk gw =
     (let b = ''InternetGatewayDevice.LANDevice.1.LANHostConfigManagement.'' in
      dict_of ([(b @ ''DHCPServerEnable'', SBool en), (b @ ''MinAddress'', SStr lo),
         (b @ ''MaxAddress'', SStr hi), (b @ ''SubnetMask'', SStr msk)] @
        (case gw of None \<Rightarrow> [] | Some g \<Rightarrow> [(b @ ''IPInterface.1.IPInterfaceIPAddress'', SStr g)])))"

text \<open>An optional entry of a parameter set, with the name of the field it changes.\<close>

definition optional_entry :: "'a option \<Rightarrow> string \<Rightarrow> ('a \<Rightarrow> scalar) \<Rightarrow> string \<Rightarrow>
    ((string \<times> scalar) \<times> string) list" where
  "optional_entry v path f name = (case v of None \<Rightarrow> [] | Some x \<Rightarrow> [((path, f x), name)])"


subsection \<open>Executing one action\<close>

text \<open>A parameter write followed by the outcome record.\<close>

definition acs_write :: "'w env \<Rightarrow> string \<Rightarrow> params \<Rightarrow> rat \<Rightarrow> string \<Rightarrow> pyval \<Rightarrow> evidence option \<Rightarrow>
    ('w, applied_action) exec" where
  "acs_write env dev ps started field new ev =
     and_then (acs_set env dev ps) (\<lambda>_. ok_action env Acs started field PyNone new ev)"

definition olt_step :: "'w env \<Rightarrow> olt_call \<Rightarrow> rat \<Rightarrow> string \<Rightarrow> pyval \<Rightarrow> pyval \<Rightarrow> ('w, applied_action) exec" where
  "olt_step env c started field old new =
     and_then (olt_write env c) (\<lambda>ev. ok_action env Olt started field old new ev)"

fun execute_olt :: "'w env \<Rightarrow> rat \<Rightarrow> olt_action \<Rightarrow> ('w, applied_action) exec" where
  "execute_olt env t0 (OltAuthorize f n lp sp sn desc) =
     and_then (refuse_unset [(''line_profile_id'', SInt lp), (''service_profile_id'', SInt sp)]) (\<lambda>_.
       olt_step env (Call_authorize_ont f sn lp sp desc) t0 ''olt_authorize'' PyNone (Str sn))"
| "execute_olt env t0 (OltModifyDescription f n desc) =
     olt_step env (Call_set_ont_description f n desc) t0 ''olt_description'' PyNone (Str desc)"
| "execute_olt env t0 (OltModifyLineProfile f n lp) =
     and_then (refuse_unset [(''line_profile_id'', SInt lp)]) (\<lambda>_.
       olt_step env (Call_update_ont_profiles f n (Some lp) None) t0 ''olt_line_profile_id'' PyNone (Num lp))"
| "execute_olt env t0 (OltModifyServiceProfile f n sp) =
     and_then (refuse_unset [(''service_profile_id'', SInt sp)]) (\<lambda>_.
       olt_step env (Call_update_ont_profiles f n None (Some sp)) t0 ''olt_service_profile_id'' PyNone
         (Num sp))"
| "execute_olt env t0 (OltClearIphost f n i) =
     olt_step env (Call_clear_iphost_config f n i) t0 (''iphost['' @ show_int i @ '']'') PyNone PyNone"
| "execute_olt env t0 (OltIpconfig f n i ip m gw v prio dns1 dns2) =
     olt_step env (Call_configure_iphost f n i ''static'' v prio ip m gw) t0 ''olt_mgmt_ip'' PyNone (Str ip)"
| "execute_olt env t0 (OltTr069ServerConfig f n p) =
     and_then (refuse_unset [(''tr069_profile_id'', SInt p)]) (\<lambda>_.
       olt_step env (Call_bind_tr069_profile f n p) t0 ''olt_tr069_profile_id'' PyNone (Num p))"
| "execute_olt env t0 (OltCreateServicePort f n idx v gem slot) =
     and_then (refuse_unset (if slot = ''wan'' then [(''wan_vlan'', SInt v)] else [])) (\<lambda>_.
       olt_step env (Call_create_service_port f n gem v v idx) t0 (''service_port['' @ slot @ '']'') PyNone
         (Num idx))"
| "execute_olt env t0 (OltDeleteServicePort idx slot) =
     olt_step env (Call_delete_service_port idx) t0 (''service_port['' @ show_int idx @ '']'') (Num idx)
       PyNone"
| "execute_olt env t0 (OltOmciPppoe f n i v u pw) =
     and_then (refuse_unset [(''wan_vlan'', SInt v)]) (\<lambda>_.
       and_then (resolve_or_fail env pw) (\<lambda>password.
         olt_step env (Call_configure_pppoe f n i v u password) t0 ''omci_pppoe'' PyNone (Str u)))"
| "execute_olt env t0 (OltOmciInternetConfig f n i) =
     olt_step env (Call_configure_internet_config f n i) t0 ''omci_internet_config'' PyNone (Num i)"
| "execute_olt env t0 (OltOmciWanConfig f n i p) =
     olt_step env (Call_configure_wan_config f n i p) t0 ''omci_wan_config'' PyNone (Num p)"
| "execute_olt env t0 (OltReset f n) =
     olt_step env (Call_reboot_ont f n) t0 ''ont_reset'' PyNone PyNone"

definition last_segment :: "string \<Rightarrow> string" where
  "last_segment path = last (split_char (CHR ''.'') path)"

definition rstrip_dots :: "string \<Rightarrow> string" where
  "rstrip_dots path = rev (dropWhile (\<lambda>c. c = CHR ''.'') (rev path))"

definition execute_wifi_config :: "'w env \<Rightarrow> rat \<Rightarrow> string \<Rightarrow> wifi_paths_t \<Rightarrow> bool option \<Rightarrow>
    string option \<Rightarrow> string option \<Rightarrow> int option \<Rightarrow> string option \<Rightarrow> ('w, applied_action) exec" where
  "execute_wifi_config env t0 dev paths en ssid psk ch sec =
     and_then (refuse_unset
         ((case ssid of None \<Rightarrow> [] | Some s \<Rightarrow> [(''wifi_ssid'', SStr s)]) @
          (case psk of None \<Rightarrow> [] | Some s \<Rightarrow> [(''wifi_password_ref'', SStr s)]))) (\<lambda>_.
     and_then (case psk of
         None \<Rightarrow> ret None
       | Some r \<Rightarrow> and_then (resolve_or_fail env r) (\<lambda>pw. ret (Some pw))) (\<lambda>password.
       (let entries =
              optional_entry en (wp_enabled paths) SBool ''wifi_enabled'' @
              optional_entry ssid (wp_ssid paths) SStr ''wifi_ssid'' @
              optional_entry ch (wp_channel paths) SInt ''wifi_channel'' @
              optional_entry sec (wp_security_mode paths) SStr ''wifi_security_mode'' @
              optional_entry password (wp_psk_path paths) SStr ''wifi_password_ref'';
            changed = map snd entries
        in if entries = [] then halt INVALID_CHANGE ''WiFi action contained no changed fields''
           else acs_write env dev (dict_of (map fst entries)) t0 ''acs_wifi_config''
             (Str (join_with '','' changed)) (Some [(''changed_fields'', Ev_list changed)]))))"

definition execute_remote_access :: "'w env \<Rightarrow> rat \<Rightarrow> string \<Rightarrow> remote_access_paths_t \<Rightarrow> bool option \<Rightarrow>
    int option \<Rightarrow> bool option \<Rightarrow> ('w, applied_action) exec" where
  "execute_remote_access env t0 dev paths ssh port telnet =
     (let entries =
            optional_entry ssh (ra_ssh_enabled paths) SBool ''ssh_enabled'' @
            optional_entry port (ra_ssh_port paths) SInt ''ssh_port'' @
            optional_entry telnet (ra_telnet_enabled paths) SBool ''telnet_enabled''
      in if entries = [] then halt INVALID_CHANGE ''remote-access action contained no changed fields''
         else acs_write env dev (dict_of (map fst entries)) t0 ''acs_remote_access''
           (Str (join_with '','' (map snd entries))) None)"

definition execute_management_server :: "'w env \<Rightarrow> rat \<Rightarrow> string \<Rightarrow> string \<Rightarrow> string \<Rightarrow> int \<Rightarrow> string \<Rightarrow>
    string option \<Rightarrow> string option \<Rightarrow> string option \<Rightarrow> ('w, applied_action) exec" where
  "execute_management_server env t0 dev u pw interval rt url acs_user acs_pw =
     and_then (refuse_unset [(''cr_username'', SStr u), (''cr_password_ref'', SStr pw)]) (\<lambda>_.
     and_then (resolve_or_fail env pw) (\<lambda>cr_password.
       (let b = rt @ ''.ManagementServer'' in
        and_then (acs_set env dev (dict_of
            [(b @ ''.ConnectionRequestUsername'', SStr u), (b @ ''.ConnectionRequestPassword'', SStr cr_password),
             (b @ ''.PeriodicInformEnable'', SBool True), (b @ ''.PeriodicInformInterval'', SInt interval)])) (\<lambda>_.
        and_then
          (if truthy_str url then
             and_then (resolve_or_fail env (str_or acs_pw [])) (\<lambda>acs_password.
               acs_set env dev (dict_of [(b @ ''.URL'', ostr url), (b @ ''.Username'', SStr (str_or acs_user [])),
                 (b @ ''.Password'', SStr acs_password)]))
           else ret ()) (\<lambda>_.
          ok_action env Acs t0 ''acs_management_server'' PyNone (Num interval) None)))))"

fun execute_acs :: "'w env \<Rightarrow> rat \<Rightarrow> acs_action \<Rightarrow> ('w, applied_action) exec" where
  "execute_acs env t0 (AcsAddObject dev path wcd) =
     and_then (require_add_object_layout path wcd) (\<lambda>rendered.
     and_then (guarded_call ''addObject failed: '' (env_add_object env dev path)) (\<lambda>_.
     and_then (if rendered = None then ret None
               else discover_wan_ppp_instance_index env dev path) (\<lambda>found.
     and_then (remember_instance rendered found) (\<lambda>_.
       ok_action env Acs t0 (''add_object['' @ last_segment path @ '']'') PyNone (Str path) None))))"
| "execute_acs env t0 (AcsArmDiagnostic dev ps lab) =
     acs_write env dev (dict_of ps) t0 ''acs_arm_diagnostic'' (Str lab) None"
| "execute_acs env t0 (AcsDeleteObject dev path) =
     and_then (guarded_call ''deleteObject failed: '' (env_delete_object env dev path)) (\<lambda>_.
       ok_action env Acs t0 (''delete_object['' @ last_segment (rstrip_dots path) @ '']'') (Str path) PyNone
         None)"
| "execute_acs env t0 (AcsSetPppoe dev w i u pw v) =
     and_then (refuse_unset [(''wan_pppoe_wcd_index'', SInt w), (''wan_vlan'', SInt v)]) (\<lambda>_.
     and_then (resolve_or_fail env pw) (\<lambda>password.
     and_then (instance_for w i) (\<lambda>inst.
       acs_write env dev (pppoe_params w inst u password v) t0 ''acs_pppoe'' (Str u) None)))"
| "execute_acs env t0 (AcsSetWifiSsid dev ssid) =
     and_then (refuse_unset [(''wifi_ssid'', SStr ssid)]) (\<lambda>_.
       acs_write env dev [(''InternetGatewayDevice.LANDevice.1.WLANConfiguration.1.SSID'', SStr ssid)] t0
         ''acs_ssid'' (Str ssid) None)"
| "execute_acs env t0 (AcsSetWifiPassword dev pw) =
     and_then (refuse_unset [(''wifi_password_ref'', SStr pw)]) (\<lambda>_.
     and_then (resolve_or_fail env pw) (\<lambda>password.
       acs_write env dev [(''InternetGatewayDevice.LANDevice.1.WLANConfiguration.1.PreSharedKey.1.KeyPassphrase'',
           SStr password)] t0 ''acs_wifi_password'' (Str ''[redacted]'') None))"
| "execute_acs env t0 (AcsSetWifiConfig dev paths en ssid psk ch sec) =
     execute_wifi_config env t0 dev paths en ssid psk ch sec"
| "execute_acs env t0 (AcsSetRemoteAccess dev paths ssh port telnet) =
     execute_remote_access env t0 dev paths ssh port telnet"
| "execute_acs env t0 (AcsSetNatEnabled dev w i en) =
     and_then (refuse_unset [(''wan_pppoe_wcd_index'', SInt w)]) (\<lambda>_.
     and_then (instance_for w i) (\<lambda>inst.
       acs_write env dev [(ppp_base w inst @ ''NATEnabled'', SBool en)] t0 ''acs_nat_enabled'' (Flag en) None))"
| "execute_acs env t0 (AcsSetIpv6 dev i en req prov) =
     and_then (refuse_unknown_provenance ''ipv6_enabled'' prov) (\<lambda>_.
       acs_write env dev (ipv6_params i en req) t0 ''acs_ipv6_enabled'' (Flag en) None)"
| "execute_acs env t0 (AcsSetWanIp dev rt w i md v nt ip msk gw dns paths) =
     and_then (refuse_unset [(''wan_pppoe_wcd_index'', SInt w), (''wan_vlan'', SInt v)]) (\<lambda>_.
       if rt = ''Device'' then
         (case paths of
            None \<Rightarrow> halt ACS_WRITE_FAULTED ''TR-181 WAN requires a resolved vendor/model parameter map''
          | Some ps \<Rightarrow> acs_write env dev (wan_ip_device_params ps md v nt ip msk gw dns) t0
              ''acs_wan_ip_mode'' (Str md) None)
       else acs_write env dev (wan_ip_igd_params w i md v nt ip msk gw dns) t0 ''acs_wan_ip_mode'' (Str md)
         None)"
| "execute_acs env t0 (AcsSetDhcpServer dev en lo hi msk gw) =
     acs_write env dev (dhcp_params en lo hi msk gw) t0 ''acs_dhcp_server'' (Flag en) None"
| "execute_acs env t0 (AcsSetManagementServer dev u pw interval rt url acs_user acs_pw) =
     execute_management_server env t0 dev u pw interval rt url acs_user acs_pw"

text \<open>\<open>_execute\<close>: the clock is read first.\<close>

definition execute :: "'w env \<Rightarrow> action \<Rightarrow> ('w, applied_action) exec" where
  "execute env a =
     and_then (in_world (env_mono env)) (\<lambda>t0.
       case a of OltA x \<Rightarrow> execute_olt env t0 x | AcsA x \<Rightarrow> execute_acs env t0 x)"

subsection \<open>\<open>apply_plan\<close>\<close>

record refused_action =
  ref_action_name :: string
  ref_purpose :: ppp_purpose
  ref_refusal :: ppp_refusal

record apply_result =
  ar_success :: bool
  ar_actions_applied :: "applied_action list"
  ar_halted_by :: "reconcile_failure option"
  ar_refused_ppp :: "refused_action list"

definition mk_failure :: "failure_reason \<Rightarrow> string \<Rightarrow> evidence option \<Rightarrow> reconcile_failure" where
  "mk_failure r msg ev = \<lparr>rf_reason = r, rf_message = msg, rf_evidence = ev\<rparr>"

definition ppp_allowed :: "ppp_ruling option \<Rightarrow> ppp_scope option \<Rightarrow> bool" where
  "ppp_allowed ruling sc = (case ruling of None \<Rightarrow> False | Some r \<Rightarrow> authorizes r sc)"

definition ppp_refusal_of :: "ppp_ruling option \<Rightarrow> ppp_refusal" where
  "ppp_refusal_of ruling =
     (case ruling of
        None \<Rightarrow> No_active_service_intent
      | Some r \<Rightarrow> (case ru_refusal r of Some x \<Rightarrow> x | None \<Rightarrow> Scope_mismatch))"

text \<open>The loop; \<open>done\<close> and \<open>refd\<close> are the two lists it has appended to so far.\<close>

fun apply_loop :: "'w env \<Rightarrow> bool \<Rightarrow> ppp_refusal \<Rightarrow> datetime option \<Rightarrow> action list \<Rightarrow>
    applied_action list \<Rightarrow> refused_action list \<Rightarrow> ('w, apply_result) exec" where
  "apply_loop env allowed refusal deadline [] applied refd s =
     (Ret \<lparr>ar_success = True, ar_actions_applied = applied, ar_halted_by = None,
        ar_refused_ppp = refd\<rparr>, s)"
| "apply_loop env allowed refusal deadline (a # acts) applied refd s =
     (if \<not> allowed \<and> classify_action a \<noteq> Not_ppp then
        apply_loop env allowed refusal deadline acts applied
          (refd @ [\<lparr>ref_action_name = action_name a, ref_purpose = classify_action a,
             ref_refusal = refusal\<rparr>]) s
      else
        (let (expired, s1) = (case deadline of
               None \<Rightarrow> (False, s)
             | Some dl \<Rightarrow> (let (now, w) = env_utc env (fst s) in (now \<ge> dl, w, snd s)))
         in if expired then
              (Ret \<lparr>ar_success = False, ar_actions_applied = applied,
                 ar_halted_by = Some (mk_failure TIMEOUT
                   (''apply deadline exceeded before '' @ action_name a) None),
                 ar_refused_ppp = refd\<rparr>, s1)
            else case execute env a s1 of
                (Ret x, s2) \<Rightarrow> apply_loop env allowed refusal deadline acts (applied @ [x]) refd s2
              | (Halt (Apply_error r msg ev), s2) \<Rightarrow>
                  (Ret \<lparr>ar_success = False, ar_actions_applied = applied,
                     ar_halted_by = Some (mk_failure r msg ev), ar_refused_ppp = refd\<rparr>, s2)
              | (Raised e, s2) \<Rightarrow> (Raised e, s2)))"

definition apply_plan :: "'w env \<Rightarrow> action list \<Rightarrow> ppp_ruling option \<Rightarrow> ppp_scope option \<Rightarrow>
    datetime option \<Rightarrow> ('w, apply_result) exec" where
  "apply_plan env acts ruling sc deadline =
     apply_loop env (ppp_allowed ruling sc) (ppp_refusal_of ruling) deadline acts [] []"

subsection \<open>A sample environment\<close>

text \<open>
  The world is the list of OLT calls made so far. The adapter accepts every call but a reboot, which
  it rejects; the ACS accepts every write and reports no created instance; the clocks stand still.
\<close>

definition sample_env :: "(olt_call list) env" where
  "sample_env = \<lparr>
     env_olt = (\<lambda>c w. (Inr \<lparr>or_success = (case c of Call_reboot_ont f n \<Rightarrow> False | _ \<Rightarrow> True), or_message = ''busy'',
       or_error_code = None, or_huawei_response = None\<rparr>, w @ [c])),
     env_set = (\<lambda>dev ps w. (Inr \<lparr>at_connection_request_error = None, at_fault = None\<rparr>, w)),
     env_add_object = (\<lambda>dev path w. (Inr (), w)), env_delete_object = (\<lambda>dev path w. (Inr (), w)),
     env_can_probe = False, env_refresh = (\<lambda>dev path w. (Inr (), w)), env_list = (\<lambda>dev path w. (Inr [], w)),
     env_secret = (\<lambda>ref w. (Inr (Some ref), w)), env_mono = (\<lambda>w. (0, w)), env_utc = (\<lambda>w. (0, w))\<rparr>"

definition sample_plan :: "action list" where
  "sample_plan = [OltA (OltModifyDescription ''0/1/2'' 7 ''acct 1001''),
     OltA (OltDeleteServicePort 9 ''wan''), OltA (OltReset ''0/1/2'' 7),
     OltA (OltModifyLineProfile ''0/1/2'' 7 40)]"

end
