(* ===== verification/Observation.thy ===== *)
theory Observation
  imports Ont_State Sample_Ont
begin

section \<open>The persisted observation\<close>

text \<open>
  Models \<open>upsert_ont_observation\<close> and \<open>observed_from_ont_observation\<close> of
  \<open>app/services/network/reconcile/adapters.py\<close> over the columns of the observation row they use. The
  row of an ONT is created or overwritten: every column is assigned, so the result does not depend on
  the old row.
\<close>

record observation_row =
  row_last_reconciled_at :: datetime
  row_last_reconcile_duration_ms :: int
  row_mgmt_ip_pingable :: bool
  row_olt_present :: bool
  row_olt_match_state :: "string option"
  row_olt_run_state :: "string option"
  row_olt_distance_m :: "int option"
  row_olt_rx_dbm :: "rat option"
  row_olt_tx_dbm :: "rat option"
  row_olt_temperature_c :: "int option"
  row_olt_description :: "string option"
  row_olt_mgmt_ip :: "string option"
  row_olt_mgmt_vlan :: "int option"
  row_olt_line_profile_id :: "int option"
  row_olt_service_profile_id :: "int option"
  row_olt_service_ports :: "service_port_entry list"
  row_olt_tr069_profile_id :: "int option"
  row_acs_present :: bool
  row_acs_last_inform_at :: "datetime option"
  row_acs_last_boot_at :: "datetime option"
  row_acs_last_bootstrap_at :: "datetime option"
  row_acs_observed_software_version :: "string option"
  row_acs_observed_pppoe_username :: "string option"
  row_acs_observed_pppoe_enable :: "bool option"
  row_acs_observed_wan_vlan :: "int option"
  row_acs_observed_wan_external_ip :: "string option"
  row_acs_observed_wan_connection_status :: "string option"
  row_acs_observed_nat_enabled :: "bool option"
  row_acs_observed_dhcp_enabled :: "bool option"
  row_acs_observed_ssid :: "string option"
  row_acs_observed_periodic_inform_interval_sec :: "int option"
  row_acs_observed_cr_username_set :: "bool option"
  row_acs_observed_cr_password_set :: "bool option"
  row_acs_observed_wan_wcd_index :: "int option"
  row_acs_observed_wan_instance_index :: "int option"
  row_acs_data_model_root :: "string option"
  row_acs_observed_ipv6_enabled :: "bool option"
  row_acs_observed_wan_ip_enable :: "bool option"
  row_acs_observed_wan_addressing_type :: "string option"
  row_acs_observed_wan_ip_address :: "string option"
  row_acs_observed_wan_subnet_mask :: "string option"
  row_acs_observed_wan_gateway :: "string option"
  row_acs_observed_wan_dns_servers :: "string option"
  row_acs_observed_dhcpv6_enabled :: "bool option"
  row_acs_observed_dhcpv6_request_prefixes :: "bool option"
  row_acs_observed_ra_enabled :: "bool option"
  row_acs_observed_wifi_enabled :: "bool option"
  row_acs_observed_wifi_channel :: "int option"
  row_acs_observed_wifi_security_mode :: "string option"
  row_acs_observed_wifi_instance_index :: "int option"
  row_acs_observed_remote_ssh_enabled :: "bool option"
  row_acs_observed_remote_ssh_port :: "int option"
  row_acs_observed_remote_telnet_enabled :: "bool option"
  row_acs_observed_remote_telnet_port :: "int option"

fun observed_from_ont_observation :: "observation_row option \<Rightarrow> ont_observed option" where
  "observed_from_ont_observation None = None"
| "observed_from_ont_observation (Some r) = Some
     \<lparr>last_reconciled_at = row_last_reconciled_at r,
      last_reconcile_duration_ms = row_last_reconcile_duration_ms r,
      mgmt_ip_pingable = row_mgmt_ip_pingable r, consecutive_sweep_unreachable = 0,
      obs_olt =
       \<lparr>olt_present = row_olt_present r, olt_match_state = row_olt_match_state r,
        olt_run_state = row_olt_run_state r, olt_distance_m = row_olt_distance_m r,
        olt_rx_dbm = row_olt_rx_dbm r, olt_tx_dbm = row_olt_tx_dbm r,
        olt_temperature_c = row_olt_temperature_c r, olt_description = row_olt_description r,
        olt_mgmt_ip = row_olt_mgmt_ip r, olt_mgmt_vlan = row_olt_mgmt_vlan r,
        olt_line_profile_id = row_olt_line_profile_id r,
        olt_service_profile_id = row_olt_service_profile_id r,
        olt_service_ports = row_olt_service_ports r, olt_tr069_profile_id = row_olt_tr069_profile_id r\<rparr>,
      obs_acs =
       \<lparr>acs_present = row_acs_present r, acs_last_inform_at = row_acs_last_inform_at r,
        acs_last_boot_at = row_acs_last_boot_at r, acs_last_bootstrap_at = row_acs_last_bootstrap_at r,
        acs_observed_software_version = row_acs_observed_software_version r,
        acs_observed_pppoe_username = row_acs_observed_pppoe_username r,
        acs_observed_pppoe_enable = row_acs_observed_pppoe_enable r,
        acs_observed_wan_vlan = row_acs_observed_wan_vlan r,
        acs_observed_wan_external_ip = row_acs_observed_wan_external_ip r,
        acs_observed_wan_connection_status = row_acs_observed_wan_connection_status r,
        acs_observed_nat_enabled = row_acs_observed_nat_enabled r,
        acs_observed_dhcp_enabled = row_acs_observed_dhcp_enabled r,
        acs_observed_ssid = row_acs_observed_ssid r,
        acs_observed_periodic_inform_interval_sec = row_acs_observed_periodic_inform_interval_sec r,
        acs_observed_cr_username = None,
        acs_observed_cr_username_set = row_acs_observed_cr_username_set r,
        acs_observed_cr_password_set = row_acs_observed_cr_password_set r,
        acs_observed_wan_wcd_index = row_acs_observed_wan_wcd_index r,
        acs_observed_wan_instance_index = row_acs_observed_wan_instance_index r,
        acs_observed_wan_ppp_locations = [], acs_data_model_root = row_acs_data_model_root r,
        acs_observed_ipv6_enabled = row_acs_observed_ipv6_enabled r,
        acs_observed_wan_ip_enable = row_acs_observed_wan_ip_enable r,
        acs_observed_wan_addressing_type = row_acs_observed_wan_addressing_type r,
        acs_observed_wan_ip_address = row_acs_observed_wan_ip_address r,
        acs_observed_wan_subnet_mask = row_acs_observed_wan_subnet_mask r,
        acs_observed_wan_gateway = row_acs_observed_wan_gateway r,
        acs_observed_wan_dns_servers = row_acs_observed_wan_dns_servers r,
        acs_observed_dhcpv6_enabled = row_acs_observed_dhcpv6_enabled r,
        acs_observed_dhcpv6_request_prefixes = row_acs_observed_dhcpv6_request_prefixes r,
        acs_observed_ra_enabled = row_acs_observed_ra_enabled r, acs_observed_url = None,
        acs_observed_username = None, acs_observed_password_set = None,
        acs_observed_wifi_enabled = row_acs_observed_wifi_enabled r,
        acs_observed_wifi_channel = row_acs_observed_wifi_channel r,
        acs_observed_wifi_security_mode = row_acs_observed_wifi_security_mode r,
        acs_observed_wifi_instance_index = row_acs_observed_wifi_instance_index r,
        acs_observed_remote_ssh_enabled = row_acs_observed_remote_ssh_enabled r,
        acs_observed_remote_ssh_port = row_acs_observed_remote_ssh_port r,
        acs_observed_remote_telnet_enabled = row_acs_observed_remote_telnet_enabled r,
        acs_observed_remote_telnet_port = row_acs_observed_remote_telnet_port r,
        acs_observed_device_id = None, acs_observed_device_match_count = 0\<rparr>\<rparr>"

definition upsert_ont_observation :: "ont_observed \<Rightarrow> observation_row" where
  "upsert_ont_observation ob =
     \<lparr>row_last_reconciled_at = last_reconciled_at ob,
      row_last_reconcile_duration_ms = last_reconcile_duration_ms ob,
      row_mgmt_ip_pingable = mgmt_ip_pingable ob, row_olt_present = olt_present (obs_olt ob),
      row_olt_match_state = olt_match_state (obs_olt ob),
      row_olt_run_state = olt_run_state (obs_olt ob), row_olt_distance_m = olt_distance_m (obs_olt ob),
      row_olt_rx_dbm = olt_rx_dbm (obs_olt ob), row_olt_tx_dbm = olt_tx_dbm (obs_olt ob),
      row_olt_temperature_c = olt_temperature_c (obs_olt ob),
      row_olt_description = olt_description (obs_olt ob), row_olt_mgmt_ip = olt_mgmt_ip (obs_olt ob),
      row_olt_mgmt_vlan = olt_mgmt_vlan (obs_olt ob),
      row_olt_line_profile_id = olt_line_profile_id (obs_olt ob),
      row_olt_service_profile_id = olt_service_profile_id (obs_olt ob),
      row_olt_service_ports = olt_service_ports (obs_olt ob),
      row_olt_tr069_profile_id = olt_tr069_profile_id (obs_olt ob),
      row_acs_present = acs_present (obs_acs ob),
      row_acs_last_inform_at = acs_last_inform_at (obs_acs ob),
      row_acs_last_boot_at = acs_last_boot_at (obs_acs ob),
      row_acs_last_bootstrap_at = acs_last_bootstrap_at (obs_acs ob),
      row_acs_observed_software_version = acs_observed_software_version (obs_acs ob),
      row_acs_observed_pppoe_username = acs_observed_pppoe_username (obs_acs ob),
      row_acs_observed_pppoe_enable = acs_observed_pppoe_enable (obs_acs ob),
      row_acs_observed_wan_vlan = acs_observed_wan_vlan (obs_acs ob),
      row_acs_observed_wan_external_ip = acs_observed_wan_external_ip (obs_acs ob),
      row_acs_observed_wan_connection_status = acs_observed_wan_connection_status (obs_acs ob),
      row_acs_observed_nat_enabled = acs_observed_nat_enabled (obs_acs ob),
      row_acs_observed_dhcp_enabled = acs_observed_dhcp_enabled (obs_acs ob),
      row_acs_observed_ssid = acs_observed_ssid (obs_acs ob),
      row_acs_observed_periodic_inform_interval_sec = acs_observed_periodic_inform_interval_sec (obs_acs ob),
      row_acs_observed_cr_username_set = acs_observed_cr_username_set (obs_acs ob),
      row_acs_observed_cr_password_set = acs_observed_cr_password_set (obs_acs ob),
      row_acs_observed_wan_wcd_index = acs_observed_wan_wcd_index (obs_acs ob),
      row_acs_observed_wan_instance_index = acs_observed_wan_instance_index (obs_acs ob),
      row_acs_data_model_root = acs_data_model_root (obs_acs ob),
      row_acs_observed_ipv6_enabled = acs_observed_ipv6_enabled (obs_acs ob),
      row_acs_observed_wan_ip_enable = acs_observed_wan_ip_enable (obs_acs ob),
      row_acs_observed_wan_addressing_type = acs_observed_wan_addressing_type (obs_acs ob),
      row_acs_observed_wan_ip_address = acs_observed_wan_ip_address (obs_acs ob),
      row_acs_observed_wan_subnet_mask = acs_observed_wan_subnet_mask (obs_acs ob),
      row_acs_observed_wan_gateway = acs_observed_wan_gateway (obs_acs ob),
      row_acs_observed_wan_dns_servers = acs_observed_wan_dns_servers (obs_acs ob),
      row_acs_observed_dhcpv6_enabled = acs_observed_dhcpv6_enabled (obs_acs ob),
      row_acs_observed_dhcpv6_request_prefixes = acs_observed_dhcpv6_request_prefixes (obs_acs ob),
      row_acs_observed_ra_enabled = acs_observed_ra_enabled (obs_acs ob),
      row_acs_observed_wifi_enabled = acs_observed_wifi_enabled (obs_acs ob),
      row_acs_observed_wifi_channel = acs_observed_wifi_channel (obs_acs ob),
      row_acs_observed_wifi_security_mode = acs_observed_wifi_security_mode (obs_acs ob),
      row_acs_observed_wifi_instance_index = acs_observed_wifi_instance_index (obs_acs ob),
      row_acs_observed_remote_ssh_enabled = acs_observed_remote_ssh_enabled (obs_acs ob),
      row_acs_observed_remote_ssh_port = acs_observed_remote_ssh_port (obs_acs ob),
      row_acs_observed_remote_telnet_enabled = acs_observed_remote_telnet_enabled (obs_acs ob),
      row_acs_observed_remote_telnet_port = acs_observed_remote_telnet_port (obs_acs ob)\<rparr>"

text \<open>What an observation loses by being persisted: values that are only read live.\<close>

definition persisted_view :: "ont_observed \<Rightarrow> ont_observed" where
  "persisted_view ob = ob\<lparr>consecutive_sweep_unreachable := 0,
     obs_acs := (obs_acs ob)\<lparr>acs_observed_cr_username := None, acs_observed_wan_ppp_locations := [],
       acs_observed_url := None, acs_observed_username := None, acs_observed_password_set := None,
       acs_observed_device_id := None, acs_observed_device_match_count := 0\<rparr>\<rparr>"

text \<open>
  C15: a persisted observation reads back. The row written for an observation gives the same
  observation back in every field but the seven that only a live read carries, among them the ACS
  device id, the match count and the endpoint credentials; persisting what was read back changes
  nothing more.
\<close>

theorem observation_round_trip:
  "observed_from_ont_observation (Some (upsert_ont_observation ob)) = Some (persisted_view ob) \<and>
   upsert_ont_observation (persisted_view ob) = upsert_ont_observation ob"
  by (simp add: upsert_ont_observation_def persisted_view_def)

end
