(* ===== verification/Ipv4.thy ===== *)
theory Ipv4
  imports Prelude
begin

section \<open>IPv4 addresses and masks\<close>

text \<open>
  The part of Python's \<open>ipaddress\<close> the code uses (\<open>IPv4Address(text)\<close>, \<open>IPv4Network(text,
  strict=False)\<close>, membership and printing), with the texts of its errors, and
  \<open>_mask_to_prefix\<close> of \<open>app/services/network/reconcile/validator.py\<close>. An address is a 32-bit
  word. The left of a result is the text of the exception raised.
\<close>

unbundle bit_operations_syntax

type_synonym ipv4 = "32 word"

subsection \<open>Parsing and printing\<close>

definition py_int_of_digits :: "string \<Rightarrow> nat" where
  "py_int_of_digits s = nat_of_digits s"

definition parse_octet :: "string \<Rightarrow> string + nat" where
  "parse_octet s =
     (if s = [] then Inl ''Empty octet not permitted''
      else if \<not> list_all is_digit s then Inl (''Only decimal digits permitted in '' @ py_repr s)
      else if length s > 3 then Inl (''At most 3 characters permitted in '' @ py_repr s)
      else if s \<noteq> ''0'' \<and> hd s = CHR ''0'' then
        Inl (''Leading zeros are not permitted in '' @ py_repr s)
      else if py_int_of_digits s > 255 then
        Inl (''Octet '' @ show_nat (py_int_of_digits s) @ '' (> 255) not permitted'')
      else Inr (py_int_of_digits s))"

text \<open>\<open>map(_parse_octet, octets)\<close> stops at the first octet that raises.\<close>

fun parse_octets :: "string list \<Rightarrow> string + nat list" where
  "parse_octets [] = Inr []"
| "parse_octets (o1 # os) =
     (case parse_octet o1 of
        Inl e \<Rightarrow> Inl e
      | Inr n \<Rightarrow> (case parse_octets os of Inl e \<Rightarrow> Inl e | Inr ns \<Rightarrow> Inr (n # ns)))"

definition word_of_octets :: "nat list \<Rightarrow> ipv4" where
  "word_of_octets ns = foldl (\<lambda>w n. push_bit 8 w OR of_nat n) 0 ns"

definition ipv4_parse :: "string \<Rightarrow> string + ipv4" where
  "ipv4_parse s =
     (if CHR ''/'' \<in> set s then Inl (''Unexpected '' @ [CHR 0x27, CHR ''/'', CHR 0x27] @
        '' in '' @ py_repr s)
      else if s = [] then Inl ''Address cannot be empty''
      else let octets = split_char (CHR ''.'') s in
        if length octets \<noteq> 4 then Inl (''Expected 4 octets in '' @ py_repr s)
        else case parse_octets octets of
          Inl e \<Rightarrow> Inl (e @ '' in '' @ py_repr s)
        | Inr ns \<Rightarrow> Inr (word_of_octets ns))"

definition octet :: "nat \<Rightarrow> ipv4 \<Rightarrow> nat" where
  "octet i w = unat (drop_bit (8 * i) w AND 255)"

definition show_ip :: "ipv4 \<Rightarrow> string" where
  "show_ip w = join_with ''.'' (map (\<lambda>i. show_nat (octet i w)) [3, 2, 1, 0])"

subsection \<open>Networks\<close>

text \<open>\<open>ALL_ONES ^ (ALL_ONES >> prefixlen)\<close>.\<close>

definition netmask :: "nat \<Rightarrow> ipv4" where
  "netmask p = (- 1) XOR drop_bit p (- 1)"

record ipv4_network =
  network_address :: ipv4
  prefixlen :: nat

text \<open>\<open>IPv4Network(f"{ip}/{prefix}", strict=False)\<close> masks the host bits away.\<close>

definition make_network :: "ipv4 \<Rightarrow> nat \<Rightarrow> ipv4_network" where
  "make_network a p = \<lparr>network_address = a AND netmask p, prefixlen = p\<rparr>"

definition in_network :: "ipv4 \<Rightarrow> ipv4_network \<Rightarrow> bool" where
  "in_network a n \<longleftrightarrow> a AND netmask (prefixlen n) = network_address n"

definition show_network :: "ipv4_network \<Rightarrow> string" where
  "show_network n = show_ip (network_address n) @ ''/'' @ show_nat (prefixlen n)"

lemma in_own_network [simp]: "in_network a (make_network a p)"
  by (simp add: in_network_def make_network_def)

lemma bit_netmask: "bit (netmask p) i \<longleftrightarrow> i < 32 \<and> 32 \<le> i + p"
  by (auto simp: netmask_def bit_simps)

lemma in_network_iff:
  "in_network b (make_network a p) \<longleftrightarrow> (\<forall>i < 32. 32 \<le> i + p \<longrightarrow> bit b i = bit a i)"
  by (auto simp: in_network_def make_network_def bit_eq_iff bit_simps bit_netmask)

text \<open>
  Addresses that share a prefix enclose only addresses that share it: a range whose ends lie in a
  network lies in it.
\<close>

lemma in_network_drop_bit:
  assumes "p \<le> 32"
  shows "in_network b (make_network a p) \<longleftrightarrow> drop_bit (32 - p) b = drop_bit (32 - p) a"
proof -
  have "drop_bit (32 - p) b = drop_bit (32 - p) a \<longleftrightarrow>
      (\<forall>i < 32. bit b (32 - p + i) = bit a (32 - p + i))"
    by (simp add: bit_eq_iff bit_drop_bit_eq)
  also have "\<dots> \<longleftrightarrow> (\<forall>i < 32. 32 \<le> i + p \<longrightarrow> bit b i = bit a i)"
  proof safe
    fix i assume a: "\<forall>i < 32. bit b (32 - p + i) = bit a (32 - p + i)" and i: "i < 32" "32 \<le> i + p"
    from a [rule_format, of "i - (32 - p)"] i
    show "bit b i \<Longrightarrow> bit a i" and "bit a i \<Longrightarrow> bit b i" by simp_all
  next
    fix i assume h: "\<forall>i < 32. 32 \<le> i + p \<longrightarrow> bit b i = bit a i"
    have e: "bit b (32 - p + i) = bit a (32 - p + i)"
    proof (cases "32 - p + i < 32")
      case True
      with h assms show ?thesis by auto
    next
      case False
      then show ?thesis
        using bit_imp_le_length [of b "32 - p + i"] bit_imp_le_length [of a "32 - p + i"] by auto
    qed
    then show "bit b (32 - p + i) \<Longrightarrow> bit a (32 - p + i)"
      and "bit a (32 - p + i) \<Longrightarrow> bit b (32 - p + i)" by simp_all
  qed
  finally show ?thesis by (simp add: in_network_iff)
qed

lemma in_network_range:
  assumes p: "p \<le> 32" and h: "in_network hi (make_network lo p)" and le: "uint lo \<le> uint x" "uint x \<le> uint hi"
  shows "in_network x (make_network lo p)"
proof -
  have d: "uint (drop_bit (32 - p) w) = uint w div 2 ^ (32 - p)" for w :: ipv4
    using uint_range_size [of w]
    by (subst unsigned_drop_bit_eq) (simp add: drop_bit_eq_div take_bit_int_eq_self word_size)
  have "uint lo div 2 ^ (32 - p) \<le> uint x div 2 ^ (32 - p)"
    and "uint x div 2 ^ (32 - p) \<le> uint hi div 2 ^ (32 - p)"
    using le by (auto intro: zdiv_mono1)
  with h [unfolded in_network_drop_bit [OF p]] have "uint (drop_bit (32 - p) x) = uint (drop_bit (32 - p) lo)"
    using d by (metis order_antisym)
  then have "drop_bit (32 - p) x = drop_bit (32 - p) lo" by (simp only: word_uint_eq_iff)
  then show ?thesis by (simp only: in_network_drop_bit [OF p])
qed

subsection \<open>\<open>_mask_to_prefix\<close>\<close>

text \<open>\<open>bin(as_int)[2:].rjust(32, "0")\<close>: the 32 bits, most significant first.\<close>

definition binary32 :: "ipv4 \<Rightarrow> string" where
  "binary32 w = map (\<lambda>i. if bit w (31 - i) then CHR ''1'' else CHR ''0'') [0..<32]"

definition mask_to_prefix :: "string \<Rightarrow> string + nat" where
  "mask_to_prefix m =
     (case ipv4_parse m of
        Inl e \<Rightarrow> Inl (''invalid subnet mask: '' @ m)
      | Inr w \<Rightarrow>
          (if contains_str ''01'' (binary32 w) then Inl (''non-contiguous subnet mask: '' @ m)
           else Inr (count_list (binary32 w) (CHR ''1''))))"

text \<open>A bit string without the pattern 01 is a block of ones and then a block of zeros.\<close>

lemma no_01_shape:
  assumes "set s \<subseteq> {CHR ''0'', CHR ''1''}" and "\<not> contains_str ''01'' s"
  shows "s = replicate (count_list s (CHR ''1'')) (CHR ''1'') @
    replicate (length s - count_list s (CHR ''1'')) (CHR ''0'')"
  using assms
proof (induction s)
  case Nil
  then show ?case by simp
next
  case (Cons c cs)
  have nc: "\<not> contains_str ''01'' cs" and sub: "set cs \<subseteq> {CHR ''0'', CHR ''1''}"
    using Cons.prems by auto
  note ih = Cons.IH [OF sub nc]
  have le: "count_list cs (CHR ''1'') \<le> length cs" by (rule count_le_length)
  show ?case
  proof (cases "c = CHR ''1''")
    case True
    with ih le show ?thesis by (simp add: Suc_diff_le)
  next
    case False
    then have c: "c = CHR ''0''" using Cons.prems(1) by simp
    have "count_list cs (CHR ''1'') = 0"
    proof (rule ccontr)
      assume "count_list cs (CHR ''1'') \<noteq> 0"
      then obtain m where "count_list cs (CHR ''1'') = Suc m" by (cases "count_list cs (CHR ''1'')") auto
      with ih obtain r where "cs = CHR ''1'' # r" by (metis append_Cons replicate_Suc)
      with Cons.prems(2) c show False by simp
    qed
    with ih c False show ?thesis by (simp add: Suc_diff_le)
  qed
qed

lemma length_binary32 [simp]: "length (binary32 w) = 32"
  by (simp add: binary32_def)

lemma binary32_nth: "i < 32 \<Longrightarrow> binary32 w ! i = (if bit w (31 - i) then CHR ''1'' else CHR ''0'')"
  by (simp add: binary32_def)

lemma binary32_inj: "binary32 v = binary32 w \<Longrightarrow> v = w"
proof -
  assume e: "binary32 v = binary32 w"
  have "bit v i = bit w i" if "i < 32" for i
  proof -
    have "31 - i < 32" by simp
    from binary32_nth [OF this, of v] binary32_nth [OF this, of w] e that show ?thesis
      by (auto split: if_splits)
  qed
  then show ?thesis by (auto simp: bit_eq_iff)
qed

lemma binary32_netmask:
  "p \<le> 32 \<Longrightarrow> binary32 (netmask p) = replicate p (CHR ''1'') @ replicate (32 - p) (CHR ''0'')"
  by (rule nth_equalityI) (auto simp: binary32_nth nth_append bit_netmask)

lemma count_list_replicate: "count_list (replicate n x) y = (if x = y then n else 0)"
  by (induction n) auto

lemma count_binary32_netmask: "p \<le> 32 \<Longrightarrow> count_list (binary32 (netmask p)) (CHR ''1'') = p"
  by (simp add: binary32_netmask count_list_append count_list_replicate)

lemma binary32_contiguous_iff:
  "\<not> contains_str ''01'' (binary32 w) \<longleftrightarrow> (\<exists>p \<le> 32. w = netmask p)"
proof
  assume n: "\<not> contains_str ''01'' (binary32 w)"
  let ?p = "count_list (binary32 w) (CHR ''1'')"
  have p: "?p \<le> 32" using count_le_length [of "binary32 w" "CHR ''1''"] by simp
  have "set (binary32 w) \<subseteq> {CHR ''0'', CHR ''1''}" by (auto simp: binary32_def)
  from no_01_shape [OF this n] have "binary32 w = binary32 (netmask ?p)"
    by (simp add: binary32_netmask [OF p])
  with p show "\<exists>p \<le> 32. w = netmask p" using binary32_inj by blast
next
  assume "\<exists>p \<le> 32. w = netmask p"
  then obtain p where p: "p \<le> 32" and w: "w = netmask p" by blast
  show "\<not> contains_str ''01'' (binary32 w)"
  proof
    assume "contains_str ''01'' (binary32 w)"
    then obtain u v where "binary32 w = u @ ''01'' @ v" by (auto simp: contains_str_iff)
    then have "binary32 w ! length u = CHR ''0''" "binary32 w ! Suc (length u) = CHR ''1''"
      and "Suc (length u) < 32"
      using length_binary32 [of w] by (auto simp: nth_append simp del: length_binary32)
    then show False by (simp add: binary32_netmask [OF p, folded w] nth_append split: if_splits)
  qed
qed

lemma mask_to_prefix_Inr:
  "mask_to_prefix m = Inr p \<longleftrightarrow> p \<le> 32 \<and> ipv4_parse m = Inr (netmask p)"
proof
  assume a: "mask_to_prefix m = Inr p"
  then obtain w where w: "ipv4_parse m = Inr w" and n: "\<not> contains_str ''01'' (binary32 w)"
    and p: "p = count_list (binary32 w) (CHR ''1'')"
    by (auto simp: mask_to_prefix_def split: sum.splits if_splits)
  from n obtain q where q: "q \<le> 32" "w = netmask q" using binary32_contiguous_iff by blast
  with p have "p = q" by (simp add: count_binary32_netmask)
  with q w show "p \<le> 32 \<and> ipv4_parse m = Inr (netmask p)" by simp
next
  assume "p \<le> 32 \<and> ipv4_parse m = Inr (netmask p)"
  then show "mask_to_prefix m = Inr p"
    using binary32_contiguous_iff [of "netmask p"]
    by (auto simp: mask_to_prefix_def count_binary32_netmask)
qed

text \<open>
  A subnet mask is accepted exactly when it is contiguous. \<open>_mask_to_prefix\<close> returns a prefix
  length \<open>p\<close> if and only if the text is an IPv4 address that is the mask of \<open>p\<close> leading ones, with
  \<open>p\<close> at most 32; every other text, non-contiguous masks included, raises.
\<close>

theorem mask_to_prefix_iff:
  "mask_to_prefix m = Inr p \<longleftrightarrow> p \<le> 32 \<and> ipv4_parse m = Inr (netmask p)"
  by (rule mask_to_prefix_Inr)

subsection \<open>Printing and parsing are inverse\<close>

lemma length_show_nat: "n < 10 ^ Suc k \<Longrightarrow> length (show_nat n) \<le> Suc k"
proof (induction k arbitrary: n)
  case 0
  then show ?case by (subst show_nat.simps) simp
next
  case (Suc k)
  then have "n div 10 < 10 ^ Suc k" by simp
  from Suc.IH [OF this] show ?case by (subst show_nat.simps) simp
qed

lemma parse_octet_show_nat:
  assumes "n \<le> 255"
  shows "parse_octet (show_nat n) = Inr n"
proof -
  have "length (show_nat n) \<le> 3" using length_show_nat [of n 2] assms by simp
  moreover have "list_all is_digit (show_nat n)"
    by (auto simp: list_all_iff dest: show_nat_digits)
  moreover have "show_nat n \<noteq> ''0'' \<longrightarrow> hd (show_nat n) \<noteq> CHR ''0''"
  proof (cases "n = 0")
    case True
    then show ?thesis by (simp add: show_nat.simps digit_char_def)
  next
    case False
    moreover have "digit_char 0 = CHR ''0''" by code_simp
    ultimately show ?thesis using show_nat_hd [of n] by simp
  qed
  ultimately show ?thesis using assms by (auto simp: parse_octet_def py_int_of_digits_def)
qed

lemma show_nat_no_char: "\<not> is_digit c \<Longrightarrow> c \<notin> set (show_nat n)"
  by (auto dest: show_nat_digits)

lemma octet_le: "octet i w \<le> 255"
proof -
  have "drop_bit (8 * i) w AND 255 \<le> 255" by (rule word_and_le1)
  then show ?thesis by (simp add: octet_def word_le_nat_alt)
qed

lemma word_of_octets_octet: "word_of_octets (map (\<lambda>i. octet i w) [3, 2, 1, 0]) = w"
proof (rule bit_word_eqI)
  fix n assume n: "n < LENGTH(32)"
  have m: "(255 :: ipv4) = mask 8" by (simp add: mask_eq_exp_minus_1)
  consider "n < 8" | k where "n = 8 + k" "k < 8" | k where "n = 16 + k" "k < 8"
    | k where "n = 24 + k" "k < 8"
    using that(1) that(2) [of "n - 8"] that(3) [of "n - 16"] that(4) [of "n - 24"] n
    by (cases "n < 8"; cases "n < 16"; cases "n < 24") simp_all
  then show "bit (word_of_octets (map (\<lambda>i. octet i w) [3, 2, 1, 0])) n = bit w n"
    by cases (use n in \<open>auto simp: word_of_octets_def octet_def m bit_simps\<close>)
qed

lemma split_show_ip:
  "split_char (CHR ''.'') (show_ip w) = map (\<lambda>i. show_nat (octet i w)) [3, 2, 1, 0]"
proof -
  have n: "CHR ''.'' \<notin> set (show_nat k)" for k
    by (rule show_nat_no_char) (simp add: is_digit_def)
  show ?thesis
    using split_char_append [OF n] split_char_no_sep [OF n] by (simp add: show_ip_def)
qed

lemma ipv4_parse_dotted: "ipv4_parse (show_ip w) = Inr w"
proof -
  have ne: "show_ip w \<noteq> []" and ns: "CHR ''/'' \<notin> set (show_ip w)"
    using show_nat_no_char [of "CHR ''/''"] by (auto simp: show_ip_def is_digit_def)
  have p: "parse_octets (map (\<lambda>i. show_nat (octet i w)) [3, 2, 1, 0]) =
      Inr (map (\<lambda>i. octet i w) [3, 2, 1, 0])"
    using octet_le by (simp add: parse_octet_show_nat)
  have l: "length (map (\<lambda>i. show_nat (octet i w)) [3, 2, 1, 0]) = 4" by simp
  show ?thesis
    unfolding ipv4_parse_def split_show_ip Let_def p l
    using ne ns word_of_octets_octet [of w] by simp
qed

lemma mask_of_netmask:
  "p \<le> 32 \<Longrightarrow> mask_to_prefix (show_ip (netmask p)) = Inr p"
  using binary32_contiguous_iff [of "netmask p"]
  by (auto simp: mask_to_prefix_def ipv4_parse_dotted count_binary32_netmask)

text \<open>
  Addresses and masks survive printing and parsing. Parsing the dotted text \<open>str(ip)\<close> of any
  32-bit address gives that address back, and reading the printed mask of a prefix length gives
  the prefix length back.
\<close>

theorem ipv4_parse_show_ip:
  "ipv4_parse (show_ip w) = Inr w \<and> (p \<le> 32 \<longrightarrow> mask_to_prefix (show_ip (netmask p)) = Inr p)"
  using ipv4_parse_dotted mask_of_netmask by blast

theorem ipv4_parse_show_ip_witness: "mask_to_prefix (show_ip (netmask 26)) = Inr 26"
  using ipv4_parse_show_ip [of 0 26] by simp

end
