(* ===== verification/Validator.thy ===== *)
theory Validator
  imports Sample_Ont Ipv4
begin

section \<open>Validation of a proposed change\<close>

text \<open>
  Models \<open>app/services/network/reconcile/validator.py\<close> and the two predicates on stored secrets
  it calls (\<open>credential_crypto.is_encrypted\<close>, \<open>secrets.is_secret_ref\<close>). The reasons are the
  source's texts, the \<open>{exc}\<close> parts included, which \<^theory_text>\<open>Ipv4\<close> produces.
\<close>

subsection \<open>Outcome\<close>

record validation =
  v_ok :: bool
  v_reason :: "string option"

definition valid :: validation where
  "valid = \<lparr>v_ok = True, v_reason = None\<rparr>"

definition invalid :: "string \<Rightarrow> validation" where
  "invalid r = \<lparr>v_ok = False, v_reason = Some r\<rparr>"

text \<open>\<open>check = ...; if not check.ok: return check\<close>, followed by the rest of the function.\<close>

definition checked :: "validation \<Rightarrow> validation \<Rightarrow> validation" where
  "checked v rest = (if v_ok v then rest else v)"

lemma v_ok_simps [simp]: "v_ok valid" "\<not> v_ok (invalid r)"
  "v_ok (checked v rest) \<longleftrightarrow> v_ok v \<and> v_ok rest"
  by (simp_all add: valid_def invalid_def checked_def)

lemma v_ok_if [simp]: "v_ok (if b then x else y) \<longleftrightarrow> (if b then v_ok x else v_ok y)"
  by simp

subsection \<open>Stored secrets\<close>

definition starts_with :: "string \<Rightarrow> string \<Rightarrow> bool" where
  "starts_with s p \<longleftrightarrow> strip_prefix p s \<noteq> None"

definition is_encrypted :: "string \<Rightarrow> bool" where
  "is_encrypted v \<longleftrightarrow> v \<noteq> [] \<and> (starts_with v ''enc:'' \<or> starts_with v ''plain:'')"

definition is_secret_ref :: "string \<Rightarrow> bool" where
  "is_secret_ref v \<longleftrightarrow> v \<noteq> [] \<and>
     (starts_with v ''bao://'' \<or> starts_with v ''openbao://'' \<or> starts_with v ''vault://'' \<or>
      starts_with v ''env://'')"

subsection \<open>The rules\<close>

definition check_immutable_identity :: "ont_desired \<Rightarrow> ont_desired \<Rightarrow> validation" where
  "check_immutable_identity t c =
     (if ont_unit_id t \<noteq> ont_unit_id c then invalid ''ont_unit_id is immutable''
      else if serial_number t \<noteq> serial_number c then invalid ''serial_number is immutable''
      else if olt_id t \<noteq> olt_id c then
        invalid ''olt_id is immutable; use migrate_ont for cross-OLT moves''
      else if olt_ont_id t \<noteq> olt_ont_id c then invalid ''olt_ont_id is immutable post-creation''
      else valid)"

definition check_service_port_immutability :: "ont_desired \<Rightarrow> ont_desired \<Rightarrow> validation" where
  "check_service_port_immutability t c =
     (if mgmt_service_port_index c \<noteq> None \<and> mgmt_service_port_index t \<noteq> mgmt_service_port_index c
      then invalid ''mgmt_service_port_index is immutable post-allocation''
      else if wan_service_port_index c \<noteq> None \<and> wan_service_port_index t \<noteq> wan_service_port_index c
      then invalid ''wan_service_port_index is immutable post-allocation''
      else valid)"

definition check_wifi :: "ont_desired \<Rightarrow> ont_desired \<Rightarrow> validation" where
  "check_wifi t c =
     (if length (wifi_ssid t) > 32 then invalid ''wifi_ssid must be at most 32 characters''
      else if wifi_password_ref t \<noteq> wifi_password_ref c \<and> \<not> is_encrypted (wifi_password_ref t) \<and>
          \<not> is_secret_ref (wifi_password_ref t) \<and>
          \<not> (8 \<le> length (wifi_password_ref t) \<and> length (wifi_password_ref t) \<le> 63) then
        invalid ''WiFi password must be 8-63 characters''
      else if \<exists>ch \<in> set_option (wifi_channel t). \<not> (0 \<le> ch \<and> ch \<le> 196) then
        invalid ''wifi_channel must be between 0 and 196''
      else if length (str_or (wifi_security_mode t) []) > 40 then
        invalid ''wifi_security_mode must be at most 40 characters''
      else valid)"

definition check_mode_contradictions :: "ont_desired \<Rightarrow> validation" where
  "check_mode_contradictions t =
     (if wan_mode t = Bridge \<and> nat_enabled t then
        invalid ''bridge mode is incompatible with nat_enabled=True''
      else if wan_mode t = Pppoe \<and> mgmt_vlan t = None then
        invalid ''wan_mode=pppoe requires a management VLAN''
      else if wan_mode t = Pppoe \<and> wan_pppoe_provisioning_method t = Omci \<and>
          (case wan_config_profile_id t of None \<Rightarrow> True | Some p \<Rightarrow> p \<le> 0) then
        invalid (''wan_pppoe_provisioning_method=omci requires '' @
          ''wan_config_profile_id to be a positive integer'')
      else if wan_mode t \<in> {Dhcp, Static} \<and> wan_vlan t = None then
        invalid (''wan_mode='' @ wan_mode_value (wan_mode t) @ '' requires a WAN VLAN'')
      else checked
        (if wan_mode t = Static then
           (if \<not> (truthy_str (wan_static_ip t) \<and> truthy_str (wan_static_subnet t) \<and>
                truthy_str (wan_static_gateway t)) then
              invalid ''wan_mode=static requires IP address, subnet mask, and gateway''
            else if wan_static_ip_is_public t = Some True \<and> nat_enabled t then
              invalid ''public static WAN requires nat_enabled=False''
            else if wan_static_ip_is_public t = Some False \<and> \<not> nat_enabled t then
              invalid ''private static WAN requires nat_enabled=True''
            else valid)
         else valid)
        (if wan_mode t \<in> {Dhcp, Static} \<and> tr069_data_model_root t = Some ''Device'' \<and>
            tr181_wan_paths t = None then
           invalid ''TR-181 routed WAN requires a supported vendor/model parameter map''
         else valid))"

text \<open>One iteration of the loop over the labelled VLANs.\<close>

definition check_vlan :: "string \<Rightarrow> int option \<Rightarrow> validation" where
  "check_vlan label value =
     (case value of
        None \<Rightarrow> valid
      | Some v \<Rightarrow>
          if \<not> (1 \<le> v \<and> v \<le> 4094) then invalid (label @ '' '' @ show_int v @ '' outside [1, 4094]'')
          else valid)"

definition check_vlan_ranges :: "ont_desired \<Rightarrow> validation" where
  "check_vlan_ranges t =
     checked (check_vlan ''mgmt_vlan'' (mgmt_vlan t))
       (checked (check_vlan ''wan_vlan'' (wan_vlan t)) valid)"

text \<open>The four statements of the \<open>try\<close> block: two addresses, the prefix and the network.\<close>

definition parse_pair :: "string \<Rightarrow> string \<Rightarrow> string \<Rightarrow> string + ipv4 \<times> ipv4 \<times> ipv4_network" where
  "parse_pair a b m =
     (case ipv4_parse a of
        Inl e \<Rightarrow> Inl e
      | Inr x \<Rightarrow> (case ipv4_parse b of
          Inl e \<Rightarrow> Inl e
        | Inr y \<Rightarrow> (case mask_to_prefix m of
            Inl e \<Rightarrow> Inl e
          | Inr p \<Rightarrow> Inr (x, y, make_network x p))))"

definition validate_subnet_membership :: "string \<Rightarrow> string \<Rightarrow> string \<Rightarrow> validation" where
  "validate_subnet_membership ip gateway m =
     (case parse_pair ip gateway m of
        Inl e \<Rightarrow> invalid (''invalid IPv4 address or mask: '' @ e)
      | Inr (a, g, n) \<Rightarrow>
          if \<not> in_network a n then
            invalid (''mgmt_ip '' @ ip @ '' not in network '' @ show_network n)
          else if \<not> in_network g n then
            invalid (''mgmt_gateway '' @ gateway @ '' not in network '' @ show_network n)
          else if a = g then invalid ''mgmt_ip cannot equal mgmt_gateway''
          else valid)"

definition check_mgmt_subnet :: "ont_desired \<Rightarrow> validation" where
  "check_mgmt_subnet t =
     (case mgmt_ip t of
        None \<Rightarrow> valid
      | Some ip \<Rightarrow> (case (mgmt_subnet_mask t, mgmt_gateway t) of
          (Some m, Some gateway) \<Rightarrow> validate_subnet_membership ip gateway m
        | _ \<Rightarrow> invalid ''mgmt_ip requires mgmt_subnet_mask and mgmt_gateway to be set''))"

definition validate_dhcp_pool_membership :: "string \<Rightarrow> string \<Rightarrow> string \<Rightarrow> validation" where
  "validate_dhcp_pool_membership min_addr max_addr m =
     (case parse_pair min_addr max_addr m of
        Inl e \<Rightarrow> invalid (''invalid DHCP pool address or mask: '' @ e)
      | Inr (lo, hi, n) \<Rightarrow>
          if \<not> in_network lo n then
            invalid (''dhcp_pool_min '' @ min_addr @ '' not in network '' @ show_network n)
          else if \<not> in_network hi n then
            invalid (''dhcp_pool_max '' @ max_addr @ '' not in network '' @ show_network n)
          else if uint hi < uint lo then invalid ''dhcp_pool_max must be >= dhcp_pool_min''
          else valid)"

definition check_dhcp_pool :: "ont_desired \<Rightarrow> validation" where
  "check_dhcp_pool t =
     (if \<not> dhcp_enabled t then valid
      else validate_dhcp_pool_membership (dhcp_pool_min t) (dhcp_pool_max t) (dhcp_subnet_mask t))"

definition validate_desired :: "ont_desired \<Rightarrow> ont_desired \<Rightarrow> validation" where
  "validate_desired t c =
     checked (check_immutable_identity t c)
     (checked (check_service_port_immutability t c)
     (if tr069_profile_id t \<le> 0 then invalid ''tr069_profile_id must be a positive integer''
      else checked (check_wifi t c)
     (checked (check_mode_contradictions t)
     (checked (check_vlan_ranges t)
     (checked (check_mgmt_subnet t)
     (checked (check_dhcp_pool t) valid))))))"

subsection \<open>What an accepted target satisfies\<close>

lemma parse_pair_Inr:
  "parse_pair a b m = Inr (x, y, n) \<longleftrightarrow> ipv4_parse a = Inr x \<and> ipv4_parse b = Inr y \<and>
     (\<exists>p. mask_to_prefix m = Inr p \<and> n = make_network x p)"
  by (auto simp: parse_pair_def split: sum.splits)

lemma check_vlan_ok: "v_ok (check_vlan label v) \<longleftrightarrow> (\<forall>i \<in> set_option v. 1 \<le> i \<and> i \<le> 4094)"
  by (cases v) (simp_all add: check_vlan_def)

lemma subnet_membership_ok:
  assumes "v_ok (validate_subnet_membership ip gateway m)"
  shows "\<exists>a g p. ipv4_parse ip = Inr a \<and> ipv4_parse gateway = Inr g \<and> p \<le> 32 \<and>
    ipv4_parse m = Inr (netmask p) \<and> a \<noteq> g \<and> in_network g (make_network a p)"
  using assms
  by (auto simp: validate_subnet_membership_def parse_pair_Inr mask_to_prefix_Inr split: sum.splits prod.splits if_splits)

lemma dhcp_pool_ok:
  assumes "v_ok (validate_dhcp_pool_membership lo hi m)"
  shows "\<exists>a b p. ipv4_parse lo = Inr a \<and> ipv4_parse hi = Inr b \<and> p \<le> 32 \<and>
    ipv4_parse m = Inr (netmask p) \<and> uint a \<le> uint b \<and> in_network b (make_network a p)"
  using assms
  by (auto simp: validate_dhcp_pool_membership_def parse_pair_Inr mask_to_prefix_Inr not_less
      split: sum.splits prod.splits if_splits)

lemma validate_desired_ok:
  "v_ok (validate_desired t c) \<longleftrightarrow> v_ok (check_immutable_identity t c) \<and>
     v_ok (check_service_port_immutability t c) \<and> 0 < tr069_profile_id t \<and> v_ok (check_wifi t c) \<and>
     v_ok (check_mode_contradictions t) \<and> v_ok (check_vlan_ranges t) \<and>
     v_ok (check_mgmt_subnet t) \<and> v_ok (check_dhcp_pool t)"
  by (auto simp: validate_desired_def)

lemma sample_accepted: "validate_desired sample_desired sample_desired = valid"
  by code_simp

text \<open>
  An accepted target has a consistent management address. If the target sets a management IP,
  then the IP, its mask and its gateway all parse, the mask is contiguous, the gateway lies in the
  management network and is not the ONT's own address.
\<close>

theorem accepted_management_subnet:
  assumes "v_ok (validate_desired t c)" and "mgmt_ip t = Some ip"
  shows "\<exists>m gw a g p. mgmt_subnet_mask t = Some m \<and> mgmt_gateway t = Some gw \<and>
    ipv4_parse ip = Inr a \<and> ipv4_parse gw = Inr g \<and> p \<le> 32 \<and> ipv4_parse m = Inr (netmask p) \<and>
    a \<noteq> g \<and> a AND netmask p = g AND netmask p"
proof -
  from assms obtain m gw where m: "mgmt_subnet_mask t = Some m" "mgmt_gateway t = Some gw"
    and v: "v_ok (validate_subnet_membership ip gw m)"
    by (auto simp: validate_desired_ok check_mgmt_subnet_def split: option.splits)
  from subnet_membership_ok [OF v] m show ?thesis
    by (simp add: in_network_def make_network_def) metis
qed

theorem accepted_management_subnet_witness:
  "\<exists>m gw a g p. mgmt_subnet_mask sample_desired = Some m \<and> mgmt_gateway sample_desired = Some gw \<and>
    ipv4_parse ''10.9.0.7'' = Inr a \<and> ipv4_parse gw = Inr g \<and> p \<le> 32 \<and>
    ipv4_parse m = Inr (netmask p) \<and> a \<noteq> g \<and> a AND netmask p = g AND netmask p"
  by (rule accepted_management_subnet [of sample_desired sample_desired])
    (simp_all add: sample_accepted, simp add: sample_desired_def)

text \<open>
  An accepted LAN pool stays inside its subnet. If the target serves DHCP, both ends of the
  pool parse and are ordered, the mask is contiguous, and every address between the two ends lies
  in the network of the first address, not only the ends that are checked.
\<close>

theorem accepted_pool_in_subnet:
  assumes "v_ok (validate_desired t c)" and "dhcp_enabled t"
  shows "\<exists>lo hi p. ipv4_parse (dhcp_pool_min t) = Inr lo \<and> ipv4_parse (dhcp_pool_max t) = Inr hi \<and>
    p \<le> 32 \<and> ipv4_parse (dhcp_subnet_mask t) = Inr (netmask p) \<and> uint lo \<le> uint hi \<and>
    (\<forall>x. uint lo \<le> uint x \<and> uint x \<le> uint hi \<longrightarrow> in_network x (make_network lo p))"
proof -
  have "v_ok (validate_dhcp_pool_membership (dhcp_pool_min t) (dhcp_pool_max t) (dhcp_subnet_mask t))"
    using assms by (simp add: validate_desired_ok check_dhcp_pool_def)
  from dhcp_pool_ok [OF this] show ?thesis using in_network_range by blast
qed

theorem accepted_pool_in_subnet_witness:
  "\<exists>lo p. ipv4_parse ''192.168.100.2'' = Inr lo \<and> p \<le> 32 \<and>
    ipv4_parse ''255.255.255.0'' = Inr (netmask p) \<and> in_network 0xC0A8644D (make_network lo p)"
proof -
  have v: "v_ok (validate_desired sample_desired sample_desired)" by (simp add: sample_accepted)
  have e: "ipv4_parse ''192.168.100.2'' = Inr 0xC0A86402" "ipv4_parse ''192.168.100.254'' = Inr 0xC0A864FE"
    by code_simp+
  from accepted_pool_in_subnet [OF v] show ?thesis by (auto simp: sample_desired_def e)
qed

lemma mode_contradictions_ok:
  assumes "v_ok (check_mode_contradictions t)"
  shows "case wan_mode t of
       Bridge \<Rightarrow> \<not> nat_enabled t
     | Pppoe \<Rightarrow> mgmt_vlan t \<noteq> None \<and> (wan_pppoe_provisioning_method t = Omci \<longrightarrow>
         (\<exists>p > 0. wan_config_profile_id t = Some p))
     | _ \<Rightarrow> wan_vlan t \<noteq> None \<and> (tr069_data_model_root t = Some ''Device'' \<longrightarrow> tr181_wan_paths t \<noteq> None)"
    and "wan_mode t = Static \<longrightarrow> truthy_str (wan_static_ip t) \<and> truthy_str (wan_static_subnet t) \<and>
       truthy_str (wan_static_gateway t) \<and>
       (\<forall>public. wan_static_ip_is_public t = Some public \<longrightarrow> nat_enabled t = (\<not> public))"
proof -
  show "case wan_mode t of
       Bridge \<Rightarrow> \<not> nat_enabled t
     | Pppoe \<Rightarrow> mgmt_vlan t \<noteq> None \<and> (wan_pppoe_provisioning_method t = Omci \<longrightarrow>
         (\<exists>p > 0. wan_config_profile_id t = Some p))
     | _ \<Rightarrow> wan_vlan t \<noteq> None \<and> (tr069_data_model_root t = Some ''Device'' \<longrightarrow> tr181_wan_paths t \<noteq> None)"
    using assms
    by (cases "wan_mode t"; cases "wan_config_profile_id t")
      (auto simp: check_mode_contradictions_def split: if_split_asm)
  show "wan_mode t = Static \<longrightarrow> truthy_str (wan_static_ip t) \<and> truthy_str (wan_static_subnet t) \<and>
       truthy_str (wan_static_gateway t) \<and>
       (\<forall>public. wan_static_ip_is_public t = Some public \<longrightarrow> nat_enabled t = (\<not> public))"
    using assms by (auto simp: check_mode_contradictions_def split: if_split_asm)
qed

lemma wifi_ok:
  assumes "v_ok (check_wifi t c)"
  shows "length (wifi_ssid t) \<le> 32" and "\<forall>ch \<in> set_option (wifi_channel t). 0 \<le> ch \<and> ch \<le> 196"
    and "wifi_password_ref t \<noteq> wifi_password_ref c \<longrightarrow> is_encrypted (wifi_password_ref t) \<or>
       is_secret_ref (wifi_password_ref t) \<or> length (wifi_password_ref t) \<in> {8..63}"
  using assms by (auto simp: check_wifi_def split: if_split_asm)

text \<open>
  An accepted target has no contradiction the rules name: VLANs in 1 to 4094, no NAT on a
  bridge, a management VLAN and (for OMCI) a positive WAN profile under PPPoE, a WAN VLAN under
  DHCP and static addressing, the complete static address with NAT exactly as its visibility
  demands, a known parameter map for routed TR-181, and WiFi values of legal length.
\<close>

theorem accepted_target_consistent:
  assumes "v_ok (validate_desired t c)"
  shows "(\<forall>v \<in> set_option (mgmt_vlan t) \<union> set_option (wan_vlan t). 1 \<le> v \<and> v \<le> 4094) \<and>
    0 < tr069_profile_id t \<and>
    (case wan_mode t of
       Bridge \<Rightarrow> \<not> nat_enabled t
     | Pppoe \<Rightarrow> mgmt_vlan t \<noteq> None \<and> (wan_pppoe_provisioning_method t = Omci \<longrightarrow>
         (\<exists>p > 0. wan_config_profile_id t = Some p))
     | _ \<Rightarrow> wan_vlan t \<noteq> None \<and> (tr069_data_model_root t = Some ''Device'' \<longrightarrow> tr181_wan_paths t \<noteq> None)) \<and>
    (wan_mode t = Static \<longrightarrow> truthy_str (wan_static_ip t) \<and> truthy_str (wan_static_subnet t) \<and>
       truthy_str (wan_static_gateway t) \<and>
       (\<forall>public. wan_static_ip_is_public t = Some public \<longrightarrow> nat_enabled t = (\<not> public))) \<and>
    length (wifi_ssid t) \<le> 32 \<and> (\<forall>ch \<in> set_option (wifi_channel t). 0 \<le> ch \<and> ch \<le> 196) \<and>
    (wifi_password_ref t \<noteq> wifi_password_ref c \<longrightarrow> is_encrypted (wifi_password_ref t) \<or>
       is_secret_ref (wifi_password_ref t) \<or> length (wifi_password_ref t) \<in> {8..63})"
proof -
  have v: "v_ok (check_wifi t c)" "v_ok (check_mode_contradictions t)" "v_ok (check_vlan_ranges t)"
    "0 < tr069_profile_id t"
    using assms by (simp_all add: validate_desired_ok)
  show ?thesis
    using mode_contradictions_ok [OF v(2)] wifi_ok [OF v(1)] v(3,4)
    by (auto simp: check_vlan_ranges_def check_vlan_ok)
qed

theorem accepted_target_consistent_witness:
  "1 \<le> (203 :: int) \<and> (203 :: int) \<le> 4094 \<and> mgmt_vlan sample_desired \<noteq> None \<and>
   length (wifi_ssid sample_desired) \<le> 32"
proof -
  have "v_ok (validate_desired sample_desired sample_desired)" by (simp add: sample_accepted)
  from accepted_target_consistent [OF this] show ?thesis by (simp add: sample_desired_def)
qed

subsection \<open>Immutable fields over a history\<close>

text \<open>A history of committed targets, each validated against the one before.\<close>

fun accepted_history :: "ont_desired \<Rightarrow> ont_desired list \<Rightarrow> bool" where
  "accepted_history c [] = True"
| "accepted_history c (t # ts) = (v_ok (validate_desired t c) \<and> accepted_history t ts)"

lemma accepted_identity:
  assumes "v_ok (validate_desired t c)"
  shows "ont_unit_id t = ont_unit_id c \<and> serial_number t = serial_number c \<and> olt_id t = olt_id c \<and>
    olt_ont_id t = olt_ont_id c"
    and "mgmt_service_port_index c \<noteq> None \<Longrightarrow> mgmt_service_port_index t = mgmt_service_port_index c"
    and "wan_service_port_index c \<noteq> None \<Longrightarrow> wan_service_port_index t = wan_service_port_index c"
  using assms
  by (auto simp: validate_desired_ok check_immutable_identity_def check_service_port_immutability_def
      split: if_splits)

text \<open>
  C40: identity and allocated service ports never change. Through any history of validated changes
  the ONT keeps its unit, serial, OLT and OLT-local number, and a service-port index keeps the
  value it had at any earlier point from which it was allocated.
\<close>

theorem identity_immutable:
  assumes "accepted_history c ts" and "t \<in> set ts"
  shows "ont_unit_id t = ont_unit_id c \<and> serial_number t = serial_number c \<and> olt_id t = olt_id c \<and>
    olt_ont_id t = olt_ont_id c \<and>
    (\<forall>i. mgmt_service_port_index c = Some i \<longrightarrow> mgmt_service_port_index t = Some i) \<and>
    (\<forall>i. wan_service_port_index c = Some i \<longrightarrow> wan_service_port_index t = Some i)"
  using assms
proof (induction ts arbitrary: c)
  case Nil
  then show ?case by simp
next
  case (Cons u ts)
  then have u: "v_ok (validate_desired u c)" and h: "accepted_history u ts" by simp_all
  note step = accepted_identity [OF u]
  from Cons.prems(2) consider "t = u" | "t \<in> set ts" by auto
  then show ?case
  proof cases
    case 1
    with step show ?thesis by auto
  next
    case 2
    from Cons.IH [OF h 2] step show ?thesis by auto
  qed
qed

theorem identity_immutable_witness:
  "wan_service_port_index (sample_desired\<lparr>wifi_ssid := ''cafe''\<rparr>) = Some 501"
proof -
  have "accepted_history sample_desired [sample_desired\<lparr>wifi_ssid := ''cafe''\<rparr>]" by code_simp
  from identity_immutable [OF this] show ?thesis by (simp add: sample_desired_def)
qed

subsection \<open>The reported reason\<close>

definition rule_outcomes :: "ont_desired \<Rightarrow> ont_desired \<Rightarrow> validation list" where
  "rule_outcomes t c =
     [check_immutable_identity t c, check_service_port_immutability t c,
      (if tr069_profile_id t \<le> 0 then invalid ''tr069_profile_id must be a positive integer'' else valid),
      check_wifi t c, check_mode_contradictions t, check_vlan_ranges t, check_mgmt_subnet t,
      check_dhcp_pool t]"

text \<open>Every outcome is \<open>valid\<close> or carries a reason.\<close>

definition reasoned :: "validation \<Rightarrow> bool" where
  "reasoned v \<longleftrightarrow> v = valid \<or> (\<exists>r. v = invalid r)"

lemma reasoned_simps [simp]: "reasoned valid" "reasoned (invalid r)"
  "reasoned v \<Longrightarrow> reasoned w \<Longrightarrow> reasoned (checked v w)"
  "reasoned v \<Longrightarrow> reasoned w \<Longrightarrow> reasoned (if b then v else w)"
  by (auto simp: reasoned_def checked_def)

lemma reasoned_network:
  "reasoned (validate_subnet_membership ip gw m)" "reasoned (validate_dhcp_pool_membership lo hi m)"
  by (simp_all add: validate_subnet_membership_def validate_dhcp_pool_membership_def
      split: sum.split prod.split)

lemma reasoned_vlan: "reasoned (check_vlan l v)"
  by (simp add: check_vlan_def split: option.split)

lemma reasoned_mgmt: "reasoned (check_mgmt_subnet t)"
  by (simp add: check_mgmt_subnet_def reasoned_network split: option.split)

lemma reasoned_rules: "\<forall>v \<in> set (rule_outcomes t c). reasoned v"
  by (simp add: rule_outcomes_def check_immutable_identity_def check_service_port_immutability_def
      check_wifi_def check_mode_contradictions_def check_vlan_ranges_def check_dhcp_pool_def
      reasoned_network reasoned_vlan reasoned_mgmt del: if_split)

lemma reasoned_ok: "reasoned v \<Longrightarrow> v_ok v \<longleftrightarrow> v = valid"
  by (auto simp: reasoned_def)

definition first_bad :: "validation list \<Rightarrow> validation" where
  "first_bad vs = (case find (\<lambda>v. \<not> v_ok v) vs of None \<Rightarrow> valid | Some v \<Rightarrow> v)"

lemma first_bad_Nil [simp]: "first_bad [] = valid"
  by (simp add: first_bad_def)

lemma first_bad_Cons [simp]: "first_bad (v # vs) = checked v (first_bad vs)"
  by (simp add: first_bad_def checked_def)

lemma checked_if [simp]: "checked (if b then invalid r else valid) v = (if b then invalid r else v)"
  by (simp add: checked_def)

lemma validate_first_bad: "validate_desired t c = first_bad (rule_outcomes t c)"
  unfolding validate_desired_def rule_outcomes_def first_bad_Cons first_bad_Nil checked_if ..

lemma reasoned_first_bad: "\<forall>v \<in> set vs. reasoned v \<Longrightarrow> reasoned (first_bad vs)"
  by (induction vs) simp_all

text \<open>
  The answer is the first violation, with its reason. A target is accepted exactly when every
  rule accepts it; otherwise the answer is the outcome of the first rule that does not, and it
  carries that rule's reason.
\<close>

theorem first_violation_reported:
  "validate_desired t c =
     (case find (\<lambda>v. \<not> v_ok v) (rule_outcomes t c) of None \<Rightarrow> valid | Some v \<Rightarrow> v) \<and>
   (v_ok (validate_desired t c) \<longleftrightarrow> v_reason (validate_desired t c) = None)"
proof -
  have "reasoned (validate_desired t c)"
    unfolding validate_first_bad by (rule reasoned_first_bad [OF reasoned_rules])
  then have "v_ok (validate_desired t c) \<longleftrightarrow> v_reason (validate_desired t c) = None"
    by (auto simp: reasoned_def valid_def invalid_def)
  then show ?thesis by (simp add: validate_first_bad first_bad_def)
qed

end
