(* ===== verification/Credentials.thy ===== *)
theory Credentials
  imports Validator
begin

section \<open>Credentials at rest\<close>

text \<open>
  Models \<open>encrypt_credential\<close>, \<open>encrypt_credential_with_key\<close>, \<open>decrypt_credential\<close>,
  \<open>decrypt_credential_with_key\<close> and \<open>_decryption_keys\<close> of \<open>app/services/credential_crypto.py\<close>.
  Fernet is third-party: encryption and decryption under a key are functions of a record, each of
  which may raise. So are the two key sources and the secret store, whose lookups leave the process.
\<close>

record key_store =
  ks_required :: bool
    \<comment> \<open>\<open>_encryption_key_required\<close>\<close>
  ks_current :: "bool \<Rightarrow> string option"
    \<comment> \<open>\<open>get_encryption_key()\<close>, before and after the secret cache is cleared\<close>
  ks_previous :: "bool \<Rightarrow> string option"

record cipher =
  ci_encrypt :: "string \<Rightarrow> string \<Rightarrow> string + string"
  ci_decrypt :: "string \<Rightarrow> string \<Rightarrow> string + string"
  ci_resolve :: "string \<Rightarrow> string + string option"
    \<comment> \<open>\<open>resolve_secret\<close> of a reference\<close>

definition encrypt_credential_with_key ::
  "key_store \<Rightarrow> cipher \<Rightarrow> string \<Rightarrow> string option \<Rightarrow> string + string" where
  "encrypt_credential_with_key ks ci v key =
     (if v = [] then Inr v
      else if is_encrypted v then Inr v
      else if \<not> truthy_str key then
        (if ks_required ks
         then Inl (''Cannot store credential: CREDENTIAL_ENCRYPTION_KEY is required '' @
           ''but not configured. This is a security policy violation.'')
         else Inr (''plain:'' @ v))
      else (case ci_encrypt ci (str_or key []) v of
          Inl e \<Rightarrow> Inl e
        | Inr token \<Rightarrow> Inr (''enc:'' @ token)))"

definition encrypt_credential :: "key_store \<Rightarrow> cipher \<Rightarrow> string \<Rightarrow> string + string" where
  "encrypt_credential ks ci v =
     (if v = [] then Inr v
      else if is_secret_ref v then Inr v
      else if starts_with v ''enc:'' then Inr v
      else if starts_with v ''plain:'' then
        (if ks_required ks then encrypt_credential_with_key ks ci (drop 6 v) (ks_current ks False)
         else Inr v)
      else encrypt_credential_with_key ks ci v (ks_current ks False))"

text \<open>\<open>_decryption_keys\<close>: the current key, then the previous one, without repetition.\<close>

definition decryption_keys :: "key_store \<Rightarrow> bool \<Rightarrow> string list" where
  "decryption_keys ks refresh =
     remdups_adj (map (\<lambda>k. str_or k []) (filter truthy_str [ks_current ks refresh, ks_previous ks refresh]))"

definition decrypt_credential_with_key :: "cipher \<Rightarrow> string \<Rightarrow> string option \<Rightarrow> string + string" where
  "decrypt_credential_with_key ci v key =
     (if v = [] then Inr v
      else if is_secret_ref v then Inr v
      else if starts_with v ''plain:'' then Inr (drop 6 v)
      else if starts_with v ''enc:'' then
        (if \<not> truthy_str key
         then Inl ''Encrypted credential found but CREDENTIAL_ENCRYPTION_KEY not set''
         else ci_decrypt ci (str_or key []) (drop 4 v))
      else Inr v)"

text \<open>The loop over the keys: the first that decrypts wins, otherwise the last error is raised.\<close>

fun try_keys :: "cipher \<Rightarrow> string \<Rightarrow> string list \<Rightarrow> string option \<Rightarrow> string + string" where
  "try_keys ci v [] err =
     (case err of
        Some e \<Rightarrow> Inl e
      | None \<Rightarrow> Inl ''Encrypted credential found but CREDENTIAL_ENCRYPTION_KEY not set'')"
| "try_keys ci v (k # ks) err =
     (case decrypt_credential_with_key ci v (Some k) of
        Inr p \<Rightarrow> Inr p
      | Inl e \<Rightarrow> try_keys ci v ks (Some e))"

text \<open>\<open>decrypt_credential\<close> on a value that is not a secret reference.\<close>

definition decrypt_stored :: "key_store \<Rightarrow> cipher \<Rightarrow> string \<Rightarrow> string + string option" where
  "decrypt_stored ks ci v =
     (if starts_with v ''plain:'' then Inr (Some (drop 6 v))
      else if starts_with v ''enc:'' then
        (case try_keys ci v (decryption_keys ks False @ decryption_keys ks True) None of
           Inl e \<Rightarrow> Inl e
         | Inr p \<Rightarrow> Inr (Some p))
      else Inr (Some v))"

definition decrypt_credential ::
  "key_store \<Rightarrow> cipher \<Rightarrow> string option \<Rightarrow> string + string option" where
  "decrypt_credential ks ci value =
     (case value of
        None \<Rightarrow> Inr None
      | Some v \<Rightarrow>
          if v = [] then Inr (Some v)
          else if is_secret_ref v then
            (case ci_resolve ci v of
               Inl e \<Rightarrow> Inl (''Failed to resolve credential secret reference: '' @ e)
             | Inr None \<Rightarrow> Inr None
             | Inr (Some r) \<Rightarrow>
                 if r \<noteq> [] \<and> r \<noteq> v \<and> is_encrypted r then decrypt_stored ks ci r else Inr (Some r))
          else decrypt_stored ks ci v)"

subsection \<open>What is stored, and what comes back\<close>

lemma starts_with_append [simp]: "starts_with (p @ r) p"
  by (simp add: starts_with_def)

lemma prefix_exclusive [simp]:
  "\<not> starts_with (''enc:'' @ r) ''plain:''" "\<not> is_secret_ref (''enc:'' @ r)"
  "\<not> is_secret_ref (''plain:'' @ r)" "is_encrypted (''enc:'' @ r)" "is_encrypted (''plain:'' @ r)"
  by (simp_all add: starts_with_def is_secret_ref_def is_encrypted_def)

text \<open>A first key that works ends the search; earlier keys only matter by failing.\<close>

lemma try_keys_finds:
  assumes "\<forall>j \<in> set pre. \<exists>e. ci_decrypt ci j token = Inl e" and "ci_decrypt ci k token = Inr p" and "k \<noteq> []"
    and "[] \<notin> set pre"
  shows "try_keys ci (''enc:'' @ token) (pre @ k # post) err = Inr p"
  using assms(1,4)
proof (induction pre arbitrary: err)
  case Nil
  have "decrypt_credential_with_key ci (''enc:'' @ token) (Some k) = ci_decrypt ci k token"
    using assms(3) prefix_exclusive(1,2) [of token]
    by (simp add: decrypt_credential_with_key_def starts_with_def is_secret_ref_def)
  then show ?case using assms(2) by simp
next
  case (Cons j pre)
  then obtain e where e: "ci_decrypt ci j token = Inl e" by auto
  have "decrypt_credential_with_key ci (''enc:'' @ token) (Some j) = ci_decrypt ci j token"
    using Cons.prems by (auto simp: decrypt_credential_with_key_def starts_with_def is_secret_ref_def)
  with e Cons show ?case by simp
qed

lemma mem_split_first: "k \<in> set xs \<Longrightarrow> \<exists>pre post. xs = pre @ k # post \<and> k \<notin> set pre"
  by (rule split_list_first)

lemma decryption_keys_nonempty: "[] \<notin> set (decryption_keys ks r)"
  by (auto simp: decryption_keys_def truthy_str_iff)

lemma encrypt_cases:
  assumes "encrypt_credential ks ci v = Inr s" and "v \<noteq> []" and "\<not> is_secret_ref v" and "\<not> is_encrypted v"
  obtains (sealed) k t where "ks_current ks False = Some k" "k \<noteq> []" "ci_encrypt ci k v = Inr t" "s = ''enc:'' @ t"
    | (bare) "\<not> truthy_str (ks_current ks False)" "\<not> ks_required ks" "s = ''plain:'' @ v"
proof -
  have "\<not> starts_with v ''enc:''" and "\<not> starts_with v ''plain:''"
    using assms(2,4) by (auto simp: is_encrypted_def)
  with assms have e: "encrypt_credential_with_key ks ci v (ks_current ks False) = Inr s"
    by (simp add: encrypt_credential_def)
  show thesis
  proof (cases "truthy_str (ks_current ks False)")
    case True
    then obtain k where k: "ks_current ks False = Some k" "k \<noteq> []" by (auto simp: truthy_str_iff)
    with e assms(2,4) obtain t where "ci_encrypt ci k v = Inr t" and "s = ''enc:'' @ t"
      by (auto simp: encrypt_credential_with_key_def split: sum.splits)
    with k show thesis by (rule sealed)
  next
    case False
    with e assms(2,4) show thesis
      by (intro bare) (auto simp: encrypt_credential_with_key_def split: if_splits)
  qed
qed

text \<open>
  C32: a stored credential survives, key rotation included. Whatever \<open>encrypt_credential\<close> stored for a
  plain secret is not that secret once encryption is enforced, and \<open>decrypt_credential\<close> gives the secret
  back under every later key configuration that still holds the encryption key, as the current or as
  the previous one, whatever the other key is. Of Fernet it uses that a token decrypts under its own key
  and that every other key rejects it.
\<close>

theorem credential_round_trip:
  assumes "encrypt_credential ks ci v = Inr s" and "v \<noteq> []" and "\<not> is_secret_ref v" and "\<not> is_encrypted v"
    and fernet: "\<forall>k m t. ci_encrypt ci k m = Inr t \<longrightarrow> ci_decrypt ci k t = Inr m"
    and authentic: "\<forall>k k' m t. ci_encrypt ci k m = Inr t \<and> k' \<noteq> k \<longrightarrow> (\<exists>e. ci_decrypt ci k' t = Inl e)"
    and held: "\<forall>k. ks_current ks False = Some k \<and> k \<noteq> [] \<longrightarrow>
      ks_current ks' False = Some k \<or> ks_previous ks' False = Some k"
  shows "decrypt_credential ks' ci (Some s) = Inr (Some v) \<and>
    (ks_required ks \<longrightarrow> (\<exists>k t. ks_current ks False = Some k \<and> ci_encrypt ci k v = Inr t \<and> s = ''enc:'' @ t))"
  using assms(1-4)
proof (cases rule: encrypt_cases)
  case (sealed k t)
  let ?keys = "decryption_keys ks' False @ decryption_keys ks' True"
  have "k \<in> set ?keys"
    using held sealed(1,2) by (auto simp: decryption_keys_def)
  then obtain pre post where p: "?keys = pre @ k # post" and np: "k \<notin> set pre"
    using split_list_first by metis
  have "try_keys ci (''enc:'' @ t) (pre @ k # post) None = Inr v"
  proof (rule try_keys_finds)
    show "\<forall>j \<in> set pre. \<exists>e. ci_decrypt ci j t = Inl e"
      using authentic sealed(3) np by metis
    show "ci_decrypt ci k t = Inr v" using fernet sealed(3) by blast
    show "[] \<notin> set pre"
      using p decryption_keys_nonempty [of ks' False] decryption_keys_nonempty [of ks' True]
      by (metis Un_iff set_append)
  qed (fact sealed(2))
  then show ?thesis
    using sealed p prefix_exclusive(1,2) [of t]
    by (simp add: decrypt_credential_def decrypt_stored_def starts_with_def)
next
  case bare
  then show ?thesis
    using prefix_exclusive(3) [of v] by (simp add: decrypt_credential_def decrypt_stored_def starts_with_def)
qed

text \<open>A cipher that prefixes the message with its key, to evaluate on.\<close>

definition sample_frame :: "string \<Rightarrow> string" where
  "sample_frame k = replicate (length k) (CHR ''1'') @ ''0'' @ k"

definition sample_cipher :: cipher where
  "sample_cipher = \<lparr>ci_encrypt = (\<lambda>k m. Inr (sample_frame k @ m)),
     ci_decrypt = (\<lambda>k t. case strip_prefix (sample_frame k) t of None \<Rightarrow> Inl ''invalid token'' | Some m \<Rightarrow> Inr m),
     ci_resolve = (\<lambda>r. Inr None)\<rparr>"

definition sample_keys :: "string \<Rightarrow> string option \<Rightarrow> key_store" where
  "sample_keys k old = \<lparr>ks_required = True, ks_current = (\<lambda>_. Some k), ks_previous = (\<lambda>_. old)\<rparr>"

lemma sample_frame_inj: "sample_frame k @ m = sample_frame k' @ m' \<Longrightarrow> k = k'"
proof -
  assume e: "sample_frame k @ m = sample_frame k' @ m'"
  have t: "takeWhile (\<lambda>c. c = CHR ''1'') (sample_frame j @ r) = replicate (length j) (CHR ''1'')" for j r
    by (simp add: sample_frame_def takeWhile_append del: replicate_Suc)
  have "length k = length k'" using t [of k m] t [of k' m'] e by (metis length_replicate)
  with e show ?thesis by (simp add: sample_frame_def)
qed

theorem credential_round_trip_witness:
  "decrypt_credential (sample_keys ''k2'' (Some ''k1'')) sample_cipher
     (Some (''enc:'' @ sample_frame ''k1'' @ ''s3cret'')) = Inr (Some ''s3cret'')"
proof -
  have "encrypt_credential (sample_keys ''k1'' None) sample_cipher ''s3cret'' =
      Inr (''enc:'' @ sample_frame ''k1'' @ ''s3cret'')" by code_simp
  then have "decrypt_credential (sample_keys ''k2'' (Some ''k1'')) sample_cipher
      (Some (''enc:'' @ sample_frame ''k1'' @ ''s3cret'')) = Inr (Some ''s3cret'') \<and>
    (ks_required (sample_keys ''k1'' None) \<longrightarrow>
      (\<exists>k t. ks_current (sample_keys ''k1'' None) False = Some k \<and> ci_encrypt sample_cipher k ''s3cret'' = Inr t \<and>
         ''enc:'' @ sample_frame ''k1'' @ ''s3cret'' = ''enc:'' @ t))"
  proof (rule credential_round_trip)
    show "\<not> is_secret_ref ''s3cret''" and "\<not> is_encrypted ''s3cret''" by code_simp+
    show "\<forall>k k' m t. ci_encrypt sample_cipher k m = Inr t \<and> k' \<noteq> k \<longrightarrow> (\<exists>e. ci_decrypt sample_cipher k' t = Inl e)"
    proof (intro allI impI, elim conjE)
      fix k k' m t
      assume "ci_encrypt sample_cipher k m = Inr t" and "k' \<noteq> k"
      then have "strip_prefix (sample_frame k') t = None"
        by (auto simp: sample_cipher_def strip_prefix_None_iff dest: sample_frame_inj)
      then show "\<exists>e. ci_decrypt sample_cipher k' t = Inl e" by (simp add: sample_cipher_def)
    qed
  qed (auto simp: sample_cipher_def sample_keys_def)
  then show ?thesis by blast
qed

end
