(* ===== verification/Ont_Row.thy ===== *)
theory Ont_Row
  imports Credentials "HOL-Library.AList"
begin

section \<open>The ONT row\<close>

text \<open>
  What a reconcile pass reads and writes on \<open>OntUnit\<close>: its status columns, the binding to a
  configuration attempt and the \<open>desired_config\<close> JSON. Models \<open>_set_desired_value\<close>,
  \<open>apply_proposed_change\<close>, \<open>record_acs_delivery_fault\<close> and \<open>clear_acs_delivery_fault\<close> of
  \<open>app/services/network/reconcile/adapters.py\<close>, the binding functions of \<open>lifecycle.py\<close>, the crash
  check of \<open>locking.py\<close> and the alert decisions of \<open>alerts.py\<close>.
\<close>

subsection \<open>Timestamps as text\<close>

text \<open>
  \<open>datetime.isoformat\<close> of a UTC time, in microseconds since 1970-01-01: the proleptic Gregorian date
  by the usual 400-year era arithmetic, the microseconds only when there are any.
\<close>

definition pad :: "nat \<Rightarrow> int \<Rightarrow> string" where
  "pad w n = (let s = show_int n in replicate (w - length s) (CHR ''0'') @ s)"

definition civil_from_days :: "int \<Rightarrow> int \<times> int \<times> int" where
  "civil_from_days days =
     (let z = days + 719468; era = z div 146097; doe = z mod 146097;
          yoe = (doe - doe div 1460 + doe div 36524 - doe div 146096) div 365;
          doy = doe - (365 * yoe + yoe div 4 - yoe div 100);
          mp = (5 * doy + 2) div 153;
          month = (if mp < 10 then mp + 3 else mp - 9)
      in (yoe + era * 400 + (if month \<le> 2 then 1 else 0), month, doy - (153 * mp + 2) div 5 + 1))"

definition isoformat :: "datetime \<Rightarrow> string" where
  "isoformat t =
     (let secs = t div 1000000; us = t mod 1000000; s = secs mod 86400;
          (y, m, d) = civil_from_days (secs div 86400)
      in pad 4 y @ ''-'' @ pad 2 m @ ''-'' @ pad 2 d @ ''T'' @ pad 2 (s div 3600) @ '':'' @
         pad 2 (s div 60 mod 60) @ '':'' @ pad 2 (s mod 60) @
         (if us = 0 then [] else ''.'' @ pad 6 us) @ ''+00:00'')"

lemma isoformat_example: "isoformat 1709164799000250 = ''2024-02-28T23:59:59.000250+00:00''"
  by code_simp

subsection \<open>The desired-configuration store\<close>

datatype cfg_value = Cfg scalar | Cfg_list "string list"

type_synonym cfg_section = "(string \<times> cfg_value) list"
type_synonym desired_config = "(string \<times> cfg_section) list"

text \<open>\<open>value in (None, "")\<close>.\<close>

definition cfg_unset :: "cfg_value \<Rightarrow> bool" where
  "cfg_unset v \<longleftrightarrow> v = Cfg SNone \<or> v = Cfg (SStr [])"

definition cfg_section_of :: "desired_config \<Rightarrow> string \<Rightarrow> cfg_section" where
  "cfg_section_of c sec = (case map_of c sec of None \<Rightarrow> [] | Some s \<Rightarrow> s)"

definition get_desired :: "desired_config \<Rightarrow> string \<times> string \<Rightarrow> cfg_value option" where
  "get_desired c path = map_of (cfg_section_of c (fst path)) (snd path)"

definition set_desired_value :: "desired_config \<Rightarrow> string \<times> string \<Rightarrow> cfg_value \<Rightarrow> desired_config" where
  "set_desired_value c path v =
     (let sec = fst path; key = snd path;
          values = (if cfg_unset v then AList.delete key (cfg_section_of c sec)
                    else AList.update key v (cfg_section_of c sec))
      in if values \<noteq> [] then AList.update sec values c else AList.delete sec c)"

text \<open>
  A store of optional values: a write is read back at its key, an unset value removes the key, and no
  other key changes. What a sequence of writes does follows from this alone.
\<close>

locale keyed_store =
  fixes get :: "'c \<Rightarrow> 'k \<Rightarrow> 'v option"
    and put :: "'c \<Rightarrow> 'k \<Rightarrow> 'v \<Rightarrow> 'c"
    and unset :: "'v \<Rightarrow> bool"
  assumes get_put_same: "get (put c k v) k = (if unset v then None else Some v)"
    and get_put_other: "k' \<noteq> k \<Longrightarrow> get (put c k v) k' = get c k'"
begin

lemma get_put: "get (put c k v) k' = (if k' = k then if unset v then None else Some v else get c k')"
  by (simp add: get_put_same get_put_other)

lemma writes_frame: "k \<notin> fst ` set ws \<Longrightarrow> get (foldl (\<lambda>c (k, v). put c k v) c ws) k = get c k"
  by (induction ws arbitrary: c) (auto simp: get_put)

lemma writes_append:
  "foldl (\<lambda>c (k, v). put c k v) c (ws @ us) = foldl (\<lambda>c (k, v). put c k v) (foldl (\<lambda>c (k, v). put c k v) c ws) us"
  by simp

lemma writes_last:
  assumes "(k, v) \<in> set ws" and "\<forall>v'. (k, v') \<in> set ws \<longrightarrow> v' = v"
  shows "get (foldl (\<lambda>c (k, v). put c k v) c ws) k = (if unset v then None else Some v)"
  using assms
proof (induction ws arbitrary: c)
  case (Cons w ws)
  obtain j u where w: "w = (j, u)" by (rule prod.exhaust)
  show ?case
  proof (cases "k \<in> fst ` set ws")
    case True
    then obtain v' where "(k, v') \<in> set ws" by auto
    have all: "\<forall>v'. (k, v') \<in> set ws \<longrightarrow> v' = v" using Cons.prems(2) by simp
    with True have "(k, v) \<in> set ws" by auto
    from Cons.IH [OF this all] show ?thesis by (simp only: w foldl_Cons prod.case)
  next
    case False
    then have "(k, v') \<notin> set ws" for v' by (force simp: image_iff)
    with Cons.prems(1) have "j = k" "u = v" by (auto simp: w)
    with writes_frame [OF False] show ?thesis by (simp only: w foldl_Cons prod.case get_put_same)
  qed
qed simp

end

lemma map_of_AList_update: "map_of (AList.update k v xs) k' = (if k' = k then Some v else map_of xs k')"
  by (simp add: update_conv')

lemma map_of_AList_delete: "map_of (AList.delete k xs) k' = (if k' = k then None else map_of xs k')"
  by (simp add: delete_conv')

lemma section_of_set:
  "cfg_section_of (set_desired_value c p v) s =
     (if s = fst p then (if cfg_unset v then AList.delete (snd p) (cfg_section_of c s)
                         else AList.update (snd p) v (cfg_section_of c s))
      else cfg_section_of c s)"
proof -
  have "cfg_section_of (if vs \<noteq> [] then AList.update (fst p) vs c else AList.delete (fst p) c) s =
      (if s = fst p then vs else cfg_section_of c s)" for vs
    by (simp add: cfg_section_of_def map_of_AList_update map_of_AList_delete)
  then show ?thesis by (simp add: set_desired_value_def Let_def)
qed

interpretation desired_store: keyed_store get_desired set_desired_value cfg_unset
proof
  show "get_desired (set_desired_value c k v) k = (if cfg_unset v then None else Some v)" for c k v
    by (simp add: get_desired_def section_of_set map_of_AList_update map_of_AList_delete)
  show "get_desired (set_desired_value c k v) k' = get_desired c k'" if "k' \<noteq> k" for c k v k'
    using that by (cases k; cases k') (simp add: get_desired_def section_of_set map_of_AList_update map_of_AList_delete)
qed

definition set_all :: "desired_config \<Rightarrow> ((string \<times> string) \<times> cfg_value) list \<Rightarrow> desired_config" where
  "set_all c ws = foldl (\<lambda>c (k, v). set_desired_value c k v) c ws"

lemmas set_all_frame = desired_store.writes_frame [folded set_all_def]
lemmas set_all_last = desired_store.writes_last [folded set_all_def]

subsection \<open>The row\<close>

record ont_row =
  ont_id :: string
  ont_serial :: string
  ont_sync_status :: sync_status
  ont_last_error :: "string option"
  ont_last_started_at :: "datetime option"
  ont_last_reconciled_at :: "datetime option"
  ont_unreachable :: int
    \<comment> \<open>\<open>consecutive_sweep_unreachable\<close>\<close>
  ont_head :: "string option"
  ont_assignment :: "string option"
  ont_revision :: "int option"
  ont_operation :: "string option"
    \<comment> \<open>the \<open>reconcile_*\<close> binding columns\<close>
  ont_desired_config :: desired_config
  ont_tr069_profile :: "int option"
    \<comment> \<open>\<open>desired_tr069_profile_id\<close>\<close>

subsection \<open>Writing a proposed change back\<close>

definition guarded :: "bool \<Rightarrow> 'a list \<Rightarrow> 'a list" where
  "guarded b ws = (if b then ws else [])"

text \<open>\<open>changed(field)\<close>: the empty set means every field.\<close>

definition changed_field :: "string set \<Rightarrow> string \<Rightarrow> bool" where
  "changed_field changed f \<longleftrightarrow> changed = {} \<or> f \<in> changed"

text \<open>The rule for keys that are only rewritten when present: \<open>changed_fields\<close> decides if it is given.\<close>

definition listed_field :: "string set \<Rightarrow> cfg_section \<Rightarrow> string \<Rightarrow> string \<Rightarrow> bool" where
  "listed_field changed existing f key \<longleftrightarrow>
     (if changed \<noteq> {} then f \<in> changed else key \<in> fst ` set existing)"

definition credential_writes :: "ont_desired \<Rightarrow> string set \<Rightarrow> ((string \<times> string) \<times> cfg_value) list" where
  "credential_writes t changed =
     guarded (changed_field changed ''wan_pppoe_username'')
       [((''wan'', ''pppoe_username''), Cfg (ostr (wan_pppoe_username t)))] @
     guarded (changed_field changed ''wan_pppoe_password_ref'')
       [((''wan'', ''pppoe_password''), Cfg (ostr (wan_pppoe_password_ref t)))] @
     guarded (changed_field changed ''mgmt_ip'')
       [((''management'', ''ip_address''), Cfg (ostr (mgmt_ip t)))] @
     guarded (changed_field changed ''wifi_ssid'') [((''wifi'', ''ssid''), Cfg (SStr (wifi_ssid t)))]"

definition radio_writes ::
  "ont_desired \<Rightarrow> string set \<Rightarrow> cfg_section \<Rightarrow> ((string \<times> string) \<times> cfg_value) list" where
  "radio_writes t changed existing =
     guarded (listed_field changed existing ''wifi_enabled'' ''enabled'')
       [((''wifi'', ''enabled''), Cfg (obool (wifi_enabled t)))] @
     guarded (listed_field changed existing ''wifi_channel'' ''channel'')
       [((''wifi'', ''channel''), Cfg (oint (wifi_channel t)))] @
     guarded (listed_field changed existing ''wifi_security_mode'' ''security_mode'')
       [((''wifi'', ''security_mode''), Cfg (ostr (wifi_security_mode t)))]"

definition access_writes ::
  "ont_desired \<Rightarrow> string set \<Rightarrow> cfg_section \<Rightarrow> ((string \<times> string) \<times> cfg_value) list" where
  "access_writes t changed existing =
     guarded (listed_field changed existing ''wan_remote_access_enabled'' ''wan_remote'')
       [((''access'', ''wan_remote''), Cfg (SBool (wan_remote_access_enabled t)))] @
     guarded (listed_field changed existing ''wan_remote_access_expires_at'' ''wan_remote_expires_at'')
       [((''access'', ''wan_remote_expires_at''),
         Cfg (ostr (map_option isoformat (wan_remote_access_expires_at t))))] @
     guarded (listed_field changed existing ''wan_remote_access_source_cidrs'' ''wan_remote_source_cidrs'')
       [((''access'', ''wan_remote_source_cidrs''), Cfg_list (wan_remote_access_source_cidrs t))]"

definition network_writes :: "ont_desired \<Rightarrow> string set \<Rightarrow> ((string \<times> string) \<times> cfg_value) list" where
  "network_writes t changed =
     guarded (changed_field changed ''dhcp_enabled'')
       [((''lan'', ''dhcp_enabled''), Cfg (SBool (dhcp_enabled t)))] @
     guarded (changed_field changed ''dhcp_pool_min'')
       [((''lan'', ''dhcp_start''), Cfg (SStr (dhcp_pool_min t)))] @
     guarded (changed_field changed ''dhcp_pool_max'')
       [((''lan'', ''dhcp_end''), Cfg (SStr (dhcp_pool_max t)))] @
     guarded (changed_field changed ''ipv6_enabled'' \<and>
         (''ipv6_enabled'' \<in> changed \<or> has_executable_desired_provenance (ipv6_enabled_provenance t)))
       [((''wan'', ''ip_protocol''), Cfg (SStr (if ipv6_enabled t then ''dual_stack'' else ''ipv4'')))] @
     guarded (changed_field changed ''wan_static_ip'')
       [((''wan'', ''static_ip''), Cfg (ostr (wan_static_ip t)))] @
     guarded (changed_field changed ''wan_static_subnet'')
       [((''wan'', ''static_subnet''), Cfg (ostr (wan_static_subnet t)))] @
     guarded (changed_field changed ''wan_static_gateway'')
       [((''wan'', ''static_gateway''), Cfg (ostr (wan_static_gateway t)))] @
     guarded (changed_field changed ''wan_static_dns'')
       [((''wan'', ''static_dns''), Cfg (ostr (wan_static_dns t)))] @
     guarded (changed_field changed ''dhcp_subnet_mask'')
       [((''lan'', ''subnet''), Cfg (SStr (dhcp_subnet_mask t)))] @
     guarded (changed_field changed ''wan_mode'')
       [((''wan'', ''onu_mode''), Cfg (SStr (wan_mode_value (wan_mode t))))] @
     guarded (changed_field changed ''wan_pppoe_instance_index'')
       [((''wan'', ''instance_index''), Cfg (SInt (wan_pppoe_instance_index t)))] @
     guarded (changed_field changed ''mgmt_subnet_mask'')
       [((''management'', ''subnet''), Cfg (ostr (mgmt_subnet_mask t)))] @
     guarded (changed_field changed ''mgmt_gateway'')
       [((''management'', ''gateway''), Cfg (ostr (mgmt_gateway t)))]"

text \<open>
  \<open>apply_proposed_change\<close>; the left result is the exception of a password that cannot be protected,
  which leaves the writes made before it on the row.
\<close>

definition apply_proposed_change ::
  "key_store \<Rightarrow> cipher \<Rightarrow> ont_row \<Rightarrow> ont_desired \<Rightarrow> string set \<Rightarrow> (string + unit) \<times> ont_row" where
  "apply_proposed_change ks ci row t changed =
     (let c1 = set_all (ont_desired_config row) (credential_writes t changed);
          row1 = row\<lparr>ont_desired_config := c1,
            ont_tr069_profile := (if ''tr069_profile_id'' \<in> changed then Some (tr069_profile_id t)
              else ont_tr069_profile row)\<rparr>
      in case (if changed_field changed ''wifi_password_ref''
               then encrypt_credential ks ci (wifi_password_ref t) else Inr []) of
          Inl e \<Rightarrow> (Inl e, row1)
        | Inr protected_password \<Rightarrow>
            (let c2 = set_all c1 (guarded (changed_field changed ''wifi_password_ref'')
                   [((''wifi'', ''password''), Cfg (SStr protected_password))]);
                 c3 = set_all c2 (radio_writes t changed (cfg_section_of c2 ''wifi''));
                 c4 = set_all c3 (access_writes t changed (cfg_section_of c3 ''access''));
                 c5 = set_all c4 (network_writes t changed)
             in (Inr (), row1\<lparr>ont_desired_config := c5\<rparr>)))"

subsection \<open>ACS delivery faults\<close>

definition ACS_DELIVERY_FAULT_REASONS :: "failure_reason set" where
  "ACS_DELIVERY_FAULT_REASONS = {ACS_WRITE_FAULTED, ACS_CR_FAILED, ACS_IDENTITY_UNRESOLVED,
     ONT_NOT_INFORMING, ACS_UNREACHABLE}"

text \<open>\<open>str(value or "")\<close> and \<open>int(value or 0)\<close> of what these functions store.\<close>

fun cfg_text :: "cfg_value option \<Rightarrow> string" where
  "cfg_text (Some (Cfg (SStr s))) = s"
| "cfg_text _ = []"

fun cfg_int :: "cfg_value option \<Rightarrow> int" where
  "cfg_int (Some (Cfg (SInt n))) = n"
| "cfg_int _ = 0"

definition fault_streak :: "ont_row \<Rightarrow> int" where
  "fault_streak row = cfg_int (get_desired (ont_desired_config row) (''delivery'', ''acs_fault_streak''))"

definition fault_reason :: "ont_row \<Rightarrow> string" where
  "fault_reason row = cfg_text (get_desired (ont_desired_config row) (''delivery'', ''acs_fault_reason''))"

definition record_acs_delivery_fault ::
  "datetime \<Rightarrow> ont_row \<Rightarrow> string \<Rightarrow> string \<Rightarrow> int \<times> ont_row" where
  "record_acs_delivery_fault now row reason message =
     (let streak = (if fault_reason row = reason then fault_streak row + 1 else 1)
      in (streak, row\<lparr>ont_desired_config := set_all (ont_desired_config row)
           ([((''delivery'', ''acs_fault_streak''), Cfg (SInt streak)),
             ((''delivery'', ''acs_fault_reason''), Cfg (SStr reason)),
             ((''delivery'', ''acs_fault_last_at''), Cfg (SStr (isoformat now))),
             ((''delivery'', ''acs_fault_detail''), Cfg (SStr (take 400 message)))] @
            guarded (streak = 1) [((''delivery'', ''acs_fault_since''), Cfg (SStr (isoformat now)))])\<rparr>))"

definition clear_acs_delivery_fault :: "ont_row \<Rightarrow> int \<times> ont_row" where
  "clear_acs_delivery_fault row =
     (let previous = fault_streak row
      in (previous, if previous = 0 then row
          else row\<lparr>ont_desired_config := set_all (ont_desired_config row)
            (map (\<lambda>key. ((''delivery'', key), Cfg SNone))
              [''acs_fault_streak'', ''acs_fault_reason'', ''acs_fault_last_at'', ''acs_fault_detail'',
               ''acs_fault_since''])\<rparr>))"

subsection \<open>Alerts\<close>

datatype log_level = DEBUG | INFO | ERROR

record alert =
  al_kind :: string
  al_action :: string
  al_level :: log_level
  al_ont :: string
  al_before :: int
  al_after :: int

definition DEFAULT_ACS_FAULT_THRESHOLD :: int where
  "DEFAULT_ACS_FAULT_THRESHOLD = 3"

definition escalate_acs_delivery_fault :: "string \<Rightarrow> int \<Rightarrow> int option \<Rightarrow> alert" where
  "escalate_acs_delivery_fault oid streak threshold =
     (let crossing = (streak = int_or threshold DEFAULT_ACS_FAULT_THRESHOLD)
      in \<lparr>al_kind = ''ont.acs_delivery_fault'', al_action = (if crossing then ''escalate'' else ''still_faulting''),
          al_level = (if crossing then ERROR else DEBUG), al_ont = oid, al_before = streak, al_after = streak\<rparr>)"

definition resolve_acs_delivery_fault :: "string \<Rightarrow> int \<Rightarrow> alert list" where
  "resolve_acs_delivery_fault oid before =
     (if before \<le> 0 then []
      else [\<lparr>al_kind = ''ont.acs_delivery_fault'', al_action = ''resolved'', al_level = INFO, al_ont = oid,
             al_before = before, al_after = 0\<rparr>])"

definition escalate_sweep_unreachable :: "string \<Rightarrow> int \<Rightarrow> int \<Rightarrow> int \<Rightarrow> alert" where
  "escalate_sweep_unreachable oid before after threshold =
     (let crossing = (before < threshold \<and> threshold \<le> after)
      in \<lparr>al_kind = ''ont.sweep_unreachable'', al_action = (if crossing then ''escalate'' else ''still_unreachable''),
          al_level = (if crossing then ERROR else DEBUG), al_ont = oid, al_before = before, al_after = after\<rparr>)"

definition resolve_sweep_unreachable :: "string \<Rightarrow> int \<Rightarrow> alert list" where
  "resolve_sweep_unreachable oid before =
     (if before \<le> 0 then []
      else [\<lparr>al_kind = ''ont.sweep_unreachable'', al_action = ''resolved'', al_level = INFO, al_ont = oid,
             al_before = before, al_after = 0\<rparr>])"

subsection \<open>Configuration binding and the lock\<close>

record lifecycle_binding =
  lb_ont :: string
  lb_assignment :: string
  lb_head :: string
  lb_revision :: int
  lb_operation :: string

definition reconcile_binding_matches :: "ont_row \<Rightarrow> lifecycle_binding \<Rightarrow> bool" where
  "reconcile_binding_matches row b \<longleftrightarrow>
     ont_id row = lb_ont b \<and> ont_head row = Some (lb_head b) \<and> ont_assignment row = Some (lb_assignment b) \<and>
     ont_revision row = Some (lb_revision b) \<and> ont_operation row = Some (lb_operation b)"

definition bind_reconcile_projection :: "ont_row \<Rightarrow> lifecycle_binding \<Rightarrow> string + ont_row" where
  "bind_reconcile_projection row b =
     (if ont_id row \<noteq> lb_ont b then Inl ''Reconcile lifecycle binding targets another ONT''
      else Inr (row\<lparr>ont_head := Some (lb_head b), ont_assignment := Some (lb_assignment b),
        ont_revision := Some (lb_revision b), ont_operation := Some (lb_operation b)\<rparr>))"

text \<open>What \<open>acquire_reconcile_lock\<close> does to the locked row before it yields it.\<close>

definition recover_crashed :: "ont_row \<Rightarrow> ont_row" where
  "recover_crashed row =
     (if ont_sync_status row = Reconciling then
        row\<lparr>ont_sync_status := Out_of_sync, ont_last_error := Some (''Prior reconcile started at '' @
          (case ont_last_started_at row of None \<Rightarrow> ''unknown'' | Some t \<Rightarrow> isoformat t) @
          '' did not finalise (process crash assumed).'')\<rparr>
      else row)"

end
