(* ===== verification/Reconcile_Core.thy ===== *)
theory Reconcile_Core
  imports Applier Observation Ont_Row
begin

section \<open>One reconcile pass\<close>

text \<open>
  Models \<open>reconcile_ont\<close> of \<open>app/services/network/reconcile/core.py\<close> and its helpers. The surroundings
  are a record: the row lookup, the resolution of the desired state and of the two clients, the two
  readers, the ping and the rows of the PPP gate, beside the applier's environment. The two reads the
  code runs in a pool of two threads share no state; they are modelled one after the other. An
  exception ends a pass with the writes already made on the session, as the handlers at the end of
  the function leave them.
\<close>

subsection \<open>Requests and surroundings\<close>

text \<open>
  A legacy mapping gives values to fields by name, here the setters of those fields; a typed WAN
  change gives the ten WAN values and the names of the changed ones.
\<close>

record wan_change =
  wc_changed :: "string set"
  wc_mode :: wan_mode
  wc_pppoe_username :: "string option"
  wc_pppoe_password_ref :: "string option"
  wc_pppoe_wcd_index :: "int option"
  wc_static_ip :: "string option"
  wc_static_subnet :: "string option"
  wc_static_gateway :: "string option"
  wc_static_dns :: "string option"
  wc_static_ip_is_public :: "bool option"
  wc_ipv6_enabled :: bool

type_synonym setters = "(string \<times> (ont_desired \<Rightarrow> ont_desired)) list"

definition as_mapping :: "wan_change \<Rightarrow> setters" where
  "as_mapping c = filter (\<lambda>(f, _). f \<in> wc_changed c)
     [(''wan_mode'', \<lambda>d. d\<lparr>wan_mode := wc_mode c\<rparr>),
      (''wan_pppoe_username'', \<lambda>d. d\<lparr>wan_pppoe_username := wc_pppoe_username c\<rparr>),
      (''wan_pppoe_password_ref'', \<lambda>d. d\<lparr>wan_pppoe_password_ref := wc_pppoe_password_ref c\<rparr>),
      (''wan_pppoe_wcd_index'', \<lambda>d. d\<lparr>wan_pppoe_wcd_index := wc_pppoe_wcd_index c\<rparr>),
      (''wan_static_ip'', \<lambda>d. d\<lparr>wan_static_ip := wc_static_ip c\<rparr>),
      (''wan_static_subnet'', \<lambda>d. d\<lparr>wan_static_subnet := wc_static_subnet c\<rparr>),
      (''wan_static_gateway'', \<lambda>d. d\<lparr>wan_static_gateway := wc_static_gateway c\<rparr>),
      (''wan_static_dns'', \<lambda>d. d\<lparr>wan_static_dns := wc_static_dns c\<rparr>),
      (''wan_static_ip_is_public'', \<lambda>d. d\<lparr>wan_static_ip_is_public := wc_static_ip_is_public c\<rparr>),
      (''ipv6_enabled'', \<lambda>d. d\<lparr>ipv6_enabled := wc_ipv6_enabled c\<rparr>)]"

datatype proposed_change = Proposed_none | Proposed_mapping setters | Proposed_wan wan_change

definition proposed_values :: "proposed_change \<Rightarrow> setters" where
  "proposed_values p =
     (case p of Proposed_none \<Rightarrow> [] | Proposed_mapping m \<Rightarrow> m | Proposed_wan c \<Rightarrow> as_mapping c)"

definition persist_proposed_values :: "proposed_change \<Rightarrow> bool" where
  "persist_proposed_values p = (case p of Proposed_wan c \<Rightarrow> False | _ \<Rightarrow> True)"

text \<open>\<open>vars(desired_current)\<close>: the fields of \<open>OntDesiredState\<close>.\<close>

definition DESIRED_FIELDS :: "string list" where
  "DESIRED_FIELDS =
     [''ont_unit_id'', ''serial_number'', ''olt_id'', ''fsp'', ''olt_ont_id'', ''line_profile_id'',
      ''service_profile_id'', ''description'', ''mgmt_vlan'', ''mgmt_ip'', ''mgmt_subnet_mask'',
      ''mgmt_gateway'', ''mgmt_dns_primary'', ''mgmt_dns_secondary'', ''mgmt_iphost_priority'',
      ''tr069_profile_id'', ''acs_server_id'', ''cr_username'', ''cr_password_ref'',
      ''periodic_inform_interval_sec'', ''wan_mode'', ''wan_vlan'', ''wan_gem_index'',
      ''wan_pppoe_username'', ''wan_pppoe_password_ref'', ''wan_pppoe_provisioning_method'',
      ''wan_pppoe_wcd_index'', ''wan_pppoe_instance_index'', ''wan_config_profile_id'',
      ''wan_internet_config_ip_index'', ''nat_enabled'', ''ipv6_enabled'', ''dhcp_enabled'',
      ''dhcp_pool_min'', ''dhcp_pool_max'', ''dhcp_subnet_mask'', ''wifi_ssid'', ''wifi_password_ref'',
      ''wifi_password_pushed_at'', ''mgmt_service_port_index'', ''wan_service_port_index'',
      ''subscriber_external_id'', ''wan_uprate_kbps'', ''wan_downrate_kbps'', ''tr069_data_model_root'',
      ''wan_static_ip'', ''wan_static_subnet'', ''wan_static_gateway'', ''wan_static_dns'',
      ''wan_static_ip_is_public'', ''tr181_wan_paths'', ''acs_url'', ''acs_username'', ''acs_password_ref'',
      ''wifi_enabled'', ''wifi_channel'', ''wifi_security_mode'', ''wifi_paths'',
      ''wan_remote_access_enabled'', ''wan_remote_access_expires_at'', ''wan_remote_access_source_cidrs'',
      ''wan_remote_access_ssh_port'', ''remote_access_paths'', ''lan_gateway_ip'',
      ''ipv6_enabled_provenance'', ''acs_device_id'']"

record request =
  rq_ont :: string
  rq_proposed :: proposed_change
  rq_wifi_scope :: "string set option"
  rq_force_lan :: bool
  rq_timeout :: int
  rq_mode :: reconcile_mode
  rq_has_olt :: bool
  rq_has_acs :: bool
    \<comment> \<open>whether the caller passed an adapter and a client\<close>
  rq_binding :: "lifecycle_binding option"
  rq_readback_only :: bool

record 'o read_result =
  rd_success :: bool
  rd_unreachable :: bool
  rd_observed :: "'o option"
  rd_error :: "string option"

record 'w core_env =
  ce_env :: "'w env"
  ce_lock :: "string \<Rightarrow> 'w \<Rightarrow> (string + ont_row option) \<times> 'w"
  ce_desired :: "ont_row \<Rightarrow> 'w \<Rightarrow> (string + ont_desired) \<times> 'w"
  ce_resolve_olt :: "ont_row \<Rightarrow> 'w \<Rightarrow> (string + unit) \<times> 'w"
  ce_resolve_acs :: "ont_row \<Rightarrow> 'w \<Rightarrow> (string + unit) \<times> 'w"
  ce_read_olt :: "ont_desired \<Rightarrow> datetime \<Rightarrow> 'w \<Rightarrow> (string + olt_observed read_result) \<times> 'w"
  ce_read_acs :: "ont_desired \<Rightarrow> datetime \<Rightarrow> 'w \<Rightarrow> (string + acs_observed read_result) \<times> 'w"
  ce_ping :: "string \<Rightarrow> 'w \<Rightarrow> (string + bool) \<times> 'w"
  ce_ppp_rows :: "'w \<Rightarrow> ppp_db"
  ce_olt_name :: string
  ce_crypto :: ppp_crypto
  ce_keys :: key_store
  ce_cipher :: cipher

subsection \<open>Passes\<close>

record 'w pass_state =
  ps_row :: ont_row
  ps_observation :: "observation_row option"
  ps_alerts :: "alert list"
  ps_world :: 'w

type_synonym ('w, 'a) pass = "'w pass_state \<Rightarrow> (string + 'a) \<times> 'w pass_state"

definition p_ret :: "'a \<Rightarrow> ('w, 'a) pass" where
  "p_ret a s = (Inr a, s)"

definition p_raise :: "string \<Rightarrow> ('w, 'a) pass" where
  "p_raise e s = (Inl e, s)"

definition p_bind :: "('w, 'a) pass \<Rightarrow> ('a \<Rightarrow> ('w, 'b) pass) \<Rightarrow> ('w, 'b) pass" where
  "p_bind m f s = (case m s of (Inl e, s') \<Rightarrow> (Inl e, s') | (Inr a, s') \<Rightarrow> f a s')"

definition p_world :: "('w \<Rightarrow> (string + 'a) \<times> 'w) \<Rightarrow> ('w, 'a) pass" where
  "p_world f s = (let (r, w) = f (ps_world s) in (r, s\<lparr>ps_world := w\<rparr>))"

definition p_clock :: "('w \<Rightarrow> 'a \<times> 'w) \<Rightarrow> ('w, 'a) pass" where
  "p_clock f s = (let (a, w) = f (ps_world s) in (Inr a, s\<lparr>ps_world := w\<rparr>))"

definition p_get :: "('w pass_state \<Rightarrow> 'a) \<Rightarrow> ('w, 'a) pass" where
  "p_get f s = (Inr (f s), s)"

definition p_row :: "(ont_row \<Rightarrow> ont_row) \<Rightarrow> ('w, unit) pass" where
  "p_row f s = (Inr (), s\<lparr>ps_row := f (ps_row s)\<rparr>)"

definition p_alert :: "alert list \<Rightarrow> ('w, unit) pass" where
  "p_alert as s = (Inr (), s\<lparr>ps_alerts := ps_alerts s @ as\<rparr>)"

text \<open>Both reads happen before either exception is raised, the OLT's first.\<close>

definition p_both :: "('w, 'a) pass \<Rightarrow> ('w, 'b) pass \<Rightarrow> ('w, 'a \<times> 'b) pass" where
  "p_both m n s =
     (let (a, s1) = m s; (b, s2) = n s1
      in (case a of
            Inl e \<Rightarrow> (Inl e, s2)
          | Inr x \<Rightarrow> (case b of Inl e \<Rightarrow> (Inl e, s2) | Inr y \<Rightarrow> (Inr (x, y), s2))))"

subsection \<open>Finalisation\<close>

text \<open>\<open>_record_acs_delivery_fault\<close>.\<close>

definition record_fault :: "'w core_env \<Rightarrow> reconcile_failure option \<Rightarrow> ('w, unit) pass" where
  "record_fault ce failure =
     (case failure of
        None \<Rightarrow> p_ret ()
      | Some f \<Rightarrow>
          if rf_reason f \<notin> ACS_DELIVERY_FAULT_REASONS then p_ret ()
          else p_bind (p_clock (env_utc (ce_env ce))) (\<lambda>now.
            p_bind (p_get ps_row) (\<lambda>row.
              (let (streak, row') = record_acs_delivery_fault now row
                     (failure_reason_value (rf_reason f)) (rf_message f)
               in p_bind (p_row (\<lambda>_. row')) (\<lambda>_.
                    p_alert [escalate_acs_delivery_fault (ont_id row') streak None])))))"

definition mark_row :: "bool \<Rightarrow> reconcile_failure option \<Rightarrow> bool \<Rightarrow> ont_row \<Rightarrow> ont_row" where
  "mark_row success failure residual row =
     (if success then row\<lparr>ont_sync_status := (if residual then Out_of_sync else Synced), ont_last_error := None\<rparr>
      else row\<lparr>ont_sync_status := Out_of_sync,
        ont_last_error := Some (case failure of None \<Rightarrow> ''unknown failure'' | Some f \<Rightarrow> rf_message f)\<rparr>)"

text \<open>A converged pass ends a fault streak, a failed one may extend it.\<close>

definition settle_faults :: "'w core_env \<Rightarrow> bool \<Rightarrow> bool \<Rightarrow> reconcile_failure option \<Rightarrow> ('w, unit) pass" where
  "settle_faults ce success residual failure =
     (if success \<and> \<not> residual then
        p_bind (p_get ps_row) (\<lambda>row.
          (let (cleared, row') = clear_acs_delivery_fault row
           in p_bind (p_row (\<lambda>_. row')) (\<lambda>_. p_alert (resolve_acs_delivery_fault (ont_id row') cleared))))
      else if \<not> success then record_fault ce failure
      else p_ret ())"

text \<open>
  \<open>_finalise\<close>. The arguments are those of the source; the observation is stored when there is one.
\<close>

definition finalise :: "'w core_env \<Rightarrow> rat \<Rightarrow> bool \<Rightarrow> reconcile_failure option \<Rightarrow> ont_observed option \<Rightarrow>
    applied_action list \<Rightarrow> drift list \<Rightarrow> drift list \<Rightarrow> ('w, reconcile_result) pass" where
  "finalise ce started success failure observed applied before after =
     p_bind (p_clock (env_utc (ce_env ce))) (\<lambda>now.
     p_bind (p_clock (env_mono (ce_env ce))) (\<lambda>mono.
     p_bind (p_row (mark_row success failure (after \<noteq> []))) (\<lambda>_.
     p_bind (settle_faults ce success (after \<noteq> []) failure) (\<lambda>_.
     p_bind (p_row (\<lambda>row. row\<lparr>ont_last_reconciled_at := Some now\<rparr>)) (\<lambda>_.
     p_bind (\<lambda>s. (Inr (), case observed of
         None \<Rightarrow> s
       | Some ob \<Rightarrow> s\<lparr>ps_observation := Some (upsert_ont_observation ob)\<rparr>)) (\<lambda>_.
     p_bind (p_get ps_row) (\<lambda>row.
       p_ret \<lparr>rr_success = success, rr_sync_status = ont_sync_status row, rr_actions_applied = applied,
         rr_drift_before = before, rr_drift_after = after, rr_observed_after = observed,
         rr_failure = failure, rr_duration_ms = trunc_ms (mono - started), rr_reconciled_at = now\<rparr>)))))))"

text \<open>A failed pass whose plan stands as the drift before and after.\<close>

definition finalise_failed :: "'w core_env \<Rightarrow> rat \<Rightarrow> reconcile_failure option \<Rightarrow> ont_observed option \<Rightarrow>
    applied_action list \<Rightarrow> drift list \<Rightarrow> ('w, reconcile_result) pass" where
  "finalise_failed ce started failure observed applied drifts =
     finalise ce started False failure observed applied drifts drifts"

text \<open>\<open>_failure_result\<close>: the row is not touched.\<close>

definition failure_result :: "'w env \<Rightarrow> rat \<Rightarrow> reconcile_failure \<Rightarrow> 'w \<Rightarrow> reconcile_result \<times> 'w" where
  "failure_result env started f w =
     (let (now, w1) = env_utc env w; (mono, w2) = env_mono env w1
      in (\<lparr>rr_success = False, rr_sync_status = Out_of_sync, rr_actions_applied = [], rr_drift_before = [],
           rr_drift_after = [], rr_observed_after = None, rr_failure = Some f,
           rr_duration_ms = trunc_ms (mono - started), rr_reconciled_at = now\<rparr>, w2))"

subsection \<open>Reading the observed state\<close>

definition absent_olt :: olt_observed where
  "absent_olt =
     \<lparr>olt_present = False, olt_match_state = None, olt_run_state = None, olt_distance_m = None,
      olt_rx_dbm = None, olt_tx_dbm = None, olt_temperature_c = None, olt_description = None,
      olt_mgmt_ip = None, olt_mgmt_vlan = None, olt_line_profile_id = None,
      olt_service_profile_id = None, olt_service_ports = [], olt_tr069_profile_id = None\<rparr>"

definition absent_acs :: acs_observed where
  "absent_acs =
     \<lparr>acs_present = False, acs_last_inform_at = None, acs_last_boot_at = None,
      acs_last_bootstrap_at = None, acs_observed_software_version = None,
      acs_observed_pppoe_username = None, acs_observed_pppoe_enable = None,
      acs_observed_wan_vlan = None, acs_observed_wan_external_ip = None,
      acs_observed_wan_connection_status = None, acs_observed_nat_enabled = None,
      acs_observed_dhcp_enabled = None, acs_observed_ssid = None,
      acs_observed_periodic_inform_interval_sec = None, acs_observed_cr_username = None,
      acs_observed_cr_username_set = None, acs_observed_cr_password_set = None,
      acs_observed_wan_wcd_index = None, acs_observed_wan_instance_index = None,
      acs_observed_wan_ppp_locations = [], acs_data_model_root = None,
      acs_observed_ipv6_enabled = None, acs_observed_wan_ip_enable = None,
      acs_observed_wan_addressing_type = None, acs_observed_wan_ip_address = None,
      acs_observed_wan_subnet_mask = None, acs_observed_wan_gateway = None,
      acs_observed_wan_dns_servers = None, acs_observed_dhcpv6_enabled = None,
      acs_observed_dhcpv6_request_prefixes = None, acs_observed_ra_enabled = None,
      acs_observed_url = None, acs_observed_username = None, acs_observed_password_set = None,
      acs_observed_wifi_enabled = None, acs_observed_wifi_channel = None,
      acs_observed_wifi_security_mode = None, acs_observed_wifi_instance_index = None,
      acs_observed_remote_ssh_enabled = None, acs_observed_remote_ssh_port = None,
      acs_observed_remote_telnet_enabled = None, acs_observed_remote_telnet_port = None,
      acs_observed_device_id = None, acs_observed_device_match_count = 0\<rparr>"

definition clean_read :: "'o \<Rightarrow> 'o read_result" where
  "clean_read ob = \<lparr>rd_success = True, rd_unreachable = False, rd_observed = Some ob, rd_error = None\<rparr>"

text \<open>\<open>_read_observed_parallel\<close>; a missing adapter or client gives the fallback.\<close>

definition read_observed :: "'w core_env \<Rightarrow> bool \<Rightarrow> bool \<Rightarrow> ont_desired \<Rightarrow> datetime \<Rightarrow>
    olt_observed option \<Rightarrow> acs_observed option \<Rightarrow>
    ('w, olt_observed read_result \<times> acs_observed read_result) pass" where
  "read_observed ce has_olt has_acs d dl olt_fallback acs_fallback =
     p_both
       (if has_olt then p_world (ce_read_olt ce d dl)
        else p_ret (clean_read (case olt_fallback of None \<Rightarrow> absent_olt | Some x \<Rightarrow> x)))
       (if has_acs then p_world (ce_read_acs ce d dl)
        else p_ret (clean_read (case acs_fallback of None \<Rightarrow> absent_acs | Some x \<Rightarrow> x)))"

text \<open>\<open>is_pingable\<close>: no address is not pingable, and neither is a ping that raises.\<close>

definition is_pingable :: "'w core_env \<Rightarrow> string option \<Rightarrow> ('w, bool) pass" where
  "is_pingable ce ip s =
     (if \<not> truthy_str ip then (Inr False, s)
      else (let (r, w) = ce_ping ce (str_or ip []) (ps_world s)
            in (Inr (case r of Inl _ \<Rightarrow> False | Inr b \<Rightarrow> b), s\<lparr>ps_world := w\<rparr>)))"

definition observed_or :: "'o \<Rightarrow> 'o read_result \<Rightarrow> 'o" where
  "observed_or dflt r = (case rd_observed r of None \<Rightarrow> dflt | Some x \<Rightarrow> x)"

text \<open>The observed state of a pair of reads, stamped with the start of the pass.\<close>

definition observe :: "'w core_env \<Rightarrow> datetime \<Rightarrow> rat \<Rightarrow> bool \<Rightarrow> int \<Rightarrow> olt_observed read_result \<Rightarrow>
    acs_observed read_result \<Rightarrow> ('w, ont_observed) pass" where
  "observe ce started_at started pingable unreachable olt acs =
     p_bind (p_clock (env_mono (ce_env ce))) (\<lambda>mono.
       p_ret \<lparr>last_reconciled_at = started_at, last_reconcile_duration_ms = trunc_ms (mono - started),
         mgmt_ip_pingable = pingable, consecutive_sweep_unreachable = unreachable,
         obs_olt = observed_or absent_olt olt, obs_acs = observed_or absent_acs acs\<rparr>)"

subsection \<open>Decisions\<close>

text \<open>The guard on operator passes.\<close>

definition blocked_out_of_sync :: "request \<Rightarrow> ont_row \<Rightarrow> bool" where
  "blocked_out_of_sync rq row \<longleftrightarrow>
     rq_mode rq = Sync \<and> ont_sync_status row = Out_of_sync \<and> ont_last_error row \<noteq> None \<and>
     (case rq_binding rq of None \<Rightarrow> True | Some b \<Rightarrow> reconcile_binding_matches row b)"

definition blocked_failure :: "ont_row \<Rightarrow> reconcile_failure" where
  "blocked_failure row = mk_failure BLOCKED_OUT_OF_SYNC
     (''ONT is out_of_sync (last_error: '' @ str_or (ont_last_error row) ''unknown'' @
      ''); use sweep/force reconcile to clear before retrying.'') None"

definition LAN_CONFIG_FIELDS :: "string set" where
  "LAN_CONFIG_FIELDS = {''dhcp_enabled'', ''dhcp_pool_min'', ''dhcp_pool_max'', ''dhcp_subnet_mask'',
     ''lan_gateway_ip''}"

text \<open>
  The target and the proposed fields, or the failure of a change that does not validate. Fields that
  are not fields of the desired state are dropped; a proposed change replaces the other scopes.
\<close>

definition resolve_target ::
  "request \<Rightarrow> ont_desired \<Rightarrow> reconcile_failure + ont_desired \<times> string set" where
  "resolve_target rq current =
     (let proposed = proposed_values (rq_proposed rq) in
      if proposed = [] then
        Inr (current, (case rq_wifi_scope rq of None \<Rightarrow> {} | Some fs \<Rightarrow> fs) \<union>
          (if rq_force_lan rq then LAN_CONFIG_FIELDS else {}))
      else
        (let kept = filter (\<lambda>(f, _). f \<in> set DESIRED_FIELDS) proposed;
             target = fold snd kept current;
             verdict = validate_desired target current
         in if v_ok verdict then Inr (target, set (map fst kept))
            else Inl (mk_failure INVALID_CHANGE (str_or (v_reason verdict) ''invalid proposed change'') None)))"

text \<open>Surfaces a plan needs that could not be read.\<close>

definition blocked_surfaces ::
  "olt_observed read_result \<Rightarrow> acs_observed read_result \<Rightarrow> plan \<Rightarrow> surface set" where
  "blocked_surfaces olt acs p =
     (let unreachable = (if rd_unreachable olt then {Olt} else {}) \<union> (if rd_unreachable acs then {Acs} else {});
          blocked = plan_required_surfaces p \<inter> unreachable
      in if blocked = {} \<and> rd_unreachable acs \<and> plan_waiting_for_acs p then {Acs} else blocked)"

definition unreachable_failure ::
  "'w core_env \<Rightarrow> bool \<Rightarrow> olt_observed read_result \<Rightarrow> acs_observed read_result \<Rightarrow> surface set \<Rightarrow>
    reconcile_failure" where
  "unreachable_failure ce has_olt olt acs blocked =
     (if Olt \<in> blocked then mk_failure OLT_UNREACHABLE (''OLT '' @ (if has_olt then ce_olt_name ce else ''None'') @
        '' unreachable: '' @ str_or (rd_error olt) ''no detail'') None
      else mk_failure ACS_UNREACHABLE (''ACS unreachable: '' @ str_or (rd_error acs) ''no detail'') None)"

definition acs_wait_failure :: "plan \<Rightarrow> reconcile_failure option" where
  "acs_wait_failure p =
     (case plan_acs_wait_reason p of
        None \<Rightarrow> None
      | Some r \<Rightarrow> Some (mk_failure r
          (str_or (Some (plan_acs_wait_detail p)) ''ACS configuration could not be delivered.'')
          (Some [(''acs_wait_reason'', Ev_str (failure_reason_value r))])))"

definition drift_names :: "drift list \<Rightarrow> string list" where
  "drift_names ds = map (\<lambda>d. surface_value (drift_surface d) @ '':'' @ drift_field d) ds"

fun ppp_refusal_value :: "ppp_refusal \<Rightarrow> string" where
  "ppp_refusal_value No_active_service_intent = ''no_active_service_intent''"
| "ppp_refusal_value Bridged_service_intent = ''bridged_service_intent''"
| "ppp_refusal_value No_active_assignment = ''no_active_assignment''"
| "ppp_refusal_value Ambiguous_assignment = ''ambiguous_assignment''"
| "ppp_refusal_value Unresolvable_ont = ''unresolvable_ont''"
| "ppp_refusal_value Scope_mismatch = ''scope_mismatch''"
| "ppp_refusal_value No_authoritative_credential = ''no_authoritative_credential''"
| "ppp_refusal_value Ambiguous_authoritative_credential = ''ambiguous_authoritative_credential''"
| "ppp_refusal_value Unreadable_authoritative_credential = ''unreadable_authoritative_credential''"
| "ppp_refusal_value Credential_key_unavailable = ''credential_key_unavailable''"
| "ppp_refusal_value Missing_projection_fingerprint = ''missing_projection_fingerprint''"
| "ppp_refusal_value Credential_fingerprint_mismatch = ''credential_fingerprint_mismatch''"

text \<open>Withheld PPP work, as the residual drift of a pass.\<close>

definition residual_ppp_drift :: "refused_action list \<Rightarrow> drift list" where
  "residual_ppp_drift refused = map (\<lambda>r.
     \<lparr>drift_field = ''ppp_delivery['' @ ref_action_name r @ '']'',
      drift_surface = (if starts_with (ref_action_name r) ''Acs'' then Acs else Olt),
      drift_desired = Str (ppp_refusal_value (ref_refusal r)), drift_observed = PyNone,
      drift_repairable = False\<rparr>) refused"

text \<open>\<open>_classify_verify_drifts\<close>: stale-cache candidates and genuine divergence.\<close>

definition applied_acs_fields :: "applied_action list \<Rightarrow> string set" where
  "applied_acs_fields applied = (\<Union>a \<in> set applied. if aa_surface a \<noteq> Acs then {}
     else insert (aa_field a) (case aa_evidence a of
         None \<Rightarrow> {}
       | Some ev \<Rightarrow> (case map_of ev ''changed_fields'' of Some (Ev_list fs) \<Rightarrow> set fs | _ \<Rightarrow> {})))"

definition classify_verify_drifts :: "drift list \<Rightarrow> applied_action list \<Rightarrow> drift list \<times> drift list" where
  "classify_verify_drifts drifts applied =
     (let lag = filter (\<lambda>d. drift_surface d = Acs \<and> drift_repairable d \<and>
            drift_field d \<in> applied_acs_fields applied) drifts
      in (lag, filter (\<lambda>d. d \<notin> set lag) drifts))"

definition summarise_drifts :: "drift list \<Rightarrow> string" where
  "summarise_drifts drifts =
     (let fs = map drift_field drifts in
      if fs = [] then ''no drift''
      else if length fs \<le> 3 then join_with '', '' fs
      else join_with '', '' (take 3 fs) @ '', +'' @ show_nat (length fs - 3) @ '' more'')"

subsection \<open>The pass\<close>

text \<open>
  The applier's environment of a pass. A pass without an OLT adapter or an ACS client has \<open>None\<close> in
  its place, on which every call raises.
\<close>

fun olt_method :: "olt_call \<Rightarrow> string" where
  "olt_method (Call_authorize_ont f sn lp sp desc) = ''authorize_ont''"
| "olt_method (Call_set_ont_description f n desc) = ''set_ont_description''"
| "olt_method (Call_update_ont_profiles f n lp sp) = ''update_ont_profiles''"
| "olt_method (Call_clear_iphost_config f n i) = ''clear_iphost_config''"
| "olt_method (Call_configure_iphost f n i md v prio ip m gw) = ''configure_iphost''"
| "olt_method (Call_bind_tr069_profile f n p) = ''bind_tr069_profile''"
| "olt_method (Call_create_service_port f n gem v uv idx) = ''create_service_port''"
| "olt_method (Call_delete_service_port idx) = ''delete_service_port''"
| "olt_method (Call_configure_pppoe f n i v u pw) = ''configure_pppoe''"
| "olt_method (Call_configure_internet_config f n i) = ''configure_internet_config''"
| "olt_method (Call_configure_wan_config f n i p) = ''configure_wan_config''"
| "olt_method (Call_reboot_ont f n) = ''reboot_ont''"

definition no_attribute :: "string \<Rightarrow> string" where
  "no_attribute m = [CHR 0x27] @ ''NoneType'' @ [CHR 0x27] @ '' object has no attribute '' @ [CHR 0x27] @ m @ [CHR 0x27]"

definition pass_env :: "'w core_env \<Rightarrow> bool \<Rightarrow> bool \<Rightarrow> 'w env" where
  "pass_env ce has_olt has_acs =
     (let e = (if has_olt then ce_env ce
            else (ce_env ce)\<lparr>env_olt := \<lambda>c w. (Inl (no_attribute (olt_method c)), w)\<rparr>)
      in if has_acs then e
         else e\<lparr>env_set := \<lambda>dev ps w. (Inl (no_attribute ''set_parameter_values''), w),
           env_add_object := \<lambda>dev path w. (Inl (no_attribute ''add_object''), w),
           env_delete_object := \<lambda>dev path w. (Inl (no_attribute ''delete_object''), w),
           env_can_probe := False\<rparr>)"

text \<open>The row as the PPP gate sees it.\<close>

definition ppp_ont_of :: "ont_row \<Rightarrow> ppp_ont" where
  "ppp_ont_of row = \<lparr>po_id = Some (ont_id row), po_dialer_fingerprint =
     Some (cfg_text (get_desired (ont_desired_config row) (''delivery'', ''dialer_credential_fingerprint'')))\<rparr>"

definition run_apply :: "'w core_env \<Rightarrow> bool \<Rightarrow> bool \<Rightarrow> action list \<Rightarrow> ppp_ruling option \<Rightarrow> ppp_scope option \<Rightarrow>
    datetime \<Rightarrow> ('w, apply_result) pass" where
  "run_apply ce has_olt has_acs acts ruling sc dl s =
     (case apply_plan (pass_env ce has_olt has_acs) acts ruling sc (Some dl) (ps_world s, Map.empty) of
        (Ret r, w, inst) \<Rightarrow> (Inr r, s\<lparr>ps_world := w\<rparr>)
      | (Halt (Apply_error q msg ev), w, inst) \<Rightarrow> (Inl msg, s\<lparr>ps_world := w\<rparr>)
      | (Raised e, w, inst) \<Rightarrow> (Inl e, s\<lparr>ps_world := w\<rparr>))"

text \<open>\<open>if proposed_values and persist_proposed_values: apply_proposed_change(...)\<close>.\<close>

definition persist_change :: "'w core_env \<Rightarrow> request \<Rightarrow> ont_desired \<Rightarrow> string set \<Rightarrow> ('w, unit) pass" where
  "persist_change ce rq target pf s =
     (if proposed_values (rq_proposed rq) \<noteq> [] \<and> persist_proposed_values (rq_proposed rq) then
        (let (r, row) = apply_proposed_change (ce_keys ce) (ce_cipher ce) (ps_row s) target pf
         in (r, s\<lparr>ps_row := row\<rparr>))
      else (Inr (), s))"

definition readback_failure :: "plan \<Rightarrow> reconcile_failure" where
  "readback_failure p = mk_failure VERIFICATION_MISMATCH ''Current revision is still awaiting device readback.''
     (Some [(''readback_pending'', Ev_bool True), (''drift_fields'', Ev_list (drift_names (plan_drifts p)))])"

text \<open>The \<open>readback_only\<close> branch: verify what was read, write nothing.\<close>

definition readback_outcome :: "'w core_env \<Rightarrow> rat \<Rightarrow> ont_observed \<Rightarrow> plan \<Rightarrow> ('w, reconcile_result) pass" where
  "readback_outcome ce started ob p =
     (case acs_wait_failure p of
        Some f \<Rightarrow> finalise_failed ce started (Some f) (Some ob) [] (plan_drifts p)
      | None \<Rightarrow>
          if plan_actions p \<noteq> [] then
            finalise_failed ce started (Some (readback_failure p)) (Some ob) [] (plan_drifts p)
          else finalise ce started True None (Some ob) [] (plan_drifts p) [])"

definition mismatch_failure :: "drift list \<Rightarrow> applied_action list \<Rightarrow> reconcile_failure" where
  "mismatch_failure drifts applied =
     mk_failure VERIFICATION_MISMATCH (''Post-apply state still diverges from desired: '' @ summarise_drifts drifts)
       (Some [(''readback_pending'', Ev_bool (snd (classify_verify_drifts drifts applied) = [])),
              (''drift_fields'', Ev_list (drift_names drifts))])"

definition verify_unreachable :: "olt_observed read_result \<Rightarrow> acs_observed read_result \<Rightarrow> reconcile_failure option" where
  "verify_unreachable olt acs =
     (if rd_unreachable olt then Some (mk_failure OLT_UNREACHABLE
        (''Post-apply verification could not reach OLT: '' @ str_or (rd_error olt) ''no detail'') None)
      else if rd_unreachable acs then Some (mk_failure ACS_UNREACHABLE
        (''Post-apply verification could not reach ACS: '' @ str_or (rd_error acs) ''no detail'') None)
      else None)"

text \<open>What is decided from the verification re-read.\<close>

definition verify_outcome :: "'w core_env \<Rightarrow> request \<Rightarrow> rat \<Rightarrow> ont_desired \<Rightarrow> string set \<Rightarrow> plan \<Rightarrow> apply_result \<Rightarrow>
    olt_observed read_result \<Rightarrow> acs_observed read_result \<Rightarrow> ont_observed \<Rightarrow> ('w, reconcile_result) pass" where
  "verify_outcome ce rq started target pf p ar olt acs after =
     (let residual = residual_ppp_drift (ar_refused_ppp ar);
          applied = ar_actions_applied ar;
          verify = compute_plan target after (rq_mode rq) (Some pf) False;
          unattributed = filter (\<lambda>d. \<not> is_ppp_attributable_drift d) (plan_drifts verify)
      in case verify_unreachable olt acs of
           Some f \<Rightarrow> finalise_failed ce started (Some f) (Some after) applied (plan_drifts p)
         | None \<Rightarrow>
             if plan_drifts verify \<noteq> [] \<and> residual \<noteq> [] \<and> unattributed = [] then
               finalise ce started True None (Some after) applied (plan_drifts p) residual
             else if plan_drifts verify \<noteq> [] then
               finalise ce started False (Some (mismatch_failure (plan_drifts verify) applied)) (Some after)
                 applied (plan_drifts p) (plan_drifts verify)
             else (case acs_wait_failure p of
                 Some f \<Rightarrow> finalise_failed ce started (Some f) (Some after) applied (plan_drifts p)
               | None \<Rightarrow> p_bind (persist_change ce rq target pf) (\<lambda>_.
                   finalise ce started True None (Some after) applied (plan_drifts p) residual)))"

text \<open>From the plan on: apply under the PPP gate, then verify.\<close>

definition deliver :: "'w core_env \<Rightarrow> request \<Rightarrow> datetime \<Rightarrow> rat \<Rightarrow> ont_desired \<Rightarrow> string set \<Rightarrow> bool \<Rightarrow> bool \<Rightarrow>
    olt_observed option \<Rightarrow> acs_observed option \<Rightarrow> bool \<Rightarrow> ont_observed \<Rightarrow> plan \<Rightarrow> ('w, reconcile_result) pass" where
  "deliver ce rq started_at started target pf has_olt has_acs olt_fb acs_fb pingable before p =
     (let wifi_only = rq_wifi_scope rq \<noteq> None; dl = started_at + rq_timeout rq * 1000000 in
      p_bind (p_get (\<lambda>s. (ppp_ont_of (ps_row s), ce_ppp_rows ce (ps_world s)))) (\<lambda>(ont, db).
      p_bind (run_apply ce has_olt has_acs (plan_actions p)
          (if wifi_only then None else Some (authorize_ppp_delivery (ce_crypto ce) db ont (plan_actions p)))
          (if wifi_only then None else derive_delivery_scope (ce_crypto ce) db ont (plan_actions p)) dl) (\<lambda>ar.
      if \<not> ar_success ar then
        finalise_failed ce started (ar_halted_by ar) (Some before) (ar_actions_applied ar) (plan_drifts p)
      else
        p_bind (p_get ps_row) (\<lambda>row.
        p_bind (p_row (\<lambda>row. row\<lparr>ont_unreachable := 0\<rparr>)) (\<lambda>_.
        p_bind (p_alert (resolve_sweep_unreachable (ont_id row) (ont_unreachable row))) (\<lambda>_.
        if ar_actions_applied ar = [] \<and> ar_refused_ppp ar = [] then
          (case acs_wait_failure p of
             Some f \<Rightarrow> finalise_failed ce started (Some f) (Some before) [] (plan_drifts p)
           | None \<Rightarrow> p_bind (persist_change ce rq target pf) (\<lambda>_.
               finalise ce started True None (Some before) [] (plan_drifts p) []))
        else
          p_bind (read_observed ce has_olt has_acs target dl olt_fb acs_fb) (\<lambda>(olt, acs).
          p_bind (if wifi_only then p_ret pingable else is_pingable ce (mgmt_ip target)) (\<lambda>pingable'.
          p_bind (observe ce started_at started pingable' 0 olt acs) (\<lambda>after.
            verify_outcome ce rq started target pf p ar olt acs after)))))))))"

text \<open>From the target on: resolve the clients, read, plan, check reachability.\<close>

definition converge :: "'w core_env \<Rightarrow> request \<Rightarrow> datetime \<Rightarrow> rat \<Rightarrow> ont_desired \<Rightarrow> string set \<Rightarrow>
    ('w, reconcile_result) pass" where
  "converge ce rq started_at started target pf =
     (let profile_only = (rq_mode rq = Sync \<and> pf = {''tr069_profile_id''});
          wifi_only = rq_wifi_scope rq \<noteq> None;
          has_olt = (rq_has_olt rq \<or> \<not> wifi_only);
          has_acs = (rq_has_acs rq \<or> \<not> profile_only);
          dl = started_at + rq_timeout rq * 1000000
      in
      p_bind (p_get ps_row) (\<lambda>row.
      p_bind (if \<not> rq_has_olt rq \<and> \<not> wifi_only then p_world (ce_resolve_olt ce row) else p_ret ()) (\<lambda>_.
      p_bind (if \<not> rq_has_acs rq \<and> \<not> profile_only then p_world (ce_resolve_acs ce row) else p_ret ()) (\<lambda>_.
      p_bind (p_get (\<lambda>s. observed_from_ont_observation (ps_observation s))) (\<lambda>cached.
      let acs_fb = (if profile_only \<and> \<not> has_acs
            then Some (case cached of None \<Rightarrow> absent_acs | Some ob \<Rightarrow> obs_acs ob) else None);
          wifi_cache = (if wifi_only then cached else None);
          olt_fb = map_option obs_olt wifi_cache
      in
      p_bind (read_observed ce has_olt has_acs target dl olt_fb acs_fb) (\<lambda>(olt, acs).
      p_bind (if wifi_only then p_ret (case wifi_cache of None \<Rightarrow> False | Some ob \<Rightarrow> mgmt_ip_pingable ob)
              else is_pingable ce (mgmt_ip target)) (\<lambda>pingable.
      p_bind (observe ce started_at started pingable (ont_unreachable row) olt acs) (\<lambda>before.
      let p = compute_plan target before (rq_mode rq) (Some pf) (\<not> rq_readback_only rq);
          blocked = blocked_surfaces olt acs p
      in
      if blocked \<noteq> {} then
        finalise_failed ce started (Some (unreachable_failure ce has_olt olt acs blocked)) (Some before) []
          (plan_drifts p)
      else if rq_readback_only rq then readback_outcome ce started before p
      else deliver ce rq started_at started target pf has_olt has_acs olt_fb acs_fb pingable before p))))))))"

text \<open>The body under the lock; a blocked pass returns its failure without touching the row.\<close>

definition reconcile_locked :: "'w core_env \<Rightarrow> request \<Rightarrow> datetime \<Rightarrow> rat \<Rightarrow> ('w, reconcile_result) pass" where
  "reconcile_locked ce rq started_at started =
     p_bind (p_get ps_row) (\<lambda>row.
     if blocked_out_of_sync rq row then
       p_clock (failure_result (ce_env ce) started (blocked_failure row))
     else
       p_bind (case rq_binding rq of
           None \<Rightarrow> p_ret ()
         | Some b \<Rightarrow> (case bind_reconcile_projection row b of
             Inl e \<Rightarrow> p_raise e
           | Inr row' \<Rightarrow> p_row (\<lambda>_. row'))) (\<lambda>_.
       p_bind (p_row (\<lambda>row. row\<lparr>ont_sync_status := Reconciling, ont_last_started_at := Some started_at\<rparr>)) (\<lambda>_.
       p_bind (p_get ps_row) (\<lambda>row.
       p_bind (p_world (ce_desired ce row)) (\<lambda>current.
         case resolve_target rq current of
           Inl f \<Rightarrow> finalise ce started False (Some f) None [] [] []
         | Inr (target, pf) \<Rightarrow> converge ce rq started_at started target pf)))))"

definition internal_error :: "string \<Rightarrow> reconcile_failure" where
  "internal_error e = mk_failure OLT_WRITE_REJECTED (''internal error: '' @ e) None"

text \<open>
  \<open>reconcile_ont\<close>: the result, and what the session and the world are left as. No row, no lock: the
  session part is then \<open>None\<close>.
\<close>

definition reconcile_ont :: "'w core_env \<Rightarrow> request \<Rightarrow> observation_row option \<Rightarrow> 'w \<Rightarrow>
    reconcile_result \<times> 'w pass_state option \<times> 'w" where
  "reconcile_ont ce rq obs w =
     (let (started, w1) = env_mono (ce_env ce) w;
          (started_at, w2) = env_utc (ce_env ce) w1;
          (locked, w3) = ce_lock ce (rq_ont rq) w2
      in case locked of
           Inl e \<Rightarrow> (let (r, w4) = failure_result (ce_env ce) started (internal_error e) w3 in (r, None, w4))
         | Inr None \<Rightarrow>
             (let (r, w4) = failure_result (ce_env ce) started
                    (mk_failure INVALID_CHANGE (''OntUnit '' @ rq_ont rq @ '' not found'') None) w3
              in (r, None, w4))
         | Inr (Some row) \<Rightarrow>
             (case reconcile_locked ce rq started_at started
                \<lparr>ps_row = recover_crashed row, ps_observation = obs, ps_alerts = [], ps_world = w3\<rparr> of
                (Inr r, s) \<Rightarrow> (r, Some s, ps_world s)
              | (Inl e, s) \<Rightarrow>
                  (let (r, w4) = failure_result (ce_env ce) started (internal_error e) (ps_world s)
                   in (r, Some (s\<lparr>ps_world := w4\<rparr>), w4))))"

subsection \<open>A sample pass\<close>

text \<open>
  The sample ONT behind the sample adapter, always read as \<open>olt\<close> and \<open>acs\<close>; the adapter and the client
  can be built, the address answers, and the rows authorise nothing for this ONT.
\<close>

definition sample_row :: ont_row where
  "sample_row = \<lparr>ont_id = ''ont-7'', ont_serial = ''HWTC0001'', ont_sync_status = Synced, ont_last_error = None,
     ont_last_started_at = None, ont_last_reconciled_at = None, ont_unreachable = 0, ont_head = None,
     ont_assignment = None, ont_revision = None, ont_operation = None, ont_desired_config = [],
     ont_tr069_profile = None\<rparr>"

definition sample_request :: request where
  "sample_request = \<lparr>rq_ont = ''ont-7'', rq_proposed = Proposed_none, rq_wifi_scope = None, rq_force_lan = False,
     rq_timeout = 60, rq_mode = Sync, rq_has_olt = False, rq_has_acs = False, rq_binding = None,
     rq_readback_only = False\<rparr>"

definition sample_core :: "ont_desired \<Rightarrow> olt_observed read_result \<Rightarrow> acs_observed read_result \<Rightarrow>
    (olt_call list) core_env" where
  "sample_core d olt acs =
     \<lparr>ce_env = sample_env, ce_lock = (\<lambda>i w. (Inr (Some sample_row), w)), ce_desired = (\<lambda>row w. (Inr d, w)),
      ce_resolve_olt = (\<lambda>row w. (Inr (), w)), ce_resolve_acs = (\<lambda>row w. (Inr (), w)),
      ce_read_olt = (\<lambda>t dl w. (Inr olt, w)), ce_read_acs = (\<lambda>t dl w. (Inr acs, w)),
      ce_ping = (\<lambda>ip w. (Inr True, w)), ce_ppp_rows = (\<lambda>w. sample_ppp_db), ce_olt_name = ''olt-1'',
      ce_crypto = sample_crypto, ce_keys = sample_keys ''k'' None, ce_cipher = sample_cipher\<rparr>"

end
