(* ===== verification/Apply_Safety.thy ===== *)
theory Apply_Safety
  imports Applier Plan_Order
begin

section \<open>What the applier guarantees\<close>

text \<open>
  Refusals happen before any device is contacted, withheld PPP work leaves no trace, the first
  failure stops the pass, and the planner never plans what the applier would refuse. All of it holds
  for every environment: nothing is assumed of the OLT adapter, the ACS client or the secret store.
\<close>

lemma and_then_ret [simp]: "and_then (ret a) f = f a"
  by (rule ext) (simp add: and_then_def ret_def)

lemma and_then_halt [simp]: "and_then (halt r m) f = halt r m"
  by (rule ext) (simp add: and_then_def halt_def)

lemma in_world_apply: "and_then (in_world f) g s = (let (a, w) = f (fst s) in g a (w, snd s))"
  by (simp add: and_then_def in_world_def split: prod.split)

subsection \<open>Refusal before contact\<close>

text \<open>The guarded fields of an action, as the executor passes them to \<open>_refuse_unset\<close>.\<close>

fun guarded_fields :: "action \<Rightarrow> (string \<times> scalar) list" where
  "guarded_fields (OltA (OltAuthorize f n lp sp sn desc)) =
     [(''line_profile_id'', SInt lp), (''service_profile_id'', SInt sp)]"
| "guarded_fields (OltA (OltModifyLineProfile f n lp)) = [(''line_profile_id'', SInt lp)]"
| "guarded_fields (OltA (OltModifyServiceProfile f n sp)) = [(''service_profile_id'', SInt sp)]"
| "guarded_fields (OltA (OltTr069ServerConfig f n p)) = [(''tr069_profile_id'', SInt p)]"
| "guarded_fields (OltA (OltCreateServicePort f n idx v gem slot)) =
     (if slot = ''wan'' then [(''wan_vlan'', SInt v)] else [])"
| "guarded_fields (OltA (OltOmciPppoe f n i v u pw)) = [(''wan_vlan'', SInt v)]"
| "guarded_fields (AcsA (AcsSetPppoe dev w i u pw v)) =
     [(''wan_pppoe_wcd_index'', SInt w), (''wan_vlan'', SInt v)]"
| "guarded_fields (AcsA (AcsSetWifiSsid dev ssid)) = [(''wifi_ssid'', SStr ssid)]"
| "guarded_fields (AcsA (AcsSetWifiPassword dev pw)) = [(''wifi_password_ref'', SStr pw)]"
| "guarded_fields (AcsA (AcsSetWifiConfig dev paths en ssid psk ch sec)) =
     (case ssid of None \<Rightarrow> [] | Some s \<Rightarrow> [(''wifi_ssid'', SStr s)]) @
     (case psk of None \<Rightarrow> [] | Some s \<Rightarrow> [(''wifi_password_ref'', SStr s)])"
| "guarded_fields (AcsA (AcsSetNatEnabled dev w i en)) = [(''wan_pppoe_wcd_index'', SInt w)]"
| "guarded_fields (AcsA (AcsSetWanIp dev rt w i md v nt ip msk gw dns paths)) =
     [(''wan_pppoe_wcd_index'', SInt w), (''wan_vlan'', SInt v)]"
| "guarded_fields (AcsA (AcsSetManagementServer dev u pw interval rt url au ap)) =
     [(''cr_username'', SStr u), (''cr_password_ref'', SStr pw)]"
| "guarded_fields _ = []"

text \<open>
  What an action must satisfy to be sent at all: no guarded field is unset, a WAN PPP object path
  agrees with its typed index, an IPv6 write has executable provenance, a WiFi or remote access write
  changes something, and a TR-181 WAN write has its parameter map.
\<close>

definition action_deliverable :: "action \<Rightarrow> bool" where
  "action_deliverable a \<longleftrightarrow> value_gate.passes (guarded_fields a) \<and>
     (case a of
        AcsA (AcsAddObject dev path wcd) \<Rightarrow>
          (case wan_ppp_wcd_from_object_path path of None \<Rightarrow> True | Some r \<Rightarrow> wcd = Some r)
      | AcsA (AcsSetIpv6 dev i en req prov) \<Rightarrow> has_executable_desired_provenance prov
      | AcsA (AcsSetWifiConfig dev paths en ssid psk ch sec) \<Rightarrow>
          en \<noteq> None \<or> ssid \<noteq> None \<or> psk \<noteq> None \<or> ch \<noteq> None \<or> sec \<noteq> None
      | AcsA (AcsSetRemoteAccess dev paths ssh port telnet) \<Rightarrow> ssh \<noteq> None \<or> port \<noteq> None \<or> telnet \<noteq> None
      | AcsA (AcsSetWanIp dev rt w i md v nt ip msk gw dns paths) \<Rightarrow> rt = ''Device'' \<longrightarrow> paths \<noteq> None
      | _ \<Rightarrow> True)"

text \<open>The reason of the refusal: only the missing parameter map is reported as a failed write.\<close>

definition refusal_reason :: "action \<Rightarrow> failure_reason" where
  "refusal_reason a =
     (case a of
        AcsA (AcsSetWanIp dev rt w i md v nt ip msk gw dns paths) \<Rightarrow>
          if value_gate.passes (guarded_fields a) then ACS_WRITE_FAULTED else INVALID_CHANGE
      | _ \<Rightarrow> INVALID_CHANGE)"

definition unset_message :: "(string \<times> scalar) list \<Rightarrow> string" where
  "unset_message fvs = ''refusing to write unset '' @
     join_with '', '' (map fst (filter (\<lambda>(name, v). \<not> is_deliverable name v) fvs))"

lemma refuse_unset_eq:
  "refuse_unset fvs = (if value_gate.passes fvs then ret () else halt INVALID_CHANGE (unset_message fvs))"
  by (simp add: refuse_unset_def Let_def unset_message_def flip: value_gate.refused_names_empty_iff)

lemma refused_then [simp]:
  "\<not> value_gate.passes fvs \<Longrightarrow> and_then (refuse_unset fvs) f = halt INVALID_CHANGE (unset_message fvs)"
  by (simp add: refuse_unset_eq)

lemma passed_then [simp]: "value_gate.passes fvs \<Longrightarrow> and_then (refuse_unset fvs) f = f ()"
  by (simp add: refuse_unset_eq)

lemma refuse_add_object:
  assumes "wan_ppp_wcd_from_object_path path = Some r" and "wcd \<noteq> Some r"
  shows "and_then (require_add_object_layout path wcd) f = halt INVALID_CHANGE
    (if value_gate.passes [(''wan_pppoe_wcd_index'', oint wcd)]
     then ''WAN PPP addObject path does not match its typed WCD index''
     else unset_message [(''wan_pppoe_wcd_index'', oint wcd)])"
  using assms by (simp add: require_add_object_layout_def)

lemma halts_somehow [simp]: "\<exists>msg. halt r m = halt r msg"
  by blast

lemma execute_refused:
  assumes "\<not> action_deliverable a"
  shows "\<exists>msg. (case a of OltA x \<Rightarrow> execute_olt env t0 x | AcsA x \<Rightarrow> execute_acs env t0 x) =
    halt (refusal_reason a) msg"
proof (cases "value_gate.passes (guarded_fields a)")
  case False
  have ne: "guarded_fields a \<noteq> []"
    using False by (auto simp: value_gate.passes_def)
  have reason: "refusal_reason a = INVALID_CHANGE"
    using False by (simp add: refusal_reason_def split: action.split acs_action.split)
  show ?thesis
  proof (cases a)
    case (OltA x)
    show ?thesis using False ne reason unfolding OltA
      by (cases x) (simp_all split: if_splits)
  next
    case (AcsA x)
    show ?thesis using False ne reason unfolding AcsA
      by (cases x) (simp_all add: execute_wifi_config_def execute_management_server_def)
  qed
next
  case True
  with assms consider dev path wcd r where "a = AcsA (AcsAddObject dev path wcd)"
      "wan_ppp_wcd_from_object_path path = Some r" "wcd \<noteq> Some r"
    | dev i en req prov where "a = AcsA (AcsSetIpv6 dev i en req prov)"
      "\<not> has_executable_desired_provenance prov"
    | dev paths where "a = AcsA (AcsSetWifiConfig dev paths None None None None None)"
    | dev paths where "a = AcsA (AcsSetRemoteAccess dev paths None None None)"
    | dev w i md v nt ip msk gw dns where "a = AcsA (AcsSetWanIp dev ''Device'' w i md v nt ip msk gw dns None)"
    by (auto simp: action_deliverable_def split: action.splits acs_action.splits option.splits)
  then show ?thesis
  proof cases
    case 1
    then show ?thesis by (simp add: refuse_add_object refusal_reason_def)
  next
    case 2
    then show ?thesis by (simp add: refuse_unknown_provenance_def refusal_reason_def)
  next
    case 3
    then show ?thesis
      by (simp add: execute_wifi_config_def optional_entry_def refusal_reason_def value_gate.passes_def)
  next
    case 4
    then show ?thesis by (simp add: execute_remote_access_def optional_entry_def refusal_reason_def)
  next
    case 5
    then show ?thesis using True by (simp add: refusal_reason_def)
  qed
qed

lemma refused_untouched:
  assumes "\<not> action_deliverable a"
  shows "\<exists>msg. execute env a (w, inst) =
    (Halt (Apply_error (refusal_reason a) msg None), snd (env_mono env w), inst)"
proof -
  obtain t0 w' where m: "env_mono env w = (t0, w')" by (rule prod.exhaust)
  from execute_refused [OF assms, of env t0] obtain msg where
    "(case a of OltA x \<Rightarrow> execute_olt env t0 x | AcsA x \<Rightarrow> execute_acs env t0 x) = halt (refusal_reason a) msg"
    by blast
  then show ?thesis by (simp add: execute_def in_world_apply m halt_def)
qed

text \<open>
  C34: an undeliverable action touches nothing. If an action carries an unset placeholder, a WAN PPP
  path that contradicts its typed index, an IPv6 value of unknown provenance or no changed field, executing
  it stops with \<open>invalid_change\<close> after reading the clock, and a TR-181 WAN write without its parameter map
  stops with \<open>acs_write_faulted\<close>: no adapter, ACS or secret-store call is made and the context is
  unchanged. This holds for directly built actions as for planned ones.
\<close>

theorem refusal_before_contact:
  assumes "\<not> action_deliverable a"
  shows "\<exists>msg. execute env a (w, inst) =
    (Halt (Apply_error (refusal_reason a) msg None), snd (env_mono env w), inst)"
  by (rule refused_untouched [OF assms])

theorem refusal_before_contact_witness:
  "\<exists>msg. execute sample_env (OltA (OltAuthorize ''0/1/2'' 7 0 41 ''HWTC0001'' [])) ([], Map.empty) =
    (Halt (Apply_error INVALID_CHANGE msg None), snd (env_mono sample_env []), Map.empty)"
  using refusal_before_contact [of "OltA (OltAuthorize ''0/1/2'' 7 0 41 ''HWTC0001'' [])" sample_env "[]" Map.empty]
  by (simp add: action_deliverable_def value_gate.passes_def refusal_reason_def)

subsection \<open>The planner plans nothing the applier refuses\<close>

lemma wcd_parse:
  assumes "ds \<noteq> []" and "\<forall>c \<in> set ds. is_digit c" and "pre \<noteq> []" and "\<not> is_digit (last pre)"
  shows "wan_ppp_wcd_from_object_path (pre @ ds @ ''.WANPPPConnection'') =
    (if strip_suffix ''WANDevice.1.WANConnectionDevice.'' pre \<noteq> None
     then Some (int (nat_of_digits ds)) else None)"
proof -
  have suf: "strip_suffix ''.WANPPPConnection'' (pre @ ds @ ''.WANPPPConnection'') = Some (pre @ ds)"
    using strip_suffix_append [of "''.WANPPPConnection''" "pre @ ds"] by simp
  obtain c cs where rp: "rev pre = c # cs" and c: "\<not> is_digit c"
    using assms(3,4) by (metis last_rev list.exhaust rev_is_Nil_conv list.sel(1) rev_rev_ident hd_rev)
  have tw: "takeWhile is_digit (rev (pre @ ds)) = rev ds" "dropWhile is_digit (rev (pre @ ds)) = rev pre"
    using assms(2) c
    by (simp_all add: rp takeWhile_tail dropWhile_append3 takeWhile_eq_all_conv dropWhile_eq_Nil_conv)
  have last: "last (pre @ ds @ ''.WANPPPConnection'') \<noteq> CHR 0x0A" by simp
  show ?thesis
    using last assms(1) by (simp only: wan_ppp_wcd_from_object_path_def Let_def suf tw option.case
        simp_thms if_False rev_rev_ident rev_is_Nil_conv append_is_Nil_conv)
qed

text \<open>The path the planner renders for a WAN connection device reads back as its index.\<close>

lemma wcd_from_rendered_path:
  "wan_ppp_wcd_from_object_path (wcd_path w @ ''WANPPPConnection'') = (if 0 \<le> w then Some w else None)"
proof -
  have digits: "\<forall>c \<in> set (show_nat n). is_digit c" for n by (auto dest: show_nat_digits)
  show ?thesis
  proof (cases "0 \<le> w")
    case True
    define pre where "pre = ''InternetGatewayDevice.WANDevice.1.WANConnectionDevice.''"
    have e: "wcd_path w @ ''WANPPPConnection'' = pre @ show_nat (nat w) @ ''.WANPPPConnection''"
      using True by (simp add: pre_def wcd_path_def show_int_def)
    have "pre \<noteq> []" and "\<not> is_digit (last pre)" unfolding pre_def by code_simp+
    moreover have "strip_suffix ''WANDevice.1.WANConnectionDevice.'' pre \<noteq> None"
      unfolding pre_def by code_simp
    ultimately show ?thesis
      unfolding e using True wcd_parse [OF show_nat_not_Nil digits, of pre "nat w"] by simp
  next
    case False
    define pre where "pre = ''InternetGatewayDevice.WANDevice.1.WANConnectionDevice.-''"
    have e: "wcd_path w @ ''WANPPPConnection'' = pre @ show_nat (nat (- w)) @ ''.WANPPPConnection''"
      using False by (simp add: pre_def wcd_path_def show_int_def)
    have "pre \<noteq> []" and "\<not> is_digit (last pre)" unfolding pre_def by code_simp+
    moreover have "strip_suffix ''WANDevice.1.WANConnectionDevice.'' pre = None"
      unfolding pre_def by code_simp
    ultimately show ?thesis
      unfolding e using False wcd_parse [OF show_nat_not_Nil digits, of pre "nat (- w)"] by simp
  qed
qed

subsection \<open>Planned actions are deliverable\<close>

text \<open>The one exception: a WAN IP write for a TR-181 device whose parameter map is not resolved.\<close>

fun unmapped_wan_ip :: "action \<Rightarrow> bool" where
  "unmapped_wan_ip (AcsA (AcsSetWanIp dev rt w i md v nt ip msk gw dns paths)) \<longleftrightarrow> rt = ''Device'' \<and> paths = None"
| "unmapped_wan_ip a \<longleftrightarrow> False"

definition deliverable_all :: "action list \<Rightarrow> bool" where
  "deliverable_all acts \<longleftrightarrow> list_all (\<lambda>a. action_deliverable a \<or> unmapped_wan_ip a) acts"

lemma deliverable_all_simps [simp]:
  "deliverable_all []" "deliverable_all (a # acts) \<longleftrightarrow> (action_deliverable a \<or> unmapped_wan_ip a) \<and> deliverable_all acts"
  "deliverable_all (as @ bs) \<longleftrightarrow> deliverable_all as \<and> deliverable_all bs"
  by (simp_all add: deliverable_all_def)

lemma deliverable_all_concat: "(\<forall>x \<in> set xs. deliverable_all (f x)) \<Longrightarrow> deliverable_all (concat (map f xs))"
  by (induction xs) auto

lemma action_deliverable_simps [simp]:
  "action_deliverable (OltA (OltAuthorize f n lp sp sn desc)) \<longleftrightarrow> lp \<noteq> 0 \<and> sp \<noteq> 0"
  "action_deliverable (OltA (OltModifyDescription f n desc))"
  "action_deliverable (OltA (OltModifyLineProfile f n lp)) \<longleftrightarrow> lp \<noteq> 0"
  "action_deliverable (OltA (OltModifyServiceProfile f n sp)) \<longleftrightarrow> sp \<noteq> 0"
  "action_deliverable (OltA (OltClearIphost f n ix))"
  "action_deliverable (OltA (OltIpconfig f n ix ip m gw v prio d1 d2))"
  "action_deliverable (OltA (OltTr069ServerConfig f n p)) \<longleftrightarrow> p \<noteq> 0"
  "action_deliverable (OltA (OltCreateServicePort f n idx v g slot)) \<longleftrightarrow> slot = ''wan'' \<longrightarrow> v \<noteq> 0"
  "action_deliverable (OltA (OltDeleteServicePort idx slot))"
  "action_deliverable (OltA (OltOmciPppoe f n ix v u pw)) \<longleftrightarrow> v \<noteq> 0"
  "action_deliverable (OltA (OltOmciInternetConfig f n ix))"
  "action_deliverable (OltA (OltOmciWanConfig f n ix p))"
  "action_deliverable (OltA (OltReset f n))"
  "action_deliverable (AcsA (AcsDeleteObject dev path))"
  "action_deliverable (AcsA (AcsSetPppoe dev w ix u pw v)) \<longleftrightarrow> v \<noteq> 0"
  "action_deliverable (AcsA (AcsSetWifiConfig dev paths en ssid psk ch sec)) \<longleftrightarrow> ssid \<noteq> Some [] \<and> psk \<noteq> Some [] \<and>
     (en \<noteq> None \<or> ssid \<noteq> None \<or> psk \<noteq> None \<or> ch \<noteq> None \<or> sec \<noteq> None)"
  "action_deliverable (AcsA (AcsSetRemoteAccess dev rpaths ssh port tel)) \<longleftrightarrow> ssh \<noteq> None \<or> port \<noteq> None \<or> tel \<noteq> None"
  "action_deliverable (AcsA (AcsSetNatEnabled dev w ix e))"
  "action_deliverable (AcsA (AcsSetIpv6 dev ix e req prov)) \<longleftrightarrow> has_executable_desired_provenance prov"
  "action_deliverable (AcsA (AcsSetWanIp dev rt w ix md v nt ipo msk gwo dns tpaths)) \<longleftrightarrow>
     v \<noteq> 0 \<and> (rt = ''Device'' \<longrightarrow> tpaths \<noteq> None)"
  "action_deliverable (AcsA (AcsSetDhcpServer dev e lo hi dm dgw))"
  "action_deliverable (AcsA (AcsSetManagementServer dev u pw interval rt url au ap)) \<longleftrightarrow> u \<noteq> [] \<and> pw \<noteq> []"
  "action_deliverable (AcsA (AcsAddObject dev (wcd_path w @ ''WANPPPConnection'') (Some w)))"
  by (auto simp: action_deliverable_def value_gate.passes_def wcd_from_rendered_path split: option.split)

lemma deliverable_service_ports: "deliverable_all (fst (plan_service_ports d ob))"
  unfolding plan_service_ports_def fst_parts_map
  by (auto simp: plan_stale_port_def plan_mgmt_service_port_def plan_wan_service_port_def split: option.split
      intro!: deliverable_all_concat)

lemma deliverable_wan_port: "deliverable_all (fst (plan_wan_service_port d ob))"
  by (simp add: plan_wan_service_port_def split: option.split)

lemma deliverable_olt_side: "deliverable_all (fst (plan_olt_side d ob))"
  by (simp add: plan_olt_side_def plan_authorize_def Let_def deliverable_service_ports plan_iphost_def
      split: option.split)

lemma deliverable_omci: "deliverable_all (fst (snd (plan_olt_omci_wan d)))"
  by (simp add: plan_olt_omci_wan_def split: option.split)

lemma deliverable_olt_half: "deliverable_all (fst (snd (plan_olt_half d ob md pf)))"
  by (simp add: olt_half_actions Let_def reset_if_needed_def plan_tr069_profile_only_def
      deliverable_wan_port deliverable_olt_side deliverable_omci del: if_split split: if_split_asm)

lemma deliverable_wan_ppp: "deliverable_all (fst (plan_acs_wan_ppp d ob dev pf fp))"
  by (simp add: plan_acs_wan_ppp_def Let_def split: option.split)

lemma deliverable_wifi: "deliverable_all (fst (plan_acs_wifi d ob md dev pf fp))"
  using written_ssid [of d ob pf fp "[]"]
  by (auto simp: plan_acs_wifi_def Let_def psk_push_iff no_wifi_changes_def wc_has_values_def)

lemma deliverable_nat: "deliverable_all (fst (plan_acs_nat d ob dev omci))"
  by (auto simp: plan_acs_nat_def delete_wan_ppp_def deliverable_all_def list_all_iff split: option.split)

lemma deliverable_wan_ip: "deliverable_all (fst (plan_acs_wan_ip d ob dev pf fp))"
  by (auto simp: plan_acs_wan_ip_def split: option.split)

lemma deliverable_remote: "deliverable_all (fst (plan_remote_access d ob dev pf fp))"
  by (simp add: plan_remote_access_def Let_def ex_bool_eq del: if_split split: if_split_asm)

lemma deliverable_ipv6: "deliverable_all (fst (plan_acs_ipv6 d ob dev pf))"
  by (simp add: plan_acs_ipv6_def Let_def)

lemma deliverable_dhcp: "deliverable_all (fst (plan_acs_dhcp d ob dev pf fp))"
  by (simp add: plan_acs_dhcp_def)

lemma deliverable_management: "deliverable_all (fst (plan_acs_management_server d ob dev pf fp))"
  by (simp add: plan_acs_management_server_def split: option.split)

lemma deliverable_acs_side: "deliverable_all (fst (snd (plan_acs_side d ob md omci pf fp)))"
  by (simp add: plan_acs_side_def Let_def deliverable_wan_ppp deliverable_wifi deliverable_nat
      deliverable_wan_ip deliverable_remote deliverable_ipv6 deliverable_dhcp deliverable_management
      split: option.split)

text \<open>Where such a write is planned from.\<close>

lemma unmapped_other_parts:
  "\<not> list_ex unmapped_wan_ip (fst (plan_acs_wan_ppp d ob dev pf fp))"
  "\<not> list_ex unmapped_wan_ip (fst (plan_acs_wifi d ob md dev pf fp))"
  "\<not> list_ex unmapped_wan_ip (fst (plan_remote_access d ob dev pf fp))"
  "\<not> list_ex unmapped_wan_ip (fst (plan_acs_nat d ob dev omci))"
  "\<not> list_ex unmapped_wan_ip (fst (plan_acs_ipv6 d ob dev pf))"
  "\<not> list_ex unmapped_wan_ip (fst (plan_acs_dhcp d ob dev pf fp))"
  "\<not> list_ex unmapped_wan_ip (fst (plan_acs_management_server d ob dev pf fp))"
  by (auto simp: plan_acs_wan_ppp_def plan_acs_wifi_def plan_remote_access_def plan_acs_nat_def list_ex_iff
      delete_wan_ppp_def plan_acs_ipv6_def plan_acs_dhcp_def plan_acs_management_server_def Let_def split: option.split)

lemma unmapped_origin:
  assumes "a \<in> set (fst (snd (plan_acs_side d ob md omci pf fp)))" and "unmapped_wan_ip a"
  shows "data_model_root d ob = Some ''Device'' \<and> tr181_wan_paths d = None"
proof -
  have "list_ex unmapped_wan_ip (fst (snd (plan_acs_side d ob md omci pf fp)))"
    using assms by (auto simp: list_ex_iff)
  then obtain dev where "list_ex unmapped_wan_ip (fst (plan_acs_wan_ip d ob dev pf fp))"
    by (simp add: plan_acs_side_def Let_def unmapped_other_parts split: option.splits if_split_asm)
  then show ?thesis by (cases "data_model_root d ob") (simp_all add: plan_acs_wan_ip_def split: option.splits if_split_asm)
qed

text \<open>
  C35: planner and applier agree on what may be written, with one exception. Whatever the desired and
  observed states, the mode and the change, an action of a plan passes the applier's refusal checks unless
  it is a WAN IP write of a TR-181 device whose parameter map is not resolved; then the device reports or is
  recorded with the root \<open>Device\<close>, the desired state has no map, and the applier refuses the action.
\<close>

theorem planned_actions_deliverable:
  assumes "a \<in> set (plan_actions (compute_plan d ob md proposed fp))"
  shows "(action_deliverable a \<longleftrightarrow> \<not> unmapped_wan_ip a) \<and>
    (unmapped_wan_ip a \<longrightarrow> data_model_root d ob = Some ''Device'' \<and> tr181_wan_paths d = None)"
proof -
  let ?pf = "case proposed of None \<Rightarrow> {} | Some f \<Rightarrow> f"
  have sides: "a \<in> set (fst (snd (plan_olt_half d ob md ?pf))) \<or>
      (\<exists>omci. a \<in> set (fst (snd (plan_acs_side d ob md omci ?pf fp))))"
    using assms by (auto simp: compute_plan_actions Let_def split: if_splits)
  then have "action_deliverable a \<or> unmapped_wan_ip a"
    using deliverable_olt_half [of d ob md ?pf] deliverable_acs_side [of d ob md _ ?pf fp]
    by (auto simp: deliverable_all_def list_all_iff)
  moreover have "\<not> (action_deliverable a \<and> unmapped_wan_ip a)"
    by (cases a rule: unmapped_wan_ip.cases) (auto simp: action_deliverable_def)
  moreover have "data_model_root d ob = Some ''Device'' \<and> tr181_wan_paths d = None" if "unmapped_wan_ip a"
  proof -
    have "a \<notin> set (fst (snd (plan_olt_half d ob md ?pf)))"
      using that olt_only_half [of d ob md ?pf] by (cases a rule: unmapped_wan_ip.cases) (auto simp: olt_only_def)
    with sides unmapped_origin that show ?thesis by blast
  qed
  ultimately show ?thesis by blast
qed

text \<open>The exception occurs, and the applier refuses the planned action.\<close>

definition sample_tr181 :: ont_desired where
  "sample_tr181 = sample_desired\<lparr>wan_mode := Dhcp, tr181_wan_paths := None\<rparr>"

definition sample_device_root :: ont_observed where
  "sample_device_root = sample_observed\<lparr>obs_olt := sample_olt\<lparr>olt_present := False\<rparr>,
     obs_acs := sample_acs\<lparr>acs_data_model_root := Some ''Device''\<rparr>\<rparr>"

theorem planned_action_refused:
  "\<exists>a \<in> set (plan_actions (compute_plan sample_tr181 sample_device_root Sync None False)).
     \<exists>msg. execute env a (w, inst) = (Halt (Apply_error ACS_WRITE_FAULTED msg None), snd (env_mono env w), inst)"
proof -
  obtain a where a: "a \<in> set (plan_actions (compute_plan sample_tr181 sample_device_root Sync None False))"
      "unmapped_wan_ip a" "refusal_reason a = ACS_WRITE_FAULTED"
  proof -
    have "list_ex (\<lambda>a. unmapped_wan_ip a \<and> refusal_reason a = ACS_WRITE_FAULTED)
        (plan_actions (compute_plan sample_tr181 sample_device_root Sync None False))"
      by (code_simp, simp add: value_gate.passes_def)
    then show thesis using that by (auto simp: list_ex_iff)
  qed
  have "\<not> action_deliverable a"
    using a(2) by (cases a rule: unmapped_wan_ip.cases) (auto simp: action_deliverable_def)
  from refused_untouched [OF this, of env w inst] a show ?thesis by auto
qed

theorem planned_actions_deliverable_witness:
  "action_deliverable (hd (plan_actions (compute_plan sample_desired
     (sample_observed\<lparr>obs_olt := sample_olt\<lparr>olt_present := False\<rparr>\<rparr>) Sync None False)))"
proof -
  let ?ob = "sample_observed\<lparr>obs_olt := sample_olt\<lparr>olt_present := False\<rparr>\<rparr>"
  have "plan_actions (compute_plan sample_desired ?ob Sync None False) \<noteq> []" by code_simp
  moreover have "data_model_root sample_desired ?ob \<noteq> Some ''Device''" by code_simp
  ultimately show ?thesis using planned_actions_deliverable [OF hd_in_set] by blast
qed

subsection \<open>Withheld PPP work leaves no trace\<close>

text \<open>A result with its list of withheld actions replaced.\<close>

fun with_refused :: "refused_action list \<Rightarrow> apply_result outcome \<Rightarrow> apply_result outcome" where
  "with_refused rs (Ret r) = Ret (r\<lparr>ar_refused_ppp := rs\<rparr>)"
| "with_refused rs (Halt e) = Halt e"
| "with_refused rs (Raised e) = Raised e"

lemma apply_loop_withheld:
  "snd (apply_loop env False rf dl acts ap rs s) =
     snd (apply_loop env True rf' dl (filter (\<lambda>a. classify_action a = Not_ppp) acts) ap rs' s) \<and>
   with_refused [] (fst (apply_loop env False rf dl acts ap rs s)) =
     with_refused [] (fst (apply_loop env True rf' dl (filter (\<lambda>a. classify_action a = Not_ppp) acts) ap rs' s))"
proof (induction acts arbitrary: ap rs s)
  case (Cons a acts)
  show ?case
  proof (cases "classify_action a = Not_ppp")
    case True
    show ?thesis using True Cons.IH
      by (auto simp: Let_def split: prod.splits option.splits outcome.splits apply_error.splits)
  next
    case False
    then show ?thesis using Cons.IH by simp
  qed
qed simp

text \<open>
  C1: without authority, PPP work never reaches a device. Applying a plan under a ruling that does
  not authorise this delivery has exactly the effect, on the world and on the context, and exactly
  the outcome, of applying with full authority the plan from which the PPP-bearing and indeterminate
  actions were removed; only the list of withheld actions tells them apart.
\<close>

theorem unauthorized_ppp_has_no_effect:
  assumes "\<not> ppp_allowed ruling sc" and "ppp_allowed ruling' sc'"
  shows "snd (apply_plan env acts ruling sc dl s) =
      snd (apply_plan env (filter (\<lambda>a. classify_action a = Not_ppp) acts) ruling' sc' dl s) \<and>
    with_refused [] (fst (apply_plan env acts ruling sc dl s)) =
      with_refused [] (fst (apply_plan env (filter (\<lambda>a. classify_action a = Not_ppp) acts) ruling' sc' dl s))"
  using assms apply_loop_withheld by (simp add: apply_plan_def)

lemma sample_scope_authorized:
  "ppp_allowed (Some (authorize_ppp_delivery sample_crypto sample_ppp_db sample_ppp_ont []))
     (derive_delivery_scope sample_crypto sample_ppp_db sample_ppp_ont [])"
  unfolding ppp_allowed_def option.case by code_simp

theorem unauthorized_ppp_has_no_effect_witness:
  "snd (apply_plan sample_env sample_plan None None None ([], Map.empty)) =
   snd (apply_plan sample_env (filter (\<lambda>a. classify_action a = Not_ppp) sample_plan)
     (Some (authorize_ppp_delivery sample_crypto sample_ppp_db sample_ppp_ont []))
     (derive_delivery_scope sample_crypto sample_ppp_db sample_ppp_ont []) None ([], Map.empty))"
  by (rule unauthorized_ppp_has_no_effect [THEN conjunct1, OF _ sample_scope_authorized])
    (simp add: ppp_allowed_def)

lemma apply_loop_refused_accounting:
  "apply_loop env False rf dl acts ap rs s = (Ret r, s') \<Longrightarrow> ar_success r \<Longrightarrow>
     length (ar_actions_applied r) = length ap + length (filter (\<lambda>a. classify_action a = Not_ppp) acts) \<and>
     ar_refused_ppp r = rs @ map (\<lambda>a. \<lparr>ref_action_name = action_name a, ref_purpose = classify_action a,
       ref_refusal = rf\<rparr>) (filter (\<lambda>a. classify_action a \<noteq> Not_ppp) acts)"
  by (induction acts arbitrary: ap rs s)
    (auto simp: Let_def split: prod.splits option.splits outcome.splits apply_error.splits if_splits)

lemma apply_loop_allowed_accounting:
  "apply_loop env True rf dl acts ap rs s = (Ret r, s') \<Longrightarrow> ar_success r \<Longrightarrow>
     length (ar_actions_applied r) = length ap + length acts \<and> ar_refused_ppp r = rs"
  by (induction acts arbitrary: ap rs s)
    (auto simp: Let_def split: prod.splits option.splits outcome.splits apply_error.splits if_splits)

lemma ppp_bundle_eq: "is_ppp_bundle_action = (\<lambda>a. classify_action a \<noteq> Not_ppp)"
  by (simp add: fun_eq_iff is_ppp_bundle_action_def)

lemma apply_plan_accounting:
  assumes "apply_plan env acts ruling sc dl s = (Ret r, s')" and "ar_success r"
  shows "length (ar_actions_applied r) = length (fst (partition_actions acts ruling sc)) \<and>
    map ref_action_name (ar_refused_ppp r) = map action_name (snd (partition_actions acts ruling sc)) \<and>
    length (ar_actions_applied r) + length (ar_refused_ppp r) = length acts"
proof (cases "ppp_allowed ruling sc")
  case True
  with apply_loop_allowed_accounting [of env _ dl acts "[]" "[]" s r s'] assms show ?thesis
    by (auto simp: apply_plan_def partition_actions_def ppp_allowed_def)
next
  case False
  have e: "partition_actions acts ruling sc = (filter (\<lambda>a. classify_action a = Not_ppp) acts,
      filter (\<lambda>a. classify_action a \<noteq> Not_ppp) acts)"
    using False by (simp add: partition_actions_def ppp_allowed_def ppp_bundle_eq)
  from False apply_loop_refused_accounting [of env _ dl acts "[]" "[]" s r s'] assms
    sum_length_filter_compl [of "\<lambda>a. classify_action a = Not_ppp" acts]
  show ?thesis by (simp add: apply_plan_def e o_def)
qed

text \<open>
  A successful pass accounts for every action. When \<open>apply_plan\<close> reports success, the number of
  applied actions is that of the deliverable ones and the withheld list names the refused ones in
  order: together they are the plan \<open>partition_actions\<close> splits, nothing was skipped silently.
\<close>

theorem successful_apply_accounts_for_plan:
  assumes "apply_plan env acts ruling sc dl s = (Ret r, s')" and "ar_success r"
  shows "length (ar_actions_applied r) = length (fst (partition_actions acts ruling sc)) \<and>
    map ref_action_name (ar_refused_ppp r) = map action_name (snd (partition_actions acts ruling sc)) \<and>
    length (ar_actions_applied r) + length (ar_refused_ppp r) = length acts"
  by (rule apply_plan_accounting [OF assms])

lemma sample_success:
  "case apply_plan sample_env (take 2 sample_plan) None None None ([], Map.empty) of
     (Ret r, s) \<Rightarrow> ar_success r | _ \<Rightarrow> False"
  by code_simp

theorem successful_apply_accounts_for_plan_witness:
  "\<exists>r s'. apply_plan sample_env (take 2 sample_plan) None None None ([], Map.empty) = (Ret r, s') \<and>
     length (ar_actions_applied r) = 1"
proof -
  obtain r s' where e: "apply_plan sample_env (take 2 sample_plan) None None None ([], Map.empty) = (Ret r, s')"
    and r: "ar_success r"
    using sample_success by (auto split: prod.splits outcome.splits)
  then have "length (ar_actions_applied r) = length (fst (partition_actions (take 2 sample_plan) None None))"
    using successful_apply_accounts_for_plan by blast
  also have "\<dots> = 1" by code_simp
  finally show ?thesis using e by blast
qed

subsection \<open>The first failure stops the pass\<close>

text \<open>
  The reference: the actions executed one after the other, each after the deadline check, with the records
  they return; \<open>None\<close> when one of them is late or does not return a record.
\<close>

definition past_deadline :: "'w env \<Rightarrow> datetime option \<Rightarrow> 'w \<times> (int \<rightharpoonup> int) \<Rightarrow> bool \<times> 'w \<times> (int \<rightharpoonup> int)" where
  "past_deadline env dl s = (case dl of None \<Rightarrow> (False, s)
     | Some dlim \<Rightarrow> (let (now, w) = env_utc env (fst s) in (now \<ge> dlim, w, snd s)))"

definition attempt :: "'w env \<Rightarrow> datetime option \<Rightarrow> action \<Rightarrow> 'w \<times> (int \<rightharpoonup> int) \<Rightarrow>
    (applied_action \<times> 'w \<times> (int \<rightharpoonup> int)) option" where
  "attempt env dl a s = (case past_deadline env dl s of
       (True, s1) \<Rightarrow> None
     | (False, s1) \<Rightarrow> (case execute env a s1 of (Ret x, s2) \<Rightarrow> Some (x, s2) | _ \<Rightarrow> None))"

fun run_actions :: "'w env \<Rightarrow> datetime option \<Rightarrow> action list \<Rightarrow> 'w \<times> (int \<rightharpoonup> int) \<Rightarrow>
    (applied_action list \<times> 'w \<times> (int \<rightharpoonup> int)) option" where
  "run_actions env dl [] s = Some ([], s)"
| "run_actions env dl (a # acts) s = (case attempt env dl a s of
       None \<Rightarrow> None
     | Some (x, s1) \<Rightarrow> (case run_actions env dl acts s1 of None \<Rightarrow> None | Some (xs, s2) \<Rightarrow> Some (x # xs, s2)))"

definition sent :: "bool \<Rightarrow> action \<Rightarrow> bool" where
  "sent al a \<longleftrightarrow> al \<or> classify_action a = Not_ppp"

lemma apply_loop_stops:
  assumes "apply_loop env al rf dl acts ap rs s = (Ret r, s')" and "\<not> ar_success r"
  shows "\<exists>pre a post xs t. acts = pre @ a # post \<and> sent al a \<and>
    run_actions env dl (filter (sent al) pre) s = Some (xs, t) \<and> ar_actions_applied r = ap @ xs \<and>
    attempt env dl a t = None \<and>
    map ref_action_name (ar_refused_ppp r) = map ref_action_name rs @ map action_name (filter (\<lambda>b. \<not> sent al b) pre) \<and>
    (\<forall>rest. apply_loop env al rf dl (pre @ a # rest) ap rs s = (Ret r, s'))"
  using assms
proof (induction acts arbitrary: ap rs s)
  case (Cons a acts)
  show ?case
  proof (cases "sent al a")
    case False
    then have loop: "apply_loop env al rf dl (a # xs) ap rs s = apply_loop env al rf dl xs ap
        (rs @ [\<lparr>ref_action_name = action_name a, ref_purpose = classify_action a, ref_refusal = rf\<rparr>]) s" for xs
      by (simp add: sent_def)
    from Cons.IH [OF Cons.prems(1) [unfolded loop] Cons.prems(2)] obtain pre b post xs t where
      p: "acts = pre @ b # post" "sent al b" "run_actions env dl (filter (sent al) pre) s = Some (xs, t)"
        "ar_actions_applied r = ap @ xs" "attempt env dl b t = None"
        "map ref_action_name (ar_refused_ppp r) = map ref_action_name rs @ action_name a #
          map action_name (filter (\<lambda>b. \<not> sent al b) pre)"
        "\<forall>rest. apply_loop env al rf dl (pre @ b # rest) ap
          (rs @ [\<lparr>ref_action_name = action_name a, ref_purpose = classify_action a, ref_refusal = rf\<rparr>]) s = (Ret r, s')"
      by auto
    show ?thesis
      by (rule exI [of _ "a # pre"], rule exI [of _ b], rule exI [of _ post], rule exI [of _ xs], rule exI [of _ t])
        (use p loop False in simp)
  next
    case True
    obtain expired s1 where st: "past_deadline env dl s = (expired, s1)" by (rule prod.exhaust)
    have loop: "apply_loop env al rf dl (a # xs) ap rs s =
      (if expired then
         (Ret \<lparr>ar_success = False, ar_actions_applied = ap,
            ar_halted_by = Some (mk_failure TIMEOUT (''apply deadline exceeded before '' @ action_name a) None),
            ar_refused_ppp = rs\<rparr>, s1)
       else case execute env a s1 of
           (Ret x, s2) \<Rightarrow> apply_loop env al rf dl xs (ap @ [x]) rs s2
         | (Halt (Apply_error q msg ev), s2) \<Rightarrow>
             (Ret \<lparr>ar_success = False, ar_actions_applied = ap,
                ar_halted_by = Some (mk_failure q msg ev), ar_refused_ppp = rs\<rparr>, s2)
         | (Raised e, s2) \<Rightarrow> (Raised e, s2))" for xs
      using True unfolding apply_loop.simps past_deadline_def [symmetric] st sent_def by auto
    have stop: ?thesis if "\<And>xs. apply_loop env al rf dl (a # xs) ap rs s = (Ret r, s')"
      "ar_actions_applied r = ap" "ar_refused_ppp r = rs" "attempt env dl a s = None"
      by (rule exI [of _ "[]"], rule exI [of _ a], rule exI [of _ acts], rule exI [of _ "[]"], rule exI [of _ s])
        (use that True in simp)
    obtain out s2 where ex: "execute env a s1 = (out, s2)" by (rule prod.exhaust)
    consider "expired" | x where "\<not> expired" "out = Ret x" | q msg ev where "\<not> expired" "out = Halt (Apply_error q msg ev)"
      | e where "\<not> expired" "out = Raised e"
      by (metis apply_error.exhaust outcome.exhaust)
    then show ?thesis
    proof cases
      case 1
      with Cons.prems loop st show ?thesis by (intro stop) (auto simp: attempt_def)
    next
      case (2 x)
      have next_action: "attempt env dl a s = Some (x, s2)" using 2 st ex by (simp add: attempt_def)
      have step: "apply_loop env al rf dl (a # xs) ap rs s = apply_loop env al rf dl xs (ap @ [x]) rs s2" for xs
        using 2 by (simp only: loop ex if_False prod.case outcome.case)
      from Cons.IH [OF Cons.prems(1) [unfolded step] Cons.prems(2)] obtain pre b post xs t where
        p: "acts = pre @ b # post" "sent al b" "run_actions env dl (filter (sent al) pre) s2 = Some (xs, t)"
          "ar_actions_applied r = (ap @ [x]) @ xs" "attempt env dl b t = None"
          "map ref_action_name (ar_refused_ppp r) = map ref_action_name rs @ map action_name (filter (\<lambda>b. \<not> sent al b) pre)"
          "\<forall>rest. apply_loop env al rf dl (pre @ b # rest) (ap @ [x]) rs s2 = (Ret r, s')"
        by blast
      show ?thesis
        by (rule exI [of _ "a # pre"], rule exI [of _ b], rule exI [of _ post], rule exI [of _ "x # xs"], rule exI [of _ t])
          (use p step True next_action in simp)
    next
      case 3
      with Cons.prems loop ex st show ?thesis by (intro stop) (auto simp: attempt_def)
    next
      case 4
      with Cons.prems loop ex show ?thesis by simp
    qed
  qed
qed auto

text \<open>
  C33: the first failure stops the pass. When \<open>apply_plan\<close> reports a failure there is one action, not
  withheld, at which it stopped. The actions before it that are not withheld were executed one after the
  other, each before the deadline and with a record, and these records are the reported ones; the withheld
  ones before it are the reported refusals; from the state they leave the action itself is late or fails;
  and whatever follows it is never attempted: replacing it changes neither the result nor the state reached.
\<close>

theorem first_failure_stops:
  assumes "apply_plan env acts ruling sc dl s = (Ret r, s')" and "\<not> ar_success r"
  defines "al \<equiv> ppp_allowed ruling sc"
  shows "\<exists>pre a post t. acts = pre @ a # post \<and> sent al a \<and>
    run_actions env dl (filter (sent al) pre) s = Some (ar_actions_applied r, t) \<and> attempt env dl a t = None \<and>
    map ref_action_name (ar_refused_ppp r) = map action_name (filter (\<lambda>b. \<not> sent al b) pre) \<and>
    (\<forall>rest. apply_plan env (pre @ a # rest) ruling sc dl s = (Ret r, s'))"
  using apply_loop_stops [OF assms(1) [unfolded apply_plan_def, folded al_def] assms(2)]
  by (simp add: apply_plan_def al_def)

lemma sample_failure:
  "case apply_plan sample_env sample_plan None None None ([], Map.empty) of
     (Ret r, s) \<Rightarrow> \<not> ar_success r | _ \<Rightarrow> False"
  by code_simp

theorem first_failure_stops_witness:
  "\<exists>pre a post t. sample_plan = pre @ a # post \<and> attempt sample_env None a t = None \<and>
     (\<exists>xs. run_actions sample_env None (filter (sent False) pre) ([], Map.empty) = Some (xs, t)) \<and>
     (\<forall>rest. apply_plan sample_env (pre @ a # rest) None None None ([], Map.empty) =
       apply_plan sample_env sample_plan None None None ([], Map.empty))"
proof -
  obtain r s' where e: "apply_plan sample_env sample_plan None None None ([], Map.empty) = (Ret r, s')"
    and r: "\<not> ar_success r"
    using sample_failure by (auto split: prod.splits outcome.splits)
  have no: "ppp_allowed None None = False" by (simp add: ppp_allowed_def)
  from first_failure_stops [OF e r] show ?thesis unfolding e no by blast
qed

subsection \<open>Writes follow the discovered instance\<close>

text \<open>
  PPPoE and NAT writes go to the instance the device created. Once a WAN PPP instance was
  discovered for a connection device in this pass, the instance index the planner predicted no
  longer matters: any two predictions give the same writes and the same result.
\<close>

theorem discovered_instance_overrides_prediction:
  assumes "inst w = Some j"
  shows "execute env (AcsA (AcsSetPppoe dev w i u pw v)) (wd, inst) =
      execute env (AcsA (AcsSetPppoe dev w j u pw v)) (wd, inst) \<and>
    execute env (AcsA (AcsSetNatEnabled dev w i en)) (wd, inst) =
      execute env (AcsA (AcsSetNatEnabled dev w j en)) (wd, inst)"
proof -
  have keep: "snd (snd (guarded_call p f s)) = snd s" for p and f :: "'a \<Rightarrow> (string + 'b) \<times> 'a" and s
    by (simp add: guarded_call_def split: prod.split sum.split)
  have resolve: "snd (snd (resolve_or_fail env pw s)) = snd s" for s
    using keep [of "''secret resolution failed: ''" "env_secret env pw" s]
    by (auto simp: resolve_or_fail_def and_then_def ret_def halt_def split: prod.splits outcome.splits option.splits)
  have inst_at: "and_then (instance_for w k) g (x, inst) = g j (x, inst)" for k g and x :: 'a
    using assms by (simp add: and_then_def instance_for_def)
  have target: "and_then (resolve_or_fail env pw) (\<lambda>p. and_then (instance_for w k) (g p)) (x, inst) =
      and_then (resolve_or_fail env pw) (\<lambda>p. g p j) (x, inst)"
    for k x and g :: "string \<Rightarrow> int \<Rightarrow> ('a, applied_action) exec"
  proof -
    obtain out y where r: "resolve_or_fail env pw (x, inst) = (out, y)" by (rule prod.exhaust)
    then obtain x' where "y = (x', inst)" using resolve [of "(x, inst)"] by (cases y) simp
    then show ?thesis using r
      by (simp add: inst_at and_then_def [of "resolve_or_fail env pw"] split: outcome.split)
  qed
  obtain t0 w0 where m: "env_mono env wd = (t0, w0)" by (rule prod.exhaust)
  show ?thesis
    by (simp add: execute_def in_world_apply m inst_at refuse_unset_eq target)
qed

theorem discovered_instance_overrides_prediction_witness:
  "execute sample_env (AcsA (AcsSetPppoe ''dev'' 2 1 ''u1001'' ''bao://p'' 203)) ([], [2 \<mapsto> 4]) =
   execute sample_env (AcsA (AcsSetPppoe ''dev'' 2 4 ''u1001'' ''bao://p'' 203)) ([], [2 \<mapsto> 4])"
  by (rule discovered_instance_overrides_prediction [THEN conjunct1]) simp

end
