(* ===== verification/Reconcile_Outcomes.thy ===== *)
theory Reconcile_Outcomes
  imports Reconcile_Core Apply_Safety Plan_Convergence
begin

section \<open>What a reconcile pass guarantees\<close>

text \<open>
  The outcome of a pass and the row it leaves, for every environment: nothing is assumed of the
  readers, the adapter, the ACS client, the database rows or the clock. The lemmas are stated with
  the weakest precondition of a pass, which follows the code through its early returns and through
  the exceptions that leave it.
\<close>

subsection \<open>Weakest preconditions of passes\<close>

definition wp :: "('w, 'a) pass \<Rightarrow> ('a \<Rightarrow> 'w pass_state \<Rightarrow> bool) \<Rightarrow> (string \<Rightarrow> 'w pass_state \<Rightarrow> bool) \<Rightarrow>
    'w pass_state \<Rightarrow> bool" where
  "wp m Q E s = (case m s of (Inl e, s') \<Rightarrow> E e s' | (Inr a, s') \<Rightarrow> Q a s')"

named_theorems wp_intro \<open>rules that move a postcondition through a pass\<close>

lemma wp_ret [wp_intro]: "Q a s \<Longrightarrow> wp (p_ret a) Q E s"
  by (simp add: wp_def p_ret_def)

lemma wp_raise [wp_intro]: "E e s \<Longrightarrow> wp (p_raise e) Q E s"
  by (simp add: wp_def p_raise_def)

lemma wp_bind [wp_intro]: "wp m (\<lambda>a. wp (f a) Q E) E s \<Longrightarrow> wp (p_bind m f) Q E s"
  by (auto simp: wp_def p_bind_def split: prod.splits sum.splits)

lemma wp_world [wp_intro]:
  assumes "\<And>a w. f (ps_world s) = (Inr a, w) \<Longrightarrow> Q a (s\<lparr>ps_world := w\<rparr>)"
    and "\<And>e w. f (ps_world s) = (Inl e, w) \<Longrightarrow> E e (s\<lparr>ps_world := w\<rparr>)"
  shows "wp (p_world f) Q E s"
  using assms by (auto simp: wp_def p_world_def split: prod.splits sum.splits)

lemma wp_clock [wp_intro]: "(\<And>a w. Q a (s\<lparr>ps_world := w\<rparr>)) \<Longrightarrow> wp (p_clock f) Q E s"
  by (auto simp: wp_def p_clock_def split: prod.splits)

lemma wp_get [wp_intro]: "Q (f s) s \<Longrightarrow> wp (p_get f) Q E s"
  by (simp add: wp_def p_get_def)

lemma wp_row [wp_intro]: "Q () (s\<lparr>ps_row := f (ps_row s)\<rparr>) \<Longrightarrow> wp (p_row f) Q E s"
  by (simp add: wp_def p_row_def)

lemma wp_alert [wp_intro]: "Q () (s\<lparr>ps_alerts := ps_alerts s @ as\<rparr>) \<Longrightarrow> wp (p_alert as) Q E s"
  by (simp add: wp_def p_alert_def)

lemma wp_state [wp_intro]: "Q () (f s) \<Longrightarrow> wp (\<lambda>s. (Inr (), f s)) Q E s"
  by (simp add: wp_def)

lemma wp_if [wp_intro]: "(b \<Longrightarrow> wp m Q E s) \<Longrightarrow> (\<not> b \<Longrightarrow> wp n Q E s) \<Longrightarrow> wp (if b then m else n) Q E s"
  by simp

lemma wp_option [wp_intro]:
  "(v = None \<Longrightarrow> wp m Q E s) \<Longrightarrow> (\<And>x. v = Some x \<Longrightarrow> wp (f x) Q E s) \<Longrightarrow>
     wp (case v of None \<Rightarrow> m | Some x \<Rightarrow> f x) Q E s"
  by (cases v) simp_all

lemma wp_prod [wp_intro]: "wp (f (fst p) (snd p)) Q E s \<Longrightarrow> wp (case p of (a, b) \<Rightarrow> f a b) Q E s"
  by (cases p) simp

lemma wp_sum [wp_intro]:
  "(\<And>x. v = Inl x \<Longrightarrow> wp (f x) Q E s) \<Longrightarrow> (\<And>y. v = Inr y \<Longrightarrow> wp (g y) Q E s) \<Longrightarrow>
     wp (case v of Inl x \<Rightarrow> f x | Inr y \<Rightarrow> g y) Q E s"
  by (cases v) simp_all

lemma wp_let [wp_intro]: "wp (f x) Q E s \<Longrightarrow> wp (Let x f) Q E s"
  by (simp add: Let_def)

lemma wp_mono:
  "wp m Q E s \<Longrightarrow> (\<And>a s'. Q a s' \<Longrightarrow> Q' a s') \<Longrightarrow> (\<And>e s'. E e s' \<Longrightarrow> E' e s') \<Longrightarrow> wp m Q' E' s"
  by (auto simp: wp_def split: prod.splits sum.splits)

subsection \<open>The parts of a pass that leave the row alone\<close>

text \<open>Reads, pings and device writes change the world only.\<close>

lemma same_world [simp]: "s\<lparr>ps_world := ps_world s\<rparr> = s"
  by simp

text \<open>A step that only reads: its final state differs from the first in the world at most.\<close>

definition world_only :: "('w, 'a) pass \<Rightarrow> bool" where
  "world_only m \<longleftrightarrow> (\<forall>s. \<exists>r w. m s = (r, s\<lparr>ps_world := w\<rparr>))"

lemma wp_world_only:
  assumes "world_only m" and "\<And>r w. Q r (s\<lparr>ps_world := w\<rparr>)" and "\<And>e w. E e (s\<lparr>ps_world := w\<rparr>)"
  shows "wp m Q E s"
proof -
  obtain r w where "m s = (r, s\<lparr>ps_world := w\<rparr>)" using assms(1) unfolding world_only_def by blast
  then show ?thesis using assms(2,3) by (cases r) (simp_all add: wp_def)
qed

lemma world_only_ret: "world_only (p_ret a)"
  unfolding world_only_def p_ret_def by (metis same_world)

lemma world_only_world: "world_only (p_world f)"
  by (auto simp: world_only_def p_world_def split: prod.splits)

lemma world_only_both:
  assumes "world_only m" and "world_only n"
  shows "world_only (p_both m n)"
  unfolding world_only_def
proof
  fix s
  obtain a w where m: "m s = (a, s\<lparr>ps_world := w\<rparr>)" using assms(1) unfolding world_only_def by blast
  obtain b v where n: "n (s\<lparr>ps_world := w\<rparr>) = (b, s\<lparr>ps_world := w\<rparr>\<lparr>ps_world := v\<rparr>)"
    using assms(2) unfolding world_only_def by blast
  show "\<exists>r u. p_both m n s = (r, s\<lparr>ps_world := u\<rparr>)"
    by (cases a; cases b) (auto simp: p_both_def m n)
qed

lemma world_only_read: "world_only (read_observed ce has_olt has_acs d dl f g)"
  unfolding read_observed_def by (simp add: world_only_both world_only_ret world_only_world)

lemmas wp_read [wp_intro] = wp_world_only [OF world_only_read]

lemma world_only_ping: "world_only (is_pingable ce ip)"
  unfolding world_only_def is_pingable_def by (auto split: prod.splits) (metis same_world)

lemmas wp_ping [wp_intro] = wp_world_only [OF world_only_ping]

lemma wp_observe [wp_intro]:
  "(\<And>ob w. obs_olt ob = observed_or absent_olt olt \<Longrightarrow> obs_acs ob = observed_or absent_acs acs \<Longrightarrow>
      Q ob (s\<lparr>ps_world := w\<rparr>)) \<Longrightarrow> wp (observe ce now started ping n olt acs) Q E s"
  unfolding observe_def by (intro wp_intro) simp

lemma halted_by_reason:
  "apply_loop env al rf dl acts ap rs s = (Ret r, s') \<Longrightarrow> \<not> ar_success r \<Longrightarrow> ar_halted_by r \<noteq> None"
  by (induction acts arbitrary: ap rs s)
    (auto simp: Let_def split: prod.splits option.splits outcome.splits apply_error.splits if_splits)

text \<open>What the applier's result says about the plan it was given.\<close>

definition accounted :: "action list \<Rightarrow> apply_result \<Rightarrow> bool" where
  "accounted acts ar \<longleftrightarrow>
     (if ar_success ar then length (ar_actions_applied ar) + length (ar_refused_ppp ar) = length acts
      else ar_halted_by ar \<noteq> None)"

lemma wp_apply [wp_intro]:
  assumes "\<And>ar w. accounted acts ar \<Longrightarrow> Q ar (s\<lparr>ps_world := w\<rparr>)" and "\<And>e w. E e (s\<lparr>ps_world := w\<rparr>)"
  shows "wp (run_apply ce has_olt has_acs acts ruling sc dl) Q E s"
proof -
  have "accounted acts ar"
    if "apply_plan (pass_env ce has_olt has_acs) acts ruling sc (Some dl) s0 = (Ret ar, s1)" for ar s0 s1
    using apply_plan_accounting [OF that] halted_by_reason [OF that [unfolded apply_plan_def]]
    by (auto simp: accounted_def)
  then show ?thesis using assms
    by (auto simp: wp_def run_apply_def split: prod.splits outcome.splits apply_error.splits)
qed

text \<open>Writing the change back keeps the status columns.\<close>

lemma apply_change_frame:
  "\<exists>r c p. apply_proposed_change ks ci row target pf = (r, row\<lparr>ont_desired_config := c, ont_tr069_profile := p\<rparr>)"
proof -
  obtain r row' where e: "apply_proposed_change ks ci row target pf = (r, row')" by (rule prod.exhaust)
  have "row\<lparr>ont_desired_config := ont_desired_config row', ont_tr069_profile := ont_tr069_profile row'\<rparr> = row'"
    using e unfolding apply_proposed_change_def Let_def
    by (intro ont_row.equality) (auto split: sum.splits)
  then show ?thesis
    by (intro exI [of _ r] exI [of _ "ont_desired_config row'"] exI [of _ "ont_tr069_profile row'"]) (simp only: e)
qed

lemma wp_persist [wp_intro]:
  assumes "\<And>c p. Q () (s\<lparr>ps_row := (ps_row s)\<lparr>ont_desired_config := c, ont_tr069_profile := p\<rparr>\<rparr>)"
    and "\<And>e c p. E e (s\<lparr>ps_row := (ps_row s)\<lparr>ont_desired_config := c, ont_tr069_profile := p\<rparr>\<rparr>)"
  shows "wp (persist_change ce rq target pf) Q E s"
proof -
  have "\<exists>r c p. persist_change ce rq target pf s =
      (r, s\<lparr>ps_row := (ps_row s)\<lparr>ont_desired_config := c, ont_tr069_profile := p\<rparr>\<rparr>)"
  proof (cases "proposed_values (rq_proposed rq) \<noteq> [] \<and> persist_proposed_values (rq_proposed rq)")
    case True
    obtain r c p where "apply_proposed_change (ce_keys ce) (ce_cipher ce) (ps_row s) target pf =
        (r, (ps_row s)\<lparr>ont_desired_config := c, ont_tr069_profile := p\<rparr>)"
      using apply_change_frame by blast
    with True have "persist_change ce rq target pf s =
        (r, s\<lparr>ps_row := (ps_row s)\<lparr>ont_desired_config := c, ont_tr069_profile := p\<rparr>\<rparr>)"
      by (simp add: persist_change_def)
    then show ?thesis by blast
  next
    case False
    then have "persist_change ce rq target pf s = (Inr (), s\<lparr>ps_row := (ps_row s)
        \<lparr>ont_desired_config := ont_desired_config (ps_row s), ont_tr069_profile := ont_tr069_profile (ps_row s)\<rparr>\<rparr>)"
      by (auto simp: persist_change_def)
    then show ?thesis by blast
  qed
  then obtain r c p where "persist_change ce rq target pf s =
      (r, s\<lparr>ps_row := (ps_row s)\<lparr>ont_desired_config := c, ont_tr069_profile := p\<rparr>\<rparr>)" by blast
  then show ?thesis using assms by (cases r) (simp_all add: wp_def)
qed

subsection \<open>Finalisation\<close>

text \<open>What \<open>finalise\<close> leaves: the arguments in the result, the matching status on the row.\<close>

definition finalised :: "bool \<Rightarrow> reconcile_failure option \<Rightarrow> ont_observed option \<Rightarrow> applied_action list \<Rightarrow>
    drift list \<Rightarrow> drift list \<Rightarrow> 'w pass_state \<Rightarrow> reconcile_result \<Rightarrow> 'w pass_state \<Rightarrow> bool" where
  "finalised success failure observed applied before after s r s' \<longleftrightarrow>
     rr_success r = success \<and> rr_failure r = failure \<and> rr_observed_after r = observed \<and>
     rr_actions_applied r = applied \<and> rr_drift_before r = before \<and> rr_drift_after r = after \<and>
     rr_sync_status r = ont_sync_status (ps_row s') \<and>
     ont_sync_status (ps_row s') = (if success \<and> after = [] then Synced else Out_of_sync) \<and>
     ont_last_error (ps_row s') = (if success then None
       else Some (case failure of None \<Rightarrow> ''unknown failure'' | Some f \<Rightarrow> rf_message f)) \<and>
     ont_id (ps_row s') = ont_id (ps_row s) \<and> ont_unreachable (ps_row s') = ont_unreachable (ps_row s) \<and>
     ps_observation s' = (case observed of None \<Rightarrow> ps_observation s | Some ob \<Rightarrow> Some (upsert_ont_observation ob))"

text \<open>The fault bookkeeping touches the desired configuration and the alerts.\<close>

definition bookkept :: "'w pass_state \<Rightarrow> 'w pass_state \<Rightarrow> bool" where
  "bookkept s s' \<longleftrightarrow> (\<exists>c as w. s' = s\<lparr>ps_row := (ps_row s)\<lparr>ont_desired_config := c\<rparr>,
     ps_alerts := as, ps_world := w\<rparr>)"

lemma bookkept_self: "bookkept s s"
  unfolding bookkept_def
  by (rule exI [of _ "ont_desired_config (ps_row s)"], rule exI [of _ "ps_alerts s"], rule exI [of _ "ps_world s"]) simp

lemma bookkeptI:
  "ps_row s' = (ps_row s)\<lparr>ont_desired_config := c\<rparr> \<Longrightarrow> ps_observation s' = ps_observation s \<Longrightarrow> bookkept s s'"
  unfolding bookkept_def
  by (rule exI [of _ c], rule exI [of _ "ps_alerts s'"], rule exI [of _ "ps_world s'"]) simp

lemma record_fault_bookkept: "wp (record_fault ce failure) (\<lambda>_ s'. bookkept s s') E s"
  unfolding record_fault_def record_acs_delivery_fault_def Let_def split_beta
  by (intro wp_intro bookkept_self bookkeptI) simp_all

lemma clear_fault_row: "\<exists>c. snd (clear_acs_delivery_fault row) = row\<lparr>ont_desired_config := c\<rparr>"
  by (auto simp: clear_acs_delivery_fault_def Let_def intro: exI [of _ "ont_desired_config row"])

lemma settle_bookkept: "wp (settle_faults ce success residual failure) (\<lambda>_ s'. bookkept s s') E s"
proof -
  obtain c where c: "snd (clear_acs_delivery_fault (ps_row s)) = (ps_row s)\<lparr>ont_desired_config := c\<rparr>"
    using clear_fault_row by blast
  show ?thesis
    unfolding settle_faults_def
    by (intro wp_intro record_fault_bookkept bookkept_self bookkeptI [where c = c]) (simp_all add: c)
qed

lemma wp_finalise [wp_intro]:
  assumes q: "\<And>r s'. finalised success failure observed applied before after s r s' \<Longrightarrow> Q r s'"
  shows "wp (finalise ce started success failure observed applied before after) Q E s"
  unfolding finalise_def
  by (intro wp_bind wp_clock wp_row wp_mono [OF settle_bookkept] wp_state wp_get wp_ret q)
    (auto simp: bookkept_def finalised_def mark_row_def split: option.splits)

lemma wp_finalise_failed [wp_intro]:
  "(\<And>r s'. finalised False failure observed applied drifts drifts s r s' \<Longrightarrow> Q r s') \<Longrightarrow>
     wp (finalise_failed ce started failure observed applied drifts) Q E s"
  unfolding finalise_failed_def by (rule wp_finalise)

subsection \<open>The outcome of a pass\<close>

text \<open>The result says what the row says.\<close>

definition mirrors :: "reconcile_result \<Rightarrow> ont_row \<Rightarrow> bool" where
  "mirrors r row \<longleftrightarrow>
     rr_sync_status r = ont_sync_status row \<and>
     ont_sync_status row = (if rr_success r \<and> rr_drift_after r = [] then Synced else Out_of_sync) \<and>
     (ont_last_error row = None \<longleftrightarrow> rr_success r) \<and> (rr_failure r = None \<longleftrightarrow> rr_success r)"

text \<open>
  What a successful pass has seen: an observation for which the plan is empty, or has no drift, or has
  only drift that PPP work withheld in this pass explains.
\<close>

definition converged :: "request \<Rightarrow> ont_desired \<Rightarrow> string set \<Rightarrow> reconcile_result \<Rightarrow> bool" where
  "converged rq target pf r \<longleftrightarrow>
     (\<exists>ob. rr_observed_after r = Some ob \<and>
       (rr_drift_after r = [] \<and> plan_actions (compute_plan target ob (rq_mode rq) (Some pf) (\<not> rq_readback_only rq)) = [] \<or>
        plan_drifts (compute_plan target ob (rq_mode rq) (Some pf) False) = [] \<or>
        rr_drift_after r \<noteq> [] \<and>
          (\<forall>d \<in> set (plan_drifts (compute_plan target ob (rq_mode rq) (Some pf) False)). is_ppp_attributable_drift d)))"

lemma finalised_mirrors:
  "finalised success failure observed applied before after s r s' \<Longrightarrow> (failure = None \<longleftrightarrow> success) \<Longrightarrow>
     mirrors r (ps_row s')"
  by (auto simp: finalised_def mirrors_def)

lemma residual_empty [simp]: "residual_ppp_drift refused = [] \<longleftrightarrow> refused = []"
  by (simp add: residual_ppp_drift_def)

lemma wait_reason: "acs_wait_failure p = None \<longleftrightarrow> plan_acs_wait_reason p = None"
  by (simp add: acs_wait_failure_def split: option.split)

text \<open>The verification, the delivery and the convergence of a pass end in such an outcome.\<close>

definition good_end :: "request \<Rightarrow> ont_desired \<Rightarrow> string set \<Rightarrow> reconcile_result \<Rightarrow> 'w pass_state \<Rightarrow> bool" where
  "good_end rq target pf r s \<longleftrightarrow> mirrors r (ps_row s) \<and> (rr_success r \<longrightarrow> converged rq target pf r)"

definition marked :: "'w pass_state \<Rightarrow> bool" where
  "marked s \<longleftrightarrow> ont_sync_status (ps_row s) = Reconciling"

lemma marked_world [simp]: "marked (s\<lparr>ps_world := w\<rparr>) \<longleftrightarrow> marked s"
  by (simp add: marked_def)

lemma good_failure:
  "finalised False (Some f) observed applied before after s r s' \<Longrightarrow> good_end rq target pf r s'"
  by (auto simp: good_end_def finalised_def mirrors_def)

lemma verify_good:
  assumes "marked s"
  shows "wp (verify_outcome ce rq started target pf p ar olt acs after) (good_end rq target pf) (\<lambda>_. marked) s"
proof -
  have fin: "good_end rq target pf r s'"
    if "finalised True None (Some after) applied before residual t r s'"
      and "let ds = plan_drifts (compute_plan target after (rq_mode rq) (Some pf) False)
           in ds = [] \<or> residual \<noteq> [] \<and> filter (\<lambda>d. \<not> is_ppp_attributable_drift d) ds = []"
    for applied before residual t r s'
    using that by (auto simp: good_end_def finalised_def mirrors_def converged_def Let_def filter_empty_conv)
  show ?thesis
    unfolding verify_outcome_def using assms
    by (intro wp_intro) (auto simp: marked_def Let_def elim: good_failure elim!: fin)
qed

lemma converged_empty:
  assumes "finalised True None (Some ob) applied before [] s r s'"
    and "plan_actions (compute_plan target ob (rq_mode rq) (Some pf) (\<not> rq_readback_only rq)) = []"
  shows "good_end rq target pf r s'"
  using assms by (auto simp: good_end_def finalised_def mirrors_def converged_def)

lemma deliver_good:
  assumes "marked s" and "p = compute_plan target before (rq_mode rq) (Some pf) (\<not> rq_readback_only rq)"
  shows "wp (deliver ce rq started_at started target pf has_olt has_acs olt_fb acs_fb pingable before p)
    (good_end rq target pf) (\<lambda>_. marked) s"
proof -
  have none: "plan_actions p = []"
    if "accounted (plan_actions p) ar" "ar_success ar" "ar_actions_applied ar = []" "ar_refused_ppp ar = []" for ar
    using that by (simp add: accounted_def)
  show ?thesis
    unfolding deliver_def using assms(1)
    by (intro wp_intro wp_mono [OF verify_good])
      (auto simp: marked_def accounted_def assms(2) elim: good_failure elim!: converged_empty)
qed

lemma readback_good:
  assumes "p = compute_plan target before (rq_mode rq) (Some pf) (\<not> rq_readback_only rq)"
  shows "wp (readback_outcome ce started before p) (good_end rq target pf) E s"
  unfolding readback_outcome_def
  by (intro wp_intro) (auto simp: assms elim: good_failure elim!: converged_empty)

lemma converge_good:
  assumes "marked s"
  shows "wp (converge ce rq started_at started target pf) (good_end rq target pf) (\<lambda>_. marked) s"
  unfolding converge_def
  by (intro wp_intro readback_good deliver_good refl) (erule good_failure | simp add: assms)+

text \<open>
  A pass that got past the guard and the binding either finalises, after a change that does not validate
  or with a good end, or raises with the row still marked as being reconciled.
\<close>

definition locked_end :: "'w core_env \<Rightarrow> request \<Rightarrow> ont_row \<Rightarrow> reconcile_result \<Rightarrow> 'w pass_state \<Rightarrow> bool" where
  "locked_end ce rq row r s \<longleftrightarrow>
     blocked_out_of_sync rq row \<and> ps_row s = row \<and> \<not> rr_success r \<and> rr_sync_status r = Out_of_sync \<or>
     \<not> blocked_out_of_sync rq row \<and> mirrors r (ps_row s) \<and>
     (rr_success r \<longrightarrow> (\<exists>row v v' current target pf. ce_desired ce row v = (Inr current, v') \<and>
        resolve_target rq current = Inr (target, pf) \<and> converged rq target pf r))"

lemma good_locked_end:
  assumes "good_end rq target pf r s" and "ce_desired ce row' v = (Inr current, v')"
    and "resolve_target rq current = Inr (target, pf)" and "\<not> blocked_out_of_sync rq row"
  shows "locked_end ce rq row r s"
  using assms unfolding good_end_def locked_end_def by blast

lemma failure_result_simps [simp]:
  "rr_success (fst (failure_result env started f w)) = False"
  "rr_failure (fst (failure_result env started f w)) = Some f"
  "rr_sync_status (fst (failure_result env started f w)) = Out_of_sync"
  by (simp_all add: failure_result_def split_beta Let_def)

lemma finalised_success: "finalised success failure observed applied before after s r s' \<Longrightarrow> rr_success r = success"
  by (simp add: finalised_def)

lemma locked_good:
  shows "wp (reconcile_locked ce rq started_at started) (locked_end ce rq (ps_row s))
    (\<lambda>_ s'. marked s' \<or> (\<exists>b. rq_binding rq = Some b \<and> lb_ont b \<noteq> ont_id (ps_row s))) s"
proof -
  have bound: "lb_ont b \<noteq> ont_id (ps_row s)" if "bind_reconcile_projection (ps_row s) b = Inl e" for b e
    using that by (auto simp: bind_reconcile_projection_def split: if_splits)
  have conv: "wp (converge ce rq started_at started target pf) (locked_end ce rq (ps_row s))
      (\<lambda>_ s'. marked s' \<or> (\<exists>b. rq_binding rq = Some b \<and> lb_ont b \<noteq> ont_id (ps_row s))) s'"
    if "resolve_target rq current = Inr (target, pf)" and "ce_desired ce row v = (Inr current, v')" and "marked s'"
      and "\<not> blocked_out_of_sync rq (ps_row s)"
    for target pf current s' row v v'
    by (rule wp_mono [OF converge_good [OF that(3)]]) (auto intro: good_locked_end [OF _ that(2,1,4)])
  show ?thesis
  proof (cases "blocked_out_of_sync rq (ps_row s)")
    case True
    then show ?thesis
      by (auto simp: reconcile_locked_def p_bind_def p_get_def p_clock_def wp_def locked_end_def split_beta)
  next
    case False
    then show ?thesis
      unfolding reconcile_locked_def
      by (intro wp_intro conv)
        (auto simp: locked_end_def marked_def elim: finalised_mirrors dest: finalised_success bound)
  qed
qed

subsection \<open>Whole passes\<close>

text \<open>The three ways a pass that found its row can end.\<close>

lemma reconcile_cases:
  assumes "reconcile_ont ce rq obs w = (r, Some s, w')"
  obtains (ended) row where "locked_end ce rq row r s" and "\<not> blocked_out_of_sync rq row \<or> ps_row s = row"
    | (raised) e where "rr_failure r = Some (internal_error e)" "\<not> rr_success r" "rr_sync_status r = Out_of_sync"
        "marked s \<or> rq_binding rq \<noteq> None"
proof -
  obtain started w1 where m: "env_mono (ce_env ce) w = (started, w1)" by (rule prod.exhaust)
  obtain now w2 where u: "env_utc (ce_env ce) w1 = (now, w2)" by (rule prod.exhaust)
  obtain locked w3 where l: "ce_lock ce (rq_ont rq) w2 = (locked, w3)" by (rule prod.exhaust)
  from assms obtain row where row: "locked = Inr (Some row)"
    by (auto simp: reconcile_ont_def m u l split_beta split: sum.splits option.splits)
  define s0 where "s0 = \<lparr>ps_row = recover_crashed row, ps_observation = obs, ps_alerts = [], ps_world = w3\<rparr>"
  obtain out s1 where o: "reconcile_locked ce rq now started s0 = (out, s1)" by (rule prod.exhaust)
  have g: "wp (reconcile_locked ce rq now started) (locked_end ce rq (ps_row s0))
      (\<lambda>_ s'. marked s' \<or> (\<exists>b. rq_binding rq = Some b \<and> lb_ont b \<noteq> ont_id (ps_row s0))) s0"
    by (rule locked_good)
  show thesis
  proof (cases out)
    case (Inr x)
    with assms o have "r = x" "s = s1"
      by (auto simp: reconcile_ont_def m u l row s0_def)
    with g o Inr show thesis
      by (intro ended [of "ps_row s0"]) (auto simp: wp_def locked_end_def)
  next
    case (Inl e)
    with assms o have "r = fst (failure_result (ce_env ce) started (internal_error e) (ps_world s1))"
      and "ps_row s = ps_row s1"
      by (auto simp: reconcile_ont_def m u l row s0_def split_beta)
    with g o Inl show thesis
      by (intro raised [of e]) (auto simp: wp_def marked_def)
  qed
qed

text \<open>
  C4: the result of a pass says what the row says. The reported status is the persisted one, synced is
  reported exactly for a success with no residual drift, and an error is recorded on the row exactly
  when the pass failed. The one exception is an internal error: the pass then reports out of sync while
  the row is still marked as being reconciled.
\<close>

theorem result_mirrors_row:
  assumes "reconcile_ont ce rq obs w = (r, Some s, w')" and "rq_binding rq = None"
  shows "rr_sync_status r = ont_sync_status (ps_row s) \<and>
      (rr_sync_status r = Synced \<longleftrightarrow> rr_success r \<and> rr_drift_after r = []) \<and>
      (ont_last_error (ps_row s) = None \<longleftrightarrow> rr_success r) \<or>
    rr_sync_status r = Out_of_sync \<and> ont_sync_status (ps_row s) = Reconciling \<and> \<not> rr_success r \<and>
      (\<exists>e. rr_failure r = Some (internal_error e))"
  using assms(1)
proof (cases rule: reconcile_cases)
  case (ended row)
  show ?thesis
  proof (cases "blocked_out_of_sync rq row")
    case True
    with ended have "ps_row s = row" and "\<not> rr_success r" by (auto simp: locked_end_def)
    then show ?thesis using True ended
      by (auto simp: blocked_out_of_sync_def locked_end_def)
  next
    case False
    with ended show ?thesis by (auto simp: locked_end_def mirrors_def)
  qed
next
  case (raised e)
  then show ?thesis using assms(2) by (auto simp: marked_def)
qed

text \<open>
  C3: what a reported success has seen. A pass that reports success reports an observation, and asking the
  planner again about the target of the pass and that observation gives one of three answers: nothing to do
  (then no drift is reported); no drift, and only actions of the six kinds that the planner plans without
  reporting a drift, so that neither an authorisation, a profile, an IP host, a PPPoE or IP parameter nor a
  reset is left; or only drift attributable to the PPP work this pass withheld and reports as residual.
\<close>

theorem success_is_verified:
  assumes "reconcile_ont ce rq obs w = (r, Some s, w')" and "rr_success r"
  shows "\<exists>row v v' current target pf ob. ce_desired ce row v = (Inr current, v') \<and>
    resolve_target rq current = Inr (target, pf) \<and> rr_observed_after r = Some ob \<and>
    (rr_drift_after r = [] \<and>
       plan_actions (compute_plan target ob (rq_mode rq) (Some pf) (\<not> rq_readback_only rq)) = [] \<or>
     plan_drifts (compute_plan target ob (rq_mode rq) (Some pf) False) = [] \<and>
       kinds (plan_actions (compute_plan target ob (rq_mode rq) (Some pf) False)) \<subseteq> unreported_kinds \<or>
     rr_drift_after r \<noteq> [] \<and>
       (\<forall>d \<in> set (plan_drifts (compute_plan target ob (rq_mode rq) (Some pf) False)). is_ppp_attributable_drift d))"
  using assms(1)
proof (cases rule: reconcile_cases)
  case (ended row)
  then obtain row v v' current target pf ob where
    "ce_desired ce row v = (Inr current, v')" "resolve_target rq current = Inr (target, pf)" "rr_observed_after r = Some ob"
    and "rr_drift_after r = [] \<and>
        plan_actions (compute_plan target ob (rq_mode rq) (Some pf) (\<not> rq_readback_only rq)) = [] \<or>
      plan_drifts (compute_plan target ob (rq_mode rq) (Some pf) False) = [] \<or>
      rr_drift_after r \<noteq> [] \<and>
        (\<forall>d \<in> set (plan_drifts (compute_plan target ob (rq_mode rq) (Some pf) False)). is_ppp_attributable_drift d)"
    using assms(2) unfolding locked_end_def converged_def by meson
  with drift_free_remainder [of target ob "rq_mode rq" "Some pf" False] show ?thesis by meson
qed (use assms(2) in simp)

lemma crashed_matches [simp]: "reconcile_binding_matches (recover_crashed row) b = reconcile_binding_matches row b"
  by (simp add: reconcile_binding_matches_def recover_crashed_def)

text \<open>
  C5: the next operator pass. After a pass that carries no lifecycle binding, finalised or broken off, the
  next operator pass on the row is refused as out of sync exactly when this one failed and the next one
  carries no binding, or one that matches the projection left on the row. So a success never blocks, even
  when PPP work was withheld; every failure blocks the unbound passes, a change that merely does not
  validate included; and a bound pass is refused only for the failure of its own projection.
\<close>

theorem next_operator_pass:
  assumes "reconcile_ont ce rq obs w = (r, Some s, w')" and "rq_binding rq = None"
    and "rq_mode next = Sync"
  shows "blocked_out_of_sync next (recover_crashed (ps_row s)) \<longleftrightarrow> \<not> rr_success r \<and>
    (case rq_binding next of None \<Rightarrow> True | Some b \<Rightarrow> reconcile_binding_matches (ps_row s) b)"
proof -
  let ?row = "recover_crashed (ps_row s)"
  have "ont_sync_status ?row = Out_of_sync \<and> ont_last_error ?row \<noteq> None \<longleftrightarrow> \<not> rr_success r"
    using assms(1)
  proof (cases rule: reconcile_cases)
    case (ended row)
    show ?thesis
    proof (cases "blocked_out_of_sync rq row")
      case True
      with ended have "ps_row s = row" and "\<not> rr_success r" by (auto simp: locked_end_def)
      then show ?thesis using True by (auto simp: blocked_out_of_sync_def recover_crashed_def)
    next
      case False
      with ended show ?thesis by (auto simp: locked_end_def mirrors_def recover_crashed_def split: if_splits)
    qed
  next
    case (raised e)
    then show ?thesis using assms(2) by (auto simp: marked_def recover_crashed_def)
  qed
  then show ?thesis using assms(3) by (cases "rq_binding next") (auto simp: blocked_out_of_sync_def)
qed

subsection \<open>Passes on the sample\<close>

text \<open>The observation a pass on the converged sample makes, and its plan.\<close>

definition sample_seen :: ont_observed where
  "sample_seen = sample_observed\<lparr>last_reconciled_at := 0, last_reconcile_duration_ms := 0\<rparr>"

lemma sample_quiet:
  "plan_actions (compute_plan sample_desired sample_seen Sync (Some {}) True) = []"
  "plan_drifts (compute_plan sample_desired sample_seen Sync (Some {}) True) = []"
  "plan_acs_wait_reason (compute_plan sample_desired sample_seen Sync (Some {}) True) = None"
  by code_simp+

lemmas pass_steps = p_bind_def p_get_def p_row_def p_alert_def p_ret_def p_raise_def p_world_def p_clock_def p_both_def

lemma core_sample [simp]:
  "ce_env (sample_core d olt acs) = sample_env" "ce_lock (sample_core d olt acs) i w = (Inr (Some sample_row), w)"
  "ce_desired (sample_core d olt acs) row w = (Inr d, w)" "ce_resolve_olt (sample_core d olt acs) row w = (Inr (), w)"
  "ce_resolve_acs (sample_core d olt acs) row w = (Inr (), w)"
  "ce_read_olt (sample_core d olt acs) t dl w = (Inr olt, w)" "ce_read_acs (sample_core d olt acs) t dl w = (Inr acs, w)"
  "ce_ping (sample_core d olt acs) ip w = (Inr True, w)"
  "env_utc sample_env w = (0, w)" "env_mono sample_env w = (0, w)"
  by (simp_all add: sample_core_def sample_env_def)

lemma sample_asks [simp]:
  "rq_proposed sample_request = Proposed_none" "rq_wifi_scope sample_request = None"
  "rq_force_lan sample_request = False" "rq_mode sample_request = Sync" "rq_has_olt sample_request = False"
  "rq_has_acs sample_request = False" "rq_binding sample_request = None" "rq_readback_only sample_request = False"
  by (simp_all add: sample_request_def)

text \<open>A plan with no action and no reason to wait needs neither surface and nothing to apply.\<close>

lemma nothing_blocked: "rd_unreachable olt = False \<Longrightarrow> rd_unreachable acs = False \<Longrightarrow> blocked_surfaces olt acs p = {}"
  by (simp add: blocked_surfaces_def)

lemma clean_simps [simp]: "rd_unreachable (clean_read ob) = False" "observed_or dflt (clean_read ob) = ob"
  by (simp_all add: clean_read_def observed_or_def)

lemma apply_nothing:
  "run_apply ce has_olt has_acs [] ruling sc dl s =
     (Inr \<lparr>ar_success = True, ar_actions_applied = [], ar_halted_by = None, ar_refused_ppp = []\<rparr>, s)"
  by (simp add: run_apply_def apply_plan_def)

lemma finalise_returns:
  "\<exists>r s'. finalise ce started success failure observed applied before after s = (Inr r, s') \<and>
     finalised success failure observed applied before after s r s'"
  using wp_finalise [of success failure observed applied before after s
      "finalised success failure observed applied before after s" ce started "\<lambda>_ _. False"]
  by (auto simp: wp_def split: prod.splits sum.splits)

text \<open>A pass whose plan is empty applies nothing and succeeds.\<close>

lemma deliver_nothing:
  assumes "plan_actions p = []" and "plan_acs_wait_reason p = None" and "proposed_values (rq_proposed rq) = []"
  shows "\<exists>r s'. deliver ce rq started_at started target pf has_olt has_acs olt_fb acs_fb pingable before p s =
    (Inr r, s') \<and> rr_success r \<and> rr_sync_status r = Synced"
proof -
  have "\<exists>r s'. finalise ce started True None (Some before) [] (plan_drifts p) [] t = (Inr r, s') \<and> rr_success r \<and>
      rr_sync_status r = Synced" for t
    using finalise_returns [of ce started True None "Some before" "[]" "plan_drifts p" "[]" t] by (auto simp: finalised_def)
  then show ?thesis
    using assms by (simp add: deliver_def pass_steps apply_nothing persist_change_def acs_wait_failure_def Let_def)
qed

lemma sample_observes:
  "observe (sample_core d (clean_read sample_olt) (clean_read sample_acs)) 0 0 True 0
     (clean_read sample_olt) (clean_read sample_acs) s = (Inr sample_seen, s)"
  by (simp add: observe_def pass_steps sample_seen_def sample_observed_def trunc_ms_def)

lemma sample_pings:
  "is_pingable (sample_core d olt acs) (mgmt_ip sample_desired) s = (Inr True, s)"
  by (simp add: is_pingable_def sample_desired_def)

lemma sample_converges:
  assumes "ont_unreachable (ps_row s) = 0"
  shows "\<exists>r s'. converge (sample_core sample_desired (clean_read sample_olt) (clean_read sample_acs)) sample_request 0 0
    sample_desired {} s = (Inr r, s') \<and> rr_success r"
  using deliver_nothing [OF sample_quiet(1,3), of sample_request]
  by (fastforce simp: converge_def pass_steps read_observed_def Let_def sample_pings sample_observes nothing_blocked assms
      proposed_values_def)

definition sample_pass :: "reconcile_result \<times> (olt_call list) pass_state option \<times> olt_call list" where
  "sample_pass = reconcile_ont (sample_core sample_desired (clean_read sample_olt) (clean_read sample_acs))
     sample_request None []"

lemma sample_finishes:
  "\<exists>r s w'. sample_pass = (r, Some s, w') \<and> rr_success r"
proof -
  obtain r s' where "converge (sample_core sample_desired (clean_read sample_olt) (clean_read sample_acs)) sample_request 0 0
      sample_desired {} \<lparr>ps_row = (recover_crashed sample_row)\<lparr>ont_sync_status := Reconciling, ont_last_started_at := Some 0\<rparr>,
        ps_observation = None, ps_alerts = [], ps_world = []\<rparr> = (Inr r, s')" "rr_success r"
    using sample_converges [of "\<lparr>ps_row = (recover_crashed sample_row)\<lparr>ont_sync_status := Reconciling,
        ont_last_started_at := Some 0\<rparr>, ps_observation = None, ps_alerts = [], ps_world = []\<rparr>"]
    by (auto simp: recover_crashed_def sample_row_def)
  moreover have "\<not> blocked_out_of_sync sample_request (recover_crashed sample_row)"
    by (simp add: blocked_out_of_sync_def recover_crashed_def sample_row_def)
  ultimately show ?thesis
    by (simp add: sample_pass_def reconcile_ont_def reconcile_locked_def pass_steps resolve_target_def proposed_values_def)
qed

theorem result_mirrors_row_witness:
  "\<exists>r s w'. sample_pass = (r, Some s, w') \<and> rr_success r \<and> rr_sync_status r = ont_sync_status (ps_row s) \<and>
     ont_last_error (ps_row s) = None"
proof -
  obtain r s w' where p: "sample_pass = (r, Some s, w')" "rr_success r" using sample_finishes by blast
  from result_mirrors_row [OF p(1) [unfolded sample_pass_def]] p show ?thesis by auto
qed

theorem success_is_verified_witness:
  "\<exists>r s w' current target pf ob. sample_pass = (r, Some s, w') \<and>
    resolve_target sample_request current = Inr (target, pf) \<and> rr_observed_after r = Some ob"
proof -
  obtain r s w' where p: "sample_pass = (r, Some s, w')" "rr_success r" using sample_finishes by blast
  from success_is_verified [OF p(1) [unfolded sample_pass_def] p(2)] p show ?thesis by blast
qed

theorem next_operator_pass_witness:
  "\<exists>r s w'. sample_pass = (r, Some s, w') \<and> \<not> blocked_out_of_sync sample_request (recover_crashed (ps_row s))"
proof -
  obtain r s w' where p: "sample_pass = (r, Some s, w')" "rr_success r" using sample_finishes by blast
  from next_operator_pass [OF p(1) [unfolded sample_pass_def], of sample_request] p show ?thesis by auto
qed

text \<open>
  The two ways in which a success leaves something undone. The verification looks at the drifts of its plan
  only: with the management service port still missing it has a port to create, no drift, and reports
  success. And a plan whose only drift cannot be repaired has no action, so nothing is verified and the ONT
  is reported as synced with that drift, here IPv6 that is wanted and off.
\<close>

definition sample_portless :: ont_observed where
  "sample_portless = sample_seen\<lparr>obs_olt := sample_olt\<lparr>olt_service_ports := [sample_port 501 203]\<rparr>\<rparr>"

theorem missing_port_verified:
  "\<exists>r s'. verify_outcome (sample_core sample_desired olt acs) sample_request 0 sample_desired {} p
      \<lparr>ar_success = True, ar_actions_applied = applied, ar_halted_by = None, ar_refused_ppp = []\<rparr>
      (clean_read olt') (clean_read acs') sample_portless s = (Inr r, s') \<and> rr_success r"
  "plan_actions (compute_plan sample_desired sample_portless Sync (Some {}) False) =
     [OltA (OltCreateServicePort ''0/1/2'' 7 500 201 2 ''mgmt'')]"
  if "plan_acs_wait_reason p = None"
proof -
  have none: "plan_drifts (compute_plan sample_desired sample_portless Sync (Some {}) False) = []" by code_simp
  have "\<exists>r s'. finalise ce started True None (Some sample_portless) applied (plan_drifts p) [] s = (Inr r, s') \<and> rr_success r" for ce started
    using finalise_returns by (metis finalised_success)
  then show "\<exists>r s'. verify_outcome (sample_core sample_desired olt acs) sample_request 0 sample_desired {} p
      \<lparr>ar_success = True, ar_actions_applied = applied, ar_halted_by = None, ar_refused_ppp = []\<rparr>
      (clean_read olt') (clean_read acs') sample_portless s = (Inr r, s') \<and> rr_success r"
    using that by (simp add: verify_outcome_def Let_def none verify_unreachable_def persist_change_def pass_steps
        acs_wait_failure_def residual_ppp_drift_def proposed_values_def)
  show "plan_actions (compute_plan sample_desired sample_portless Sync (Some {}) False) =
     [OltA (OltCreateServicePort ''0/1/2'' 7 500 201 2 ''mgmt'')]" by code_simp
qed

definition sample_v6 :: ont_desired where
  "sample_v6 = sample_desired\<lparr>ipv6_enabled := True, ipv6_enabled_provenance := Prov_explicit\<rparr>"

definition sample_v4_only :: ont_observed where
  "sample_v4_only = sample_seen\<lparr>obs_acs := sample_acs\<lparr>acs_observed_ipv6_enabled := Some False\<rparr>\<rparr>"

theorem unrepairable_drift_synced:
  "map drift_field (plan_drifts (compute_plan sample_v6 sample_v4_only Sync (Some {}) True)) = [''ipv6_enabled'']"
  "\<exists>r s'. deliver ce sample_request started_at started sample_v6 {} has_olt has_acs olt_fb acs_fb pingable sample_v4_only
      (compute_plan sample_v6 sample_v4_only Sync (Some {}) True) s = (Inr r, s') \<and> rr_sync_status r = Synced"
proof -
  show "map drift_field (plan_drifts (compute_plan sample_v6 sample_v4_only Sync (Some {}) True)) = [''ipv6_enabled'']"
    by code_simp
  have "plan_actions (compute_plan sample_v6 sample_v4_only Sync (Some {}) True) = []"
    "plan_acs_wait_reason (compute_plan sample_v6 sample_v4_only Sync (Some {}) True) = None"
    by code_simp+
  from deliver_nothing [OF this, of sample_request, where ce = ce and s = s]
  show "\<exists>r s'. deliver ce sample_request started_at started sample_v6 {} has_olt has_acs olt_fb acs_fb pingable sample_v4_only
      (compute_plan sample_v6 sample_v4_only Sync (Some {}) True) s = (Inr r, s') \<and> rr_sync_status r = Synced"
    by (simp add: proposed_values_def) blast
qed

text \<open>
  An exception inside the pass leaves the row half way. When the OLT adapter of an ordinary pass
  cannot be built, the pass reports an internal error and out of sync, while the row it commits is still
  marked as being reconciled; nothing is recorded on the row of the failure.
\<close>

theorem internal_error_leaves_reconciling:
  assumes "\<And>v. fst (ce_lock ce (rq_ont rq) v) = Inr (Some row)" and "\<And>u v. fst (ce_desired ce u v) = Inr d"
    and "\<And>u v. fst (ce_resolve_olt ce u v) = Inl e" and "resolve_target rq d = Inr (target, pf)"
    and "\<not> blocked_out_of_sync rq (recover_crashed row)" and "rq_binding rq = None"
    and "\<not> rq_has_olt rq" and "rq_wifi_scope rq = None"
  shows "\<exists>r s w'. reconcile_ont ce rq obs w = (r, Some s, w') \<and>
    rr_failure r = Some (internal_error e) \<and> rr_sync_status r = Out_of_sync \<and>
    ont_sync_status (ps_row s) = Reconciling \<and> ont_last_error (ps_row s) = ont_last_error (recover_crashed row)"
proof -
  have "fst (converge ce rq now started target pf s) = Inl e" and
    "ps_row (snd (converge ce rq now started target pf s)) = ps_row s" for now started s
    using assms(7,8) by (simp_all add: converge_def pass_steps Let_def split_beta assms(3))
  then show ?thesis
    by (simp add: reconcile_ont_def reconcile_locked_def pass_steps assms(1,2,4-6) split_beta)
qed

theorem internal_error_leaves_reconciling_witness:
  "\<exists>r s w'. reconcile_ont ((sample_core sample_desired (clean_read sample_olt) (clean_read sample_acs))
       \<lparr>ce_resolve_olt := \<lambda>row w. (Inl ''no adapter'', w)\<rparr>) sample_request None [] = (r, Some s, w') \<and>
     rr_sync_status r = Out_of_sync \<and> ont_sync_status (ps_row s) = Reconciling"
  using internal_error_leaves_reconciling [of "(sample_core sample_desired (clean_read sample_olt) (clean_read sample_acs))
       \<lparr>ce_resolve_olt := \<lambda>row w. (Inl ''no adapter'', w)\<rparr>" sample_request sample_row sample_desired "''no adapter''"
       sample_desired "{}" None "[]"]
  by (auto simp: resolve_target_def proposed_values_def blocked_out_of_sync_def recover_crashed_def sample_row_def)

end
