(* ===== verification/Sla_Intervals.thy ===== *)
theory Sla_Intervals
  imports Results
begin

section \<open>Half-open intervals\<close>

text \<open>
  Models \<open>app/services/sla_interval_algebra.py\<close>: the spans of the SLA scorer and their normal form,
  union, intersection, difference and measure. Instants are microseconds since 1970, UTC; a datetime
  as a caller passes it is a \<open>stamp\<close>, with its wall clock and its offset when it has one. Every place
  that constructs a span may raise, so the operations return a sum.
\<close>

subsection \<open>Spans\<close>

datatype stamp = Naive int | Aware int int
  \<comment> \<open>microseconds on the wall clock, and the offset of an aware value\<close>

datatype span_error = Not_aware string | Not_utc string int | Not_positive

datatype span = Span (span_start: int) (span_end: int)

text \<open>The order of the dataclass: by start, then by end.\<close>

instantiation span :: linorder
begin

definition less_eq_span :: "span \<Rightarrow> span \<Rightarrow> bool" where
  "less_eq_span x y \<longleftrightarrow> span_start x < span_start y \<or> span_start x = span_start y \<and> span_end x \<le> span_end y"

definition less_span :: "span \<Rightarrow> span \<Rightarrow> bool" where
  "less_span x y \<longleftrightarrow> span_start x < span_start y \<or> span_start x = span_start y \<and> span_end x < span_end y"

instance
  by standard (auto simp: less_eq_span_def less_span_def intro: span.expand)

end

text \<open>\<open>Span.__post_init__\<close>: on UTC instants, and on the values a caller passes.\<close>

definition checked_span :: "int \<Rightarrow> int \<Rightarrow> span_error + span" where
  "checked_span s e = (if e \<le> s then Inl Not_positive else Inr (Span s e))"

definition utc_instant :: "string \<Rightarrow> stamp \<Rightarrow> span_error + int" where
  "utc_instant name v =
     (case v of
        Naive t \<Rightarrow> Inl (Not_aware name)
      | Aware t off \<Rightarrow> if off \<noteq> 0 then Inl (Not_utc name off) else Inr t)"

definition make_span :: "stamp \<Rightarrow> stamp \<Rightarrow> span_error + span" where
  "make_span s e =
     and_then (utc_instant ''start'' s) (\<lambda>lo. and_then (utc_instant ''end'' e) (\<lambda>hi. checked_span lo hi))"

definition span_duration :: "span \<Rightarrow> int" where
  "span_duration s = span_end s - span_start s"

definition overlaps :: "span \<Rightarrow> span \<Rightarrow> bool" where
  "overlaps x y \<longleftrightarrow> span_start x < span_end y \<and> span_start y < span_end x"

definition abuts :: "span \<Rightarrow> span \<Rightarrow> bool" where
  "abuts x y \<longleftrightarrow> span_end x = span_start y \<or> span_end y = span_start x"

subsection \<open>The operations\<close>

text \<open>One turn of the loop of \<open>normalize\<close>, on the list merged so far.\<close>

definition merge_step :: "span list \<Rightarrow> span \<Rightarrow> span_error + span list" where
  "merge_step merged s =
     (if merged \<noteq> [] \<and> span_start s \<le> span_end (last merged) then
        (if span_end (last merged) < span_end s then
           and_then (checked_span (span_start (last merged)) (span_end s)) (\<lambda>p. Inr (butlast merged @ [p]))
         else Inr merged)
      else Inr (merged @ [s]))"

definition normalize :: "span list \<Rightarrow> span_error + span list" where
  "normalize spans = fold_err merge_step [] (sort spans)"

definition union_spans :: "span list list \<Rightarrow> span_error + span list" where
  "union_spans groups = normalize (concat groups)"

text \<open>The two-pointer loop of \<open>intersect\<close>: whichever span ends first is passed over.\<close>

fun meet :: "span list \<Rightarrow> span list \<Rightarrow> span_error + span list" where
  "meet (x # xs) (y # ys) =
     (let s = max (span_start x) (span_start y); e = min (span_end x) (span_end y);
          rest = (\<lambda>_. if span_end x \<le> span_end y then meet xs (y # ys) else meet (x # xs) ys)
      in if s < e then and_then (checked_span s e) (\<lambda>p. and_then (rest ()) (\<lambda>ps. Inr (p # ps)))
         else rest ())"
| "meet _ _ = Inr []"

definition intersect :: "span list \<Rightarrow> span list \<Rightarrow> span_error + span list" where
  "intersect left right = and_then (normalize left) (\<lambda>a. and_then (normalize right) (\<lambda>b. meet a b))"

text \<open>What a cut leaves of one span, and of all the spans that remain.\<close>

definition cut_span :: "span \<Rightarrow> span \<Rightarrow> span_error + span list" where
  "cut_span c s =
     (if \<not> overlaps s c then Inr [s]
      else and_then (if span_start s < span_start c
               then and_then (checked_span (span_start s) (span_start c)) (\<lambda>p. Inr [p]) else Inr [])
             (\<lambda>before. and_then (if span_end c < span_end s
                 then and_then (checked_span (span_end c) (span_end s)) (\<lambda>p. Inr [p]) else Inr [])
               (\<lambda>after. Inr (before @ after))))"

definition cut_all :: "span list \<Rightarrow> span \<Rightarrow> span_error + span list" where
  "cut_all remaining c =
     fold_err (\<lambda>carried s. and_then (cut_span c s) (\<lambda>ps. Inr (carried @ ps))) [] remaining"

definition subtract :: "span list \<Rightarrow> span list \<Rightarrow> span_error + span list" where
  "subtract left right =
     and_then (normalize left) (\<lambda>remaining. and_then (normalize right) (\<lambda>cuts.
       and_then (fold_err cut_all remaining cuts) normalize))"

definition clamp :: "span list \<Rightarrow> span \<Rightarrow> span_error + span list" where
  "clamp spans window = intersect spans [window]"

text \<open>\<open>int(duration.total_seconds())\<close> drops the microseconds of each span.\<close>

definition whole_seconds :: "span \<Rightarrow> int" where
  "whole_seconds s = span_duration s div 1000000"

definition total_seconds :: "span list \<Rightarrow> span_error + int" where
  "total_seconds spans = and_then (normalize spans) (\<lambda>ns. Inr (\<Sum>s\<leftarrow>ns. whole_seconds s))"

text \<open>\<open>_utc\<close> followed by \<open>astimezone(UTC)\<close>, and \<open>span_or_none\<close>.\<close>

definition coerced :: "stamp \<Rightarrow> int" where
  "coerced v = (case v of Naive t \<Rightarrow> t | Aware t off \<Rightarrow> t - off)"

definition span_or_none :: "stamp option \<Rightarrow> stamp option \<Rightarrow> span_error + span option" where
  "span_or_none start fin =
     (case (start, fin) of
        (Some s, Some e) \<Rightarrow>
          if coerced e \<le> coerced s then Inr None
          else and_then (checked_span (coerced s) (coerced e)) (\<lambda>p. Inr (Some p))
      | _ \<Rightarrow> Inr None)"

subsection \<open>What a list of spans covers\<close>

definition wf_span :: "span \<Rightarrow> bool" where
  "wf_span s \<longleftrightarrow> span_start s < span_end s"

definition instants :: "span \<Rightarrow> int set" where
  "instants s = {span_start s ..< span_end s}"

definition cover :: "span list \<Rightarrow> int set" where
  "cover xs = (\<Union>s \<in> set xs. instants s)"

definition wf_spans :: "span list \<Rightarrow> bool" where
  "wf_spans xs \<longleftrightarrow> (\<forall>s \<in> set xs. wf_span s)"

text \<open>Well-formed spans in order, with a gap between each two.\<close>

definition canonical :: "span list \<Rightarrow> bool" where
  "canonical xs \<longleftrightarrow> wf_spans xs \<and> sorted_wrt (\<lambda>x y. span_end x < span_start y) xs"

lemma checked_ok [simp]: "s < e \<Longrightarrow> checked_span s e = Inr (Span s e)"
  by (simp add: checked_span_def)

lemma cover_simps [simp]:
  "cover [] = {}" "cover (x # xs) = instants x \<union> cover xs" "cover (xs @ ys) = cover xs \<union> cover ys"
  by (auto simp: cover_def)

lemma wf_spans_simps [simp]:
  "wf_spans []" "wf_spans (x # xs) \<longleftrightarrow> wf_span x \<and> wf_spans xs" "wf_spans (xs @ ys) \<longleftrightarrow> wf_spans xs \<and> wf_spans ys"
  by (auto simp: wf_spans_def)

lemma in_instants [simp]: "t \<in> instants s \<longleftrightarrow> span_start s \<le> t \<and> t < span_end s"
  by (simp add: instants_def)

lemma finite_cover [simp]: "finite (cover xs)"
  by (simp add: cover_def instants_def)

lemma cover_set: "set xs = set ys \<Longrightarrow> cover xs = cover ys"
  by (simp add: cover_def)

lemma cover_sort [simp]: "cover (sort xs) = cover xs"
  by (rule cover_set) simp

lemma canonical_Nil [simp]: "canonical []"
  by (simp add: canonical_def)

lemma canonical_Cons:
  "canonical (x # xs) \<longleftrightarrow> wf_span x \<and> (\<forall>y \<in> set xs. span_end x < span_start y) \<and> canonical xs"
  by (auto simp: canonical_def)

lemma canonical_snoc:
  "canonical (xs @ [x]) \<longleftrightarrow> canonical xs \<and> wf_span x \<and> (\<forall>y \<in> set xs. span_end y < span_start x)"
  by (auto simp: canonical_def sorted_wrt_append)

lemma canonical_wf: "canonical xs \<Longrightarrow> wf_spans xs"
  by (simp add: canonical_def)

lemma cover_above: "t \<in> cover xs \<Longrightarrow> (\<forall>y \<in> set xs. b < span_start y) \<Longrightarrow> b < t"
  by (fastforce simp: cover_def)

subsection \<open>Normal forms\<close>

text \<open>The loop keeps the merged list canonical and to the left of what is still to come.\<close>

definition merging :: "span list \<Rightarrow> span list \<Rightarrow> span list \<Rightarrow> bool" where
  "merging xs merged rest \<longleftrightarrow> canonical merged \<and> wf_spans rest \<and> sorted rest \<and>
     (merged \<noteq> [] \<longrightarrow> (\<forall>s \<in> set rest. span_start (last merged) \<le> span_start s)) \<and>
     cover merged \<union> cover rest = cover xs"

lemma merging_step:
  assumes "merging xs merged (s # rest)"
  shows "\<exists>m. merge_step merged s = Inr m \<and> merging xs m rest"
proof (cases merged rule: rev_cases)
  case Nil
  then show ?thesis using assms
    by (auto simp: merging_def merge_step_def canonical_Cons less_eq_span_def)
next
  case (snoc ms p)
  have p: "wf_span p" "wf_span s" "span_start p \<le> span_start s" and c: "canonical (ms @ [p])"
    using assms snoc by (auto simp: merging_def canonical_snoc)
  have rest: "\<forall>r \<in> set rest. span_start s \<le> span_start r"
    using assms by (auto simp: merging_def less_eq_span_def)
  consider (apart) "span_end p < span_start s" | (extend) "span_start s \<le> span_end p" "span_end p < span_end s"
    | (inside) "span_start s \<le> span_end p" "span_end s \<le> span_end p" by linarith
  then show ?thesis
  proof cases
    case apart
    have "\<forall>y \<in> set ms. span_end y < span_start s"
      using c p by (auto simp: canonical_snoc intro: less_le_trans)
    then have "canonical ((ms @ [p]) @ [s])"
      unfolding canonical_snoc [of "ms @ [p]"] using apart c p by auto
    then have "canonical (merged @ [s])" by (simp only: snoc)
    then show ?thesis using assms apart rest snoc by (auto simp: merging_def merge_step_def)
  next
    case extend
    then have "instants p \<union> instants s = instants (Span (span_start p) (span_end s))"
      using p by (auto simp: wf_span_def)
    moreover have "canonical (ms @ [Span (span_start p) (span_end s)])"
      using c p extend by (auto simp: canonical_snoc wf_span_def)
    ultimately show ?thesis using assms extend p rest snoc
      by (auto simp: merging_def merge_step_def wf_span_def)
  next
    case inside
    then have "instants s \<subseteq> instants p" using p by auto
    then show ?thesis using assms inside snoc by (auto simp: merging_def merge_step_def)
  qed
qed

lemma normalize_ok:
  assumes "wf_spans xs"
  obtains ns where "normalize xs = Inr ns" "canonical ns" "cover ns = cover xs"
proof -
  have "merging xs [] (sort xs)"
    using assms by (auto simp: merging_def wf_spans_def)
  from fold_err_invariant [of "merging xs" "[]" "sort xs" merge_step, OF this merging_step] show thesis
    using that by (auto simp: normalize_def merging_def)
qed

text \<open>A set of instants has one canonical cover: its least instant and the first gap fix the head.\<close>

lemma canonical_head:
  assumes "canonical (x # xs)"
  shows "span_start x \<in> cover (x # xs)" "\<And>t. t \<in> cover (x # xs) \<Longrightarrow> span_start x \<le> t"
    "span_end x \<notin> cover (x # xs)" "\<And>t. span_start x \<le> t \<Longrightarrow> t < span_end x \<Longrightarrow> t \<in> cover (x # xs)"
    "cover xs = cover (x # xs) - instants x"
  using assms cover_above [of _ xs "span_end x"]
  by (fastforce simp: canonical_Cons wf_span_def)+

lemma canonical_unique:
  assumes "canonical xs" and "canonical ys" and "cover xs = cover ys"
  shows "xs = ys"
  using assms
proof (induction xs arbitrary: ys)
  case Nil
  then show ?case by (cases ys) (auto dest: canonical_head(1))
next
  case (Cons x xs)
  then obtain y ys' where ys: "ys = y # ys'"
    by (cases ys) (auto dest: canonical_head(1))
  have "span_start x = span_start y"
    using canonical_head(1,2) [OF Cons.prems(1)] canonical_head(1,2) [OF Cons.prems(2) [unfolded ys]]
    by (intro order_antisym) (simp_all only: Cons.prems(3) ys)
  moreover have "span_end x = span_end y"
  proof (rule ccontr)
    assume "span_end x \<noteq> span_end y"
    then consider "span_end x < span_end y" | "span_end y < span_end x" by linarith
    then show False
    proof cases
      case 1
      then have "span_end x \<in> cover (y # ys')"
        using Cons.prems(1) calculation by (auto simp: canonical_Cons wf_span_def)
      then show False using canonical_head(3) [OF Cons.prems(1)] by (metis Cons.prems(3) ys)
    next
      case 2
      then have "span_end y \<in> cover (x # xs)"
        using Cons.prems(2) calculation ys by (auto simp: canonical_Cons wf_span_def)
      then show False using canonical_head(3) [OF Cons.prems(2) [unfolded ys]] by (metis Cons.prems(3) ys)
    qed
  qed
  ultimately have x: "x = y" by (rule span.expand [OF conjI])
  have "cover xs = cover (x # xs) - instants x" by (rule canonical_head(5) [OF Cons.prems(1)])
  also have "\<dots> = cover (y # ys') - instants y"
    unfolding Cons.prems(3) ys by (simp only: x)
  also have "\<dots> = cover ys'" by (rule canonical_head(5) [OF Cons.prems(2) [unfolded ys], symmetric])
  finally have "cover xs = cover ys'" .
  then have "xs = ys'"
    using Cons.IH [of ys'] Cons.prems(1,2) unfolding ys canonical_Cons by blast
  then show ?case by (simp add: ys x)
qed

text \<open>Normalising is therefore determined by the instants covered.\<close>

lemma normalize_unique: "canonical ns \<Longrightarrow> wf_spans xs \<Longrightarrow> cover xs = cover ns \<Longrightarrow> normalize xs = Inr ns"
  by (metis normalize_ok canonical_unique)

lemma normalize_canonical [simp]: "canonical ns \<Longrightarrow> normalize ns = Inr ns"
  by (simp add: normalize_unique canonical_wf)

subsection \<open>Union, intersection and difference\<close>

lemma start_in_cover: "wf_spans xs \<Longrightarrow> s \<in> set xs \<Longrightarrow> span_start s \<in> cover xs"
  by (force simp: cover_def wf_spans_def wf_span_def)

text \<open>Two spans meet in one span or not at all.\<close>

lemma instants_Int:
  "instants x \<inter> instants y =
     instants (Span (max (span_start x) (span_start y)) (min (span_end x) (span_end y)))"
  by auto

lemma instants_empty: "\<not> s < e \<Longrightarrow> instants (Span s e) = {}"
  by auto

text \<open>The step of the two-pointer loop: the span that ends first meets nothing further right.\<close>

lemma passed_over:
  assumes "canonical (x # xs)" and "canonical (y # ys)" and "span_end x \<le> span_end y"
  shows "cover (x # xs) \<inter> cover (y # ys) = instants x \<inter> instants y \<union> cover xs \<inter> cover (y # ys)"
  using assms cover_above [of _ ys "span_end y"] by (fastforce simp: canonical_Cons)

lemma meet_step:
  assumes "canonical c" and "\<And>t. t \<in> cover c \<Longrightarrow> min (span_end x) (span_end y) < t"
  shows "\<exists>c'. (if max (span_start x) (span_start y) < min (span_end x) (span_end y) then
       and_then (checked_span (max (span_start x) (span_start y)) (min (span_end x) (span_end y)))
         (\<lambda>p. and_then (Inr c) (\<lambda>ps. Inr (p # ps))) else Inr c) = Inr c' \<and> canonical c' \<and>
     cover c' = instants x \<inter> instants y \<union> cover c"
proof (cases "max (span_start x) (span_start y) < min (span_end x) (span_end y)")
  case True
  have "canonical (Span (max (span_start x) (span_start y)) (min (span_end x) (span_end y)) # c)"
    using True assms start_in_cover [OF canonical_wf [OF assms(1)]] by (simp add: canonical_Cons wf_span_def)
  then show ?thesis using True by (simp add: instants_Int)
next
  case False
  then show ?thesis using assms(1) by (simp add: instants_Int instants_empty del: max_less_iff_conj min_less_iff_conj)
qed

lemma meet_ok:
  "canonical xs \<Longrightarrow> canonical ys \<Longrightarrow>
     \<exists>c. meet xs ys = Inr c \<and> canonical c \<and> cover c = cover xs \<inter> cover ys"
proof (induction xs ys rule: meet.induct)
  case (1 x xs y ys)
  show ?case
  proof (cases "span_end x \<le> span_end y")
    case True
    from 1(1) [OF refl refl True] obtain c where
      c: "meet xs (y # ys) = Inr c" "canonical c" "cover c = cover xs \<inter> cover (y # ys)"
      using 1(3,4) by (auto simp: canonical_Cons)
    have "min (span_end x) (span_end y) < t" if "t \<in> cover c" for t
      using that c(3) True 1(3) cover_above [of t xs "span_end x"] by (auto simp: canonical_Cons)
    from meet_step [OF c(2) this] show ?thesis
      unfolding meet.simps Let_def passed_over [OF 1(3,4) True] by (simp only: True if_True c(1,3))
  next
    case False
    from 1(2) [OF refl refl False] obtain c where
      c: "meet (x # xs) ys = Inr c" "canonical c" "cover c = cover (x # xs) \<inter> cover ys"
      using 1(3,4) by (auto simp: canonical_Cons)
    have "min (span_end x) (span_end y) < t" if "t \<in> cover c" for t
      using that c(3) False 1(4) cover_above [of t ys "span_end y"] by (auto simp: canonical_Cons)
    moreover have "cover (x # xs) \<inter> cover (y # ys) = instants x \<inter> instants y \<union> cover (x # xs) \<inter> cover ys"
      using passed_over [OF 1(4,3)] False by (simp only: Int_commute)
    ultimately show ?thesis
      using meet_step [OF c(2)] unfolding meet.simps Let_def by (simp only: False if_False c(1,3))
  qed
qed simp_all

lemma cut_span_ok:
  assumes "wf_span c" and "wf_span s"
  shows "\<exists>ps. cut_span c s = Inr ps \<and> wf_spans ps \<and> cover ps = instants s - instants c"
  using assms by (cases "overlaps s c")
    (auto simp: cut_span_def overlaps_def wf_span_def set_eq_iff)

lemma cut_all_ok:
  assumes "wf_span c" and "wf_spans remaining"
  shows "\<exists>ps. cut_all remaining c = Inr ps \<and> wf_spans ps \<and> cover ps = cover remaining - instants c"
proof -
  define I where "I = (\<lambda>carried rest. wf_spans carried \<and> wf_spans rest \<and>
     cover carried \<union> (cover rest - instants c) = cover remaining - instants c)"
  have "I [] remaining" using assms(2) by (simp add: I_def)
  moreover have "\<exists>carried'. and_then (cut_span c s) (\<lambda>ps. Inr (carried @ ps)) = Inr carried' \<and> I carried' rest"
    if inv: "I carried (s # rest)" for carried s rest
  proof -
    have "wf_span s" using inv by (simp add: I_def)
    from cut_span_ok [OF assms(1) this] obtain ps where
      ps: "cut_span c s = Inr ps" "wf_spans ps" "cover ps = instants s - instants c" by blast
    have "cover carried \<union> cover ps \<union> (cover rest - instants c) = cover remaining - instants c"
      using inv ps(3) by (auto simp: I_def)
    then show ?thesis using inv ps by (simp add: I_def)
  qed
  ultimately show ?thesis
    using fold_err_invariant [of I "[]" remaining "\<lambda>carried s. and_then (cut_span c s) (\<lambda>ps. Inr (carried @ ps))"]
    by (auto simp: cut_all_def I_def)
qed

lemma cut_loop_ok:
  assumes "wf_spans remaining" and "wf_spans cs"
  shows "\<exists>ps. fold_err cut_all remaining cs = Inr ps \<and> wf_spans ps \<and> cover ps = cover remaining - cover cs"
  using assms
proof (induction cs arbitrary: remaining)
  case (Cons c cs)
  from cut_all_ok [of c remaining] Cons.prems obtain ps where
    "cut_all remaining c = Inr ps" "wf_spans ps" "cover ps = cover remaining - instants c" by auto
  with Cons.IH [of ps] Cons.prems show ?case by (auto simp: Diff_eq)
qed simp

text \<open>The results of the three operations on well-formed spans, as one bundle.\<close>

lemma intersect_ok:
  assumes "wf_spans xs" and "wf_spans ys"
  obtains c where "intersect xs ys = Inr c" "canonical c" "cover c = cover xs \<inter> cover ys"
proof -
  obtain a b where "normalize xs = Inr a" "canonical a" "cover a = cover xs"
    and "normalize ys = Inr b" "canonical b" "cover b = cover ys"
    using assms by (metis normalize_ok)
  with meet_ok [of a b] show thesis using that by (auto simp: intersect_def)
qed

lemma subtract_ok:
  assumes "wf_spans xs" and "wf_spans ys"
  obtains c where "subtract xs ys = Inr c" "canonical c" "cover c = cover xs - cover ys"
proof -
  obtain a b where a: "normalize xs = Inr a" "canonical a" "cover a = cover xs"
    and b: "normalize ys = Inr b" "canonical b" "cover b = cover ys"
    using assms by (metis normalize_ok)
  from cut_loop_ok [of a b] a b obtain ps where
    ps: "fold_err cut_all a b = Inr ps" "wf_spans ps" "cover ps = cover xs - cover ys"
    by (auto simp: canonical_wf)
  obtain c where "normalize ps = Inr c" "canonical c" "cover c = cover ps" using ps(2) by (rule normalize_ok)
  then show thesis using that a b ps by (auto simp: subtract_def)
qed

lemma union_ok:
  assumes "\<forall>g \<in> set gs. wf_spans g"
  obtains c where "union_spans gs = Inr c" "canonical c" "cover c = (\<Union>g \<in> set gs. cover g)"
proof -
  have "wf_spans (concat gs)" and "cover (concat gs) = (\<Union>g \<in> set gs. cover g)"
    using assms by (auto simp: wf_spans_def cover_def)
  then show thesis using that normalize_ok [of "concat gs"] by (metis union_spans_def)
qed

subsection \<open>Measure\<close>

text \<open>Spans that share no instant: their durations add up to the number of microseconds covered.\<close>

definition apart :: "span list \<Rightarrow> bool" where
  "apart xs \<longleftrightarrow> sorted_wrt (\<lambda>x y. instants x \<inter> instants y = {}) xs"

lemma apart_simps [simp]: "apart []" "apart (x # xs) \<longleftrightarrow> instants x \<inter> cover xs = {} \<and> apart xs"
  by (auto simp: apart_def cover_def)

lemma apart_append: "apart (xs @ ys) \<longleftrightarrow> apart xs \<and> apart ys \<and> cover xs \<inter> cover ys = {}"
  by (induction xs) (auto simp: Int_Un_distrib Int_Un_distrib2)

lemma apart_filter: "apart xs \<Longrightarrow> apart (filter P xs)"
  by (simp add: apart_def sorted_wrt_filter)

lemma canonical_apart: "canonical xs \<Longrightarrow> apart xs"
proof (induction xs)
  case (Cons x xs)
  then show ?case using cover_above [of _ xs "span_end x"] by (fastforce simp: canonical_Cons)
qed simp

lemma card_cover: "wf_spans ns \<Longrightarrow> apart ns \<Longrightarrow> int (card (cover ns)) = (\<Sum>s\<leftarrow>ns. span_duration s)"
proof (induction ns)
  case (Cons s ns)
  then have "card (cover (s # ns)) = card (instants s) + card (cover ns)"
    by (simp add: card_Un_disjoint instants_def)
  then show ?case using Cons by (simp add: instants_def span_duration_def wf_span_def)
qed simp

text \<open>Dropping the microseconds of every span loses less than a second for each.\<close>

lemma whole_seconds_bounds:
  "1000000 * (\<Sum>s\<leftarrow>ns. whole_seconds s) \<le> (\<Sum>s\<leftarrow>ns. span_duration s)"
  "(\<Sum>s\<leftarrow>ns. span_duration s) \<le> 1000000 * (\<Sum>s\<leftarrow>ns. whole_seconds s) + 999999 * int (length ns)"
proof (induction ns)
  case (Cons s ns)
  have "1000000 * whole_seconds s \<le> span_duration s" "span_duration s \<le> 1000000 * whole_seconds s + 999999"
    unfolding whole_seconds_def by presburger+
  with Cons show "1000000 * (\<Sum>s\<leftarrow>s # ns. whole_seconds s) \<le> (\<Sum>s\<leftarrow>s # ns. span_duration s)"
    "(\<Sum>s\<leftarrow>s # ns. span_duration s) \<le> 1000000 * (\<Sum>s\<leftarrow>s # ns. whole_seconds s) + 999999 * int (length (s # ns))"
    by (simp_all add: algebra_simps)
qed simp_all

text \<open>
  Spans inside a canonical list count no more whole seconds than the list: each lies in one span of it,
  and the floors of the parts add up to no more than the floor of the whole.
\<close>

lemma whole_seconds_within:
  assumes "wf_spans ps" and "apart ps" and "cover ps \<subseteq> instants s" and "wf_span s"
  shows "(\<Sum>p\<leftarrow>ps. whole_seconds p) \<le> whole_seconds s"
proof -
  have "card (cover ps) \<le> card (instants s)"
    using assms(3) by (intro card_mono) (simp_all add: instants_def)
  then have "(\<Sum>p\<leftarrow>ps. span_duration p) \<le> span_duration s"
    using card_cover [OF assms(1,2)] assms(4) by (simp add: instants_def span_duration_def wf_span_def)
  with whole_seconds_bounds(1) [of ps] show ?thesis
    unfolding whole_seconds_def [of s] by linarith
qed

lemma sum_list_split:
  fixes f :: "'a \<Rightarrow> int"
  shows "(\<Sum>x\<leftarrow>xs. f x) = (\<Sum>x\<leftarrow>filter P xs. f x) + (\<Sum>x\<leftarrow>filter (\<lambda>x. \<not> P x) xs. f x)"
  by (induction xs) simp_all

lemma convex_part:
  assumes "canonical (s # ns)" and "wf_span p" and "instants p \<subseteq> cover (s # ns)"
  shows "if span_start p < span_end s then instants p \<subseteq> instants s else instants p \<subseteq> cover ns"
proof (cases "span_start p < span_end s")
  case True
  have "span_end p \<le> span_end s"
  proof (rule ccontr)
    assume "\<not> span_end p \<le> span_end s"
    then have "span_end s \<in> instants p" using True by simp
    then show False using assms(3) canonical_head(3) [OF assms(1)] by blast
  qed
  moreover have "span_start s \<le> span_start p"
    using assms(2,3) canonical_head(2) [OF assms(1), of "span_start p"] by (auto simp: wf_span_def)
  ultimately show ?thesis using True by auto
next
  case False
  then show ?thesis using assms(3) by auto
qed

lemma whole_seconds_inside:
  "canonical ns \<Longrightarrow> wf_spans ps \<Longrightarrow> apart ps \<Longrightarrow> cover ps \<subseteq> cover ns \<Longrightarrow>
     (\<Sum>p\<leftarrow>ps. whole_seconds p) \<le> (\<Sum>s\<leftarrow>ns. whole_seconds s)"
proof (induction ns arbitrary: ps)
  case Nil
  then have "ps = []" by (cases ps) (auto simp: wf_span_def set_eq_iff)
  then show ?case by simp
next
  case (Cons s ns)
  let ?P = "\<lambda>p. span_start p < span_end s"
  have part: "if ?P p then instants p \<subseteq> instants s else instants p \<subseteq> cover ns" if "p \<in> set ps" for p
  proof (rule convex_part [OF Cons.prems(1)])
    show "wf_span p" using Cons.prems(2) that by (simp add: wf_spans_def)
    show "instants p \<subseteq> cover (s # ns)"
      using UN_upper [OF that, of instants] Cons.prems(4) unfolding cover_def by (rule order_trans)
  qed
  have "(\<Sum>p\<leftarrow>filter ?P ps. whole_seconds p) \<le> whole_seconds s"
  proof (rule whole_seconds_within)
    show "wf_spans (filter ?P ps)" using Cons.prems(2) by (simp add: wf_spans_def)
    show "cover (filter ?P ps) \<subseteq> instants s" unfolding cover_def using part by (fastforce split: if_splits)
    show "wf_span s" using Cons.prems(1) by (simp add: canonical_Cons)
  qed (rule apart_filter [OF Cons.prems(3)])
  moreover have "(\<Sum>p\<leftarrow>filter (\<lambda>p. \<not> ?P p) ps. whole_seconds p) \<le> (\<Sum>s\<leftarrow>ns. whole_seconds s)"
  proof (rule Cons.IH)
    show "canonical ns" using Cons.prems(1) by (simp add: canonical_Cons)
    show "wf_spans (filter (\<lambda>p. \<not> ?P p) ps)" using Cons.prems(2) by (simp add: wf_spans_def)
    show "cover (filter (\<lambda>p. \<not> ?P p) ps) \<subseteq> cover ns" unfolding cover_def [of "filter _ _"] using part by fastforce
  qed (rule apart_filter [OF Cons.prems(3)])
  ultimately show ?case using sum_list_split [of whole_seconds ps ?P] by simp
qed

subsection \<open>Properties\<close>

text \<open>
  C30: normalisation computes a normal form of the instants covered. On well-formed spans it never raises,
  its result is sorted, disjoint and without two spans that touch, and two lists have the same result
  exactly when they cover the same instants, in whatever order and however cut up they came.
\<close>

theorem normalize_is_normal_form:
  assumes "wf_spans xs" and "wf_spans ys"
  shows "(\<exists>ns. normalize xs = Inr ns \<and> canonical ns \<and> cover ns = cover xs \<and> normalize ns = Inr ns) \<and>
    (normalize xs = normalize ys \<longleftrightarrow> cover xs = cover ys)"
proof -
  obtain a b where "normalize xs = Inr a" "canonical a" "cover a = cover xs"
    and "normalize ys = Inr b" "canonical b" "cover b = cover ys"
    using assms by (metis normalize_ok)
  then show ?thesis using canonical_unique [of a b] by auto
qed

theorem normalize_is_normal_form_witness:
  "normalize [Span 5 9, Span 0 3, Span 3 6] = normalize [Span 0 9] \<longleftrightarrow>
     cover [Span 5 9, Span 0 3, Span 3 6] = cover [Span 0 9]"
  by (rule conjunct2 [OF normalize_is_normal_form]) (simp_all add: wf_span_def)

text \<open>
  C31: the interval operations are set operations. On well-formed spans union, intersection and difference
  never raise, their results are normal forms, and the instants they cover are the union, the intersection
  and the difference of the instants covered by the arguments. The intersection needs no normalisation at
  the end, although the code does none.
\<close>

theorem operations_are_set_operations:
  assumes "wf_spans xs" and "wf_spans ys"
  shows "\<exists>u i d. union_spans [xs, ys] = Inr u \<and> intersect xs ys = Inr i \<and> subtract xs ys = Inr d \<and>
    canonical u \<and> canonical i \<and> canonical d \<and>
    cover u = cover xs \<union> cover ys \<and> cover i = cover xs \<inter> cover ys \<and> cover d = cover xs - cover ys"
proof -
  obtain u where "union_spans [xs, ys] = Inr u" "canonical u" "cover u = cover xs \<union> cover ys"
    using union_ok [of "[xs, ys]"] assms by auto
  moreover obtain i where "intersect xs ys = Inr i" "canonical i" "cover i = cover xs \<inter> cover ys"
    using intersect_ok [OF assms] by blast
  moreover obtain d where "subtract xs ys = Inr d" "canonical d" "cover d = cover xs - cover ys"
    using subtract_ok [OF assms] by blast
  ultimately show ?thesis by blast
qed

theorem operations_are_set_operations_witness:
  "\<exists>u i d. union_spans [[Span 0 5], [Span 3 9]] = Inr u \<and> intersect [Span 0 5] [Span 3 9] = Inr i \<and>
     subtract [Span 0 5] [Span 3 9] = Inr d \<and> canonical u \<and> cover d = cover [Span 0 5] - cover [Span 3 9]"
  using operations_are_set_operations [of "[Span 0 5]" "[Span 3 9]"] by (auto simp: wf_span_def)

text \<open>
  How exact the measure is. The total of well-formed spans counts every covered instant once,
  overlaps included, and drops less than one second for each span of the normal form.
\<close>

theorem total_seconds_bounds:
  assumes "wf_spans xs"
  shows "\<exists>ns n. normalize xs = Inr ns \<and> total_seconds xs = Inr n \<and>
    1000000 * n \<le> int (card (cover xs)) \<and> int (card (cover xs)) \<le> 1000000 * n + 999999 * int (length ns)"
proof -
  obtain ns where "normalize xs = Inr ns" "canonical ns" "cover ns = cover xs" using assms by (rule normalize_ok)
  then show ?thesis
    using whole_seconds_bounds [of ns] card_cover [of ns]
    by (simp add: total_seconds_def canonical_wf canonical_apart)
qed

theorem total_seconds_bounds_witness:
  "\<exists>ns n. normalize [Span 0 2500000, Span 1000000 3000000] = Inr ns \<and>
     total_seconds [Span 0 2500000, Span 1000000 3000000] = Inr n \<and>
     1000000 * n \<le> int (card (cover [Span 0 2500000, Span 1000000 3000000]))"
  using total_seconds_bounds [of "[Span 0 2500000, Span 1000000 3000000]"] by (auto simp: wf_span_def)

end
