(* ===== verification/Sla_Scoring.thy ===== *)
theory Sla_Scoring
  imports Complex_Main Sla_Intervals "HOL-Library.Char_ord" "HOL-Library.List_Lexorder" "HOL-Library.Product_Lexorder"
begin

section \<open>SLA period scores\<close>

text \<open>
  Models the scorer of \<open>app/services/customer_service_level.py\<close> (the policy in force at an instant,
  the policy segments of a period, the verdicts and \<open>_calculate_period_score\<close>) and the validated
  records of \<open>app/services/service_impact_contracts.py\<close> it builds. The histories of the lifecycle, the
  entitlement, the accounting sessions and the outage ledger are inputs, and so is the database of
  policies, offers and profiles. The evidence digest and the row fingerprints are left out.

  Python floats are rationals that went through a rounding function: \<open>rnd\<close> stands for the rounding of
  one IEEE operation, and every arithmetic operation on floats in the source is one application of it.
\<close>

subsection \<open>Policies\<close>

datatype sla_verdict = Passing | At_risk | Breach | Unavailable | No_contractual_sla

datatype policy_source =
  Subscription_contract | Account_contract | Offer_version | Plan_family_default | Internal_measurement

datatype score_error =
    Bad_span span_error
  | Policy_ends_before_start | Policy_bad_version | Policy_bad_target | Policy_missing_target
  | No_positive_period | Evaluated_before_period
  | Negative_seconds | Excess_seconds | Segment_not_positive | Untargeted_verdict
  | Incomplete_pass | Complete_with_issues

record sla_policy =
  pol_id :: string
  pol_version :: int
  pol_source :: policy_source
  pol_from :: int
  pol_to :: "int option"
  pol_target :: "rat option"
  pol_timezone :: string
  pol_maintenance :: bool
  pol_credit :: "rat option"
  pol_cap :: "rat option"

text \<open>\<open>SlaPolicyVersion.__post_init__\<close>.\<close>

definition make_policy :: "sla_policy \<Rightarrow> score_error + sla_policy" where
  "make_policy p =
     (if pol_to p \<noteq> None \<and> the (pol_to p) \<le> pol_from p then Inl Policy_ends_before_start
      else if pol_version p < 1 then Inl Policy_bad_version
      else if pol_target p \<noteq> None \<and> \<not> (0 < the (pol_target p) \<and> the (pol_target p) \<le> 100) then Inl Policy_bad_target
      else if pol_source p \<noteq> Internal_measurement \<and> pol_target p = None then Inl Policy_missing_target
      else Inr p)"

text \<open>A row of \<open>sla_policy_versions\<close>; instants are UTC.\<close>

record policy_row =
  pr_id :: string
  pr_key :: string
  pr_version :: int
  pr_source :: policy_source
  pr_subscription :: "string option"
  pr_subscriber :: "string option"
  pr_offer :: "string option"
  pr_family :: "string option"
  pr_from :: int
  pr_to :: "int option"
  pr_target :: "rat option"
  pr_timezone :: string
  pr_maintenance :: bool
  pr_credit :: "rat option"
  pr_cap :: "rat option"
  pr_reference :: "string option"
  pr_by :: string
  pr_supersedes :: "string option"
  pr_fingerprint :: "string option"
  pr_idempotency :: "string option"

record offer =
  of_family :: "string option"
  of_profile :: "string option"

record sla_profile =
  prof_id :: string
  prof_uptime :: "rat option"
  prof_credit :: "rat option"
  prof_created :: int

record subscription =
  sub_id :: string
  sub_subscriber :: "string option"
  sub_offer :: "string option"

record sla_db =
  db_versions :: "policy_row list"
  db_offer :: "string \<Rightarrow> offer option"
  db_profile :: "string \<Rightarrow> sla_profile option"

definition row_to_policy :: "(rat \<Rightarrow> rat) \<Rightarrow> policy_row \<Rightarrow> score_error + sla_policy" where
  "row_to_policy rnd r =
     make_policy \<lparr>pol_id = pr_id r, pol_version = pr_version r, pol_source = pr_source r, pol_from = pr_from r,
       pol_to = pr_to r, pol_target = map_option rnd (pr_target r),
       pol_timezone = str_or (Some (pr_timezone r)) ''Africa/Lagos'', pol_maintenance = pr_maintenance r,
       pol_credit = map_option rnd (pr_credit r), pol_cap = map_option rnd (pr_cap r)\<rparr>"

text \<open>\<open>_PRECEDENCE\<close>, as the rank of a source.\<close>

fun source_rank :: "policy_source \<Rightarrow> nat" where
  "source_rank Subscription_contract = 0"
| "source_rank Account_contract = 1"
| "source_rank Offer_version = 2"
| "source_rank Plan_family_default = 3"
| "source_rank Internal_measurement = 4"

definition in_scope :: "sla_db \<Rightarrow> subscription \<Rightarrow> policy_row \<Rightarrow> bool" where
  "in_scope db sub r \<longleftrightarrow>
     pr_source r = Internal_measurement \<or> pr_subscription r = Some (sub_id sub) \<or>
     sub_subscriber sub \<noteq> None \<and> pr_subscriber r = sub_subscriber sub \<or>
     (case sub_offer sub of
        None \<Rightarrow> False
      | Some i \<Rightarrow> pr_offer r = Some i \<or>
          (case db_offer db i of None \<Rightarrow> False
           | Some ofr \<Rightarrow> truthy_str (of_family ofr) \<and> pr_family r = of_family ofr))"

text \<open>\<open>_persisted_versions_covering\<close>.\<close>

definition versions_covering :: "sla_db \<Rightarrow> subscription \<Rightarrow> int \<Rightarrow> int \<Rightarrow> policy_row list" where
  "versions_covering db sub s e =
     sort_key (\<lambda>r. (source_rank (pr_source r), pr_from r))
       (filter (\<lambda>r. in_scope db sub r \<and> pr_from r < e \<and> (case pr_to r of None \<Rightarrow> True | Some t \<Rightarrow> s < t))
         (db_versions db))"

text \<open>\<open>_legacy_offer_policy\<close>: the profile of the offer, as an open offer version.\<close>

definition legacy_offer_policy :: "(rat \<Rightarrow> rat) \<Rightarrow> sla_db \<Rightarrow> subscription \<Rightarrow> score_error + sla_policy option" where
  "legacy_offer_policy rnd db sub =
     (case Option.bind (sub_offer sub) (db_offer db) of
        None \<Rightarrow> Inr None
      | Some ofr \<Rightarrow>
          (case Option.bind (if truthy_str (of_profile ofr) then of_profile ofr else None) (db_profile db) of
             None \<Rightarrow> Inr None
           | Some prof \<Rightarrow>
               (case prof_uptime prof of
                  None \<Rightarrow> Inr None
                | Some up \<Rightarrow> and_then (make_policy \<lparr>pol_id = prof_id prof, pol_version = 1, pol_source = Offer_version,
                    pol_from = prof_created prof, pol_to = None, pol_target = Some (rnd up),
                    pol_timezone = ''Africa/Lagos'', pol_maintenance = True,
                    pol_credit = map_option rnd (prof_credit prof), pol_cap = None\<rparr>) (\<lambda>p. Inr (Some p)))))"

fun map_err :: "('a \<Rightarrow> 'e + 'b) \<Rightarrow> 'a list \<Rightarrow> 'e + 'b list" where
  "map_err f [] = Inr []"
| "map_err f (x # xs) = and_then (f x) (\<lambda>y. and_then (map_err f xs) (\<lambda>ys. Inr (y # ys)))"

definition in_force :: "sla_policy \<Rightarrow> int \<Rightarrow> bool" where
  "in_force p t \<longleftrightarrow> pol_from p \<le> t \<and> (case pol_to p of None \<Rightarrow> True | Some e \<Rightarrow> t < e)"

text \<open>\<open>min\<close> by rank: the first of the best ranked.\<close>

definition best_policy :: "sla_policy list \<Rightarrow> sla_policy option" where
  "best_policy ps = (if ps = [] then None else Some (arg_min_list (\<lambda>p. source_rank (pol_source p)) ps))"

definition resolve_effective_policy ::
  "(rat \<Rightarrow> rat) \<Rightarrow> sla_db \<Rightarrow> subscription \<Rightarrow> int \<Rightarrow> score_error + sla_policy option" where
  "resolve_effective_policy rnd db sub t =
     and_then (map_err (row_to_policy rnd) (versions_covering db sub t (t + 1))) (\<lambda>candidates.
     and_then (legacy_offer_policy rnd db sub) (\<lambda>legacy.
       Inr (best_policy (candidates @ (case legacy of None \<Rightarrow> [] | Some p \<Rightarrow> if in_force p t then [p] else [])))))"

subsection \<open>Policy segments\<close>

record segment =
  seg_start :: int
  seg_end :: int
  seg_policy :: "sla_policy option"

text \<open>The instants inside a period at which a policy starts or ends.\<close>

definition inner_edges :: "int \<Rightarrow> int \<Rightarrow> (int \<times> int option) list \<Rightarrow> int list" where
  "inner_edges s e ranges = filter (\<lambda>t. s < t \<and> t < e)
     (concat (map (\<lambda>(a, b). a # (case b of None \<Rightarrow> [] | Some t \<Rightarrow> [t])) ranges))"

definition boundaries :: "sla_db \<Rightarrow> subscription \<Rightarrow> sla_policy option \<Rightarrow> int \<Rightarrow> int \<Rightarrow> int list" where
  "boundaries db sub legacy s e = sort (remdups ([s, e] @
     inner_edges s e (map (\<lambda>r. (pr_from r, pr_to r)) (versions_covering db sub s e)) @
     inner_edges s e (case legacy of None \<Rightarrow> [] | Some p \<Rightarrow> [(pol_from p, pol_to p)])))"

definition policy_segments ::
  "(rat \<Rightarrow> rat) \<Rightarrow> sla_db \<Rightarrow> subscription \<Rightarrow> int \<Rightarrow> int \<Rightarrow> score_error + segment list" where
  "policy_segments rnd db sub s e =
     and_then (legacy_offer_policy rnd db sub) (\<lambda>legacy.
       let bs = boundaries db sub legacy s e in
       map_err (\<lambda>(a, b). and_then (resolve_effective_policy rnd db sub a)
           (\<lambda>p. Inr \<lparr>seg_start = a, seg_end = b, seg_policy = p\<rparr>))
         (filter (\<lambda>(a, b). a < b) (zip bs (tl bs))))"

subsection \<open>Verdicts\<close>

record seconds =
  eligible_seconds :: int
  unavailable_seconds :: int
  excluded_seconds :: int
  unknown_seconds :: int

text \<open>\<open>100.0 * n / d\<close>.\<close>

definition percent :: "(rat \<Rightarrow> rat) \<Rightarrow> int \<Rightarrow> int \<Rightarrow> rat" where
  "percent rnd n d = rnd (rnd (100 * rnd (of_int n)) / rnd (of_int d))"

definition at_risk_budget :: "(rat \<Rightarrow> rat) \<Rightarrow> int \<Rightarrow> rat \<Rightarrow> rat" where
  "at_risk_budget rnd e target = rnd (rnd (rnd (of_int e) * rnd (100 - target)) / 100)"

definition complete_verdict :: "(rat \<Rightarrow> rat) \<Rightarrow> sla_policy option \<Rightarrow> int \<Rightarrow> int \<Rightarrow> sla_verdict" where
  "complete_verdict rnd policy e u =
     (if e \<le> 0 then Unavailable
      else case Option.bind policy pol_target of
          None \<Rightarrow> No_contractual_sla
        | Some target \<Rightarrow>
            if percent rnd (e - u) e < target then Breach
            else if 0 < at_risk_budget rnd e target \<and> rnd (rnd (4 / 5) * at_risk_budget rnd e target) \<le> of_int u
            then At_risk
            else Passing)"

definition segment_verdict :: "(rat \<Rightarrow> rat) \<Rightarrow> sla_policy option \<Rightarrow> seconds \<Rightarrow> bool \<Rightarrow> sla_verdict" where
  "segment_verdict rnd policy v evidence_complete =
     (let d = eligible_seconds v - excluded_seconds v in
      if d \<le> 0 then Unavailable
      else case Option.bind policy pol_target of
          None \<Rightarrow> No_contractual_sla
        | Some target \<Rightarrow>
            if percent rnd (d - unavailable_seconds v) d < target then Breach
            else if \<not> evidence_complete \<or> 0 < unknown_seconds v then Unavailable
            else complete_verdict rnd policy d (unavailable_seconds v))"

text \<open>\<open>_validate_score_seconds\<close>.\<close>

definition validate_seconds :: "seconds \<Rightarrow> score_error + unit" where
  "validate_seconds v =
     (if eligible_seconds v < 0 \<or> unavailable_seconds v < 0 \<or> excluded_seconds v < 0 \<or> unknown_seconds v < 0
      then Inl Negative_seconds
      else if eligible_seconds v < unavailable_seconds v + excluded_seconds v + unknown_seconds v then Inl Excess_seconds
      else Inr ())"

record segment_score =
  ss_start :: int
  ss_end :: int
  ss_seconds :: seconds
  ss_verdict :: sla_verdict
  ss_policy :: "sla_policy option"

definition make_segment_score :: "segment_score \<Rightarrow> score_error + segment_score" where
  "make_segment_score s =
     (if ss_end s \<le> ss_start s then Inl Segment_not_positive
      else and_then (validate_seconds (ss_seconds s)) (\<lambda>_.
        if ss_policy s = None \<and> ss_verdict s \<notin> {No_contractual_sla, Unavailable} then Inl Untargeted_verdict
        else Inr s))"

record sla_score =
  sc_start :: int
  sc_end :: int
  sc_seconds :: seconds
  sc_verdict :: sla_verdict
  sc_policy :: "sla_policy option"
  sc_segments :: "segment_score list"
  sc_complete :: bool
  sc_issues :: "string list"

definition make_score :: "sla_score \<Rightarrow> score_error + sla_score" where
  "make_score s =
     (if sc_end s \<le> sc_start s then Inl No_positive_period
      else and_then (validate_seconds (sc_seconds s)) (\<lambda>_.
        if sc_policy s = None \<and> (\<forall>g \<in> set (sc_segments s). ss_policy g = None) \<and>
           sc_verdict s \<notin> {No_contractual_sla, Unavailable} then Inl Untargeted_verdict
        else if \<not> sc_complete s \<and> sc_verdict s \<in> {Passing, At_risk} then Inl Incomplete_pass
        else if sc_complete s \<and> sc_issues s \<noteq> [] then Inl Complete_with_issues
        else Inr s))"

subsection \<open>Evidence\<close>

datatype impact_state = Potentially_affected | Confirmed_unavailable | Degraded | Restored | Unknown_impact | Excluded_impact

record outage =
  ou_state :: impact_state
  ou_quality :: string
  ou_start :: int
  ou_end :: "int option"
  ou_exclusion :: "string option"

text \<open>What the histories return for one period.\<close>

record evidence =
  ev_active :: "(int \<times> int option) list"
  ev_lifecycle_complete :: bool
  ev_lifecycle_issues :: "string list"
  ev_entitled :: "(int \<times> int) list"
  ev_entitled_complete :: bool
  ev_entitled_issues :: "string list"
  ev_monitored :: "(int \<times> int) list"
  ev_monitored_complete :: bool
  ev_monitored_issues :: "string list"
  ev_outages :: "outage list"

definition lift_span :: "span_error + 'a \<Rightarrow> score_error + 'a" where
  "lift_span m = (case m of Inl e \<Rightarrow> Inl (Bad_span e) | Inr a \<Rightarrow> Inr a)"

definition measured_end :: "int \<Rightarrow> int \<Rightarrow> int \<Rightarrow> int" where
  "measured_end s e now = (if min e now \<le> s then s + 1 else min e now)"

text \<open>The eligible time: every active window met with every entitlement.\<close>

definition eligible_rows :: "evidence \<Rightarrow> int \<Rightarrow> span_error + span list" where
  "eligible_rows ev me =
     and_then (map_err (\<lambda>(a, b). checked_span a b) (ev_entitled ev)) (\<lambda>entitled.
     and_then (map_err (\<lambda>(a, b).
         and_then (checked_span a (min (case b of None \<Rightarrow> me | Some x \<Rightarrow> x) me)) (\<lambda>active.
         and_then (map_err (\<lambda>en. intersect [active] [en]) entitled) (\<lambda>ps. Inr (concat ps)))) (ev_active ev))
       (\<lambda>rows. Inr (concat rows)))"

text \<open>The confirmed outages, clipped to the period; the flag tells whether the outage counts as downtime.\<close>

definition outage_spans :: "evidence \<Rightarrow> int \<Rightarrow> int \<Rightarrow> span_error + (bool \<times> span) list" where
  "outage_spans ev s me =
     map_err (\<lambda>(q, a, b). and_then (checked_span a b) (\<lambda>x. Inr (q, x)))
       (filter (\<lambda>(q, a, b). a < b)
         (map (\<lambda>o'. (ou_exclusion o' = None \<and> ou_quality o' = ''exact'', max (ou_start o') s,
              min (case ou_end o' of None \<Rightarrow> me | Some x \<Rightarrow> x) me))
           (filter (\<lambda>o'. ou_state o' = Confirmed_unavailable) (ev_outages ev))))"

record classified =
  cl_eligible :: "span list"
  cl_monitored :: "span list"
  cl_downtime :: "span list"
  cl_excluded :: "span list"
  cl_unknown :: "span list"

definition classify :: "evidence \<Rightarrow> int \<Rightarrow> int \<Rightarrow> span_error + classified" where
  "classify ev s me =
     and_then (eligible_rows ev me) (\<lambda>rows.
     and_then (union_spans [rows]) (\<lambda>eligible.
     and_then (map_err (\<lambda>(a, b). checked_span a b) (ev_monitored ev)) (\<lambda>sessions.
     and_then (intersect eligible sessions) (\<lambda>monitored.
     and_then (outage_spans ev s me) (\<lambda>outages.
     and_then (intersect eligible (map snd (filter fst outages))) (\<lambda>downtime.
     and_then (intersect eligible (map snd (filter (\<lambda>x. \<not> fst x) outages))) (\<lambda>candidates.
     and_then (subtract candidates downtime) (\<lambda>excluded.
     and_then (union_spans [monitored, downtime, excluded]) (\<lambda>known.
     and_then (subtract eligible known) (\<lambda>unknown.
       Inr \<lparr>cl_eligible = eligible, cl_monitored = monitored, cl_downtime = downtime,
            cl_excluded = excluded, cl_unknown = unknown\<rparr>))))))))))"

subsection \<open>The score\<close>

definition seconds_of :: "classified \<Rightarrow> score_error + seconds" where
  "seconds_of c =
     and_then (lift_span (total_seconds (cl_eligible c))) (\<lambda>e.
     and_then (lift_span (total_seconds (cl_downtime c))) (\<lambda>d.
     and_then (lift_span (total_seconds (cl_excluded c))) (\<lambda>x.
     and_then (lift_span (total_seconds (cl_unknown c))) (\<lambda>u.
       Inr \<lparr>eligible_seconds = e, unavailable_seconds = d, excluded_seconds = x, unknown_seconds = u\<rparr>))))"

text \<open>The evidence of one segment: every class met with the span of the segment.\<close>

definition restrict_class :: "classified \<Rightarrow> span \<Rightarrow> span_error + classified" where
  "restrict_class c w =
     and_then (intersect (cl_eligible c) [w]) (\<lambda>e. and_then (intersect (cl_downtime c) [w]) (\<lambda>d.
     and_then (intersect (cl_excluded c) [w]) (\<lambda>x. and_then (intersect (cl_unknown c) [w]) (\<lambda>u.
       Inr (c\<lparr>cl_eligible := e, cl_downtime := d, cl_excluded := x, cl_unknown := u\<rparr>)))))"

definition score_segment ::
  "(rat \<Rightarrow> rat) \<Rightarrow> bool \<Rightarrow> classified \<Rightarrow> segment \<Rightarrow> score_error + segment_score" where
  "score_segment rnd base_complete c g =
     and_then (lift_span (checked_span (seg_start g) (seg_end g))) (\<lambda>w.
     and_then (lift_span (restrict_class c w)) (\<lambda>cw.
     and_then (seconds_of cw) (\<lambda>v.
       make_segment_score \<lparr>ss_start = seg_start g, ss_end = seg_end g, ss_seconds = v,
         ss_verdict = segment_verdict rnd (seg_policy g) v base_complete, ss_policy = seg_policy g\<rparr>)))"

definition contractual :: "segment_score list \<Rightarrow> segment_score list" where
  "contractual ss = filter (\<lambda>g. ss_policy g \<noteq> None \<and>
     0 < eligible_seconds (ss_seconds g) - excluded_seconds (ss_seconds g)) ss"

definition period_verdict :: "int \<Rightarrow> segment_score list \<Rightarrow> bool \<Rightarrow> sla_verdict" where
  "period_verdict eligible ss evidence_complete =
     (if eligible \<le> 0 then Unavailable
      else if contractual ss = [] then No_contractual_sla
      else if \<exists>g \<in> set (contractual ss). ss_verdict g = Breach then Breach
      else if \<not> evidence_complete then Unavailable
      else if \<exists>g \<in> set (contractual ss). ss_verdict g = At_risk then At_risk
      else Passing)"

text \<open>The one policy of a period that had only one.\<close>

definition compatibility_policy :: "segment_score list \<Rightarrow> sla_policy option" where
  "compatibility_policy ss =
     (let ps = List.map_filter ss_policy ss in
      if length (remdups (map pol_id ps)) = 1 then Some (last ps) else None)"

definition completeness_issues :: "evidence \<Rightarrow> bool \<Rightarrow> string list" where
  "completeness_issues ev unknown = sort (remdups
     (map (\<lambda>i. ''lifecycle:'' @ i) (ev_lifecycle_issues ev) @ map (\<lambda>i. ''entitlement:'' @ i) (ev_entitled_issues ev) @
      map (\<lambda>i. ''monitoring:'' @ i) (ev_monitored_issues ev) @
      (if unknown then [''monitoring:unknown_eligible_coverage''] else [])))"

definition base_complete :: "evidence \<Rightarrow> bool" where
  "base_complete ev \<longleftrightarrow> ev_lifecycle_complete ev \<and> ev_entitled_complete ev \<and> ev_monitored_complete ev"

definition score_classified ::
  "(rat \<Rightarrow> rat) \<Rightarrow> evidence \<Rightarrow> int \<Rightarrow> int \<Rightarrow> classified \<Rightarrow> segment list \<Rightarrow> score_error + sla_score" where
  "score_classified rnd ev s e c segs =
     (let complete = base_complete ev \<and> cl_unknown c = [] in
      and_then (map_err (score_segment rnd (base_complete ev) c) segs) (\<lambda>ss.
      and_then (seconds_of c) (\<lambda>v.
        make_score \<lparr>sc_start = s, sc_end = e, sc_seconds = v,
          sc_verdict = period_verdict (eligible_seconds v) ss complete, sc_policy = compatibility_policy ss,
          sc_segments = ss, sc_complete = complete,
          sc_issues = completeness_issues ev (cl_unknown c \<noteq> [])\<rparr>)))"

text \<open>\<open>_calculate_period_score\<close> for given bounds; \<open>history\<close> answers for the measured part of the period.\<close>

definition calculate_period_score :: "(rat \<Rightarrow> rat) \<Rightarrow> sla_db \<Rightarrow> (int \<Rightarrow> int \<Rightarrow> evidence) \<Rightarrow> subscription \<Rightarrow>
    int \<Rightarrow> int \<Rightarrow> int \<Rightarrow> score_error + sla_score" where
  "calculate_period_score rnd db history sub now s e =
     (if e \<le> s then Inl No_positive_period
      else if now < s then Inl Evaluated_before_period
      else
        (let me = measured_end s e now; ev = history s me in
         and_then (lift_span (classify ev s me)) (\<lambda>c.
         and_then (policy_segments rnd db sub s me) (score_classified rnd ev s e c))))"

end
