(* ===== verification/Sla_Guarantees.thy ===== *)
theory Sla_Guarantees
  imports Sla_Scoring
begin

section \<open>What an SLA score guarantees\<close>

text \<open>
  The classes of evidence partition the eligible time, the policy segments tile the measured period with
  one policy each, the records the scorer builds are always valid, and its verdicts are sound.
\<close>

subsection \<open>Loops that may raise\<close>

lemma map_err_Inr: "map_err f xs = Inr ys \<longleftrightarrow> list_all2 (\<lambda>x y. f x = Inr y) xs ys"
  by (induction xs arbitrary: ys) (auto simp: and_then_Inr list_all2_Cons1)

lemma map_err_ok: "\<forall>x \<in> set xs. \<exists>y. f x = Inr y \<and> P y \<Longrightarrow> \<exists>ys. map_err f xs = Inr ys \<and> (\<forall>y \<in> set ys. P y)"
  by (induction xs) auto

lemma lift_span_Inr: "lift_span m = Inr a \<longleftrightarrow> m = Inr a"
  by (cases m) (simp_all add: lift_span_def)

lemma list_all2_set:
  assumes "list_all2 P xs ys"
  shows "\<forall>y \<in> set ys. \<exists>x \<in> set xs. P x y"
  using assms by (induction rule: list_all2_induct) auto

lemmas results = and_then_Inr map_err_Inr lift_span_Inr

lemma checked_Inr: "checked_span a b = Inr s \<longleftrightarrow> a < b \<and> s = Span a b"
  by (auto simp: checked_span_def)

lemma checked_wf: "checked_span a b = Inr s \<Longrightarrow> wf_span s"
  by (simp add: checked_Inr wf_span_def)

subsection \<open>The classes of evidence\<close>

lemma sessions_wf:
  assumes "map_err (\<lambda>(a, b). checked_span a b) xs = Inr ys"
  shows "wf_spans ys" and "cover ys = (\<Union>(a, b) \<in> set xs. {a ..< b})"
proof -
  have "list_all2 (\<lambda>x y. (case x of (a, b) \<Rightarrow> checked_span a b) = Inr y) xs ys"
    using assms by (simp add: map_err_Inr)
  then have "wf_spans ys \<and> cover ys = (\<Union>(a, b) \<in> set xs. {a ..< b})"
    by (induction rule: list_all2_induct) (auto simp: checked_Inr wf_span_def)
  then show "wf_spans ys" and "cover ys = (\<Union>(a, b) \<in> set xs. {a ..< b})" by simp_all
qed

lemma outages_wf:
  assumes "outage_spans ev s me = Inr os"
  shows "wf_spans (map snd (filter P os))"
proof -
  from assms obtain xs where
    "list_all2 (\<lambda>x y. (case x of (q, a, b) \<Rightarrow> and_then (checked_span a b) (\<lambda>x. Inr (q, x))) = Inr y) xs os"
    unfolding outage_spans_def map_err_Inr by blast
  from list_all2_set [OF this] have "\<forall>x \<in> set os. wf_span (snd x)"
    by (fastforce simp: and_then_Inr dest: checked_wf)
  then show ?thesis by (auto simp: wf_spans_def)
qed

lemma rows_wf:
  assumes "eligible_rows ev me = Inr rows"
  shows "wf_spans rows"
proof -
  have met: "wf_spans ps" if "intersect [x] [y] = Inr ps" and "wf_span x" and "wf_span y" for x y ps
    using that intersect_ok [of "[x]" "[y]"] by (auto dest: canonical_wf)
  obtain entitled rss where en: "map_err (\<lambda>(a, b). checked_span a b) (ev_entitled ev) = Inr entitled"
    and rs: "list_all2 (\<lambda>x y. (case x of (a, b) \<Rightarrow>
         and_then (checked_span a (min (case b of None \<Rightarrow> me | Some x \<Rightarrow> x) me)) (\<lambda>active.
         and_then (map_err (\<lambda>en. intersect [active] [en]) entitled) (\<lambda>ps. Inr (concat ps)))) = Inr y) (ev_active ev) rss"
    and rows: "rows = concat rss"
    using assms unfolding eligible_rows_def by (auto simp: results)
  have "wf_spans r" if "r \<in> set rss" for r
  proof -
    from list_all2_set [OF rs] that obtain active ps where
      a: "wf_span active" "list_all2 (\<lambda>en p. intersect [active] [en] = Inr p) entitled ps" "r = concat ps"
      by (fastforce simp: results dest: checked_wf)
    have "wf_spans p" if "p \<in> set ps" for p
      using list_all2_set [OF a(2)] that met a(1) sessions_wf(1) [OF en] by (auto simp: wf_spans_def)
    then show ?thesis using a(3) by (auto simp: wf_spans_def)
  qed
  then show ?thesis unfolding rows by (auto simp: wf_spans_def)
qed

text \<open>The partition, for every classification that was computed.\<close>

lemma classify_sound:
  assumes "classify ev s me = Inr c"
  shows "canonical (cl_eligible c)" "canonical (cl_downtime c)" "canonical (cl_excluded c)" "canonical (cl_unknown c)"
    "cover (cl_downtime c) \<subseteq> cover (cl_eligible c)"
    "cover (cl_excluded c) \<subseteq> cover (cl_eligible c) - cover (cl_downtime c)"
    "cover (cl_unknown c) = cover (cl_eligible c) - (cover (cl_monitored c) \<union> cover (cl_downtime c) \<union> cover (cl_excluded c))"
    "cover (cl_monitored c) = cover (cl_eligible c) \<inter> (\<Union>(a, b) \<in> set (ev_monitored ev). {a ..< b})"
proof -
  obtain rows sessions outages candidates known where
    r: "eligible_rows ev me = Inr rows" "union_spans [rows] = Inr (cl_eligible c)"
    and m: "map_err (\<lambda>(a, b). checked_span a b) (ev_monitored ev) = Inr sessions"
      "intersect (cl_eligible c) sessions = Inr (cl_monitored c)"
    and o: "outage_spans ev s me = Inr outages"
      "intersect (cl_eligible c) (map snd (filter fst outages)) = Inr (cl_downtime c)"
      "intersect (cl_eligible c) (map snd (filter (\<lambda>x. \<not> fst x) outages)) = Inr candidates"
    and x: "subtract candidates (cl_downtime c) = Inr (cl_excluded c)"
    and k: "union_spans [cl_monitored c, cl_downtime c, cl_excluded c] = Inr known"
      "subtract (cl_eligible c) known = Inr (cl_unknown c)"
    using assms unfolding classify_def by (auto simp: results)
  have e: "canonical (cl_eligible c)"
    using union_ok [of "[rows]"] r rows_wf [OF r(1)] by auto
  have mon: "canonical (cl_monitored c)" "cover (cl_monitored c) = cover (cl_eligible c) \<inter> cover sessions"
    using intersect_ok [OF canonical_wf [OF e] sessions_wf(1) [OF m(1)]] m(2) by auto
  have down: "canonical (cl_downtime c)" "cover (cl_downtime c) \<subseteq> cover (cl_eligible c)"
    using intersect_ok [OF canonical_wf [OF e] outages_wf [OF o(1), of fst]] o(2) by auto
  have cand: "canonical candidates" "cover candidates \<subseteq> cover (cl_eligible c)"
    using intersect_ok [OF canonical_wf [OF e] outages_wf [OF o(1), of "\<lambda>x. \<not> fst x"]] o(3) by auto
  have excl: "canonical (cl_excluded c)" "cover (cl_excluded c) = cover candidates - cover (cl_downtime c)"
    using subtract_ok [OF canonical_wf [OF cand(1)] canonical_wf [OF down(1)]] x by auto
  have kn: "canonical known" "cover known = cover (cl_monitored c) \<union> cover (cl_downtime c) \<union> cover (cl_excluded c)"
    using union_ok [of "[cl_monitored c, cl_downtime c, cl_excluded c]"] k(1) mon(1) down(1) excl(1)
    by (auto simp: canonical_wf)
  have unk: "canonical (cl_unknown c)" "cover (cl_unknown c) = cover (cl_eligible c) - cover known"
    using subtract_ok [OF canonical_wf [OF e] canonical_wf [OF kn(1)]] k(2) by auto
  show "canonical (cl_eligible c)" "canonical (cl_downtime c)" "canonical (cl_excluded c)" "canonical (cl_unknown c)"
    by (fact e down(1) excl(1) unk(1))+
  show "cover (cl_downtime c) \<subseteq> cover (cl_eligible c)" by (fact down(2))
  show "cover (cl_excluded c) \<subseteq> cover (cl_eligible c) - cover (cl_downtime c)" using excl(2) cand(2) by blast
  show "cover (cl_unknown c) = cover (cl_eligible c) - (cover (cl_monitored c) \<union> cover (cl_downtime c) \<union> cover (cl_excluded c))"
    using unk(2) kn(2) by simp
  show "cover (cl_monitored c) = cover (cl_eligible c) \<inter> (\<Union>(a, b) \<in> set (ev_monitored ev). {a ..< b})"
    using mon(2) sessions_wf(2) [OF m(1)] by simp
qed

subsection \<open>Valid records\<close>

text \<open>Disjoint classes inside the eligible time, as normal forms.\<close>

definition sound_classes :: "classified \<Rightarrow> bool" where
  "sound_classes c \<longleftrightarrow>
     canonical (cl_eligible c) \<and> canonical (cl_downtime c) \<and> canonical (cl_excluded c) \<and> canonical (cl_unknown c) \<and>
     cover (cl_downtime c) \<union> cover (cl_excluded c) \<union> cover (cl_unknown c) \<subseteq> cover (cl_eligible c) \<and>
     cover (cl_downtime c) \<inter> cover (cl_excluded c) = {} \<and>
     (cover (cl_downtime c) \<union> cover (cl_excluded c)) \<inter> cover (cl_unknown c) = {}"

lemma classify_sound_classes: "classify ev s me = Inr c \<Longrightarrow> sound_classes c"
  using classify_sound [of ev s me c] unfolding sound_classes_def by blast

lemma restrict_sound:
  assumes "sound_classes c" and "wf_span w"
  shows "\<exists>cw. restrict_class c w = Inr cw \<and> sound_classes cw"
proof -
  have met: "\<exists>r. intersect xs [w] = Inr r \<and> canonical r \<and> cover r = cover xs \<inter> instants w" if "canonical xs" for xs
    using that assms(2) intersect_ok [of xs "[w]"] by (auto simp: canonical_wf)
  from assms(1) obtain e d x u where
    e: "intersect (cl_eligible c) [w] = Inr e" "canonical e" "cover e = cover (cl_eligible c) \<inter> instants w" and
    d: "intersect (cl_downtime c) [w] = Inr d" "canonical d" "cover d = cover (cl_downtime c) \<inter> instants w" and
    x: "intersect (cl_excluded c) [w] = Inr x" "canonical x" "cover x = cover (cl_excluded c) \<inter> instants w" and
    u: "intersect (cl_unknown c) [w] = Inr u" "canonical u" "cover u = cover (cl_unknown c) \<inter> instants w"
    unfolding sound_classes_def by (meson met)
  let ?cw = "c\<lparr>cl_eligible := e, cl_downtime := d, cl_excluded := x, cl_unknown := u\<rparr>"
  have "sound_classes ?cw"
    using assms(1) e(2,3) d(2,3) x(2,3) u(2,3) unfolding sound_classes_def by auto
  moreover have "restrict_class c w = Inr ?cw" by (simp add: restrict_class_def e d x u)
  ultimately show ?thesis by blast
qed

lemma total_canonical: "canonical ns \<Longrightarrow> total_seconds ns = Inr (\<Sum>s\<leftarrow>ns. whole_seconds s)"
  by (simp add: total_seconds_def)

lemma whole_nonneg: "wf_spans ns \<Longrightarrow> 0 \<le> (\<Sum>s\<leftarrow>ns. whole_seconds s)"
  by (induction ns) (auto simp: whole_seconds_def span_duration_def wf_span_def pos_imp_zdiv_nonneg_iff)

lemma seconds_valid:
  assumes "sound_classes c"
  shows "\<exists>v. seconds_of c = Inr v \<and> validate_seconds v = Inr ()"
proof -
  let ?S = "\<lambda>ns. \<Sum>s\<leftarrow>ns. whole_seconds s" and ?parts = "cl_downtime c @ cl_excluded c @ cl_unknown c"
  have can: "canonical (cl_eligible c)" "canonical (cl_downtime c)" "canonical (cl_excluded c)" "canonical (cl_unknown c)"
    using assms by (simp_all add: sound_classes_def)
  have "?S ?parts \<le> ?S (cl_eligible c)"
  proof (rule whole_seconds_inside [OF can(1)])
    show "apart ?parts"
      using assms by (auto simp: apart_append sound_classes_def canonical_apart)
    show "wf_spans ?parts" using can by (simp add: canonical_wf)
    show "cover ?parts \<subseteq> cover (cl_eligible c)"
      using assms unfolding sound_classes_def by (simp only: cover_simps Un_assoc [symmetric])
  qed
  then show ?thesis
    using can by (auto simp: seconds_of_def total_canonical lift_span_def validate_seconds_def not_less
        whole_nonneg canonical_wf)
qed

lemma untargeted_segment:
  "Option.bind p pol_target = None \<Longrightarrow> segment_verdict rnd p v b \<in> {No_contractual_sla, Unavailable}"
  by (simp add: segment_verdict_def Let_def)

lemma score_segment_ok:
  assumes "sound_classes c" and "seg_start g < seg_end g"
  shows "\<exists>ss. score_segment rnd b c g = Inr ss \<and> ss_policy ss = seg_policy g \<and>
    ss_verdict ss = segment_verdict rnd (seg_policy g) (ss_seconds ss) b \<and> validate_seconds (ss_seconds ss) = Inr ()"
proof -
  have "wf_span (Span (seg_start g) (seg_end g))" using assms(2) by (simp add: wf_span_def)
  from restrict_sound [OF assms(1) this] obtain cw where
    cw: "restrict_class c (Span (seg_start g) (seg_end g)) = Inr cw" "sound_classes cw" by blast
  from seconds_valid [OF cw(2)] obtain v where v: "seconds_of cw = Inr v" "validate_seconds v = Inr ()" by blast
  have "seg_policy g = None \<Longrightarrow> segment_verdict rnd (seg_policy g) v b \<in> {No_contractual_sla, Unavailable}"
    using untargeted_segment [of "seg_policy g"] by simp
  then show ?thesis using assms(2) cw(1) v
    by (auto simp: score_segment_def lift_span_def make_segment_score_def)
qed

text \<open>What a segment score that was built says.\<close>

lemma score_segment_fields:
  assumes "score_segment rnd b c g = Inr ss"
  shows "ss_policy ss = seg_policy g" "ss_verdict ss = segment_verdict rnd (seg_policy g) (ss_seconds ss) b"
  using assms by (auto simp: score_segment_def results make_segment_score_def split: if_splits)

lemma complete_issues: "base_complete ev \<Longrightarrow>
   (ev_lifecycle_complete ev \<longrightarrow> ev_lifecycle_issues ev = []) \<Longrightarrow> (ev_entitled_complete ev \<longrightarrow> ev_entitled_issues ev = []) \<Longrightarrow>
   (ev_monitored_complete ev \<longrightarrow> ev_monitored_issues ev = []) \<Longrightarrow> completeness_issues ev False = []"
  by (simp add: base_complete_def completeness_issues_def)

subsection \<open>Policy segments\<close>

text \<open>Consecutive elements of a sorted list without repetition.\<close>

lemma consecutive:
  "sorted_wrt (<) bs \<Longrightarrow> (a, b) \<in> set (zip bs (tl bs)) \<Longrightarrow>
     a < (b::int) \<and> a \<in> set bs \<and> b \<in> set bs \<and> (\<forall>t \<in> set bs. t \<le> a \<or> b \<le> t)"
proof (induction bs rule: induct_list012)
  case (3 x y zs)
  then consider "a = x" "b = y" | "(a, b) \<in> set (zip (y # zs) zs)" by auto
  then show ?case
  proof cases
    case 1
    have "x < y" and "\<forall>z \<in> set zs. y \<le> z" using "3.prems"(1) by (simp_all add: less_imp_le)
    then show ?thesis unfolding 1 by simp
  next
    case 2
    then have zs: "(a, b) \<in> set (zip (y # zs) (tl (y # zs)))" by simp
    have s: "sorted_wrt (<) (y # zs)" using "3.prems"(1) by simp
    have "x < a" using "3.prems"(1) set_zip_leftD [OF 2] by auto
    with "3.IH"(2) [OF s zs] show ?thesis by simp
  qed
qed simp_all

text \<open>A list of segments that begins at one instant, ends at another and has no gap or overlap.\<close>

fun tiles :: "int \<Rightarrow> int \<Rightarrow> segment list \<Rightarrow> bool" where
  "tiles s e [] \<longleftrightarrow> s = e"
| "tiles s e (g # gs) \<longleftrightarrow> seg_start g = s \<and> s < seg_end g \<and> tiles (seg_end g) e gs"

lemma zip_tiles:
  "bs \<noteq> [] \<Longrightarrow> sorted_wrt (<) bs \<Longrightarrow> list_all2 (\<lambda>(a, b) g. seg_start g = a \<and> seg_end g = b) (zip bs (tl bs)) gs \<Longrightarrow>
     tiles (hd bs) (last bs) gs"
proof (induction bs arbitrary: gs rule: induct_list012)
  case (3 x y zs)
  then show ?case by (auto simp: list_all2_Cons1)
qed simp_all

lemma boundaries_sorted: "sorted_wrt (<) (boundaries db sub legacy s e)"
  by (simp add: boundaries_def strict_sorted_iff)

lemma set_boundaries:
  "set (boundaries db sub legacy s e) = {s, e} \<union>
     set (inner_edges s e (map (\<lambda>r. (pr_from r, pr_to r)) (versions_covering db sub s e))) \<union>
     set (inner_edges s e (case legacy of None \<Rightarrow> [] | Some p \<Rightarrow> [(pol_from p, pol_to p)]))"
  unfolding boundaries_def set_sort set_remdups set_append by auto

lemma inner_edges_between: "t \<in> set (inner_edges s e rs) \<Longrightarrow> s < t \<and> t < e"
  by (auto simp: inner_edges_def)

lemma boundaries_range:
  assumes "s < e" and "t \<in> set (boundaries db sub legacy s e)"
  shows "s \<le> t \<and> t \<le> e"
  using assms by (auto simp: set_boundaries dest: inner_edges_between)

lemma sorted_ends:
  assumes "sorted_wrt (<) bs" and "s \<in> set bs" and "e \<in> set bs" and "\<And>t. t \<in> set bs \<Longrightarrow> s \<le> t \<and> t \<le> (e::int)"
  shows "hd bs = s" and "last bs = e"
proof -
  from assms(2) obtain b bs' where bs: "bs = b # bs'" by (cases bs) auto
  then show "hd bs = s" using assms(1,2,4) by fastforce
  from assms(2) obtain xs x where l: "bs = xs @ [x]" by (cases bs rule: rev_cases) auto
  then show "last bs = e" using assms(1,3,4) by (fastforce simp: sorted_wrt_append)
qed

text \<open>Between two boundaries no version and no profile starts or ends.\<close>

lemma in_inner_edges:
  "(a, b) \<in> set rs \<Longrightarrow> s < t \<Longrightarrow> t < e \<Longrightarrow> t = a \<or> b = Some t \<Longrightarrow> t \<in> set (inner_edges s e rs)"
  by (force simp: inner_edges_def split: option.splits)

lemma no_edge_inside:
  assumes "(a, b) \<in> set (zip bs (tl bs))" and "bs = boundaries db sub legacy s e" and "s < e"
    and "a < x" and "x < b"
  shows "\<And>r. r \<in> set (versions_covering db sub s e) \<Longrightarrow> pr_from r \<noteq> x \<and> pr_to r \<noteq> Some x"
    and "\<And>p. legacy = Some p \<Longrightarrow> pol_from p \<noteq> x \<and> pol_to p \<noteq> Some x"
proof -
  have c: "a \<in> set bs" "b \<in> set bs" "\<forall>t \<in> set bs. t \<le> a \<or> b \<le> t"
    using consecutive [OF _ assms(1)] boundaries_sorted [of db sub legacy s e] assms(2) by simp_all
  then have r: "s < x" "x < e" "x \<notin> set bs"
    using boundaries_range [OF assms(3), of _ db sub legacy] assms(2,4,5) by fastforce+
  show "pr_from r \<noteq> x \<and> pr_to r \<noteq> Some x" if "r \<in> set (versions_covering db sub s e)" for r
  proof -
    have "(pr_from r, pr_to r) \<in> set (map (\<lambda>r. (pr_from r, pr_to r)) (versions_covering db sub s e))"
      using that by auto
    from in_inner_edges [OF this r(1,2)] show ?thesis using r(3) assms(2) by (auto simp: set_boundaries)
  qed
  show "pol_from p \<noteq> x \<and> pol_to p \<noteq> Some x" if "legacy = Some p" for p
    using in_inner_edges [of "pol_from p" "pol_to p" "[(pol_from p, pol_to p)]" s x e] r that assms(2)
    by (auto simp: set_boundaries)
qed

lemma covering_constant:
  assumes "(a, b) \<in> set (zip bs (tl bs))" and "bs = boundaries db sub legacy s e" and "s < e"
    and "a \<le> t" and "t < b"
  shows "versions_covering db sub t (t + 1) = versions_covering db sub a (a + 1)"
proof -
  have c: "s \<le> a" "b \<le> e"
    using consecutive [OF _ assms(1)] boundaries_sorted [of db sub legacy s e] assms(2,3)
      boundaries_range [OF assms(3), of _ db sub legacy] by fastforce+
  have "(pr_from r < t + 1 \<and> (case pr_to r of None \<Rightarrow> True | Some x \<Rightarrow> t < x)) \<longleftrightarrow>
      (pr_from r < a + 1 \<and> (case pr_to r of None \<Rightarrow> True | Some x \<Rightarrow> a < x))"
    if scope: "in_scope db sub r" and r: "r \<in> set (db_versions db)" for r
  proof -
    have "r \<in> set (versions_covering db sub s e)" if "pr_from r < e" "case pr_to r of None \<Rightarrow> True | Some x \<Rightarrow> s < x"
      using that scope r by (simp add: versions_covering_def)
    then have none: "pr_from r \<noteq> x \<and> pr_to r \<noteq> Some x"
      if "pr_from r < e" "case pr_to r of None \<Rightarrow> True | Some x \<Rightarrow> s < x" "a < x" "x < b" for x
      using no_edge_inside(1) [OF assms(1-3) that(3,4)] that(1,2) by blast
    show ?thesis
      using none [of "pr_from r"] none [of "the (pr_to r)"] assms(4,5) c by (cases "pr_to r") fastforce+
  qed
  then have "filter (\<lambda>r. in_scope db sub r \<and> pr_from r < t + 1 \<and> (case pr_to r of None \<Rightarrow> True | Some x \<Rightarrow> t < x)) (db_versions db) =
      filter (\<lambda>r. in_scope db sub r \<and> pr_from r < a + 1 \<and> (case pr_to r of None \<Rightarrow> True | Some x \<Rightarrow> a < x)) (db_versions db)"
    by (intro filter_cong) auto
  then show ?thesis by (simp only: versions_covering_def)
qed

lemma legacy_constant:
  assumes "(a, b) \<in> set (zip bs (tl bs))" and "bs = boundaries db sub (Some p) s e" and "s < e"
    and "a \<le> t" and "t < b"
  shows "in_force p t \<longleftrightarrow> in_force p a"
  using no_edge_inside(2) [OF assms(1-3), of "pol_from p"] no_edge_inside(2) [OF assms(1-3), of "the (pol_to p)"] assms(4,5)
  by (cases "pol_to p") (fastforce simp: in_force_def)+

lemma resolve_constant:
  assumes "(a, b) \<in> set (zip bs (tl bs))" and "bs = boundaries db sub legacy s e" and "s < e"
    and "a \<le> t" and "t < b" and "legacy_offer_policy rnd db sub = Inr legacy"
  shows "resolve_effective_policy rnd db sub t = resolve_effective_policy rnd db sub a"
  unfolding resolve_effective_policy_def covering_constant [OF assms(1-5)] assms(6) and_then_simps
  using legacy_constant [OF assms(1) _ assms(3-5)] assms(2) by (cases legacy) simp_all

subsection \<open>Building the score\<close>

text \<open>Histories as their owners return them: positive windows inside the period, and no issue when complete.\<close>

definition wf_evidence :: "evidence \<Rightarrow> int \<Rightarrow> bool" where
  "wf_evidence ev me \<longleftrightarrow>
     (\<forall>(a, b) \<in> set (ev_active ev). a < min (case b of None \<Rightarrow> me | Some x \<Rightarrow> x) me) \<and>
     (\<forall>(a, b) \<in> set (ev_entitled ev). a < b) \<and> (\<forall>(a, b) \<in> set (ev_monitored ev). a < b) \<and>
     (ev_lifecycle_complete ev \<longrightarrow> ev_lifecycle_issues ev = []) \<and>
     (ev_entitled_complete ev \<longrightarrow> ev_entitled_issues ev = []) \<and>
     (ev_monitored_complete ev \<longrightarrow> ev_monitored_issues ev = [])"

lemma pairs_total: "\<forall>(a, b) \<in> set xs. a < b \<Longrightarrow> \<exists>ys. map_err (\<lambda>(a, b). checked_span a b) xs = Inr ys"
  by (induction xs) auto

lemma rows_total:
  assumes "wf_evidence ev me"
  shows "\<exists>rows. eligible_rows ev me = Inr rows"
proof -
  obtain entitled where en: "map_err (\<lambda>(a, b). checked_span a b) (ev_entitled ev) = Inr entitled"
    using pairs_total [of "ev_entitled ev"] assms unfolding wf_evidence_def by blast
  have met: "\<exists>ps. map_err (\<lambda>x. intersect [w] [x]) entitled = Inr ps" if "wf_span w" for w
  proof -
    have "\<exists>p. intersect [w] [x] = Inr p" if "x \<in> set entitled" for x
    proof -
      have "wf_spans [w]" and "wf_spans [x]"
        using that \<open>wf_span w\<close> sessions_wf(1) [OF en] by (simp_all add: wf_spans_def)
      then obtain p where "intersect [w] [x] = Inr p" by (rule intersect_ok)
      then show ?thesis by blast
    qed
    then show ?thesis using map_err_ok [of entitled "\<lambda>x. intersect [w] [x]" "\<lambda>_. True"] by auto
  qed
  let ?f = "\<lambda>(a, b). and_then (checked_span a (min (case b of None \<Rightarrow> me | Some x \<Rightarrow> x) me)) (\<lambda>active.
      and_then (map_err (\<lambda>en. intersect [active] [en]) entitled) (\<lambda>ps. Inr (concat ps)))"
  have "\<exists>y. ?f x = Inr y" if "x \<in> set (ev_active ev)" for x
  proof -
    obtain a b where x: "x = (a, b)" by (rule prod.exhaust)
    have l: "a < min (case b of None \<Rightarrow> me | Some x \<Rightarrow> x) me" using assms that x by (auto simp: wf_evidence_def)
    from met [of "Span a (min (case b of None \<Rightarrow> me | Some x \<Rightarrow> x) me)"] l obtain ps where
      "map_err (\<lambda>en. intersect [Span a (min (case b of None \<Rightarrow> me | Some x \<Rightarrow> x) me)] [en]) entitled = Inr ps"
      by (auto simp: wf_span_def)
    then show ?thesis using l by (simp add: x del: min_less_iff_conj)
  qed
  then have "\<exists>rs. map_err ?f (ev_active ev) = Inr rs"
    using map_err_ok [of "ev_active ev" ?f "\<lambda>_. True"] by auto
  then show ?thesis by (auto simp: eligible_rows_def en)
qed

lemma outages_total: "\<exists>os. outage_spans ev s me = Inr os"
proof -
  have "\<exists>ys. map_err (\<lambda>(q, a, b). and_then (checked_span a b) (\<lambda>x. Inr (q, x))) (filter (\<lambda>(q, a, b). a < b) xs) = Inr ys \<and>
      (\<forall>y \<in> set ys. True)" for xs :: "(bool \<times> int \<times> int) list"
    by (rule map_err_ok) auto
  then show ?thesis unfolding outage_spans_def by blast
qed

lemma classify_total:
  assumes "wf_evidence ev me"
  shows "\<exists>c. classify ev s me = Inr c"
proof -
  obtain rows where r: "eligible_rows ev me = Inr rows" using rows_total [OF assms] by blast
  obtain eligible where e: "union_spans [rows] = Inr eligible" "canonical eligible"
    using union_ok [of "[rows]"] rows_wf [OF r] by auto
  obtain sessions where m: "map_err (\<lambda>(a, b). checked_span a b) (ev_monitored ev) = Inr sessions"
    using pairs_total [of "ev_monitored ev"] assms unfolding wf_evidence_def by blast
  obtain os where o: "outage_spans ev s me = Inr os" using outages_total by blast
  note wf = canonical_wf [OF e(2)] sessions_wf(1) [OF m] outages_wf [OF o]
  obtain mon where mon: "intersect eligible sessions = Inr mon" "canonical mon" using wf intersect_ok by blast
  obtain down where down: "intersect eligible (map snd (filter fst os)) = Inr down" "canonical down"
    using wf intersect_ok by blast
  obtain cand where cand: "intersect eligible (map snd (filter (\<lambda>x. \<not> fst x) os)) = Inr cand" "canonical cand"
    using wf intersect_ok by blast
  obtain excl where excl: "subtract cand down = Inr excl" "canonical excl"
    using subtract_ok [OF canonical_wf [OF cand(2)] canonical_wf [OF down(2)]] by blast
  obtain known where known: "union_spans [mon, down, excl] = Inr known" "canonical known"
  proof -
    have "\<forall>g \<in> set [mon, down, excl]. wf_spans g" using canonical_wf mon(2) down(2) excl(2) by simp
    then show thesis using that by (rule union_ok)
  qed
  obtain unk where "subtract eligible known = Inr unk"
    using subtract_ok [OF canonical_wf [OF e(2)] canonical_wf [OF known(2)]] by blast
  then show ?thesis
    using r e(1) m mon(1) o down(1) cand(1) excl(1) known(1) by (simp add: classify_def)
qed

lemma resolve_total:
  assumes "\<forall>r \<in> set (db_versions db). \<exists>p. row_to_policy rnd r = Inr p" and "legacy_offer_policy rnd db sub = Inr l"
  shows "\<exists>p. resolve_effective_policy rnd db sub t = Inr p"
proof -
  have "\<exists>ps. map_err (row_to_policy rnd) (versions_covering db sub t (t + 1)) = Inr ps \<and> (\<forall>p \<in> set ps. True)"
    using assms(1) by (intro map_err_ok) (auto simp: versions_covering_def)
  then show ?thesis using assms(2) by (auto simp: resolve_effective_policy_def)
qed

lemma segments_total:
  assumes "\<forall>r \<in> set (db_versions db). \<exists>p. row_to_policy rnd r = Inr p" and "legacy_offer_policy rnd db sub = Inr l"
  shows "\<exists>gs. policy_segments rnd db sub s e = Inr gs \<and> (\<forall>g \<in> set gs. seg_start g < seg_end g)"
  unfolding policy_segments_def assms(2) and_then_simps Let_def
  using resolve_total [OF assms] by (intro map_err_ok) (fastforce simp: and_then_Inr)

lemma segments_of_score:
  assumes "map_err (score_segment rnd b c) gs = Inr ss"
  shows "\<forall>g \<in> set ss. \<exists>p v. ss_policy g = p \<and> ss_seconds g = v \<and> ss_verdict g = segment_verdict rnd p v b"
proof
  fix g assume "g \<in> set ss"
  with list_all2_set [OF assms [unfolded map_err_Inr]] obtain x where "score_segment rnd b c x = Inr g" by blast
  from score_segment_fields [OF this] show "\<exists>p v. ss_policy g = p \<and> ss_seconds g = v \<and> ss_verdict g = segment_verdict rnd p v b"
    by simp
qed

text \<open>The fields of a score that was computed.\<close>

lemma score_classified_fields:
  assumes "score_classified rnd ev s e c gs = Inr sc"
  shows "sc_complete sc \<longleftrightarrow> base_complete ev \<and> cl_unknown c = []"
    "sc_verdict sc = period_verdict (eligible_seconds (sc_seconds sc)) (sc_segments sc) (sc_complete sc)"
    "\<forall>g \<in> set (sc_segments sc). ss_verdict g = segment_verdict rnd (ss_policy g) (ss_seconds g) (base_complete ev)"
  using assms by (auto simp: score_classified_def Let_def and_then_Inr make_score_def dest: segments_of_score split: if_splits)

subsection \<open>A sample period\<close>

text \<open>One hour of service with a first minute of outage, under the measurement policy alone.\<close>

definition sample_measurement :: policy_row where
  "sample_measurement = \<lparr>pr_id = ''p-1'', pr_key = ''internal_measurement:global'', pr_version = 1,
     pr_source = Internal_measurement, pr_subscription = None, pr_subscriber = None, pr_offer = None,
     pr_family = None, pr_from = 0, pr_to = None, pr_target = None, pr_timezone = ''Africa/Lagos'',
     pr_maintenance = True, pr_credit = None, pr_cap = None, pr_reference = None, pr_by = ''ops'',
     pr_supersedes = None, pr_fingerprint = None, pr_idempotency = None\<rparr>"

definition sample_contract :: policy_row where
  "sample_contract = sample_measurement\<lparr>pr_id := ''p-2'', pr_key := ''subscription_contract:s-1'',
     pr_source := Subscription_contract, pr_subscription := Some ''s-1'', pr_from := 1800000000,
     pr_target := Some 99\<rparr>"

definition sample_sla_db :: "policy_row list \<Rightarrow> sla_db" where
  "sample_sla_db rows = \<lparr>db_versions = rows, db_offer = (\<lambda>i. None), db_profile = (\<lambda>i. None)\<rparr>"

definition sample_sub :: subscription where
  "sample_sub = \<lparr>sub_id = ''s-1'', sub_subscriber = None, sub_offer = None\<rparr>"

definition sample_evidence :: evidence where
  "sample_evidence = \<lparr>ev_active = [(0, None)], ev_lifecycle_complete = True, ev_lifecycle_issues = [],
     ev_entitled = [(0, 3600000000)], ev_entitled_complete = True, ev_entitled_issues = [],
     ev_monitored = [(60000000, 3600000000)], ev_monitored_complete = True, ev_monitored_issues = [],
     ev_outages = [\<lparr>ou_state = Confirmed_unavailable, ou_quality = ''exact'', ou_start = 0,
       ou_end = Some 60000000, ou_exclusion = None\<rparr>]\<rparr>"

definition sample_score :: "policy_row list \<Rightarrow> score_error + sla_score" where
  "sample_score rows = calculate_period_score (\<lambda>x. x) (sample_sla_db rows) (\<lambda>s e. sample_evidence) sample_sub
     3600000000 0 3600000000"

text \<open>What is read off a computed sample.\<close>

lemma sample_measured:
  "case sample_score [sample_measurement] of
     Inr sc \<Rightarrow> sc_complete sc \<and> 0 < eligible_seconds (sc_seconds sc) \<and> contractual (sc_segments sc) \<noteq> [] \<and>
       (\<forall>g \<in> set (sc_segments sc). Option.bind (ss_policy g) pol_target = None)
   | Inl e \<Rightarrow> False"
  by code_simp

lemma sample_classified: "case classify sample_evidence 0 3600000000 of Inr c \<Rightarrow> cl_eligible c = [Span 0 3600000000] | Inl e \<Rightarrow> False"
  by code_simp

lemma sample_segmented:
  "case policy_segments (\<lambda>x. x) (sample_sla_db [sample_contract, sample_measurement]) sample_sub 0 3600000000 of
     Inr gs \<Rightarrow> map seg_start gs = [0, 1800000000] | Inl e \<Rightarrow> False"
  by code_simp

subsection \<open>Properties\<close>

text \<open>
  C17: the classes partition the eligible time. Whatever histories the score is computed from, downtime,
  exclusions and unknown time are disjoint parts of the eligible time, and the rest, the uptime, is
  exactly the monitored time that is neither downtime nor excluded: no instant is up without a session
  that shows it.
\<close>

theorem evidence_partitions_eligible_time:
  assumes "classify ev s me = Inr c"
  shows "cover (cl_downtime c) \<subseteq> cover (cl_eligible c) \<and> cover (cl_excluded c) \<subseteq> cover (cl_eligible c) \<and>
    cover (cl_unknown c) \<subseteq> cover (cl_eligible c) \<and>
    cover (cl_downtime c) \<inter> cover (cl_excluded c) = {} \<and>
    (cover (cl_downtime c) \<union> cover (cl_excluded c)) \<inter> cover (cl_unknown c) = {} \<and>
    cover (cl_eligible c) - (cover (cl_downtime c) \<union> cover (cl_excluded c) \<union> cover (cl_unknown c)) =
      cover (cl_eligible c) \<inter> (\<Union>(a, b) \<in> set (ev_monitored ev). {a ..< b}) -
      (cover (cl_downtime c) \<union> cover (cl_excluded c))"
  using classify_sound(5-8) [OF assms] by blast

theorem evidence_partitions_eligible_time_witness:
  "\<exists>c. classify sample_evidence 0 3600000000 = Inr c \<and> cl_eligible c = [Span 0 3600000000] \<and>
     cover (cl_downtime c) \<inter> cover (cl_excluded c) = {} \<and> cover (cl_unknown c) \<subseteq> cover (cl_eligible c)"
proof -
  obtain c where "classify sample_evidence 0 3600000000 = Inr c" "cl_eligible c = [Span 0 3600000000]"
    using sample_classified by (auto split: sum.splits)
  with evidence_partitions_eligible_time [OF this(1)] show ?thesis by blast
qed

text \<open>
  C16: a score can always be recorded. On histories as their owners return them, and policies that satisfy
  the constraints of their table, none of the checks of the score records fires: the counted seconds are
  not negative and do not exceed the eligible ones, in the period and in every segment, although each
  class is rounded down on its own; and no verdict claims more than the evidence.
\<close>

theorem period_score_is_valid:
  assumes "s < e" and "s \<le> now" and "wf_evidence (history s (measured_end s e now)) (measured_end s e now)"
    and "\<forall>r \<in> set (db_versions db). \<exists>p. row_to_policy rnd r = Inr p" and "legacy_offer_policy rnd db sub = Inr l"
  shows "\<exists>sc. calculate_period_score rnd db history sub now s e = Inr sc \<and>
    validate_seconds (sc_seconds sc) = Inr () \<and> (\<forall>g \<in> set (sc_segments sc). validate_seconds (ss_seconds g) = Inr ())"
proof -
  let ?me = "measured_end s e now" let ?ev = "history s ?me"
  obtain c where c: "classify ?ev s ?me = Inr c" using classify_total [OF assms(3)] by blast
  note sound = classify_sound_classes [OF c]
  obtain gs where gs: "policy_segments rnd db sub s ?me = Inr gs" "\<forall>g \<in> set gs. seg_start g < seg_end g"
    using segments_total [OF assms(4,5)] by blast
  have "\<exists>ss. map_err (score_segment rnd (base_complete ?ev) c) gs = Inr ss \<and>
      (\<forall>g \<in> set ss. validate_seconds (ss_seconds g) = Inr ())"
    using gs(2) score_segment_ok [OF sound] by (intro map_err_ok) blast
  then obtain ss where ss: "map_err (score_segment rnd (base_complete ?ev) c) gs = Inr ss"
    "\<forall>g \<in> set ss. validate_seconds (ss_seconds g) = Inr ()" by blast
  obtain v where v: "seconds_of c = Inr v" "validate_seconds v = Inr ()" using seconds_valid [OF sound] by blast
  have "contractual ss = []" if "\<forall>g \<in> set ss. ss_policy g = None" using that by (simp add: contractual_def)
  moreover have "completeness_issues ?ev False = []" if "base_complete ?ev"
    using complete_issues [OF that] assms(3) by (simp add: wf_evidence_def)
  ultimately show ?thesis using assms(1,2) c gs(1) ss v
    by (auto simp: calculate_period_score_def lift_span_def score_classified_def make_score_def period_verdict_def Let_def)
qed

theorem period_score_is_valid_witness:
  "\<exists>sc. sample_score [sample_contract, sample_measurement] = Inr sc \<and> validate_seconds (sc_seconds sc) = Inr ()"
  unfolding sample_score_def
  using period_score_is_valid [of 0 3600000000 3600000000 "\<lambda>s e. sample_evidence"
      "sample_sla_db [sample_contract, sample_measurement]" "\<lambda>x. x" sample_sub None]
  by (auto simp: wf_evidence_def sample_evidence_def measured_end_def sample_sla_db_def sample_contract_def
      sample_measurement_def row_to_policy_def make_policy_def legacy_offer_policy_def sample_sub_def)

text \<open>
  C18: the segments tile the period and each has one policy. The segments begin at the start of the period,
  end at its end and follow each other without gap or overlap, and at every instant of a segment the
  policy in force is the policy of the segment.
\<close>

theorem segments_tile_period:
  assumes "policy_segments rnd db sub s e = Inr gs" and "s < e"
  shows "tiles s e gs \<and> (\<forall>g \<in> set gs. \<forall>t. seg_start g \<le> t \<and> t < seg_end g \<longrightarrow>
    resolve_effective_policy rnd db sub t = Inr (seg_policy g))"
proof -
  obtain legacy where l: "legacy_offer_policy rnd db sub = Inr legacy"
    using assms(1) by (auto simp: policy_segments_def and_then_Inr)
  define bs where "bs = boundaries db sub legacy s e"
  have so: "sorted_wrt (<) bs" by (simp add: bs_def boundaries_sorted)
  have ends: "hd bs = s" "last bs = e" "bs \<noteq> []"
  proof -
    have m: "s \<in> set bs" "e \<in> set bs" by (simp_all add: bs_def set_boundaries)
    have r: "s \<le> t \<and> t \<le> e" if "t \<in> set bs" for t
      using boundaries_range [OF assms(2) that [unfolded bs_def]] .
    show "hd bs = s" "last bs = e" using sorted_ends [OF so m r] by blast+
    show "bs \<noteq> []" using m(1) by force
  qed
  have "filter (\<lambda>(a, b). a < b) (zip bs (tl bs)) = zip bs (tl bs)"
    using consecutive [OF so] by (intro filter_True) auto
  then have all: "list_all2 (\<lambda>(a, b) g. resolve_effective_policy rnd db sub a = Inr (seg_policy g) \<and>
      seg_start g = a \<and> seg_end g = b) (zip bs (tl bs)) gs"
    using assms(1) unfolding policy_segments_def l and_then_simps Let_def bs_def [symmetric] map_err_Inr
    by (auto simp: and_then_Inr elim!: list_all2_mono)
  have "list_all2 (\<lambda>(a, b) g. seg_start g = a \<and> seg_end g = b) (zip bs (tl bs)) gs"
    by (rule list_all2_mono [OF all]) auto
  then have "tiles s e gs" using zip_tiles [OF ends(3) so, of gs] ends(1,2) by simp
  moreover have "resolve_effective_policy rnd db sub t = Inr (seg_policy g)"
    if "g \<in> set gs" "seg_start g \<le> t" "t < seg_end g" for g t
  proof -
    from list_all2_set [OF all] that(1) obtain a b where "(a, b) \<in> set (zip bs (tl bs))"
      "resolve_effective_policy rnd db sub a = Inr (seg_policy g)" "seg_start g = a" "seg_end g = b" by auto
    then show ?thesis using resolve_constant [OF _ bs_def assms(2) _ _ l, of a b t] that(2,3) by simp
  qed
  ultimately show ?thesis by blast
qed

theorem segments_tile_period_witness:
  "\<exists>gs. policy_segments (\<lambda>x. x) (sample_sla_db [sample_contract, sample_measurement]) sample_sub 0 3600000000 = Inr gs \<and>
     map seg_start gs = [0, 1800000000] \<and> tiles 0 3600000000 gs"
proof -
  obtain gs where "policy_segments (\<lambda>x. x) (sample_sla_db [sample_contract, sample_measurement]) sample_sub 0 3600000000 = Inr gs"
    "map seg_start gs = [0, 1800000000]" using sample_segmented by (auto split: sum.splits)
  with segments_tile_period [OF this(1)] show ?thesis by auto
qed

text \<open>The verdict of a segment against its target.\<close>

lemma segment_verdict_cases:
  assumes "Option.bind p pol_target = Some target" and "0 < eligible_seconds v - excluded_seconds v"
  shows "segment_verdict rnd p v b = Breach \<longleftrightarrow>
    percent rnd (eligible_seconds v - excluded_seconds v - unavailable_seconds v)
      (eligible_seconds v - excluded_seconds v) < target"
  using assms by (simp add: segment_verdict_def complete_verdict_def Let_def)

text \<open>
  C29: what a verdict of the period means. A breach is reported exactly when some contractual segment with
  a target stays below it even if all unknown time were up; passing or at risk is reported only on
  complete evidence, and then every contractual segment with a target meets it.
\<close>

theorem period_verdict_meaning:
  assumes "calculate_period_score rnd db history sub now s e = Inr sc" and "0 < eligible_seconds (sc_seconds sc)"
  shows "(sc_verdict sc = Breach \<longleftrightarrow> (\<exists>g \<in> set (contractual (sc_segments sc)). \<exists>target.
      Option.bind (ss_policy g) pol_target = Some target \<and>
      percent rnd (eligible_seconds (ss_seconds g) - excluded_seconds (ss_seconds g) - unavailable_seconds (ss_seconds g))
        (eligible_seconds (ss_seconds g) - excluded_seconds (ss_seconds g)) < target)) \<and>
    (sc_verdict sc \<in> {Passing, At_risk} \<longrightarrow> sc_complete sc \<and>
      (\<forall>g \<in> set (contractual (sc_segments sc)). \<forall>target. Option.bind (ss_policy g) pol_target = Some target \<longrightarrow>
        target \<le> percent rnd (eligible_seconds (ss_seconds g) - excluded_seconds (ss_seconds g) - unavailable_seconds (ss_seconds g))
          (eligible_seconds (ss_seconds g) - excluded_seconds (ss_seconds g))))"
proof -
  from assms(1) obtain ev c gs where sc: "score_classified rnd ev s e c gs = Inr sc"
    by (auto simp: calculate_period_score_def Let_def results split: if_splits)
  note f = score_classified_fields [OF sc]
  have breach: "ss_verdict g = Breach \<longleftrightarrow> (\<exists>target. Option.bind (ss_policy g) pol_target = Some target \<and>
      percent rnd (eligible_seconds (ss_seconds g) - excluded_seconds (ss_seconds g) - unavailable_seconds (ss_seconds g))
        (eligible_seconds (ss_seconds g) - excluded_seconds (ss_seconds g)) < target)"
    if "g \<in> set (contractual (sc_segments sc))" for g
  proof (cases "Option.bind (ss_policy g) pol_target")
    case None
    have "ss_verdict g \<in> {No_contractual_sla, Unavailable}"
      using f(3) that untargeted_segment [OF None] by (simp add: contractual_def)
    then show ?thesis using None by auto
  next
    case (Some target)
    then show ?thesis using f(3) that segment_verdict_cases [OF Some] by (auto simp: contractual_def)
  qed
  have v: "sc_verdict sc = Breach \<longleftrightarrow> (\<exists>g \<in> set (contractual (sc_segments sc)). ss_verdict g = Breach)"
    "sc_verdict sc \<in> {Passing, At_risk} \<Longrightarrow> sc_complete sc \<and> (\<forall>g \<in> set (contractual (sc_segments sc)). ss_verdict g \<noteq> Breach)"
    using f(2) assms(2) by (auto simp: period_verdict_def split: if_splits)
  show ?thesis
    using v breach by (metis not_le)
qed

theorem period_verdict_meaning_witness:
  "\<exists>sc. sample_score [sample_measurement] = Inr sc \<and> sc_verdict sc \<noteq> Breach"
proof -
  obtain sc where s: "sample_score [sample_measurement] = Inr sc" "0 < eligible_seconds (sc_seconds sc)"
    "\<forall>g \<in> set (sc_segments sc). Option.bind (ss_policy g) pol_target = None"
    using sample_measured by (auto split: sum.splits)
  have "Option.bind (ss_policy g) pol_target = None" if "g \<in> set (contractual (sc_segments sc))" for g
    using that s(3) by (simp add: contractual_def)
  with period_verdict_meaning [OF s(1) [unfolded sample_score_def] s(2)] s(1) show ?thesis by fastforce
qed

text \<open>
  A breach is final. Whatever part of the unknown time turns out to have been downtime, a segment
  reported as a breach is one under the verdict of complete evidence, for every monotone rounding that
  keeps one exact.
\<close>

theorem breach_is_final:
  assumes "mono rnd" and "rnd 1 = 1" and "segment_verdict rnd p v b = Breach"
    and "unavailable_seconds v \<le> u" and "u \<le> unavailable_seconds v + unknown_seconds v"
  shows "complete_verdict rnd p (eligible_seconds v - excluded_seconds v) u = Breach"
proof -
  let ?d = "eligible_seconds v - excluded_seconds v"
  obtain target where t: "Option.bind p pol_target = Some target" "0 < ?d"
    using assms(3) by (auto simp: segment_verdict_def Let_def split: if_splits option.splits)
  have "rnd 1 \<le> rnd (of_int ?d)" using t(2) by (intro monoD [OF assms(1)]) simp
  then have d: "0 < rnd (of_int ?d)" using assms(2) by simp
  have "percent rnd (?d - u) ?d \<le> percent rnd (?d - unavailable_seconds v) ?d"
    unfolding percent_def using assms(4) d
    by (intro monoD [OF assms(1)] divide_right_mono mult_left_mono) simp_all
  then show ?thesis
    using segment_verdict_cases [OF t, of rnd b] assms(3) t by (simp add: complete_verdict_def)
qed

theorem breach_is_final_witness:
  "complete_verdict (\<lambda>x. x) (Some \<lparr>pol_id = ''p'', pol_version = 1, pol_source = Offer_version, pol_from = 0, pol_to = None,
      pol_target = Some 99, pol_timezone = ''Africa/Lagos'', pol_maintenance = True, pol_credit = None, pol_cap = None\<rparr>)
     (1000 - 0) 150 = Breach"
  using breach_is_final [of "\<lambda>x. x" "Some \<lparr>pol_id = ''p'', pol_version = 1, pol_source = Offer_version, pol_from = 0,
      pol_to = None, pol_target = Some 99, pol_timezone = ''Africa/Lagos'', pol_maintenance = True, pol_credit = None,
      pol_cap = None\<rparr>" "\<lparr>eligible_seconds = 1000, unavailable_seconds = 100, excluded_seconds = 0, unknown_seconds = 200\<rparr>"
      False 150]
  by (simp add: mono_def segment_verdict_def percent_def)

text \<open>
  A period without a target passes. A complete period with eligible time in which only the measurement
  policy was in force, which promises nothing, is reported as passing, although each of its segments is
  reported as having no contractual SLA.
\<close>

theorem untargeted_period_passes:
  assumes "calculate_period_score rnd db history sub now s e = Inr sc" and "sc_complete sc"
    and "0 < eligible_seconds (sc_seconds sc)" and "contractual (sc_segments sc) \<noteq> []"
    and "\<forall>g \<in> set (sc_segments sc). Option.bind (ss_policy g) pol_target = None"
  shows "sc_verdict sc = Passing \<and> (\<forall>g \<in> set (contractual (sc_segments sc)). ss_verdict g = No_contractual_sla)"
proof -
  from assms(1) obtain ev c gs where sc: "score_classified rnd ev s e c gs = Inr sc"
    by (auto simp: calculate_period_score_def Let_def results split: if_splits)
  note f = score_classified_fields [OF sc]
  have n: "ss_verdict g = No_contractual_sla" if "g \<in> set (contractual (sc_segments sc))" for g
    using that f(3) assms(5) by (simp add: contractual_def segment_verdict_def Let_def)
  then show ?thesis using f(2) assms(2-4) by (auto simp: period_verdict_def)
qed

theorem untargeted_period_passes_witness:
  "\<exists>sc. sample_score [sample_measurement] = Inr sc \<and> sc_verdict sc = Passing"
proof -
  obtain sc where "sample_score [sample_measurement] = Inr sc" "sc_complete sc" "0 < eligible_seconds (sc_seconds sc)"
    "contractual (sc_segments sc) \<noteq> []" "\<forall>g \<in> set (sc_segments sc). Option.bind (ss_policy g) pol_target = None"
    using sample_measured by (auto split: sum.splits)
  with untargeted_period_passes [OF this(1) [unfolded sample_score_def] this(2-5)] show ?thesis by blast
qed

end
