(* ===== verification/Sla_Policy.thy ===== *)
theory Sla_Policy
  imports Sla_Scoring Tables Decimals
begin

section \<open>Recording SLA policy versions\<close>

text \<open>
  Models \<open>record_policy_version\<close> of \<open>app/services/customer_service_level.py\<close> with \<open>derive_policy_key\<close>,
  \<open>_validate_scope\<close> and \<open>_policy_fingerprint\<close>, on the rows of \<open>sla_policy_versions\<close> and the constraints
  that \<open>app/models/catalog.py\<close> puts on them. A command that raises leaves the rows as they were, which is
  what its transaction does. The hash and the identifier of a new row are arguments; the numbers of a
  command are the decimals their text denotes; the event and the logs are left out.
\<close>

subsection \<open>Commands\<close>

datatype plan_family = Unlimited | Dedicated | Home_flex

datatype supplied_family = Known_family plan_family | Other_family string

fun family_value :: "supplied_family \<Rightarrow> string" where
  "family_value (Known_family Unlimited) = ''unlimited''"
| "family_value (Known_family Dedicated) = ''dedicated''"
| "family_value (Known_family Home_flex) = ''home_flex''"
| "family_value (Other_family s) = s"

record policy_command =
  pc_source :: policy_source
  pc_from :: "stamp option"
  pc_target :: "rat option"
  pc_subscription :: "string option"
  pc_subscriber :: "string option"
  pc_offer :: "string option"
  pc_family :: "supplied_family option"
  pc_timezone :: string
  pc_maintenance :: bool
  pc_credit :: "rat option"
  pc_cap :: "rat option"
  pc_reference :: "string option"
  pc_actor :: string
  pc_idempotency :: "string option"

datatype policy_error =
    Missing_effective_from | Contractual_target_required | Scope_required | Invalid_scope "string list"
  | Unknown_plan_family | Unknown_scope | Idempotency_conflict | Duplicate_policy_terms
  | Would_rewrite_closed_period | Not_after_current | Concurrent_version_conflict | Invalid_policy_version
  | Percent_overflow

record policy_outcome =
  out_id :: string
  out_key :: string
  out_version :: int
  out_source :: policy_source
  out_from :: int
  out_superseded :: "string option"
  out_superseded_at :: "int option"
  out_replayed :: bool
  out_fingerprint :: string

record policy_store =
  st_rows :: "policy_row list"
  st_subscription :: "string \<Rightarrow> bool"
  st_subscriber :: "string \<Rightarrow> bool"
  st_offer :: "string \<Rightarrow> bool"
    \<comment> \<open>whether \<open>db.get\<close> finds the parent\<close>

text \<open>\<open>derive_policy_key\<close>.\<close>

definition derive_policy_key :: "policy_command \<Rightarrow> policy_error + string" where
  "derive_policy_key c =
     (case pc_source c of
        Subscription_contract \<Rightarrow> (case pc_subscription c of None \<Rightarrow> Inl Scope_required
          | Some i \<Rightarrow> Inr (''subscription_contract:'' @ i))
      | Account_contract \<Rightarrow> (case pc_subscriber c of None \<Rightarrow> Inl Scope_required
          | Some i \<Rightarrow> Inr (''account_contract:'' @ i))
      | Offer_version \<Rightarrow> (case pc_offer c of None \<Rightarrow> Inl Scope_required
          | Some i \<Rightarrow> Inr (''offer_version:'' @ i))
      | Plan_family_default \<Rightarrow> (case pc_family c of None \<Rightarrow> Inl Scope_required
          | Some (Other_family s) \<Rightarrow> Inl Unknown_plan_family
          | Some (Known_family f) \<Rightarrow> Inr (''plan_family:'' @ family_value (Known_family f)))
      | Internal_measurement \<Rightarrow> Inr ''internal_measurement:global'')"

text \<open>\<open>_validate_scope\<close>: the names of the supplied scopes in order, and the expected one.\<close>

definition supplied_scopes :: "policy_command \<Rightarrow> string list" where
  "supplied_scopes c =
     (if pc_offer c \<noteq> None then [''offer_id''] else []) @ (if pc_family c \<noteq> None then [''plan_family''] else []) @
     (if pc_subscriber c \<noteq> None then [''subscriber_id''] else []) @
     (if pc_subscription c \<noteq> None then [''subscription_id''] else [])"

fun expected_scope :: "policy_source \<Rightarrow> string option" where
  "expected_scope Subscription_contract = Some ''subscription_id''"
| "expected_scope Account_contract = Some ''subscriber_id''"
| "expected_scope Offer_version = Some ''offer_id''"
| "expected_scope Plan_family_default = Some ''plan_family''"
| "expected_scope Internal_measurement = None"

definition parent_check :: "(string \<Rightarrow> bool) \<Rightarrow> string option \<Rightarrow> policy_error + unit" where
  "parent_check known i =
     (case i of None \<Rightarrow> Inl Scope_required | Some k \<Rightarrow> if known k then Inr () else Inl Unknown_scope)"

definition validate_scope :: "policy_store \<Rightarrow> policy_command \<Rightarrow> policy_error + unit" where
  "validate_scope st c =
     (let extra = filter (\<lambda>k. Some k \<noteq> expected_scope (pc_source c)) (supplied_scopes c) in
      if extra \<noteq> [] then Inl (Invalid_scope extra)
      else (case pc_source c of
          Subscription_contract \<Rightarrow> parent_check (st_subscription st) (pc_subscription c)
        | Account_contract \<Rightarrow> parent_check (st_subscriber st) (pc_subscriber c)
        | Offer_version \<Rightarrow> parent_check (st_offer st) (pc_offer c)
        | Plan_family_default \<Rightarrow> (case pc_family c of None \<Rightarrow> Inl Scope_required
            | Some (Known_family f) \<Rightarrow> Inr () | Some (Other_family s) \<Rightarrow> Inl Unknown_plan_family)
        | Internal_measurement \<Rightarrow> Inr ()))"

text \<open>The material of \<open>_policy_fingerprint\<close>; the hash of it is an argument.\<close>

record fingerprint_material =
  fm_key :: string
  fm_source :: policy_source
  fm_from :: int
  fm_target :: "rat option"
  fm_timezone :: string
  fm_maintenance :: bool
  fm_credit :: "rat option"
  fm_cap :: "rat option"
  fm_reference :: "string option"

definition policy_material :: "policy_command \<Rightarrow> string \<Rightarrow> int \<Rightarrow> fingerprint_material" where
  "policy_material c key from = \<lparr>fm_key = key, fm_source = pc_source c, fm_from = from, fm_target = pc_target c,
     fm_timezone = pc_timezone c, fm_maintenance = pc_maintenance c, fm_credit = pc_credit c, fm_cap = pc_cap c,
     fm_reference = pc_reference c\<rparr>"

subsection \<open>The write\<close>

definition outcome_of :: "policy_row \<Rightarrow> bool \<Rightarrow> policy_outcome" where
  "outcome_of r replayed = \<lparr>out_id = pr_id r, out_key = pr_key r, out_version = pr_version r,
     out_source = pr_source r, out_from = pr_from r, out_superseded = pr_supersedes r,
     out_superseded_at = (if pr_supersedes r \<noteq> None then Some (pr_from r) else None),
     out_replayed = replayed, out_fingerprint = str_or (pr_fingerprint r) []\<rparr>"

text \<open>The rows of one series, newest version first.\<close>

definition series :: "policy_row list \<Rightarrow> string \<Rightarrow> policy_row list" where
  "series rows key = rev (sort_key pr_version (filter (\<lambda>r. pr_key r = key) rows))"

text \<open>The constraints of the table, as the flush meets them: those of a single row, those between rows.\<close>

definition row_constraints :: "policy_row \<Rightarrow> bool" where
  "row_constraints r \<longleftrightarrow> 1 \<le> pr_version r \<and> (case pr_to r of None \<Rightarrow> True | Some t \<Rightarrow> pr_from r < t) \<and>
     (case pr_target r of None \<Rightarrow> True | Some t \<Rightarrow> 0 < t \<and> t \<le> 100) \<and>
     (pr_source r = Internal_measurement \<or> pr_target r \<noteq> None)"

definition ranges_overlap :: "policy_row \<Rightarrow> policy_row \<Rightarrow> bool" where
  "ranges_overlap a b \<longleftrightarrow> (case pr_to a of None \<Rightarrow> True | Some t \<Rightarrow> pr_from b < t) \<and>
     (case pr_to b of None \<Rightarrow> True | Some t \<Rightarrow> pr_from a < t)"

definition collides :: "policy_row \<Rightarrow> policy_row \<Rightarrow> bool" where
  "collides r x \<longleftrightarrow>
     pr_key r = pr_key x \<and> (ranges_overlap r x \<or> pr_version r = pr_version x) \<or>
     pr_fingerprint r \<noteq> None \<and> pr_fingerprint r = pr_fingerprint x \<or>
     pr_idempotency r \<noteq> None \<and> pr_idempotency r = pr_idempotency x"

text \<open>The percentages go through \<open>NUMERIC(6,3)\<close>: rounded to three places, and an overflow leaves the command as it is.\<close>

definition percent_column :: "rat \<Rightarrow> rat" where
  "percent_column x = of_int (half_up (x * 1000)) / 1000"

definition percent_fits :: "rat option \<Rightarrow> bool" where
  "percent_fits v \<longleftrightarrow> (case v of None \<Rightarrow> True | Some x \<Rightarrow> \<bar>x\<bar> < 1000)"

definition flush_rows :: "policy_row list \<Rightarrow> policy_row \<Rightarrow> policy_error + policy_row list" where
  "flush_rows rows r =
     (if \<not> (percent_fits (pr_target r) \<and> percent_fits (pr_credit r) \<and> percent_fits (pr_cap r)) then Inl Percent_overflow
      else if \<not> row_constraints r then Inl Invalid_policy_version
      else if \<exists>x \<in> set rows. collides r x then Inl Concurrent_version_conflict
      else Inr (rows @ [r]))"

definition close_row :: "string \<Rightarrow> int \<Rightarrow> policy_row list \<Rightarrow> policy_row list" where
  "close_row i t rows = map (\<lambda>r. if pr_id r = i then r\<lparr>pr_to := Some t\<rparr> else r) rows"

definition new_row :: "string \<Rightarrow> policy_command \<Rightarrow> string \<Rightarrow> int \<Rightarrow> int \<Rightarrow> string option \<Rightarrow> string \<Rightarrow> policy_row" where
  "new_row i c key version from supersedes fingerprint =
     \<lparr>pr_id = i, pr_key = key, pr_version = version, pr_source = pc_source c, pr_subscription = pc_subscription c,
      pr_subscriber = pc_subscriber c, pr_offer = pc_offer c, pr_family = map_option family_value (pc_family c),
      pr_from = from, pr_to = None, pr_target = map_option percent_column (pc_target c), pr_timezone = pc_timezone c,
      pr_maintenance = pc_maintenance c, pr_credit = map_option percent_column (pc_credit c),
      pr_cap = map_option percent_column (pc_cap c), pr_reference = pc_reference c,
      pr_by = pc_actor c, pr_supersedes = supersedes, pr_fingerprint = Some fingerprint,
      pr_idempotency = pc_idempotency c\<rparr>"

text \<open>Replay and conflict are decided from the rows; \<open>None\<close> means the command is new.\<close>

definition arbitrate :: "policy_row list \<Rightarrow> policy_command \<Rightarrow> string \<Rightarrow> policy_error + policy_row option" where
  "arbitrate rows c fingerprint =
     (let duplicate = List.find (\<lambda>r. pr_fingerprint r = Some fingerprint) rows in
      if truthy_str (pc_idempotency c) then
        (case List.find (\<lambda>r. pr_idempotency r = pc_idempotency c) rows of
           Some prior \<Rightarrow>
             if pr_fingerprint prior = Some fingerprint then Inr (Some prior) else Inl Idempotency_conflict
         | None \<Rightarrow> if duplicate \<noteq> None then Inl Duplicate_policy_terms else Inr None)
      else Inr duplicate)"

text \<open>The append: no closed version may end later, the open one is closed where the new terms begin.\<close>

definition append_version :: "policy_row list \<Rightarrow> string \<Rightarrow> policy_command \<Rightarrow> string \<Rightarrow> int \<Rightarrow> string \<Rightarrow>
    policy_error + policy_row \<times> policy_row list" where
  "append_version rows i c key from fingerprint =
     (let existing = series rows key;
          version = (case existing of [] \<Rightarrow> 1 | r # _ \<Rightarrow> pr_version r + 1) in
      if \<exists>r \<in> set existing. (case pr_to r of None \<Rightarrow> False | Some t \<Rightarrow> from < t) then Inl Would_rewrite_closed_period
      else (case List.find (\<lambda>r. pr_to r = None) existing of
          None \<Rightarrow>
            (let r = new_row i c key version from None fingerprint
             in and_then (flush_rows rows r) (\<lambda>rows'. Inr (r, rows')))
        | Some open_row \<Rightarrow>
            if from \<le> pr_from open_row then Inl Not_after_current
            else (let r = new_row i c key version from (Some (pr_id open_row)) fingerprint
                  in and_then (flush_rows (close_row (pr_id open_row) from rows) r) (\<lambda>rows'. Inr (r, rows')))))"

definition record_policy_version :: "(fingerprint_material \<Rightarrow> string) \<Rightarrow> string \<Rightarrow> policy_command \<Rightarrow> policy_store \<Rightarrow>
    policy_error + policy_outcome \<times> policy_store" where
  "record_policy_version sha i c st =
     (case pc_from c of
        None \<Rightarrow> Inl Missing_effective_from
      | Some v \<Rightarrow>
          let from = coerced v in
          if pc_source c \<noteq> Internal_measurement \<and> pc_target c = None then Inl Contractual_target_required
          else and_then (validate_scope st c) (\<lambda>_.
            and_then (derive_policy_key c) (\<lambda>key.
              let fingerprint = sha (policy_material c key from) in
              and_then (arbitrate (st_rows st) c fingerprint) (\<lambda>prior.
                case prior of
                  Some r \<Rightarrow> Inr (outcome_of r True, st)
                | None \<Rightarrow> and_then (append_version (st_rows st) i c key from fingerprint)
                    (\<lambda>(r, rows). Inr (outcome_of r False, st\<lparr>st_rows := rows\<rparr>))))))"

subsection \<open>Series of versions\<close>

definition of_key :: "string \<Rightarrow> policy_row list \<Rightarrow> policy_row list" where
  "of_key key = filter (\<lambda>r. pr_key r = key)"

text \<open>A series in order: numbered from one, every version closed before the next begins.\<close>

definition series_ok :: "policy_row list \<Rightarrow> bool" where
  "series_ok rs \<longleftrightarrow> map pr_version rs = map int [1 ..< Suc (length rs)] \<and>
     sorted_wrt (\<lambda>a b. \<exists>t. pr_to a = Some t \<and> t \<le> pr_from b) rs \<and> (\<forall>r \<in> set rs. row_constraints r)"

definition rows_ok :: "policy_row list \<Rightarrow> bool" where
  "rows_ok rows \<longleftrightarrow> distinct (map pr_id rows) \<and> (\<forall>key. series_ok (of_key key rows))"

lemma series_ok_Nil [simp]: "series_ok []"
  by (simp add: series_ok_def)

lemma series_ok_snoc:
  "series_ok (rs @ [r]) \<longleftrightarrow> series_ok rs \<and> pr_version r = int (length rs) + 1 \<and> row_constraints r \<and>
     (\<forall>a \<in> set rs. \<exists>t. pr_to a = Some t \<and> t \<le> pr_from r)"
  by (auto simp: series_ok_def sorted_wrt_append)

lemma of_key_simps [simp]:
  "of_key key [] = []" "of_key key (xs @ ys) = of_key key xs @ of_key key ys"
  "of_key key [r] = (if pr_key r = key then [r] else [])"
  by (simp_all add: of_key_def)

lemma of_key_set [simp]: "r \<in> set (of_key key rows) \<longleftrightarrow> r \<in> set rows \<and> pr_key r = key"
  by (auto simp: of_key_def)

lemma series_sorted: "series_ok (of_key key rows) \<Longrightarrow> series rows key = rev (of_key key rows)"
proof -
  assume "series_ok (of_key key rows)"
  then have "sorted (map pr_version (of_key key rows))"
    by (simp add: series_ok_def sorted_map sorted_wrt_upt sorted_wrt_mono_rel [OF _ sorted_wrt_upt] del: upt_Suc)
  then show "series rows key = rev (of_key key rows)"
    by (simp add: series_def of_key_def sort_key_id_if_sorted)
qed

text \<open>Only the last version of a series can be open.\<close>

lemma open_is_last:
  assumes "series_ok rs" and "List.find (\<lambda>r. pr_to r = None) (rev rs) = Some r"
  obtains rs' where "rs = rs' @ [r]"
proof (cases rs rule: rev_cases)
  case Nil
  with assms(2) show thesis by simp
next
  case (snoc rs' x)
  then have closed: "\<forall>a \<in> set rs'. pr_to a \<noteq> None" using assms(1) by (auto simp: series_ok_snoc)
  have "r = x"
  proof (rule ccontr)
    assume "r \<noteq> x"
    then have "List.find (\<lambda>r. pr_to r = None) (rev rs') = Some r" using assms(2) snoc by (simp split: if_splits)
    from find_member [OF this] show False using closed by auto
  qed
  then show thesis using that snoc by simp
qed

lemma close_row_simps [simp]:
  "close_row i t [] = []" "close_row i t (xs @ ys) = close_row i t xs @ close_row i t ys"
  "map pr_id (close_row i t rows) = map pr_id rows" "map pr_key (close_row i t rows) = map pr_key rows"
  by (auto simp: close_row_def)

lemma close_row_absent: "i \<notin> pr_id ` set rows \<Longrightarrow> close_row i t rows = rows"
  by (induction rows) (auto simp: close_row_def)

lemma of_key_close: "of_key key (close_row i t rows) = close_row i t (of_key key rows)"
  by (induction rows) (auto simp: close_row_def of_key_def)

text \<open>
  What an accepted append does to the rows: it puts the new version behind the series and closes the open
  version, if there is one, where the new one begins.
\<close>

lemma flush_Inr: "flush_rows rows r = Inr rows' \<longleftrightarrow>
   percent_fits (pr_target r) \<and> percent_fits (pr_credit r) \<and> percent_fits (pr_cap r) \<and> row_constraints r \<and> (\<forall>x \<in> set rows. \<not> collides r x) \<and> rows' = rows @ [r]"
  by (auto simp: flush_rows_def)

lemma append_cases:
  assumes "rows_ok rows" and "append_version rows i c key from fp = Inr (r, rows')"
  obtains (first) "r = new_row i c key (int (length (of_key key rows)) + 1) from None fp" "rows' = rows @ [r]"
      "row_constraints r" "\<forall>a \<in> set (of_key key rows). \<exists>t. pr_to a = Some t \<and> t \<le> from"
    | (closing) prev o' where "r = new_row i c key (int (length (of_key key rows)) + 1) from (Some (pr_id o')) fp"
      "of_key key rows = prev @ [o']" "pr_to o' = None" "pr_from o' < from" "row_constraints r"
      "rows' = close_row (pr_id o') from rows @ [r]" "\<forall>a \<in> set prev. \<exists>t. pr_to a = Some t \<and> t \<le> from"
proof -
  let ?F = "of_key key rows"
  have ok: "series_ok ?F" using assms(1) by (simp add: rows_ok_def)
  note s = series_sorted [OF ok]
  have version: "(case rev ?F of [] \<Rightarrow> 1 | r # _ \<Rightarrow> pr_version r + 1) = int (length ?F) + 1"
    using ok by (cases ?F rule: rev_cases) (simp_all add: series_ok_snoc)
  have no_rewrite: "\<not> (\<exists>r \<in> set ?F. (case pr_to r of None \<Rightarrow> False | Some t \<Rightarrow> from < t))"
  proof
    assume "\<exists>r \<in> set ?F. (case pr_to r of None \<Rightarrow> False | Some t \<Rightarrow> from < t)"
    then have "append_version rows i c key from fp = Inl Would_rewrite_closed_period"
      unfolding append_version_def s Let_def set_rev by (rule if_P)
    with assms(2) show False by simp
  qed
  then have ends: "\<forall>a \<in> set ?F. \<forall>t. pr_to a = Some t \<longrightarrow> t \<le> from"
    by (metis (no_types, lifting) not_less option.simps(5))
  note def = assms(2) [unfolded append_version_def s version Let_def set_rev if_not_P [OF no_rewrite]]
  show thesis
  proof (cases "List.find (\<lambda>r. pr_to r = None) (rev ?F)")
    case None
    have r: "r = new_row i c key (int (length ?F) + 1) from None fp" "rows' = rows @ [r]" "row_constraints r"
      using def unfolding None by (auto simp: and_then_def flush_Inr split: sum.splits)
    have "\<forall>a \<in> set ?F. \<exists>t. pr_to a = Some t \<and> t \<le> from" using None ends by (fastforce simp: find_none)
    then show thesis by (rule first [OF r])
  next
    case (Some o')
    obtain prev where F: "?F = prev @ [o']" by (rule open_is_last [OF ok Some])
    have o': "pr_to o' = None" using find_member [OF Some] by simp
    have r: "r = new_row i c key (int (length ?F) + 1) from (Some (pr_id o')) fp" "pr_from o' < from"
      "row_constraints r" "rows' = close_row (pr_id o') from rows @ [r]"
      using def unfolding Some by (auto simp: and_then_def flush_Inr split: sum.splits if_splits)
    have "\<forall>a \<in> set prev. \<exists>t. pr_to a = Some t \<and> t \<le> from"
      using ok ends unfolding F by (auto simp: series_ok_snoc)
    then show thesis by (rule closing [OF r(1) F o' r(2,3,4)])
  qed
qed

lemma close_last:
  assumes "distinct (map pr_id (prev @ [o']))"
  shows "close_row (pr_id o') t (prev @ [o']) = prev @ [o'\<lparr>pr_to := Some t\<rparr>]"
  using assms close_row_absent [of "pr_id o'" prev t] by (auto simp: close_row_def)

lemma distinct_of_key: "distinct (map pr_id rows) \<Longrightarrow> distinct (map pr_id (of_key key rows))"
  by (simp add: of_key_def distinct_map_filter)

lemma append_series:
  assumes "rows_ok rows" and "append_version rows i c key from fp = Inr (r, rows')" and "pr_key r = key"
  shows "series_ok (of_key k rows')"
proof -
  have d: "distinct (map pr_id rows)" and ok: "series_ok (of_key k rows)" for k
    using assms(1) by (simp_all add: rows_ok_def)
  from assms(1,2) show ?thesis
  proof (cases rule: append_cases)
    case first
    then show ?thesis using ok [of k] assms(3) by (auto simp: series_ok_snoc new_row_def)
  next
    case (closing prev o')
    have o': "o' \<in> set rows" "pr_key o' = key"
      using closing(2) of_key_set [of o' key rows] by auto
    show ?thesis
    proof (cases "k = key")
      case True
      have "of_key k rows' = (prev @ [o'\<lparr>pr_to := Some from\<rparr>]) @ [r]"
        using close_last [of prev o' "from"] distinct_of_key [OF d, of key] closing(2,6) assms(3) True
        by (simp add: of_key_close)
      moreover have "series_ok ((prev @ [o'\<lparr>pr_to := Some from\<rparr>]) @ [r])"
      proof -
        have "series_ok (prev @ [o'])" using ok [of key] closing(2) by simp
        then have p: "series_ok prev" "pr_version o' = int (length prev) + 1" "row_constraints o'"
          "\<forall>a \<in> set prev. \<exists>t. pr_to a = Some t \<and> t \<le> pr_from o'" by (simp_all add: series_ok_snoc)
        have r: "pr_version r = int (length prev) + 2" "pr_from r = from"
          using closing(1,2) by (simp_all add: new_row_def)
        show ?thesis unfolding series_ok_snoc using p r closing(4,5,7) by (auto simp: row_constraints_def)
      qed
      ultimately show ?thesis by (simp only:)
    next
      case False
      have "pr_id o' \<notin> pr_id ` set (of_key k rows)"
      proof
        assume "pr_id o' \<in> pr_id ` set (of_key k rows)"
        then obtain x where "x \<in> set rows" "pr_key x = k" "pr_id x = pr_id o'" by auto
        then have "x = o'" using d o'(1) by (metis distinct_map inj_onD)
        then show False using \<open>pr_key x = k\<close> o'(2) False by simp
      qed
      then have "of_key k rows' = of_key k rows"
        using closing(6) assms(3) False by (simp add: of_key_close close_row_absent)
      then show ?thesis using ok by simp
    qed
  qed
qed

lemma append_rows_ok:
  assumes "rows_ok rows" and "append_version rows i c key from fp = Inr (r, rows')" and "i \<notin> pr_id ` set rows"
  shows "rows_ok rows' \<and> pr_key r = key \<and> pr_id r = i"
proof -
  have r: "pr_key r = key" "pr_id r = i"
    using assms(1,2) by (cases rule: append_cases; simp add: new_row_def)+
  have "distinct (map pr_id rows')"
    using assms(1,2) by (cases rule: append_cases) (use assms(1,3) r(2) in \<open>auto simp: rows_ok_def\<close>)
  then show ?thesis using append_series [OF assms(1,2) r(1)] r by (simp add: rows_ok_def)
qed

subsection \<open>Commands and histories\<close>

text \<open>An accepted command is a replay, which changes nothing, or an append.\<close>

lemma record_cases:
  assumes "record_policy_version sha i c st = Inr (out, st')"
  obtains (replayed) r where "out = outcome_of r True" "st' = st" "r \<in> set (st_rows st)"
    | (appended) v key r rows where "pc_from c = Some v" "derive_policy_key c = Inr key" "validate_scope st c = Inr ()"
        "pc_source c = Internal_measurement \<or> pc_target c \<noteq> None"
        "arbitrate (st_rows st) c (sha (policy_material c key (coerced v))) = Inr None"
        "append_version (st_rows st) i c key (coerced v) (sha (policy_material c key (coerced v))) = Inr (r, rows)"
        "out = outcome_of r False" "st' = st\<lparr>st_rows := rows\<rparr>"
proof -
  obtain v key prior where v: "pc_from c = Some v" and k: "derive_policy_key c = Inr key"
    and g: "validate_scope st c = Inr ()" "pc_source c = Internal_measurement \<or> pc_target c \<noteq> None"
    and a: "arbitrate (st_rows st) c (sha (policy_material c key (coerced v))) = Inr prior"
    and rest: "(case prior of Some r \<Rightarrow> Inr (outcome_of r True, st)
        | None \<Rightarrow> and_then (append_version (st_rows st) i c key (coerced v) (sha (policy_material c key (coerced v))))
            (\<lambda>(r, rows). Inr (outcome_of r False, st\<lparr>st_rows := rows\<rparr>))) = Inr (out, st')"
    using assms by (auto simp: record_policy_version_def Let_def and_then_def split: option.splits if_splits sum.splits)
  show thesis
  proof (cases prior)
    case None
    with rest show thesis using appended [OF v k g] a by (auto simp: and_then_def split: sum.splits)
  next
    case (Some r)
    have "r \<in> set (st_rows st)"
      using a find_member unfolding Some by (fastforce simp: arbitrate_def Let_def split: if_splits option.splits)
    then show thesis using replayed rest Some by auto
  qed
qed

text \<open>Stores that commands build from an empty table, every new row with an identifier of its own.\<close>

inductive policy_history :: "(fingerprint_material \<Rightarrow> string) \<Rightarrow> policy_store \<Rightarrow> bool" for sha where
  start: "st_rows st = [] \<Longrightarrow> policy_history sha st"
| command: "policy_history sha st \<Longrightarrow> i \<notin> pr_id ` set (st_rows st) \<Longrightarrow>
    record_policy_version sha i c st = Inr (out, st') \<Longrightarrow> policy_history sha st'"

lemma history_rows_ok: "policy_history sha st \<Longrightarrow> rows_ok (st_rows st)"
proof (induction rule: policy_history.induct)
  case (command st i c out st')
  from command.hyps(3) show ?case
  proof (cases rule: record_cases)
    case replayed
    then show ?thesis using command.IH by simp
  next
    case appended
    then show ?thesis using append_rows_ok [OF command.IH appended(6) command.hyps(2)] by simp
  qed
qed (simp add: rows_ok_def)

definition row_in_force :: "int \<Rightarrow> policy_row \<Rightarrow> bool" where
  "row_in_force t r \<longleftrightarrow> pr_from r \<le> t \<and> (case pr_to r of None \<Rightarrow> True | Some e \<Rightarrow> t < e)"

text \<open>The terms of a row, without the end that its successor gives it.\<close>

definition terms :: "policy_row \<Rightarrow> policy_row" where
  "terms r = r\<lparr>pr_to := None\<rparr>"

lemma at_most_one:
  "sorted_wrt R xs \<Longrightarrow> (\<And>a b. R a b \<Longrightarrow> \<not> (P a \<and> P b)) \<Longrightarrow> length (filter P xs) \<le> 1"
proof (induction xs)
  case (Cons x xs)
  then have "filter P xs = [] \<or> \<not> P x" by (auto simp: filter_empty_conv)
  then show ?case using Cons by auto
qed simp

lemma series_one_in_force: "series_ok rs \<Longrightarrow> length (filter (row_in_force t) rs) \<le> 1"
  unfolding series_ok_def
  by (rule at_most_one [of "\<lambda>a b. \<exists>t. pr_to a = Some t \<and> t \<le> pr_from b"]) (auto simp: row_in_force_def)

lemma close_row_past:
  assumes "t < e" and "\<forall>r \<in> set rows. pr_id r = i \<longrightarrow> pr_to r = None"
  shows "map terms (filter (row_in_force t) (close_row i e rows)) = map terms (filter (row_in_force t) rows)"
  using assms(2)
proof (induction rows)
  case (Cons r rows)
  then show ?case using assms(1) by (auto simp: close_row_def row_in_force_def terms_def)
qed simp

lemma only_id:
  assumes "distinct (map pr_id rows)" and "o' \<in> set rows"
  shows "\<forall>r \<in> set rows. pr_id r = pr_id o' \<longrightarrow> r = o'"
  using assms by (metis distinct_map inj_onD)

subsection \<open>A sample history\<close>

definition sample_store :: policy_store where
  "sample_store = \<lparr>st_rows = [], st_subscription = (\<lambda>i. i = ''s-1''), st_subscriber = (\<lambda>i. False), st_offer = (\<lambda>i. False)\<rparr>"

definition sample_command :: "int \<Rightarrow> rat \<Rightarrow> string \<Rightarrow> policy_command" where
  "sample_command from target key = \<lparr>pc_source = Subscription_contract, pc_from = Some (Aware from 0),
     pc_target = Some target, pc_subscription = Some ''s-1'', pc_subscriber = None, pc_offer = None, pc_family = None,
     pc_timezone = ''Africa/Lagos'', pc_maintenance = True, pc_credit = None, pc_cap = None, pc_reference = None,
     pc_actor = ''ops'', pc_idempotency = Some key\<rparr>"

text \<open>A hash that tells the sample terms apart.\<close>

definition sample_sha :: "fingerprint_material \<Rightarrow> string" where
  "sample_sha f = replicate (nat (if 0 \<le> fm_from f then 2 * fm_from f else 1 - 2 * fm_from f)) CHR ''x'' @
     CHR ''|'' # (if fm_target f = Some 99 then CHR ''a'' else CHR ''b'') # fm_key f"

lemma replicate_mark:
  assumes "replicate m CHR ''x'' @ CHR ''|'' # u = replicate n CHR ''x'' @ CHR ''|'' # v"
  shows "m = n \<and> u = v"
proof -
  have "takeWhile (\<lambda>c. c = CHR ''x'') (replicate k CHR ''x'' @ CHR ''|'' # w) = replicate k CHR ''x''" for k w
    by (induction k) simp_all
  with assms have "replicate m CHR ''x'' = replicate n CHR ''x''" by metis
  then have "m = n" by (metis length_replicate)
  with assms show ?thesis by simp
qed

lemma sample_sha_inj: "inj_on sample_sha {policy_material c key v | key v. True}"
proof (rule inj_onI)
  fix m n assume "m \<in> {policy_material c key v | key v. True}" "n \<in> {policy_material c key v | key v. True}"
    and e: "sample_sha m = sample_sha n"
  then obtain k v k' v' where m: "m = policy_material c k v" and n: "n = policy_material c k' v'" by blast
  have fields: "fm_from m = v" "fm_key m = k" "fm_from n = v'" "fm_key n = k'" by (simp_all add: m n policy_material_def)
  note r = replicate_mark [OF e [unfolded sample_sha_def fields]]
  have "k = k'" using r by simp
  moreover have "(if 0 \<le> v then 2 * v else 1 - 2 * v) = (if 0 \<le> v' then 2 * v' else 1 - 2 * v')"
    by (rule iffD1 [OF eq_nat_nat_iff conjunct1 [OF r]]) auto
  then have "v = v'" by (cases "0 \<le> v"; cases "0 \<le> v'"; simp; presburger)
  ultimately show "m = n" by (simp add: m n)
qed

definition sample_row :: "string \<Rightarrow> int \<Rightarrow> rat \<Rightarrow> string \<Rightarrow> policy_row" where
  "sample_row i from target key = new_row i (sample_command from target key) ''subscription_contract:s-1'' 1 from None
     (sample_sha (policy_material (sample_command from target key) ''subscription_contract:s-1'' from))"

lemma sample_percents: "percent_column 99 = 99" "percent_fits None" "percent_fits (Some 99)"
  using half_up_of_int [of 99000] by (simp_all add: percent_column_def percent_fits_def)

lemma sample_first:
  "record_policy_version sample_sha ''p-1'' (sample_command 0 99 ''k1'') sample_store =
     Inr (outcome_of (sample_row ''p-1'' 0 99 ''k1'') False, sample_store\<lparr>st_rows := [sample_row ''p-1'' 0 99 ''k1'']\<rparr>)"
  by (simp add: record_policy_version_def sample_command_def sample_store_def coerced_def validate_scope_def
      supplied_scopes_def parent_check_def derive_policy_key_def arbitrate_def append_version_def series_def
      flush_rows_def row_constraints_def new_row_def sample_row_def sample_percents Let_def)

lemma sample_first_history:
  "policy_history sample_sha (sample_store\<lparr>st_rows := [sample_row ''p-1'' 0 99 ''k1'']\<rparr>)"
  by (rule policy_history.command [OF policy_history.start _ sample_first]) (simp_all add: sample_store_def)

lemma sample_second:
  "case record_policy_version sample_sha ''p-2'' (sample_command 500 95 ''k2'')
     (sample_store\<lparr>st_rows := [sample_row ''p-1'' 0 99 ''k1'']\<rparr>) of
     Inr (out, st) \<Rightarrow> \<not> out_replayed out \<and> out_from out = 500 | Inl e \<Rightarrow> False"
  by code_simp

lemma member_of_one: "x \<in> set xs \<Longrightarrow> length xs \<le> 1 \<Longrightarrow> xs = [x]"
  by (cases xs) auto

subsection \<open>Replay\<close>

lemma find_snoc:
  "(\<forall>x \<in> set xs. \<not> P x) \<Longrightarrow> P y \<Longrightarrow> List.find P (xs @ [y]) = Some y"
  by (induction xs) auto

lemma close_row_idents:
  "(\<forall>x \<in> set (close_row i t rows). \<not> P (pr_fingerprint x)) \<longleftrightarrow> (\<forall>x \<in> set rows. \<not> P (pr_fingerprint x))"
  "(\<forall>x \<in> set (close_row i t rows). \<not> P (pr_idempotency x)) \<longleftrightarrow> (\<forall>x \<in> set rows. \<not> P (pr_idempotency x))"
  by (induction rows) (auto simp: close_row_def)

text \<open>After an append the new row is the one that answers for its key and its terms.\<close>

lemma arbitrate_new:
  "arbitrate rows c fp = Inr None \<longleftrightarrow> (\<forall>x \<in> set rows. pr_fingerprint x \<noteq> Some fp) \<and>
     (truthy_str (pc_idempotency c) \<longrightarrow> (\<forall>x \<in> set rows. pr_idempotency x \<noteq> pc_idempotency c))"
proof -
  have "(\<forall>x \<in> set rows. pr_fingerprint x \<noteq> Some fp) \<longleftrightarrow> List.find (\<lambda>x. pr_fingerprint x = Some fp) rows = None"
    "(\<forall>x \<in> set rows. pr_idempotency x \<noteq> pc_idempotency c) \<longleftrightarrow>
       List.find (\<lambda>x. pr_idempotency x = pc_idempotency c) rows = None"
    by (simp_all add: find_none)
  then show ?thesis by (auto simp: arbitrate_def Let_def split: option.splits)
qed

lemma append_found:
  assumes "append_version rows i c key from fp = Inr (r, rows')" and "arbitrate rows c fp = Inr None"
  shows "pr_fingerprint r = Some fp" "pr_idempotency r = pc_idempotency c"
    "List.find (\<lambda>x. pr_fingerprint x = Some fp) rows' = Some r"
    "truthy_str (pc_idempotency c) \<Longrightarrow> List.find (\<lambda>x. pr_idempotency x = pc_idempotency c) rows' = Some r"
proof -
  have "\<exists>base. rows' = base @ [r] \<and> (base = rows \<or> (\<exists>j. base = close_row j from rows)) \<and>
      pr_fingerprint r = Some fp \<and> pr_idempotency r = pc_idempotency c"
    using assms(1) by (auto simp: append_version_def Let_def and_then_def flush_Inr new_row_def
        split: if_splits option.splits sum.splits)
  then obtain base where b: "rows' = base @ [r]" "base = rows \<or> (\<exists>j. base = close_row j from rows)"
    and r: "pr_fingerprint r = Some fp" "pr_idempotency r = pc_idempotency c" by blast
  have n: "\<forall>x \<in> set base. pr_fingerprint x \<noteq> Some fp"
    "truthy_str (pc_idempotency c) \<Longrightarrow> \<forall>x \<in> set base. pr_idempotency x \<noteq> pc_idempotency c"
    using assms(2) b(2) close_row_idents(1) [of _ "from" rows "\<lambda>x. x = Some fp"]
      close_row_idents(2) [of _ "from" rows "\<lambda>x. x = pc_idempotency c"] unfolding arbitrate_new by auto
  show "pr_fingerprint r = Some fp" "pr_idempotency r = pc_idempotency c" by (fact r)+
  show "List.find (\<lambda>x. pr_fingerprint x = Some fp) rows' = Some r"
    using n(1) r(1) unfolding b(1) by (intro find_snoc) simp_all
  show "truthy_str (pc_idempotency c) \<Longrightarrow> List.find (\<lambda>x. pr_idempotency x = pc_idempotency c) rows' = Some r"
    using n(2) r(2) unfolding b(1) by (intro find_snoc) simp_all
qed

lemma validate_scope_rows [simp]: "validate_scope (st\<lparr>st_rows := rows\<rparr>) c = validate_scope st c"
  by (cases "pc_source c") (simp_all add: validate_scope_def Let_def)

subsection \<open>Properties\<close>

text \<open>
  C28: one policy version per instant. In every store that recording commands build, whatever commands and
  in whatever order, the versions of a policy are numbered from one without a gap, and at most one of
  them is in force at any instant.
\<close>

theorem one_version_in_force:
  assumes "policy_history sha st"
  shows "map pr_version (of_key key (st_rows st)) = map int [1 ..< Suc (length (of_key key (st_rows st)))] \<and>
    length (filter (row_in_force t) (of_key key (st_rows st))) \<le> 1"
  using history_rows_ok [OF assms] series_one_in_force [of "of_key key (st_rows st)" t]
  by (simp add: rows_ok_def series_ok_def del: upt_Suc)

theorem one_version_in_force_witness:
  "length (filter (row_in_force 7) (of_key ''subscription_contract:s-1''
     (st_rows (sample_store\<lparr>st_rows := [sample_row ''p-1'' 0 99 ''k1'']\<rparr>)))) \<le> 1"
  by (rule conjunct2 [OF one_version_in_force [OF sample_first_history]])

text \<open>
  C25: recorded terms are never rewritten. A command that records new terms leaves the terms in force at
  every earlier instant as they were, in every series, and from the instant the new terms begin the new
  version is the one in force in its series.
\<close>

theorem recorded_terms_are_final:
  assumes "policy_history sha st" and "i \<notin> pr_id ` set (st_rows st)"
    and "record_policy_version sha i c st = Inr (out, st')" and "\<not> out_replayed out"
  shows "(\<forall>t < out_from out. map terms (filter (row_in_force t) (st_rows st')) =
      map terms (filter (row_in_force t) (st_rows st))) \<and>
    (\<forall>t \<ge> out_from out. map pr_id (filter (row_in_force t) (of_key (out_key out) (st_rows st'))) = [i])"
  using assms(3)
proof (cases rule: record_cases)
  case replayed
  then show ?thesis using assms(4) by (simp add: outcome_of_def)
next
  case (appended v key r rows)
  note ok = history_rows_ok [OF assms(1)]
  note r = append_rows_ok [OF ok appended(6) assms(2)]
  have out: "out_from out = pr_from r" "out_key out = key" using appended(7) r by (simp_all add: outcome_of_def)
  have past: "map terms (filter (row_in_force t) rows) = map terms (filter (row_in_force t) (st_rows st))"
    if "t < pr_from r" for t
    using ok appended(6)
  proof (cases rule: append_cases)
    case first
    then show ?thesis using that by (simp add: row_in_force_def)
  next
    case (closing prev o')
    have o': "o' \<in> set (st_rows st)" using closing(2) of_key_set [of o' key "st_rows st"] by auto
    have "\<forall>x \<in> set (st_rows st). pr_id x = pr_id o' \<longrightarrow> pr_to x = None"
      using only_id [OF _ o'] ok closing(3) by (auto simp: rows_ok_def)
    moreover have "pr_from r = coerced v" using closing(1) by (simp add: new_row_def)
    ultimately show ?thesis using that closing(6) close_row_past by (simp add: row_in_force_def)
  qed
  have future: "map pr_id (filter (row_in_force t) (of_key key rows)) = [i]" if "pr_from r \<le> t" for t
  proof -
    have "r \<in> set (of_key key rows)" and "row_in_force t r"
      using ok appended(6) r that
      by (cases rule: append_cases; simp add: new_row_def row_in_force_def)+
    then have "r \<in> set (filter (row_in_force t) (of_key key rows))" by simp
    moreover have "length (filter (row_in_force t) (of_key key rows)) \<le> 1"
      using r series_one_in_force by (simp add: rows_ok_def)
    ultimately have "filter (row_in_force t) (of_key key rows) = [r]" by (rule member_of_one)
    then show ?thesis using r by simp
  qed
  show ?thesis using past future out appended(8) by simp
qed

theorem recorded_terms_are_final_witness:
  "\<exists>out st'. record_policy_version sample_sha ''p-2'' (sample_command 500 95 ''k2'')
     (sample_store\<lparr>st_rows := [sample_row ''p-1'' 0 99 ''k1'']\<rparr>) = Inr (out, st') \<and>
     map terms (filter (row_in_force 100) (st_rows st')) = [terms (sample_row ''p-1'' 0 99 ''k1'')]"
proof -
  obtain out st' where o: "record_policy_version sample_sha ''p-2'' (sample_command 500 95 ''k2'')
      (sample_store\<lparr>st_rows := [sample_row ''p-1'' 0 99 ''k1'']\<rparr>) = Inr (out, st')" "\<not> out_replayed out" "out_from out = 500"
    using sample_second by (auto split: sum.splits prod.splits)
  from recorded_terms_are_final [OF sample_first_history _ o(1,2)] have
    "map terms (filter (row_in_force 100) (st_rows st')) = [terms (sample_row ''p-1'' 0 99 ''k1'')]"
    using o(3) by (simp add: sample_row_def new_row_def row_in_force_def)
  with o(1) show ?thesis by auto
qed

text \<open>
  A command can be repeated. A command that recorded new terms, sent again to the store it left,
  changes nothing and returns the same outcome, marked as replayed, with or without an idempotency key.
\<close>

theorem repeated_command_replays:
  assumes "record_policy_version sha i c st = Inr (out, st')" and "\<not> out_replayed out"
  shows "record_policy_version sha j c st' = Inr (out\<lparr>out_replayed := True\<rparr>, st')"
  using assms(1)
proof (cases rule: record_cases)
  case replayed
  then show ?thesis using assms(2) by (simp add: outcome_of_def)
next
  case (appended v key r rows)
  note f = append_found [OF appended(6,5)]
  have "arbitrate rows c (sha (policy_material c key (coerced v))) = Inr (Some r)"
    using f by (cases "truthy_str (pc_idempotency c)") (simp_all add: arbitrate_def Let_def)
  moreover have "outcome_of r True = (outcome_of r False)\<lparr>out_replayed := True\<rparr>" by (simp add: outcome_of_def)
  ultimately show ?thesis using appended by (auto simp: record_policy_version_def)
qed

theorem repeated_command_replays_witness:
  "record_policy_version sample_sha ''p-9'' (sample_command 0 99 ''k1'')
     (sample_store\<lparr>st_rows := [sample_row ''p-1'' 0 99 ''k1'']\<rparr>) =
   Inr ((outcome_of (sample_row ''p-1'' 0 99 ''k1'') False)\<lparr>out_replayed := True\<rparr>,
     sample_store\<lparr>st_rows := [sample_row ''p-1'' 0 99 ''k1'']\<rparr>)"
  by (rule repeated_command_replays [OF sample_first]) (simp add: outcome_of_def)

text \<open>
  An idempotency key names one command. After a command recorded terms under a key, any command with
  that key that is accepted is a replay of it with the same terms: it changes nothing and returns the same
  version, as far as the hash keeps terms apart.
\<close>

theorem key_names_one_command:
  assumes "inj_on sha {policy_material x key v | x key v. x \<in> {c, c'}}"
    and "record_policy_version sha i c st = Inr (out, st')" and "\<not> out_replayed out"
    and "pc_idempotency c' = pc_idempotency c" and "truthy_str (pc_idempotency c)"
    and "record_policy_version sha j c' st' = Inr (out', st'')"
  shows "st'' = st' \<and> out' = out\<lparr>out_replayed := True\<rparr> \<and> pc_source c' = pc_source c \<and> pc_target c' = pc_target c \<and>
    map_option coerced (pc_from c') = map_option coerced (pc_from c) \<and> derive_policy_key c' = derive_policy_key c"
  using assms(2)
proof (cases rule: record_cases)
  case replayed
  then show ?thesis using assms(3) by (simp add: outcome_of_def)
next
  case (appended v key r rows)
  note f = append_found [OF appended(6,5)]
  have found: "List.find (\<lambda>x. pr_idempotency x = pc_idempotency c') rows = Some r"
    using f(4) assms(4,5) by simp
  have t: "truthy_str (pc_idempotency c')" using assms(4,5) by simp
  obtain v' key' prior where v': "pc_from c' = Some v'" "derive_policy_key c' = Inr key'"
      "arbitrate rows c' (sha (policy_material c' key' (coerced v'))) = Inr prior"
    and rest: "(case prior of Some r \<Rightarrow> Inr (outcome_of r True, st')
        | None \<Rightarrow> and_then (append_version (st_rows st') j c' key' (coerced v') (sha (policy_material c' key' (coerced v'))))
            (\<lambda>(r, rows). Inr (outcome_of r False, st'\<lparr>st_rows := rows\<rparr>))) = Inr (out', st'')"
    using assms(6) appended(8)
    by (auto simp: record_policy_version_def Let_def and_then_def split: option.splits if_splits sum.splits)
  have "pr_fingerprint r = Some (sha (policy_material c' key' (coerced v')))" and prior: "prior = Some r"
    using v'(3) t found by (auto simp: arbitrate_def split: if_splits)
  then have "policy_material c' key' (coerced v') = policy_material c key (coerced v)"
    using f(1) by (intro inj_onD [OF assms(1)]) auto
  then have "key' = key" "pc_source c' = pc_source c" "pc_target c' = pc_target c" "coerced v' = coerced v"
    by (simp_all add: policy_material_def)
  then show ?thesis using rest prior v'(1,2) appended(1,2,7) by (simp add: outcome_of_def)
qed

theorem key_names_one_command_witness:
  "\<exists>out st''. record_policy_version sample_sha ''p-9'' (sample_command 0 99 ''k1'')
     (sample_store\<lparr>st_rows := [sample_row ''p-1'' 0 99 ''k1'']\<rparr>) = Inr (out, st'') \<and>
     st'' = sample_store\<lparr>st_rows := [sample_row ''p-1'' 0 99 ''k1'']\<rparr>"
proof -
  let ?c = "sample_command 0 99 ''k1''" and ?st = "sample_store\<lparr>st_rows := [sample_row ''p-1'' 0 99 ''k1'']\<rparr>"
  have i: "inj_on sample_sha {policy_material x key v | x key v. x \<in> {?c, ?c}}"
    by (rule inj_on_subset [OF sample_sha_inj [of ?c]]) blast
  have n: "\<not> out_replayed (outcome_of (sample_row ''p-1'' 0 99 ''k1'') False)" "truthy_str (pc_idempotency ?c)"
    by (simp_all add: outcome_of_def sample_command_def)
  have r: "record_policy_version sample_sha ''p-9'' ?c ?st =
      Inr (outcome_of (sample_row ''p-1'' 0 99 ''k1'') True, ?st)"
    by (simp add: record_policy_version_def sample_command_def sample_store_def coerced_def validate_scope_def
      supplied_scopes_def parent_check_def derive_policy_key_def arbitrate_def new_row_def sample_row_def Let_def)
  from key_names_one_command [OF i sample_first n(1) refl n(2) r] r show ?thesis by blast
qed

text \<open>What the flush of an append compares the new row with.\<close>

lemma append_no_conflict:
  assumes "rows_ok rows" and "arbitrate rows c fp = Inr None" and "pc_idempotency c \<noteq> Some []"
  shows "append_version rows i c key from fp \<noteq> Inl Concurrent_version_conflict"
proof
  assume a: "append_version rows i c key from fp = Inl Concurrent_version_conflict"
  let ?F = "of_key key rows"
  have ok: "series_ok ?F" using assms(1) by (simp add: rows_ok_def)
  note s = series_sorted [OF ok]
  have version: "(case rev ?F of [] \<Rightarrow> 1 | r # _ \<Rightarrow> pr_version r + 1) = int (length ?F) + 1"
    using ok by (cases ?F rule: rev_cases) (simp_all add: series_ok_snoc)
  have old: "pr_version x \<le> int (length ?F)" if "x \<in> set ?F" for x
  proof -
    have "pr_version x \<in> set (map int [1 ..< Suc (length ?F)])"
      using that ok unfolding series_ok_def by (metis (no_types, lifting) image_eqI set_map)
    then show ?thesis by auto
  qed
  have fresh: "\<forall>x \<in> set rows. pr_fingerprint x \<noteq> Some fp"
    "pc_idempotency c \<noteq> None \<Longrightarrow> \<forall>x \<in> set rows. pr_idempotency x \<noteq> pc_idempotency c"
    using assms(2,3) unfolding arbitrate_new by (auto simp: truthy_str_iff)
  have clash: False
    if "flush_rows base (new_row i c key (int (length ?F) + 1) from sup fp) = Inl Concurrent_version_conflict"
      and "base = rows \<or> (\<exists>j. base = close_row j from rows)"
      and "\<forall>x \<in> set (of_key key base). \<exists>t. pr_to x = Some t \<and> t \<le> from"
      and "\<forall>x \<in> set (of_key key base). pr_version x \<le> int (length ?F)" for base sup
  proof -
    from that(1) obtain x where x: "x \<in> set base" "collides (new_row i c key (int (length ?F) + 1) from sup fp) x"
      by (auto simp: flush_rows_def split: if_splits)
    have "\<forall>y \<in> set base. pr_fingerprint y \<noteq> Some fp"
      using that(2) fresh(1) close_row_idents(1) [of _ "from" rows "\<lambda>y. y = Some fp"] by auto
    moreover have "\<forall>y \<in> set base. pr_idempotency y \<noteq> pc_idempotency c" if "pc_idempotency c \<noteq> None"
      using \<open>base = rows \<or> (\<exists>j. base = close_row j from rows)\<close> fresh(2) [OF that]
        close_row_idents(2) [of _ "from" rows "\<lambda>y. y = pc_idempotency c"] by auto
    ultimately have "pr_fingerprint x \<noteq> Some fp" "pc_idempotency c = None \<or> pc_idempotency c \<noteq> pr_idempotency x"
      using x(1) by metis+
    then have "pr_key x = key" and "ranges_overlap (new_row i c key (int (length ?F) + 1) from sup fp) x \<or>
        pr_version x = int (length ?F) + 1"
      using x(2) by (auto simp: collides_def new_row_def)
    moreover from this(1) x(1) have "x \<in> set (of_key key base)" by simp
    with that(3,4) obtain t where "pr_to x = Some t" "t \<le> from" "pr_version x \<le> int (length ?F)"
      by blast
    ultimately show False by (auto simp: ranges_overlap_def new_row_def)
  qed
  have no_rewrite: "\<not> (\<exists>r \<in> set ?F. (case pr_to r of None \<Rightarrow> False | Some t \<Rightarrow> from < t))"
  proof
    assume "\<exists>r \<in> set ?F. (case pr_to r of None \<Rightarrow> False | Some t \<Rightarrow> from < t)"
    then have "append_version rows i c key from fp = Inl Would_rewrite_closed_period"
      unfolding append_version_def s Let_def set_rev by (rule if_P)
    with a show False by simp
  qed
  then have ends: "\<forall>x \<in> set ?F. \<forall>t. pr_to x = Some t \<longrightarrow> t \<le> from"
    by (metis (no_types, lifting) not_less option.simps(5))
  note def = a [unfolded append_version_def s version Let_def set_rev if_not_P [OF no_rewrite]]
  show False
  proof (cases "List.find (\<lambda>r. pr_to r = None) (rev ?F)")
    case None
    have "flush_rows rows (new_row i c key (int (length ?F) + 1) from None fp) = Inl Concurrent_version_conflict"
      using def unfolding None by (auto simp: and_then_def split: sum.splits)
    then show False using None ends old by (intro clash) (fastforce simp: find_none)+
  next
    case (Some o')
    obtain prev where F: "?F = prev @ [o']" by (rule open_is_last [OF ok Some])
    have base: "of_key key (close_row (pr_id o') from rows) = prev @ [o'\<lparr>pr_to := Some from\<rparr>]"
      using close_last [of prev o' "from"] distinct_of_key [of rows key] assms(1) F
      by (simp add: of_key_close rows_ok_def)
    have "flush_rows (close_row (pr_id o') from rows) (new_row i c key (int (length ?F) + 1) from (Some (pr_id o')) fp) =
        Inl Concurrent_version_conflict"
      using def unfolding Some by (auto simp: and_then_def split: sum.splits if_splits)
    then show False
    proof (rule clash)
      show "close_row (pr_id o') from rows = rows \<or> (\<exists>j. close_row (pr_id o') from rows = close_row j from rows)" by blast
      show "\<forall>x \<in> set (of_key key (close_row (pr_id o') from rows)). \<exists>t. pr_to x = Some t \<and> t \<le> from"
        unfolding base using ok ends F by (auto simp: series_ok_snoc)
      show "\<forall>x \<in> set (of_key key (close_row (pr_id o') from rows)). pr_version x \<le> int (length ?F)"
        unfolding base using old F by auto
    qed
  qed
qed

text \<open>
  A single writer never meets a concurrency conflict. On a store built by recording commands no
  command whose idempotency key is absent or not empty is answered with a concurrency conflict: the
  constraints between rows can only fire when another writer came in between.
\<close>

theorem single_writer_never_conflicts:
  assumes "policy_history sha st" and "pc_idempotency c \<noteq> Some []"
  shows "record_policy_version sha i c st \<noteq> Inl Concurrent_version_conflict"
proof
  assume r: "record_policy_version sha i c st = Inl Concurrent_version_conflict"
  have "validate_scope st c \<noteq> Inl Concurrent_version_conflict" "derive_policy_key c \<noteq> Inl Concurrent_version_conflict"
    "arbitrate rows c fp \<noteq> Inl Concurrent_version_conflict" for rows fp
    by (auto simp: validate_scope_def parent_check_def derive_policy_key_def arbitrate_def Let_def
        split: policy_source.splits option.splits supplied_family.splits)
  then obtain key v where "arbitrate (st_rows st) c (sha (policy_material c key v)) = Inr None"
    "append_version (st_rows st) i c key v (sha (policy_material c key v)) = Inl Concurrent_version_conflict"
    using r by (auto simp: record_policy_version_def Let_def and_then_def split: option.splits if_splits sum.splits)
  then show False using append_no_conflict [OF history_rows_ok [OF assms(1)] _ assms(2)] by blast
qed

theorem single_writer_never_conflicts_witness:
  "record_policy_version sample_sha ''p-2'' (sample_command 500 95 ''k2'')
     (sample_store\<lparr>st_rows := [sample_row ''p-1'' 0 99 ''k1'']\<rparr>) \<noteq> Inl Concurrent_version_conflict"
  by (rule single_writer_never_conflicts [OF sample_first_history]) (simp add: sample_command_def)

end
