(* ===== verification/Spec2Isabelle.thy ===== *)
theory Spec2Isabelle
  imports Cadence_Start Obligation_Samples Contract_Samples Timer_Guarantees Plan_Convergence Reconcile_Outcomes Sla_Guarantees
    Sla_Policy Validator Wifi_Paths
begin

text \<open>
  This development models the decision logic of the ISP back office under \<open>app/\<close> that changes devices and
  money: the reconciler that brings a customer's ONT to its desired state, the scorer of service level
  agreements, and the billing core (contracts, cadences, rating, obligations, timers).

  \<^bold>\<open>The reconciler\<close> (\<open>app/services/network/reconcile/\<close>). A pass (\<open>core.py\<close>) locks the ONT row, resolves the
  desired state, validates a proposed change, reads the OLT and the ACS, computes a plan, applies it and
  verifies what it reads back.
  \<^item> \<open>Control_Plane\<close>: the intent contract of \<open>control_plane_intent.py\<close>, its phases as a step relation.
  \<^item> \<open>Sentinels\<close>, \<open>Ont_State\<close>, \<open>Actions\<close>: \<open>sentinels.py\<close>, \<open>state.py\<close>, \<open>actions.py\<close>, one record per dataclass and
    one constructor per action class.
  \<^item> \<open>Ipv4\<close>, \<open>Validator\<close>: \<open>validator.py\<close> over the part of \<open>ipaddress\<close> it calls.
  \<^item> \<open>Wifi_Paths\<close>, \<open>Plan_Helpers\<close>, \<open>Planner\<close>: \<open>wifi_paths.py\<close> and \<open>planner.py\<close>, one definition per planning
    function, composed by \<open>compute_plan\<close> in the order of the source.
  \<^item> \<open>Ppp_Authorization\<close>: \<open>ppp_delivery_authorization.py\<close>, who may deliver PPP work to a device.
  \<^item> \<open>Applier\<close>: \<open>applier.py\<close>, an action loop over an abstract OLT adapter, ACS client, secret store and clock.
  \<^item> \<open>Credentials\<close>, \<open>Observation\<close>, \<open>Ont_Row\<close>: the encryption of stored credentials, the observation row, the
    status columns of the ONT with crash recovery and alerts.
  \<^item> \<open>Reconcile_Core\<close>: \<open>core.py\<close>, the whole pass with its early returns and its exceptions.
  \<^item> \<open>Plan_Shape\<close>, \<open>Plan_Order\<close>, \<open>Plan_Convergence\<close> show what holds of every plan: its actions are ordered,
    narrow changes stay narrow, and on every OLT that honours the documented contract of the actions the
    steps that authorise the ONT, repair its service ports and configure its management IP host leave
    nothing of these steps to do. \<open>Apply_Safety\<close> shows that refusals precede every contact, that the planner
    plans nothing the applier refuses but one kind of write, that withheld PPP work has no effect and that
    a failure stops the pass. \<open>Reconcile_Outcomes\<close> follows a pass with weakest preconditions through every
    exit: what an observation reported as success can still lack, that the result mirrors the row, and
    which passes a failure blocks.
    \<open>Sample_Ont\<close> holds the state the theorems are evaluated on.

  \<^bold>\<open>Service levels\<close> (\<open>app/services/sla_interval_algebra.py\<close>, \<open>customer_service_level.py\<close>,
  \<open>service_impact_contracts.py\<close>).
  \<^item> \<open>Sla_Intervals\<close>: the span algebra; its results are normal forms of the set operations.
  \<^item> \<open>Sla_Scoring\<close>, \<open>Sla_Guarantees\<close>: the period score; evidence partitions the eligible time, policy segments
    tile the period, a breach is final, the validated records are always built.
  \<^item> \<open>Sla_Policy\<close>: recording policy versions, over the histories of its commands.

  \<^bold>\<open>Billing\<close> (\<open>app/services/billing/\<close>, \<open>app/models/billing_contract.py\<close>, \<open>runtime_durable_timers.py\<close>).
  \<^item> \<open>Calendar\<close>, \<open>Decimals\<close>: the parts of \<open>datetime\<close>, \<open>decimal\<close> and \<open>NUMERIC\<close> columns the code computes with.
  \<^item> \<open>Cadence\<close>, \<open>Cadence_Periods\<close>, \<open>Cadence_Start\<close>, \<open>Proration\<close>: \<open>cadence.py\<close>; periods tile, month boundaries
    keep the anchor day, the period walk ends (under the clamp rule), the first period contains the start (in
    zones without transitions), factors are ratios.
  \<^item> \<open>Rating\<close>, \<open>Rating_Guarantees\<close>: \<open>rating.py\<close>; net and tax add up to gross in whole cents.
  \<^item> \<open>Obligations\<close>, \<open>Obligation_Guarantees\<close>, \<open>Obligation_Samples\<close>: \<open>obligations.py\<close> and its table; no instant of
    a line and version is billed twice, states and amounts agree, closed obligations are final, a repeated
    command is a replay.
  \<^item> \<open>Timers\<close>, \<open>Timer_Guarantees\<close>: \<open>runtime_durable_timers.py\<close>; generations are counted without gap, staging
    never fails on the table, every due timer fires.
  \<^item> \<open>Contracts\<close>, \<open>Contract_Addons\<close>: \<open>contracts.py\<close> with the tables of contracts, versions and lines: recording
    and cancelling versions, contracts from funded sales, the draft in which bought or backfilled add-ons
    wait for a period boundary, its timer, its activation and the output that names the obligations.
  \<^item> \<open>Contract_Changes\<close>, \<open>Contract_History\<close>: the commands as a step relation, each step as a sequence of
    single changes of the tables, and the invariants of its histories; the numbering is an instance of
    \<open>numbered_rows\<close>. \<open>Contract_Guarantees\<close>: versions are in order, recorded terms are permanent.
    \<open>Contract_Timeline\<close>: versions tile time. \<open>Contract_Pending\<close>: a purchase waits for its boundary, activation
    changes only add-ons, and a purchase is followed through the timer scan to the obligation it asks for.
  \<^item> \<open>Contract_Billing\<close>: histories of the contract and the obligation owner together; an instant of a version
    is billed once, and terms that change at a period boundary bill no instant under both versions.
  \<^item> \<open>Entitlement\<close>: \<open>postpaid_entitlement_history_for_period\<close>, the eligible time of a postpaid subscription, is
    exactly the authoritative coverage. \<open>Contract_Samples\<close>: a contract, a purchase and its activation on which
    these theorems are evaluated, and a change inside a period that bills the rest of it twice.

  \<^bold>\<open>Shared\<close>: \<open>Prelude\<close> (truthiness and strings of Python), \<open>Results\<close> (sums as results, sequencing, loops that
  may raise), \<open>Tables\<close> (queries and updates of a table, the interface \<open>numbered_rows\<close>).

  \<^bold>\<open>Conventions\<close>. A raise is \<open>Inl\<close> of an error, an early return a branch. A database transaction is a function
  from the table to an error or a new table; an error rolls back. A history is an inductive predicate over
  the commands of an owner, with what other owners may change between them as a condition of its steps.
  A string is a list of characters up to U+00FF, Python integers are \<open>int\<close>, \<open>Decimal\<close> values are rationals
  rounded to the 28 digits of the context by each operation. An instant is a number of microseconds,
  counted from the year 1 in billing and from 1970 in the other parts.

  \<^bold>\<open>Bounds\<close>. The period walk is bounded as in the source (4096 by default) and \<open>period_walk_returns\<close> shows
  that the bound is reached only past the last period asked for. Durations of billing are exact while
  \<open>total_seconds()\<close> is (below 272 years). No other definition uses fuel.

  \<^bold>\<open>Parameters\<close>. The time zone database, the digests (SHA-256 over JSON), the cipher and the key sources, the
  readers of the OLT and the ACS, the adapter and the client, what an OLT does with an action, the ping, the
  clock, the lines of sales orders, fresh identities and the rounding of a percentage to a float are
  arguments, with what is needed of them as hypotheses.

  \<^bold>\<open>Not modelled\<close>. The CLI and NBI parsers of the readers and the selection of rows by the sweeper; the
  payments, invoices, credit notes, ledger and reporting of billing; subscription pages, projects and the
  web layer; migrations. They are either input and output around the logic above or owners of their own
  whose tables the models here do not read. Inside the modelled files, logging, telemetry, event
  envelopes and receipts, foreign keys to other owners' tables and the widths of text columns are left out;
  row locks are left out because each command is one transaction on the rows it locks.
\<close>

end
